(* ===== verification/Prelude.thy ===== *)
theory Prelude
  imports Complex_Main "HOL-Library.Product_Lexorder"
begin

text \<open>
  What every component of the rental agent's model shares: the types that stand for Python's and
  PostgreSQL's values (identifiers, timestamps, JSON), exceptions as the left summand of a result,
  and the few SQL idioms the services are written with: a lookup by key, \<open>scalar_one_or_none\<close>,
  an \<open>UPDATE ... WHERE\<close> and an \<open>INSERT ... ON CONFLICT DO NOTHING\<close>.  A table is the list of its rows
  in insertion order; the locale \<open>idempotent_insert\<close> is the contract of the last idiom, which the
  event log, the observation store, the job queue, the run registry and the duplicate candidates
  all rely on.
\<close>

named_theorems sql_simps \<open>rewrite rules for the SQL idioms\<close>
named_theorems frame_simps \<open>which tables an operation leaves alone\<close>

section \<open>Values\<close>

text \<open>
  A UUID is a number: only equality and the total order of its textual form matter.  A timestamp
  counts microseconds, the resolution of Python's \<open>datetime\<close>.
\<close>

type_synonym uuid = nat
type_synonym datetime = int

abbreviation seconds :: "int \<Rightarrow> int" where
  "seconds n \<equiv> 1000000 * n"

abbreviation hours :: "int \<Rightarrow> int" where
  "hours n \<equiv> 3600000000 * n"

datatype json =
    JNull
  | JBool bool
  | JInt int
  | JNum rat
  | JStr string
  | JUuid uuid
  | JList "json list"
  | JObj "(string \<times> json) list"

text \<open>\<open>d.get(k)\<close> on a JSON object; anything that is not an object has no keys.\<close>

fun json_get :: "string \<Rightarrow> json \<Rightarrow> json option" where
  "json_get k (JObj kvs) = map_of kvs k"
| "json_get k _ = None"

text \<open>\<open>{**d, k: v}\<close> on an object; None and the empty object are the same base.\<close>

fun json_set :: "string \<Rightarrow> json \<Rightarrow> json \<Rightarrow> json" where
  "json_set k v (JObj kvs) = JObj (if k \<in> fst ` set kvs
     then map (\<lambda>(k', v'). (k', if k' = k then v else v')) kvs else kvs @ [(k, v)])"
| "json_set k v _ = JObj [(k, v)]"

lemma json_get_set:
  "json_get k (json_set k' v d) = (if k = k' then Some v else json_get k d)"
proof (cases d)
  case (JObj kvs)
  let ?put = "map (\<lambda>(k'', v'). (k'', if k'' = k' then v else v'))"
  have hit: "k' \<in> fst ` set xs \<Longrightarrow> map_of (?put xs) k' = Some v" for xs
    by (induction xs) auto
  have miss: "k \<noteq> k' \<Longrightarrow> map_of (?put xs) k = map_of xs k" for xs
    by (induction xs) auto
  show ?thesis
  proof (cases "k' \<in> fst ` set kvs")
    case True
    then show ?thesis using hit [OF True] miss [of kvs] by (cases "k = k'") (simp_all add: JObj)
  next
    case False
    then have "map_of kvs k' = None" by (simp add: map_of_eq_None_iff)
    with False show ?thesis by (simp add: JObj map_add_def split: option.split)
  qed
qed simp_all

section \<open>Exceptions\<close>

text \<open>An exception of code outside the repository is known by its type's name.\<close>

datatype py_error =
    LookupError
  | ValueError
  | MergeError
  | HumanActionRequired
  | MultipleResultsFound
  | NoResultFound
  | AssertionError
  | IntegrityError
  | KeyError
  | AttributeError
  | TypeError
  | ValidationError
  | CommuteResearchRejected
  | ExternalError string

text \<open>\<open>type(exc).__name__\<close>\<close>

primrec error_name :: "py_error \<Rightarrow> string" where
  "error_name LookupError = ''LookupError''"
| "error_name ValueError = ''ValueError''"
| "error_name MergeError = ''MergeError''"
| "error_name HumanActionRequired = ''HumanActionRequired''"
| "error_name MultipleResultsFound = ''MultipleResultsFound''"
| "error_name NoResultFound = ''NoResultFound''"
| "error_name AssertionError = ''AssertionError''"
| "error_name IntegrityError = ''IntegrityError''"
| "error_name KeyError = ''KeyError''"
| "error_name AttributeError = ''AttributeError''"
| "error_name TypeError = ''TypeError''"
| "error_name ValidationError = ''ValidationError''"
| "error_name CommuteResearchRejected = ''CommuteResearchRejected''"
| "error_name (ExternalError name) = name"

type_synonym 'a result = "py_error + 'a"

fun bind_result :: "'a result \<Rightarrow> ('a \<Rightarrow> 'b result) \<Rightarrow> 'b result" where
  "bind_result (Inl e) f = Inl e"
| "bind_result (Inr x) f = f x"

lemma bind_result_Inr_iff:
  "bind_result m f = Inr y \<longleftrightarrow> (\<exists>x. m = Inr x \<and> f x = Inr y)"
  by (cases m) auto

lemma bind_result_Inl_iff:
  "bind_result m f = Inl e \<longleftrightarrow> m = Inl e \<or> (\<exists>x. m = Inr x \<and> f x = Inl e)"
  by (cases m) auto

lemma bind_result_split:
  "P (bind_result m f) \<longleftrightarrow> (\<forall>e. m = Inl e \<longrightarrow> P (Inl e)) \<and> (\<forall>x. m = Inr x \<longrightarrow> P (f x))"
  by (cases m) auto

lemma bind_result_split_asm:
  "P (bind_result m f) \<longleftrightarrow>
     \<not> ((\<exists>e. m = Inl e \<and> \<not> P (Inl e)) \<or> (\<exists>x. m = Inr x \<and> \<not> P (f x)))"
  by (cases m) auto

text \<open>One step of a transaction that threads a value and a state.\<close>

lemma bind_pairE:
  assumes "bind_result m (\<lambda>(x, s). f x s) = Inr y"
  obtains x s where "m = Inr (x, s)" "f x s = Inr y"
  using assms by (cases m) (auto split: prod.splits)

lemmas bind_result_splits = bind_result_split bind_result_split_asm

section \<open>SQL idioms on tables\<close>

text \<open>\<open>Session.get\<close>: the row with a primary key.\<close>

definition get_by :: "('r \<Rightarrow> 'k) \<Rightarrow> 'k \<Rightarrow> 'r list \<Rightarrow> 'r option" where
  "get_by f k rs = find (\<lambda>r. f r = k) rs"

text \<open>\<open>scalar_one_or_none()\<close> raises when a query has more than one row.\<close>

fun scalar_one_or_none :: "'r list \<Rightarrow> 'r option result" where
  "scalar_one_or_none [] = Inr None"
| "scalar_one_or_none [r] = Inr (Some r)"
| "scalar_one_or_none (r # s # rs) = Inl MultipleResultsFound"

text \<open>\<open>scalar_one()\<close> also raises on no row.\<close>

fun scalar_one :: "'r list \<Rightarrow> 'r result" where
  "scalar_one [] = Inl NoResultFound"
| "scalar_one [r] = Inr r"
| "scalar_one (r # s # rs) = Inl MultipleResultsFound"

text \<open>\<open>UPDATE ... SET f WHERE p\<close>; with a primary key it is an attribute assignment on a loaded row.\<close>

definition update_where :: "('r \<Rightarrow> bool) \<Rightarrow> ('r \<Rightarrow> 'r) \<Rightarrow> 'r list \<Rightarrow> 'r list" where
  "update_where p f rs = map (\<lambda>r. if p r then f r else r) rs"

lemma get_by_Nil [simp]: "get_by f k [] = None"
  by (simp add: get_by_def)

lemma get_by_Cons: "get_by f k (r # rs) = (if f r = k then Some r else get_by f k rs)"
  by (simp add: get_by_def)

lemma get_by_Some_iff:
  assumes "distinct (map f rs)"
  shows "get_by f k rs = Some r \<longleftrightarrow> r \<in> set rs \<and> f r = k"
  using assms by (induction rs) (auto simp: get_by_Cons)

lemma get_by_SomeD: "get_by f k rs = Some r \<Longrightarrow> r \<in> set rs \<and> f r = k"
  by (induction rs) (auto simp: get_by_Cons split: if_splits)

lemma get_by_None_iff: "get_by f k rs = None \<longleftrightarrow> k \<notin> f ` set rs"
  by (induction rs) (auto simp: get_by_Cons)

lemma get_by_append:
  "get_by f k (xs @ ys) = (case get_by f k xs of None \<Rightarrow> get_by f k ys | Some r \<Rightarrow> Some r)"
  by (induction xs) (auto simp: get_by_Cons)

lemma update_where_Nil [simp]: "update_where p f [] = []"
  by (simp add: update_where_def)

lemma update_where_Cons [simp]:
  "update_where p f (r # rs) = (if p r then f r else r) # update_where p f rs"
  by (simp add: update_where_def)

lemma length_update_where [simp]: "length (update_where p f rs) = length rs"
  by (simp add: update_where_def)

lemma set_update_where: "set (update_where p f rs) = (\<lambda>r. if p r then f r else r) ` set rs"
  by (simp add: update_where_def)

lemma update_where_append [simp]:
  "update_where p f (xs @ ys) = update_where p f xs @ update_where p f ys"
  by (simp add: update_where_def)

lemma update_where_none: "(\<And>r. r \<in> set rs \<Longrightarrow> \<not> p r) \<Longrightarrow> update_where p f rs = rs"
  by (induction rs) auto

lemma update_where_id: "(\<And>r. r \<in> set rs \<Longrightarrow> p r \<Longrightarrow> f r = r) \<Longrightarrow> update_where p f rs = rs"
  by (induction rs) auto

lemma map_update_where:
  "(\<And>r. r \<in> set rs \<Longrightarrow> p r \<Longrightarrow> g (f r) = g r) \<Longrightarrow> map g (update_where p f rs) = map g rs"
  by (induction rs) auto

lemma in_update_whereE:
  assumes "r \<in> set (update_where p f rs)"
  obtains s where "s \<in> set rs" "p s" "r = f s" | "r \<in> set rs" "\<not> p r"
  using assms by (auto simp: set_update_where split: if_splits)

lemma untouched_by_update: "r \<in> set rs \<Longrightarrow> \<not> p r \<Longrightarrow> r \<in> set (update_where p f rs)"
  by (force simp: set_update_where)

lemma get_by_update_where:
  assumes "\<And>r. r \<in> set rs \<Longrightarrow> p r \<Longrightarrow> g (f r) = g r"
  shows "get_by g k (update_where p f rs) =
    map_option (\<lambda>r. if p r then f r else r) (get_by g k rs)"
  using assms by (induction rs) (auto simp: get_by_Cons)

lemma scalar_one_or_none_filter:
  assumes "\<And>r s. r \<in> set rs \<Longrightarrow> s \<in> set rs \<Longrightarrow> p r \<Longrightarrow> p s \<Longrightarrow> g r = g s" "distinct (map g rs)"
  shows "\<exists>x. scalar_one_or_none (filter p rs) = Inr x"
proof -
  have dist: "distinct (filter p rs)"
    using assms(2) by (simp add: distinct_map)
  have same: "r = s" if "r \<in> set (filter p rs)" "s \<in> set (filter p rs)" for r s
    using that assms by (auto simp: distinct_map inj_on_def)
  show ?thesis
  proof (cases "filter p rs" rule: scalar_one_or_none.cases)
    case (3 r s us)
    with dist same [of r s] show ?thesis by simp
  qed simp_all
qed

lemma scalar_one_or_none_SomeD: "scalar_one_or_none rs = Inr (Some r) \<Longrightarrow> rs = [r]"
  by (cases rs rule: scalar_one_or_none.cases) auto

lemma scalar_one_or_none_NoneD: "scalar_one_or_none rs = Inr None \<Longrightarrow> rs = []"
  by (cases rs rule: scalar_one_or_none.cases) auto

lemma scalar_one_or_none_filter_Some:
  "scalar_one_or_none (filter p rs) = Inr (Some r) \<Longrightarrow> r \<in> set rs \<and> p r"
  by (drule scalar_one_or_none_SomeD) (auto simp: filter_eq_Cons_iff)

lemma scalar_one_or_none_filter_None:
  "scalar_one_or_none (filter p rs) = Inr None \<longleftrightarrow> (\<forall>r \<in> set rs. \<not> p r)"
proof -
  have "scalar_one_or_none (filter p rs) = Inr None \<longleftrightarrow> filter p rs = []"
    by (cases "filter p rs" rule: scalar_one_or_none.cases) auto
  then show ?thesis by (simp add: filter_empty_conv)
qed

section \<open>ORDER BY ... LIMIT\<close>

text \<open>What a limited, ordered query leaves out is no better than anything it returns, and it is full.\<close>

lemma take_sort_key_best:
  assumes "x \<in> set xs" "x \<notin> set (take n (sort_key f xs))"
  shows "length (take n (sort_key f xs)) = n" "y \<in> set (take n (sort_key f xs)) \<Longrightarrow> f y \<le> f x"
proof -
  let ?ys = "sort_key f xs"
  have split: "take n ?ys @ drop n ?ys = ?ys" by simp
  have x: "x \<in> set (drop n ?ys)" using assms by (metis Un_iff set_append set_sort split)
  then have "drop n ?ys \<noteq> []" by auto
  then show "length (take n ?ys) = n" by simp
  have "sorted (map f (take n ?ys) @ map f (drop n ?ys))"
    by (metis map_append sorted_sort_key split)
  then show "f y \<le> f x" if "y \<in> set (take n ?ys)"
    using that x by (auto simp: sorted_append)
qed

section \<open>Dictionaries that count\<close>

text \<open>\<open>d[k] = d.get(k, 0) + 1\<close> on an insertion-ordered dictionary.\<close>

fun bump :: "'k \<Rightarrow> ('k \<times> nat) list \<Rightarrow> ('k \<times> nat) list" where
  "bump k [] = [(k, 1)]"
| "bump k ((k', n) # d) = (if k = k' then (k', Suc n) # d else (k', n) # bump k d)"

lemma sum_bump: "sum_list (map snd (bump k d)) = Suc (sum_list (map snd d))"
  by (induction d rule: bump.induct) auto

section \<open>The contract of an idempotent insert\<close>

text \<open>
  \<open>ins r s\<close> offers a row to the table \<open>tbl\<close> of a state and reports whether it was stored; \<open>clash\<close> is the
  unique index.  The laws say that a clashing row changes nothing and that any other row is
  appended at the end; what follows is that replays have no effect, that the table only grows and
  that the index stays unique.
\<close>

locale idempotent_insert =
  fixes tbl :: "'s \<Rightarrow> 'r list"
    and ins :: "'i \<Rightarrow> 's \<Rightarrow> bool \<times> 's"
    and row :: "'i \<Rightarrow> 's \<Rightarrow> 'r"
    and clash :: "'i \<Rightarrow> 'r \<Rightarrow> bool"
  assumes ins_clash: "\<exists>r \<in> set (tbl s). clash i r \<Longrightarrow> ins i s = (False, s)"
    and ins_fresh: "\<forall>r \<in> set (tbl s). \<not> clash i r \<Longrightarrow>
      fst (ins i s) \<and> tbl (snd (ins i s)) = tbl s @ [row i s]"
    and clash_row: "clash i (row i s)"
begin

lemma ins_stored: "\<exists>r \<in> set (tbl (snd (ins i s))). clash i r"
proof (cases "\<exists>r \<in> set (tbl s). clash i r")
  case True
  then show ?thesis by (simp add: ins_clash)
next
  case False
  then show ?thesis using ins_fresh [of s i] clash_row [of i s] by simp
qed

lemma ins_twice: "ins i (snd (ins i s)) = (False, snd (ins i s))"
  by (rule ins_clash) (rule ins_stored)

lemma ins_grows: "\<exists>new. tbl (snd (ins i s)) = tbl s @ new \<and> length new \<le> 1"
proof (cases "\<exists>r \<in> set (tbl s). clash i r")
  case True
  then show ?thesis by (simp add: ins_clash)
next
  case False
  then show ?thesis using ins_fresh [of s i] by simp
qed

lemma ins_keeps_row: "r \<in> set (tbl s) \<Longrightarrow> r \<in> set (tbl (snd (ins i s)))"
  using ins_grows [of i s] by auto

lemma ins_True_iff: "fst (ins i s) \<longleftrightarrow> (\<forall>r \<in> set (tbl s). \<not> clash i r)"
  using ins_fresh [of s i] ins_clash [of s i] by (cases "\<exists>r \<in> set (tbl s). clash i r") auto

end

end
