(* ===== verification/Enums.thy ===== *)
theory Enums
  imports Prelude
begin

text \<open>
  The closed vocabularies of \<open>contracts/enums.py\<close>: one datatype per \<open>StrEnum\<close>, with the source's
  members as constructors, written qualified (\<open>JobStatus.RUNNING\<close>) as in Python.  A column of the database holds the
  text of a member under a CHECK constraint (\<open>enum_text\<close>); the locale \<open>str_enum\<close> shows for the
  enums whose text the services write into JSON that text and member determine each other, so a
  column can be modelled by its member.
\<close>

section \<open>Members\<close>

datatype SourceType = LISTING | GEOCODER | ROUTING | TRANSIT_DATA | MEDIA | SEARCH_INDEX
  | OTHER

datatype AccessMethod = API | FEED | BROWSER | MANUAL_IMPORT | OTHER_APPROVED

datatype SourceApprovalStatus = PROPOSED | UNDER_REVIEW | APPROVED | SUSPENDED | REJECTED

datatype RefreshTriggerType = SCHEDULED | MANUAL | REPLAY | RETRY

datatype RefreshRunStatus = PENDING | RUNNING | PARTIAL_SUCCESS | SUCCEEDED | FAILED
  | CANCELLED

datatype SourceRunStatus = PENDING | RUNNING | HEALTHY | DEGRADED | FAILED | BLOCKED
  | CANCELLED

datatype ParseStatus = VALID | PARTIAL | INVALID | BLOCKED

datatype ContactRedactionStatus = NOT_PRESENT | IGNORED | REDACTED | REVIEW_REQUIRED

datatype LocationPrecision = ROOFTOP_OR_ENTRANCE | BUILDING | PARCEL | INTERPOLATED_ADDRESS
  | STREET | POSTAL_CODE | NEIGHBORHOOD | CITY | UNKNOWN

datatype GeocodeStatus = PENDING | VALID | WARNING | FAILED | MANUAL

datatype BoundaryStatus = IN_SCOPE | OUT_OF_SCOPE | UNRESOLVED

datatype Confidence = HIGH | MEDIUM | LOW | UNKNOWN

datatype PropertyType = APARTMENT_BUILDING | CONDO | COOP | TOWNHOUSE | MULTIFAMILY | OTHER
  | UNKNOWN

datatype BuildingIdentityStatus = CONFIRMED | PROVISIONAL | CONFLICTING | MANUALLY_RESOLVED

datatype UnitIdentityStatus = CONFIRMED | PROVISIONAL | WITHHELD_LABEL | CONFLICTING
  | MANUALLY_RESOLVED

datatype LayoutClass = STUDIO | ONE_BEDROOM | TWO_BEDROOM | OUT_OF_SCOPE | UNKNOWN
  | CONFLICTING

datatype AvailabilityStatus = AVAILABLE | AVAILABLE_FUTURE | APPLICATION_PENDING
  | NO_LONGER_AVAILABLE | SOURCE_REMOVED | UNKNOWN | CONFLICTING

datatype LifecycleStatus = CANDIDATE | ACTIVE | MISSING | INACTIVE | REAPPEARED | EXCLUDED
  | MERGED | REVIEW_REQUIRED

datatype LaundryType = IN_UNIT_WASHER_DRYER_CONFIRMED | IN_UNIT_WASHER_ONLY
  | IN_UNIT_DRYER_ONLY | IN_UNIT_HOOKUP_ONLY | BUILDING_SHARED_LAUNDRY
  | OFFSITE_OR_NEARBY_LAUNDRY | NO_LAUNDRY_STATED | EXPLICITLY_NO_LAUNDRY | CONFLICTING
  | UNKNOWN

datatype CanonicalResolutionStatus = RESOLVED | PROVISIONAL | CONFLICTING | REVIEW_REQUIRED

datatype EnrichmentStatus = NOT_STARTED | PENDING | PARTIAL | COMPLETE | STALE | FAILED
  | REVIEW_REQUIRED

datatype LinkStatus = ACTIVE | MISSING | REMOVED | SUPERSEDED | CONFLICTING

datatype IdentityMethod = SOURCE_NATIVE_CONTINUITY | EXACT_ADDRESS_AND_UNIT
  | EXACT_BUILDING_UNIT_LAYOUT | STRONG_MULTI_FIELD | PROBABILISTIC_REVIEWED | MANUAL
  | UNRESOLVED

datatype IdentityConfidence = HIGH | MEDIUM | LOW | MANUAL

datatype MergeReasonCode = DUPLICATE_EXACT | DUPLICATE_PROBABILISTIC | MANUAL

datatype PerformedByType = SYSTEM | LLM_PROPOSED_VALIDATED | HUMAN

datatype DuplicateCandidateStatus = PENDING | AUTO_MERGED | CONFIRMED_DUPLICATE
  | CONFIRMED_DISTINCT | DEFERRED

datatype FactEntityType = BUILDING | UNIT | LISTING | MEDIA | TRANSIT_ACCESS | COMMUTE_RESULT

datatype ValueStatus = ASSERTED | UNKNOWN | NOT_STATED | NOT_APPLICABLE | NEGATIVE
  | CONFLICTING

datatype DerivationType = SOURCE_STRUCTURED | SOURCE_TEXT | LLM_DERIVED | RULE_DERIVED
  | PROVIDER_DERIVED | HUMAN

datatype ValidationStatus = PENDING | PASSED | WARNING | FAILED | NOT_APPLICABLE

datatype ResolutionStatus = RESOLVED | UNKNOWN | CONFLICTING | MANUAL_OVERRIDE
  | REVIEW_REQUIRED

datatype ResolutionMethod = SOURCE_PRIORITY | RECENCY | CONSENSUS | RULE
  | LLM_PROPOSED_VALIDATED | HUMAN

datatype ModelTier = LOCAL | DEFAULT_HOSTED | FLAGSHIP_ESCALATION

datatype ModelExecutionStatus = PENDING | SUCCEEDED | FAILED | CACHED | ESCALATED

datatype MediaType = UNIT_PHOTO | BUILDING_PHOTO | AMENITY_PHOTO | NEIGHBORHOOD_PHOTO
  | FLOOR_PLAN | MAP | LOGO | OTHER | UNKNOWN

datatype AssertedScope = UNIT | BUILDING | UNKNOWN

datatype PresenceStatus = PRESENT | ABSENT | UNKNOWN | CONFLICTING

datatype TransitMode = SUBWAY | PATH | BUS | RAIL | FERRY | OTHER

datatype TransitStopActiveStatus = ACTIVE | TEMPORARILY_CLOSED | INACTIVE | UNKNOWN

datatype UsefulnessStatus = USEFUL | CANDIDATE | NOT_USEFUL | UNRESOLVED

datatype TransitValidationStatus = PENDING | PASSED | WARNING | FAILED | UNABLE_TO_VALIDATE

datatype ProviderRequestType = GEOCODE | WALKING_ROUTE | TRANSIT_ROUTE | OTHER

datatype ProviderRequestStatus = PENDING | SUCCEEDED | FAILED | CACHED | RATE_LIMITED

datatype DiscoveryMethod = DIRECT | SEARCH_INDEX | MANUAL_IMPORT | UNKNOWN

datatype ListingEventType = CREATED | ACTIVATED | MATERIAL_CHANGE | PRICE_CHANGED
  | AVAILABILITY_CHANGED | MEDIA_CHANGED | LAUNDRY_CHANGED | ADDRESS_CHANGED | MISSING_STARTED
  | REAPPEARED | INACTIVATED | EXCLUDED | MERGED | MANUAL_OVERRIDE_APPLIED
  | MANUAL_OVERRIDE_REMOVED

datatype OverrideStatus = ACTIVE | SUPERSEDED | REVOKED | INVALIDATED

datatype OverrideReasonCode = SOURCE_ERROR | IDENTITY_CORRECTION | CLASSIFICATION_CORRECTION
  | GEOGRAPHY_CORRECTION | MEDIA_CORRECTION | OTHER

datatype ReviewIssueType = CONFLICT | LOW_CONFIDENCE | DUPLICATE_CANDIDATE | STALE
  | VALIDATION_FAILURE | SOURCE_FAILURE | MEDIA_ASSOCIATION | OTHER

datatype ReviewIssueSeverity = INFO | WARNING | BLOCKING

datatype ReviewIssueStatus = OPEN | ACKNOWLEDGED | RESOLVED | DISMISSED

datatype SelectionStatus = SELECTED | NOT_SELECTED | REMOVED

datatype ShortlistEntryStatus = INCLUDED | EXCLUDED | REMOVED

datatype JobType = NORMALIZE | IDENTITY_RESOLVE | RECONCILE | LLM_EXTRACT | MEDIA_FETCH
  | MEDIA_CLASSIFY | FLOORPLAN_MATCH | GEOCODE | TRANSIT_ENRICH | COMMUTE_ENRICH | VALIDATE
  | EXPORT

datatype JobStatus = PENDING | RUNNING | SUCCEEDED | FAILED_RETRYABLE | FAILED_TERMINAL
  | BLOCKED | CANCELLED | CACHED

datatype ActorType = HUMAN | SYSTEM

datatype AddressAssertionStatus = SUPPORTED | APPROXIMATE | CONFLICTING | REJECTED

datatype AddressMatchMethod = EXACT_NORMALIZED | GEOCODER | FUZZY | MANUAL

datatype AmenityScope = UNIT | BUILDING | EITHER

datatype MediaAvailabilityStatus = REFERENCED | STORED | EXPIRED | REMOVED | FAILED
  | POLICY_RESTRICTED

datatype MediaClassificationStatus = UNCLASSIFIED | MODEL_CLASSIFIED | RULE_CLASSIFIED
  | HUMAN_CONFIRMED | CONFLICTING

datatype AssociationLevel = EXACT_UNIT_SOURCE_CONFIRMED | SOURCE_UNIT_TYPE_CONFIRMED
  | BUILDING_LAYOUT_CLASS | BUILDING_GENERAL | LISTING_SOURCE_ASSOCIATED | UNCERTAIN_CANDIDATE

datatype AssociationStatus = CONFIRMED | PROVISIONAL | CANDIDATE | REJECTED | CONFLICTING

datatype TechnicalQualityStatus = PENDING | PASS | WARNING | FAIL

datatype ContentSafetyStatus = PENDING | PASS | WARNING | BLOCKED

datatype ContactOverlayStatus = NOT_DETECTED | DETECTED | REDACTED_COPY_AVAILABLE
  | REVIEW_REQUIRED | BLOCKED

datatype WatermarkStatus = NONE_DETECTED | PRESENT | REVIEW_REQUIRED | UNKNOWN

datatype MarketingUseStatus = PERMITTED | REQUIRES_REVIEW | NOT_PERMITTED | UNKNOWN

datatype MediaVariantType = THUMBNAIL | PREVIEW | NORMALIZED | PDF_PAGE_RENDER
  | CONTACT_REDACTED_REVIEW_COPY

datatype MediaVariantUseScope = INTERNAL_REVIEW_ONLY | MARKETING_CANDIDATE

datatype MediaAnalysisType = TYPE_CLASSIFICATION | ROOM_CLASSIFICATION | FLOORPLAN_ANALYSIS
  | TEXT_DETECTION | CONTACT_DETECTION | QUALITY | DUPLICATE_SIMILARITY

datatype MediaDuplicateType = EXACT | NEAR_DUPLICATE | DERIVATIVE | REVIEW_REQUIRED

datatype MediaDuplicateRelationship = EXACT | CROPPED | RESIZED | COMPRESSED
  | WATERMARK_VARIANT | COLOR_VARIANT | OTHER

datatype MediaDuplicateMemberStatus = AUTO_CONFIRMED | HUMAN_CONFIRMED | CANDIDATE | REJECTED

datatype TransitServiceStatus = SCHEDULED | ACTIVE | TEMPORARILY_CHANGED | UNKNOWN

datatype DestinationType = UNIVERSITY_CAMPUS | MAJOR_DESTINATION

datatype TravelMode = PUBLIC_TRANSIT

datatype TimeBasis = DEPART_AT | ARRIVE_BY | CURRENT_OR_PROVIDER_DEFAULT

datatype CommuteResultStatus = AVAILABLE | NO_ROUTE | UNAVAILABLE | PROVIDER_ERROR

datatype CommuteResultType = PROVIDER_ROUTE | RESEARCHED_ESTIMATE

section \<open>The text of a member\<close>

primrec LocationPrecision_value :: "LocationPrecision \<Rightarrow> string" where
  "LocationPrecision_value LocationPrecision.ROOFTOP_OR_ENTRANCE = ''ROOFTOP_OR_ENTRANCE''"
| "LocationPrecision_value LocationPrecision.BUILDING = ''BUILDING''"
| "LocationPrecision_value LocationPrecision.PARCEL = ''PARCEL''"
| "LocationPrecision_value LocationPrecision.INTERPOLATED_ADDRESS = ''INTERPOLATED_ADDRESS''"
| "LocationPrecision_value LocationPrecision.STREET = ''STREET''"
| "LocationPrecision_value LocationPrecision.POSTAL_CODE = ''POSTAL_CODE''"
| "LocationPrecision_value LocationPrecision.NEIGHBORHOOD = ''NEIGHBORHOOD''"
| "LocationPrecision_value LocationPrecision.CITY = ''CITY''"
| "LocationPrecision_value LocationPrecision.UNKNOWN = ''UNKNOWN''"

definition LocationPrecision_members :: "LocationPrecision list" where
  "LocationPrecision_members = [LocationPrecision.ROOFTOP_OR_ENTRANCE,
    LocationPrecision.BUILDING, LocationPrecision.PARCEL,
    LocationPrecision.INTERPOLATED_ADDRESS, LocationPrecision.STREET,
    LocationPrecision.POSTAL_CODE, LocationPrecision.NEIGHBORHOOD, LocationPrecision.CITY,
    LocationPrecision.UNKNOWN]"

primrec Confidence_value :: "Confidence \<Rightarrow> string" where
  "Confidence_value Confidence.HIGH = ''HIGH''"
| "Confidence_value Confidence.MEDIUM = ''MEDIUM''"
| "Confidence_value Confidence.LOW = ''LOW''"
| "Confidence_value Confidence.UNKNOWN = ''UNKNOWN''"

definition Confidence_members :: "Confidence list" where
  "Confidence_members = [Confidence.HIGH, Confidence.MEDIUM, Confidence.LOW, Confidence.UNKNOWN]"

primrec TransitMode_value :: "TransitMode \<Rightarrow> string" where
  "TransitMode_value TransitMode.SUBWAY = ''SUBWAY''"
| "TransitMode_value TransitMode.PATH = ''PATH''"
| "TransitMode_value TransitMode.BUS = ''BUS''"
| "TransitMode_value TransitMode.RAIL = ''RAIL''"
| "TransitMode_value TransitMode.FERRY = ''FERRY''"
| "TransitMode_value TransitMode.OTHER = ''OTHER''"

definition TransitMode_members :: "TransitMode list" where
  "TransitMode_members = [TransitMode.SUBWAY, TransitMode.PATH, TransitMode.BUS,
    TransitMode.RAIL, TransitMode.FERRY, TransitMode.OTHER]"

primrec LayoutClass_value :: "LayoutClass \<Rightarrow> string" where
  "LayoutClass_value LayoutClass.STUDIO = ''STUDIO''"
| "LayoutClass_value LayoutClass.ONE_BEDROOM = ''ONE_BEDROOM''"
| "LayoutClass_value LayoutClass.TWO_BEDROOM = ''TWO_BEDROOM''"
| "LayoutClass_value LayoutClass.OUT_OF_SCOPE = ''OUT_OF_SCOPE''"
| "LayoutClass_value LayoutClass.UNKNOWN = ''UNKNOWN''"
| "LayoutClass_value LayoutClass.CONFLICTING = ''CONFLICTING''"

definition LayoutClass_members :: "LayoutClass list" where
  "LayoutClass_members = [LayoutClass.STUDIO, LayoutClass.ONE_BEDROOM, LayoutClass.TWO_BEDROOM,
    LayoutClass.OUT_OF_SCOPE, LayoutClass.UNKNOWN, LayoutClass.CONFLICTING]"

primrec AvailabilityStatus_value :: "AvailabilityStatus \<Rightarrow> string" where
  "AvailabilityStatus_value AvailabilityStatus.AVAILABLE = ''AVAILABLE''"
| "AvailabilityStatus_value AvailabilityStatus.AVAILABLE_FUTURE = ''AVAILABLE_FUTURE''"
| "AvailabilityStatus_value AvailabilityStatus.APPLICATION_PENDING = ''APPLICATION_PENDING''"
| "AvailabilityStatus_value AvailabilityStatus.NO_LONGER_AVAILABLE = ''NO_LONGER_AVAILABLE''"
| "AvailabilityStatus_value AvailabilityStatus.SOURCE_REMOVED = ''SOURCE_REMOVED''"
| "AvailabilityStatus_value AvailabilityStatus.UNKNOWN = ''UNKNOWN''"
| "AvailabilityStatus_value AvailabilityStatus.CONFLICTING = ''CONFLICTING''"

definition AvailabilityStatus_members :: "AvailabilityStatus list" where
  "AvailabilityStatus_members = [AvailabilityStatus.AVAILABLE,
    AvailabilityStatus.AVAILABLE_FUTURE, AvailabilityStatus.APPLICATION_PENDING,
    AvailabilityStatus.NO_LONGER_AVAILABLE, AvailabilityStatus.SOURCE_REMOVED,
    AvailabilityStatus.UNKNOWN, AvailabilityStatus.CONFLICTING]"

primrec LifecycleStatus_value :: "LifecycleStatus \<Rightarrow> string" where
  "LifecycleStatus_value LifecycleStatus.CANDIDATE = ''CANDIDATE''"
| "LifecycleStatus_value LifecycleStatus.ACTIVE = ''ACTIVE''"
| "LifecycleStatus_value LifecycleStatus.MISSING = ''MISSING''"
| "LifecycleStatus_value LifecycleStatus.INACTIVE = ''INACTIVE''"
| "LifecycleStatus_value LifecycleStatus.REAPPEARED = ''REAPPEARED''"
| "LifecycleStatus_value LifecycleStatus.EXCLUDED = ''EXCLUDED''"
| "LifecycleStatus_value LifecycleStatus.MERGED = ''MERGED''"
| "LifecycleStatus_value LifecycleStatus.REVIEW_REQUIRED = ''REVIEW_REQUIRED''"

definition LifecycleStatus_members :: "LifecycleStatus list" where
  "LifecycleStatus_members = [LifecycleStatus.CANDIDATE, LifecycleStatus.ACTIVE,
    LifecycleStatus.MISSING, LifecycleStatus.INACTIVE, LifecycleStatus.REAPPEARED,
    LifecycleStatus.EXCLUDED, LifecycleStatus.MERGED, LifecycleStatus.REVIEW_REQUIRED]"

primrec LaundryType_value :: "LaundryType \<Rightarrow> string" where
  "LaundryType_value LaundryType.IN_UNIT_WASHER_DRYER_CONFIRMED = ''IN_UNIT_WASHER_DRYER_CONFIRMED''"
| "LaundryType_value LaundryType.IN_UNIT_WASHER_ONLY = ''IN_UNIT_WASHER_ONLY''"
| "LaundryType_value LaundryType.IN_UNIT_DRYER_ONLY = ''IN_UNIT_DRYER_ONLY''"
| "LaundryType_value LaundryType.IN_UNIT_HOOKUP_ONLY = ''IN_UNIT_HOOKUP_ONLY''"
| "LaundryType_value LaundryType.BUILDING_SHARED_LAUNDRY = ''BUILDING_SHARED_LAUNDRY''"
| "LaundryType_value LaundryType.OFFSITE_OR_NEARBY_LAUNDRY = ''OFFSITE_OR_NEARBY_LAUNDRY''"
| "LaundryType_value LaundryType.NO_LAUNDRY_STATED = ''NO_LAUNDRY_STATED''"
| "LaundryType_value LaundryType.EXPLICITLY_NO_LAUNDRY = ''EXPLICITLY_NO_LAUNDRY''"
| "LaundryType_value LaundryType.CONFLICTING = ''CONFLICTING''"
| "LaundryType_value LaundryType.UNKNOWN = ''UNKNOWN''"

definition LaundryType_members :: "LaundryType list" where
  "LaundryType_members = [LaundryType.IN_UNIT_WASHER_DRYER_CONFIRMED,
    LaundryType.IN_UNIT_WASHER_ONLY, LaundryType.IN_UNIT_DRYER_ONLY,
    LaundryType.IN_UNIT_HOOKUP_ONLY, LaundryType.BUILDING_SHARED_LAUNDRY,
    LaundryType.OFFSITE_OR_NEARBY_LAUNDRY, LaundryType.NO_LAUNDRY_STATED,
    LaundryType.EXPLICITLY_NO_LAUNDRY, LaundryType.CONFLICTING, LaundryType.UNKNOWN]"

primrec MergeReasonCode_value :: "MergeReasonCode \<Rightarrow> string" where
  "MergeReasonCode_value MergeReasonCode.DUPLICATE_EXACT = ''DUPLICATE_EXACT''"
| "MergeReasonCode_value MergeReasonCode.DUPLICATE_PROBABILISTIC = ''DUPLICATE_PROBABILISTIC''"
| "MergeReasonCode_value MergeReasonCode.MANUAL = ''MANUAL''"

definition MergeReasonCode_members :: "MergeReasonCode list" where
  "MergeReasonCode_members = [MergeReasonCode.DUPLICATE_EXACT,
    MergeReasonCode.DUPLICATE_PROBABILISTIC, MergeReasonCode.MANUAL]"

primrec SelectionStatus_value :: "SelectionStatus \<Rightarrow> string" where
  "SelectionStatus_value SelectionStatus.SELECTED = ''SELECTED''"
| "SelectionStatus_value SelectionStatus.NOT_SELECTED = ''NOT_SELECTED''"
| "SelectionStatus_value SelectionStatus.REMOVED = ''REMOVED''"

definition SelectionStatus_members :: "SelectionStatus list" where
  "SelectionStatus_members = [SelectionStatus.SELECTED, SelectionStatus.NOT_SELECTED,
    SelectionStatus.REMOVED]"

primrec ShortlistEntryStatus_value :: "ShortlistEntryStatus \<Rightarrow> string" where
  "ShortlistEntryStatus_value ShortlistEntryStatus.INCLUDED = ''INCLUDED''"
| "ShortlistEntryStatus_value ShortlistEntryStatus.EXCLUDED = ''EXCLUDED''"
| "ShortlistEntryStatus_value ShortlistEntryStatus.REMOVED = ''REMOVED''"

definition ShortlistEntryStatus_members :: "ShortlistEntryStatus list" where
  "ShortlistEntryStatus_members = [ShortlistEntryStatus.INCLUDED, ShortlistEntryStatus.EXCLUDED,
    ShortlistEntryStatus.REMOVED]"

primrec DiscoveryMethod_value :: "DiscoveryMethod \<Rightarrow> string" where
  "DiscoveryMethod_value DiscoveryMethod.DIRECT = ''DIRECT''"
| "DiscoveryMethod_value DiscoveryMethod.SEARCH_INDEX = ''SEARCH_INDEX''"
| "DiscoveryMethod_value DiscoveryMethod.MANUAL_IMPORT = ''MANUAL_IMPORT''"
| "DiscoveryMethod_value DiscoveryMethod.UNKNOWN = ''UNKNOWN''"

definition DiscoveryMethod_members :: "DiscoveryMethod list" where
  "DiscoveryMethod_members = [DiscoveryMethod.DIRECT, DiscoveryMethod.SEARCH_INDEX,
    DiscoveryMethod.MANUAL_IMPORT, DiscoveryMethod.UNKNOWN]"

primrec SourceRunStatus_value :: "SourceRunStatus \<Rightarrow> string" where
  "SourceRunStatus_value SourceRunStatus.PENDING = ''PENDING''"
| "SourceRunStatus_value SourceRunStatus.RUNNING = ''RUNNING''"
| "SourceRunStatus_value SourceRunStatus.HEALTHY = ''HEALTHY''"
| "SourceRunStatus_value SourceRunStatus.DEGRADED = ''DEGRADED''"
| "SourceRunStatus_value SourceRunStatus.FAILED = ''FAILED''"
| "SourceRunStatus_value SourceRunStatus.BLOCKED = ''BLOCKED''"
| "SourceRunStatus_value SourceRunStatus.CANCELLED = ''CANCELLED''"

definition SourceRunStatus_members :: "SourceRunStatus list" where
  "SourceRunStatus_members = [SourceRunStatus.PENDING, SourceRunStatus.RUNNING,
    SourceRunStatus.HEALTHY, SourceRunStatus.DEGRADED, SourceRunStatus.FAILED,
    SourceRunStatus.BLOCKED, SourceRunStatus.CANCELLED]"

primrec ModelTier_value :: "ModelTier \<Rightarrow> string" where
  "ModelTier_value ModelTier.LOCAL = ''LOCAL''"
| "ModelTier_value ModelTier.DEFAULT_HOSTED = ''DEFAULT_HOSTED''"
| "ModelTier_value ModelTier.FLAGSHIP_ESCALATION = ''FLAGSHIP_ESCALATION''"

definition ModelTier_members :: "ModelTier list" where
  "ModelTier_members = [ModelTier.LOCAL, ModelTier.DEFAULT_HOSTED, ModelTier.FLAGSHIP_ESCALATION]"

text \<open>\<open>E(text)\<close>: the member with this value, or a failure.\<close>

definition enum_of_value :: "'e list \<Rightarrow> ('e \<Rightarrow> string) \<Rightarrow> string \<Rightarrow> 'e result" where
  "enum_of_value members text_of s =
     (case get_by text_of s members of None \<Rightarrow> Inl ValueError | Some m \<Rightarrow> Inr m)"

locale str_enum =
  fixes members :: "'e list"
    and text_of :: "'e \<Rightarrow> string"
  assumes members_all: "x \<in> set members"
    and values_distinct: "distinct (map text_of members)"
begin

lemma value_inject: "text_of x = text_of y \<longleftrightarrow> x = y"
  using members_all [of x] members_all [of y] values_distinct
  by (auto simp: distinct_map inj_on_def)

lemma of_value_value: "enum_of_value members text_of (text_of x) = Inr x"
  using members_all [of x]
  by (simp add: enum_of_value_def get_by_Some_iff [OF values_distinct, THEN iffD2])

lemma of_value_InrD: "enum_of_value members text_of s = Inr x \<Longrightarrow> text_of x = s"
  by (auto simp: enum_of_value_def dest: get_by_SomeD split: option.splits)

lemma of_value_Inl_iff:
  "enum_of_value members text_of s = Inl e \<longleftrightarrow> e = ValueError \<and> s \<notin> range text_of"
proof -
  have "set members = UNIV" using members_all by blast
  then show ?thesis
    by (auto simp: enum_of_value_def get_by_None_iff dest: get_by_SomeD split: option.splits)
qed

end

interpretation LocationPrecision_enum: str_enum LocationPrecision_members LocationPrecision_value
proof unfold_locales
  show "x \<in> set LocationPrecision_members" for x
    by (cases x) (simp_all add: LocationPrecision_members_def)
qed (simp add: LocationPrecision_members_def)

interpretation Confidence_enum: str_enum Confidence_members Confidence_value
proof unfold_locales
  show "x \<in> set Confidence_members" for x
    by (cases x) (simp_all add: Confidence_members_def)
qed (simp add: Confidence_members_def)

interpretation TransitMode_enum: str_enum TransitMode_members TransitMode_value
proof unfold_locales
  show "x \<in> set TransitMode_members" for x
    by (cases x) (simp_all add: TransitMode_members_def)
qed (simp add: TransitMode_members_def)

interpretation LayoutClass_enum: str_enum LayoutClass_members LayoutClass_value
proof unfold_locales
  show "x \<in> set LayoutClass_members" for x
    by (cases x) (simp_all add: LayoutClass_members_def)
qed (simp add: LayoutClass_members_def)

interpretation AvailabilityStatus_enum: str_enum AvailabilityStatus_members AvailabilityStatus_value
proof unfold_locales
  show "x \<in> set AvailabilityStatus_members" for x
    by (cases x) (simp_all add: AvailabilityStatus_members_def)
qed (simp add: AvailabilityStatus_members_def)

interpretation LifecycleStatus_enum: str_enum LifecycleStatus_members LifecycleStatus_value
proof unfold_locales
  show "x \<in> set LifecycleStatus_members" for x
    by (cases x) (simp_all add: LifecycleStatus_members_def)
qed (simp add: LifecycleStatus_members_def)

interpretation LaundryType_enum: str_enum LaundryType_members LaundryType_value
proof unfold_locales
  show "x \<in> set LaundryType_members" for x
    by (cases x) (simp_all add: LaundryType_members_def)
qed (simp add: LaundryType_members_def)

interpretation MergeReasonCode_enum: str_enum MergeReasonCode_members MergeReasonCode_value
proof unfold_locales
  show "x \<in> set MergeReasonCode_members" for x
    by (cases x) (simp_all add: MergeReasonCode_members_def)
qed (simp add: MergeReasonCode_members_def)

interpretation SelectionStatus_enum: str_enum SelectionStatus_members SelectionStatus_value
proof unfold_locales
  show "x \<in> set SelectionStatus_members" for x
    by (cases x) (simp_all add: SelectionStatus_members_def)
qed (simp add: SelectionStatus_members_def)

interpretation ShortlistEntryStatus_enum: str_enum ShortlistEntryStatus_members ShortlistEntryStatus_value
proof unfold_locales
  show "x \<in> set ShortlistEntryStatus_members" for x
    by (cases x) (simp_all add: ShortlistEntryStatus_members_def)
qed (simp add: ShortlistEntryStatus_members_def)

interpretation DiscoveryMethod_enum: str_enum DiscoveryMethod_members DiscoveryMethod_value
proof unfold_locales
  show "x \<in> set DiscoveryMethod_members" for x
    by (cases x) (simp_all add: DiscoveryMethod_members_def)
qed (simp add: DiscoveryMethod_members_def)

interpretation SourceRunStatus_enum: str_enum SourceRunStatus_members SourceRunStatus_value
proof unfold_locales
  show "x \<in> set SourceRunStatus_members" for x
    by (cases x) (simp_all add: SourceRunStatus_members_def)
qed (simp add: SourceRunStatus_members_def)

interpretation ModelTier_enum: str_enum ModelTier_members ModelTier_value
proof unfold_locales
  show "x \<in> set ModelTier_members" for x
    by (cases x) (simp_all add: ModelTier_members_def)
qed (simp add: ModelTier_members_def)

end
