(* ===== verification/Observation.thy ===== *)
theory Observation
  imports Enums
begin

text \<open>
  The versioned output contract of every source adapter (\<open>contracts/observation.py\<close>): one record per
  Pydantic block, with the defaults of the block as a constant.  \<open>dict[str, Any]\<close> is JSON, a float
  is its exact value.  \<open>Field(ge=0)\<close> is the predicate \<open>observation_valid\<close>: the constructor raises
  on anything else, so every observation that exists satisfies it.
\<close>

definition OBSERVATION_SCHEMA_VERSION :: string where
  "OBSERVATION_SCHEMA_VERSION = ''1.0.0''"

record IdentityBlock =
  ib_raw_address_text :: "string option"
  ib_normalized_address_candidate :: "json option"
  ib_source_building_name :: "string option"
  ib_raw_unit_label :: "string option"
  ib_normalized_unit_candidate :: "string option"
  ib_source_building_id :: "string option"
  ib_source_geographic_labels :: "string list"
  ib_evidence_locators :: "json list"

record PricingBlock =
  pb_source_price_text :: "string option"
  pb_monthly_rent_minor :: "int option"
  pb_currency_code :: string
  pb_price_type :: string
  pb_range_min_minor :: "int option"
  pb_range_max_minor :: "int option"
  pb_concession_text :: "string option"
  pb_evidence :: "json list"

record LayoutBlock =
  lb_raw_layout_text :: "string option"
  lb_source_bedrooms :: "rat option"
  lb_source_bathrooms :: "rat option"
  lb_proposed_layout_class :: LayoutClass
  lb_qualifiers :: "string list"
  lb_confidence :: Confidence
  lb_evidence :: "json list"

record AvailabilityBlock =
  ab_source_status_text :: "string option"
  ab_available_from :: "string option"
  ab_proposed_status :: AvailabilityStatus
  ab_evidence :: "json list"

record DescriptionBlock =
  eb_text :: "string option"
  eb_sections :: "json list"
  eb_content_hash :: "string option"
  eb_redaction_status :: ContactRedactionStatus
  eb_language :: "string option"

record AmenityItem =
  ai_label :: string
  ai_scope :: AssertedScope
  ai_presence :: PresenceStatus
  ai_evidence :: "json option"

record LaundryBlock =
  yb_proposed_laundry_type :: LaundryType
  yb_scope :: AssertedScope
  yb_evidence_text :: "string option"
  yb_evidence_locator :: "json option"
  yb_confidence :: Confidence

record MediaReference =
  mr_url :: string
  mr_source_media_id :: "string option"
  mr_source_order :: "int option"
  mr_caption :: "string option"
  mr_alt_text :: "string option"
  mr_proposed_type :: MediaType
  mr_source_association :: "string option"
  mr_appears_floor_plan :: bool

record ExtractionBlock =
  xb_adapter_version :: string
  xb_extraction_paths :: "string list"
  xb_model_execution_refs :: "string list"
  xb_confidence :: Confidence
  xb_fields_requiring_review :: "string list"
  xb_missing_structural_markers :: "string list"

record ValidationBlock =
  vb_parse_status :: ParseStatus
  vb_issues :: "json list"

record ParsedSourceObservation =
  po_schema_version :: string
  po_source_code :: string
  po_source_native_id :: "string option"
  po_source_url :: string
  po_observed_at :: datetime
  po_retrieved_at :: datetime
  po_source_status :: string
  po_identity :: IdentityBlock
  po_pricing :: PricingBlock
  po_layout :: LayoutBlock
  po_availability :: AvailabilityBlock
  po_description :: DescriptionBlock
  po_amenities :: "AmenityItem list"
  po_laundry :: LaundryBlock
  po_media_references :: "MediaReference list"
  po_evidence :: "json list"
  po_extraction :: ExtractionBlock
  po_validation :: ValidationBlock

section \<open>Defaults\<close>

definition default_identity :: IdentityBlock where
  "default_identity = \<lparr>ib_raw_address_text = None, ib_normalized_address_candidate = None,
     ib_source_building_name = None, ib_raw_unit_label = None,
     ib_normalized_unit_candidate = None, ib_source_building_id = None,
     ib_source_geographic_labels = [], ib_evidence_locators = []\<rparr>"

definition default_pricing :: PricingBlock where
  "default_pricing = \<lparr>pb_source_price_text = None, pb_monthly_rent_minor = None,
     pb_currency_code = ''USD'', pb_price_type = ''UNKNOWN'', pb_range_min_minor = None,
     pb_range_max_minor = None, pb_concession_text = None, pb_evidence = []\<rparr>"

definition default_layout :: LayoutBlock where
  "default_layout = \<lparr>lb_raw_layout_text = None, lb_source_bedrooms = None,
     lb_source_bathrooms = None, lb_proposed_layout_class = LayoutClass.UNKNOWN,
     lb_qualifiers = [], lb_confidence = Confidence.UNKNOWN, lb_evidence = []\<rparr>"

definition default_availability :: AvailabilityBlock where
  "default_availability = \<lparr>ab_source_status_text = None, ab_available_from = None,
     ab_proposed_status = AvailabilityStatus.UNKNOWN, ab_evidence = []\<rparr>"

definition default_description :: DescriptionBlock where
  "default_description = \<lparr>eb_text = None, eb_sections = [], eb_content_hash = None,
     eb_redaction_status = ContactRedactionStatus.NOT_PRESENT, eb_language = None\<rparr>"

definition default_laundry :: LaundryBlock where
  "default_laundry = \<lparr>yb_proposed_laundry_type = LaundryType.UNKNOWN,
     yb_scope = AssertedScope.UNKNOWN, yb_evidence_text = None, yb_evidence_locator = None,
     yb_confidence = Confidence.UNKNOWN\<rparr>"

definition default_extraction :: "string \<Rightarrow> ExtractionBlock" where
  "default_extraction version = \<lparr>xb_adapter_version = version, xb_extraction_paths = [],
     xb_model_execution_refs = [], xb_confidence = Confidence.UNKNOWN,
     xb_fields_requiring_review = [], xb_missing_structural_markers = []\<rparr>"

definition default_validation :: ValidationBlock where
  "default_validation = \<lparr>vb_parse_status = ParseStatus.VALID, vb_issues = []\<rparr>"

text \<open>The required arguments of the constructor; every block takes its default.\<close>

definition new_observation ::
  "string \<Rightarrow> string option \<Rightarrow> string \<Rightarrow> datetime \<Rightarrow> datetime \<Rightarrow> ExtractionBlock \<Rightarrow>
   ParsedSourceObservation" where
  "new_observation code native_id url observed retrieved extraction =
     \<lparr>po_schema_version = OBSERVATION_SCHEMA_VERSION, po_source_code = code,
      po_source_native_id = native_id, po_source_url = url, po_observed_at = observed,
      po_retrieved_at = retrieved, po_source_status = ''UNKNOWN'',
      po_identity = default_identity, po_pricing = default_pricing,
      po_layout = default_layout, po_availability = default_availability,
      po_description = default_description, po_amenities = [],
      po_laundry = default_laundry, po_media_references = [], po_evidence = [],
      po_extraction = extraction, po_validation = default_validation\<rparr>"

section \<open>Validation\<close>

definition non_negative :: "int option \<Rightarrow> bool" where
  "non_negative x \<longleftrightarrow> (case x of None \<Rightarrow> True | Some n \<Rightarrow> 0 \<le> n)"

definition observation_valid :: "ParsedSourceObservation \<Rightarrow> bool" where
  "observation_valid obs \<longleftrightarrow>
     non_negative (pb_monthly_rent_minor (po_pricing obs)) \<and>
     non_negative (pb_range_min_minor (po_pricing obs)) \<and>
     non_negative (pb_range_max_minor (po_pricing obs))"

end
