(* ===== verification/Schema.thy ===== *)
theory Schema
  imports Observation
begin

text \<open>
  The tables of \<open>db/models\<close> that the modelled services read or write, one record per mapped class,
  and the database as the record of its tables.  A column typed by an enum holds the member, a JSONB
  column holds JSON, a \<open>Numeric\<close> or float column a rational; a geography point is the pair of
  longitude and latitude.  The audit columns \<open>created_at\<close>/\<open>updated_at\<close>/\<open>recorded_at\<close>, which
  the server fills, are kept only where a query reads them (\<open>job.created_at\<close>, \<open>asserted_at\<close>).  \<open>db_next\<close> supplies
  the fresh identifiers that \<open>gen_random_uuid()\<close> and \<open>uuid4()\<close> draw.
\<close>

section \<open>Addresses, buildings, units\<close>

type_synonym point = "rat \<times> rat"

record address =
  ad_id :: uuid
  ad_line_1 :: "string option"
  ad_line_2 :: "string option"
  ad_locality :: string
  ad_administrative_area :: string
  ad_postal_code :: "string option"
  ad_country_code :: string
  ad_borough :: "string option"
  ad_neighborhood :: "string option"
  ad_formatted_address :: string
  ad_fingerprint :: "string option"
  ad_location_point :: "point option"
  ad_location_precision :: LocationPrecision
  ad_geocoder_source_id :: "uuid option"
  ad_geocoder_result_id :: "string option"
  ad_geocoded_at :: "datetime option"
  ad_geocode_input_hash :: "string option"
  ad_geocode_status :: GeocodeStatus
  ad_boundary_status :: BoundaryStatus

record building =
  bd_id :: uuid
  bd_address_id :: uuid
  bd_canonical_name :: "string option"
  bd_property_type :: PropertyType
  bd_identity_status :: BuildingIdentityStatus

record housing_unit =
  un_id :: uuid
  un_building_id :: uuid
  un_canonical_unit_label :: "string option"
  un_fingerprint :: "string option"
  un_floor_label :: "string option"
  un_layout_class :: LayoutClass
  un_bedroom_count :: "rat option"
  un_bathroom_count :: "rat option"
  un_identity_status :: UnitIdentityStatus

section \<open>Canonical listings and their links\<close>

record canonical_listing =
  cl_id :: uuid
  cl_building_id :: uuid
  cl_unit_id :: "uuid option"
  cl_layout_class :: LayoutClass
  cl_bedroom_count :: "rat option"
  cl_bathroom_count :: "rat option"
  cl_monthly_rent_minor :: "int option"
  cl_currency_code :: string
  cl_available_from :: "int option"
  cl_availability_status :: AvailabilityStatus
  cl_lifecycle_status :: LifecycleStatus
  cl_laundry_type :: LaundryType
  cl_indoor_laundry_badge_eligible :: bool
  cl_description_current :: "string option"
  cl_first_seen_at :: datetime
  cl_last_seen_at :: datetime
  cl_last_material_change_at :: datetime
  cl_inactive_at :: "datetime option"
  cl_canonical_resolution_status :: CanonicalResolutionStatus
  cl_enrichment_status :: EnrichmentStatus

record listing_source_link =
  lk_id :: uuid
  lk_canonical_listing_id :: uuid
  lk_source_id :: uuid
  lk_source_native_id :: "string option"
  lk_source_url :: string
  lk_first_observation_id :: uuid
  lk_latest_observation_id :: uuid
  lk_first_seen_at :: datetime
  lk_last_seen_at :: datetime
  lk_link_status :: LinkStatus
  lk_discovery_method :: DiscoveryMethod
  lk_identity_method :: IdentityMethod
  lk_identity_confidence :: IdentityConfidence
  lk_identity_rule_version :: string

record canonical_merge =
  mg_id :: uuid
  mg_source_listing_id :: uuid
  mg_target_listing_id :: uuid
  mg_reason_code :: MergeReasonCode
  mg_evidence :: json
  mg_performed_by_type :: PerformedByType
  mg_performed_by :: "string option"
  mg_performed_at :: datetime
  mg_reversed_at :: "datetime option"

record duplicate_candidate =
  dc_id :: uuid
  dc_listing_a_id :: uuid
  dc_listing_b_id :: uuid
  dc_candidate_score :: "rat option"
  dc_evidence :: json
  dc_rule_version :: string
  dc_status :: DuplicateCandidateStatus
  dc_resolved_by :: "string option"
  dc_resolved_at :: "datetime option"

section \<open>Sources, runs, observations\<close>

record source_row =
  sc_id :: uuid
  sc_source_code :: string
  sc_display_name :: string
  sc_source_type :: SourceType
  sc_base_domain :: "string option"
  sc_access_method :: AccessMethod
  sc_approval_status :: SourceApprovalStatus
  sc_enabled :: bool
  sc_policy_version :: string
  sc_configuration :: "json option"

record refresh_run =
  rr_id :: uuid
  rr_trigger_type :: RefreshTriggerType
  rr_logical_run_key :: string
  rr_scheduled_for :: "datetime option"
  rr_started_at :: datetime
  rr_completed_at :: "datetime option"
  rr_status :: RefreshRunStatus
  rr_pipeline_version :: string
  rr_summary_counts :: "json option"
  rr_error_summary :: "json option"

record source_run =
  sr_id :: uuid
  sr_refresh_run_id :: uuid
  sr_source_id :: uuid
  sr_started_at :: datetime
  sr_completed_at :: "datetime option"
  sr_status :: SourceRunStatus
  sr_health_gate_passed :: "bool option"
  sr_expected_scope :: "json option"
  sr_counts :: "json option"
  sr_error_summary :: "json option"
  sr_adapter_version :: string

record source_observation =
  so_id :: uuid
  so_source_id :: uuid
  so_source_run_id :: uuid
  so_source_native_id :: "string option"
  so_source_url :: string
  so_observed_at :: datetime
  so_retrieved_at :: datetime
  so_content_hash :: string
  so_raw_payload_ref :: "string option"
  so_parsed_payload :: ParsedSourceObservation
  so_parse_status :: ParseStatus
  so_validation_issues :: "json option"
  so_contact_redaction_status :: ContactRedactionStatus
  so_adapter_version :: string
  so_schema_version :: string

record adapter_checkpoint =
  ck_id :: uuid
  ck_source_run_id :: uuid
  ck_partition_key :: string
  ck_cursor_state :: "json option"
  ck_completed :: bool
  ck_items_discovered :: "nat option"

section \<open>Facts, events, overrides, review\<close>

record fact_assertion =
  fa_id :: uuid
  fa_entity_type :: FactEntityType
  fa_entity_id :: uuid
  fa_fact_key :: string
  fa_value_json :: "json option"
  fa_value_status :: ValueStatus
  fa_derivation_type :: DerivationType
  fa_source_observation_id :: "uuid option"
  fa_media_asset_id :: "uuid option"
  fa_provider_request_id :: "uuid option"
  fa_evidence_text :: "string option"
  fa_evidence_locator :: "json option"
  fa_confidence :: Confidence
  fa_validation_status :: ValidationStatus
  fa_model_execution_id :: "uuid option"
  fa_asserted_at :: datetime
  fa_superseded_at :: "datetime option"

record fact_resolution =
  fr_id :: uuid
  fr_entity_type :: FactEntityType
  fr_entity_id :: uuid
  fr_fact_key :: string
  fr_effective_assertion_id :: "uuid option"
  fr_resolution_status :: ResolutionStatus
  fr_resolution_method :: ResolutionMethod
  fr_resolution_rule_version :: string
  fr_superseded_at :: "datetime option"

text \<open>
  An idempotency key is the text \<open>listing:TYPE:suffix\<close>, the suffix being an identifier or a rule
  version; UUIDs and member names hold no colon, so the text and its three parts determine each
  other and the model keeps the parts.
\<close>

datatype key_suffix = KeyId uuid | KeyText string

type_synonym event_key = "uuid \<times> ListingEventType \<times> key_suffix"

record listing_event =
  ev_id :: uuid
  ev_canonical_listing_id :: uuid
  ev_event_type :: ListingEventType
  ev_event_time :: datetime
  ev_refresh_run_id :: "uuid option"
  ev_source_observation_id :: "uuid option"
  ev_before_values :: "json option"
  ev_after_values :: "json option"
  ev_reason_codes :: "json option"
  ev_idempotency_key :: event_key

record human_override =
  ho_id :: uuid
  ho_entity_type :: FactEntityType
  ho_entity_id :: uuid
  ho_field_name :: string
  ho_override_value :: "json option"
  ho_override_status :: OverrideStatus
  ho_reason_code :: OverrideReasonCode
  ho_reason_text :: string
  ho_created_by :: string
  ho_superseded_at :: "datetime option"
  ho_review_on_new_conflict :: bool

record review_issue =
  ri_id :: uuid
  ri_entity_type :: FactEntityType
  ri_entity_id :: uuid
  ri_issue_type :: ReviewIssueType
  ri_severity :: ReviewIssueSeverity
  ri_status :: ReviewIssueStatus
  ri_details :: json
  ri_resolved_at :: "datetime option"
  ri_resolved_by :: "string option"
  ri_resolution_note :: "string option"

section \<open>Manual state and its audit log\<close>

record marketing_selection =
  ms_id :: uuid
  ms_canonical_listing_id :: "uuid option"
  ms_company_property_id :: "uuid option"
  ms_selection_status :: SelectionStatus
  ms_selected_by :: string
  ms_selected_at :: datetime
  ms_note :: "string option"
  ms_listing_snapshot :: "json option"

record client_search_preset =
  cp_id :: uuid
  cp_label :: string
  cp_filter_definition :: json
  cp_filter_schema_version :: string
  cp_map_geometry :: "string option"
  cp_note :: "string option"
  cp_created_by :: string
  cp_archived_at :: "datetime option"

record client_shortlist_entry =
  ce_id :: uuid
  ce_client_search_preset_id :: uuid
  ce_canonical_listing_id :: "uuid option"
  ce_company_property_id :: "uuid option"
  ce_entry_status :: ShortlistEntryStatus
  ce_added_by :: string
  ce_added_at :: datetime
  ce_note :: "string option"

record audit_action_log =
  al_id :: uuid
  al_actor :: string
  al_actor_type :: ActorType
  al_action_type :: string
  al_target_type :: string
  al_target_id :: "uuid option"
  al_before_values :: "json option"
  al_after_values :: "json option"
  al_reason :: "string option"
  al_correlation_id :: "string option"

section \<open>Jobs and provider requests\<close>

record job =
  jb_id :: uuid
  jb_refresh_run_id :: "uuid option"
  jb_canonical_listing_id :: "uuid option"
  jb_job_type :: JobType
  jb_input_hash :: string
  jb_dependency_version :: string
  jb_status :: JobStatus
  jb_priority :: int
  jb_attempt_count :: int
  jb_max_attempts :: int
  jb_next_attempt_at :: "datetime option"
  jb_started_at :: "datetime option"
  jb_completed_at :: "datetime option"
  jb_error_code :: "string option"
  jb_error_detail :: "json option"
  jb_lease_token :: "uuid option"
  jb_leased_by :: "string option"
  jb_lease_expires_at :: "datetime option"
  jb_heartbeat_at :: "datetime option"
  jb_cancellation_requested_at :: "datetime option"
  jb_terminal_reason :: "string option"
  jb_created_at :: datetime

record job_attempt =
  ja_id :: uuid
  ja_job_id :: uuid
  ja_attempt_number :: int
  ja_lease_token :: "uuid option"
  ja_leased_by :: "string option"
  ja_started_at :: datetime
  ja_completed_at :: "datetime option"
  ja_outcome_status :: "JobStatus option"
  ja_error_code :: "string option"
  ja_error_detail :: "json option"

record provider_request =
  pr_id :: uuid
  pr_source_id :: uuid
  pr_request_type :: ProviderRequestType
  pr_request_hash :: string
  pr_request_parameters :: json
  pr_provider_result_id :: "string option"
  pr_response_ref :: "json option"
  pr_status :: ProviderRequestStatus
  pr_requested_at :: datetime
  pr_completed_at :: "datetime option"
  pr_expires_at :: "datetime option"
  pr_error_code :: "string option"

section \<open>Boundaries, transit data, destinations\<close>

text \<open>
  The geography column of a boundary is only ever handed to PostGIS; the model keeps the GeoJSON it
  was loaded from.
\<close>

record geographic_boundary =
  gb_id :: uuid
  gb_region_code :: string
  gb_display_name :: string
  gb_region_group :: string
  gb_geometry :: json
  gb_dataset_version :: string

record transit_stop =
  sto_id :: uuid
  sto_provider_source_id :: uuid
  sto_provider_stop_id :: string
  sto_parent_stop_id :: "uuid option"
  sto_operator_code :: string
  sto_stop_name :: string
  sto_mode :: TransitMode
  sto_location_point :: point
  sto_active_status :: TransitStopActiveStatus
  sto_dataset_version :: string

record transit_route =
  rte_id :: uuid
  rte_provider_source_id :: uuid
  rte_provider_route_id :: string
  rte_operator_code :: string
  rte_route_short_name :: "string option"
  rte_route_long_name :: "string option"
  rte_mode :: TransitMode
  rte_dataset_version :: string

record transit_access =
  acc_id :: uuid
  acc_canonical_listing_id :: uuid
  acc_transit_stop_id :: uuid
  acc_mode :: TransitMode
  acc_straight_line_distance_m :: "int option"
  acc_walking_distance_m :: "int option"
  acc_walking_duration_s :: "int option"
  acc_route_provider_request_id :: "uuid option"
  acc_proximity_rank :: "nat option"
  acc_usefulness_status :: UsefulnessStatus
  acc_usefulness_reasons :: "json option"
  acc_meaningful_connections :: "json option"
  acc_validation_status :: TransitValidationStatus
  acc_validation_reasons :: "json option"
  acc_input_location_hash :: string
  acc_dataset_version :: string
  acc_calculated_at :: datetime
  acc_expires_at :: "datetime option"

record destination =
  dst_id :: uuid
  dst_destination_code :: string
  dst_destination_type :: DestinationType
  dst_institution_name :: "string option"
  dst_display_name :: string
  dst_routing_anchor_name :: string
  dst_routing_anchor_point :: point
  dst_address_id :: "uuid option"
  dst_active :: bool
  dst_registry_version :: string

record commute_result =
  cmr_id :: uuid
  cmr_canonical_listing_id :: "uuid option"
  cmr_company_property_id :: "uuid option"
  cmr_destination_id :: uuid
  cmr_result_type :: CommuteResultType
  cmr_provider_request_id :: "uuid option"
  cmr_model_execution_id :: "uuid option"
  cmr_travel_mode :: TravelMode
  cmr_time_basis :: TimeBasis
  cmr_requested_local_datetime :: "datetime option"
  cmr_duration_s :: "int option"
  cmr_duration_min_s :: "int option"
  cmr_duration_max_s :: "int option"
  cmr_distance_m :: "int option"
  cmr_transfer_count :: "int option"
  cmr_route_summary :: "json option"
  cmr_sources :: "json list option"
  cmr_confidence :: Confidence
  cmr_result_status :: CommuteResultStatus
  cmr_validation_status :: TransitValidationStatus
  cmr_validation_reasons :: "json option"
  cmr_input_location_hash :: string
  cmr_destination_registry_version :: string
  cmr_calculated_at :: datetime
  cmr_expires_at :: "datetime option"

section \<open>Model executions, the company portfolio, media\<close>

record model_execution =
  mex_id :: uuid
  mex_job_id :: "uuid option"
  mex_provider_code :: string
  mex_model_id :: string
  mex_model_tier :: ModelTier
  mex_task_type :: string
  mex_prompt_version :: string
  mex_output_schema_version :: string
  mex_input_hash :: string
  mex_input_refs :: json
  mex_output_ref :: "json option"
  mex_confidence :: Confidence
  mex_validation_status :: ValidationStatus
  mex_escalated_from_id :: "uuid option"
  mex_input_tokens :: "int option"
  mex_output_tokens :: "int option"
  mex_cost_minor :: "int option"
  mex_currency_code :: "string option"
  mex_started_at :: datetime
  mex_completed_at :: "datetime option"
  mex_status :: ModelExecutionStatus

record company_property =
  cpy_id :: uuid
  cpy_name :: string
  cpy_name_fingerprint :: string
  cpy_source_document :: string
  cpy_original_url :: "string option"
  cpy_resolved_url :: "string option"
  cpy_resolved_url_kind :: "string option"
  cpy_link_status :: string
  cpy_address_text :: "string option"
  cpy_locality :: "string option"
  cpy_latitude :: "rat option"
  cpy_longitude :: "rat option"
  cpy_matched_building_id :: "uuid option"
  cpy_availability :: "json option"
  cpy_check_log :: "json list option"
  cpy_check_status :: string
  cpy_check_error :: "string option"
  cpy_last_checked_at :: "datetime option"

record media_asset =
  mas_id :: uuid
  mas_source_id :: uuid
  mas_source_observation_id :: "uuid option"
  mas_source_url :: string
  mas_storage_ref :: "string option"
  mas_retrieved_at :: "datetime option"
  mas_availability_status :: MediaAvailabilityStatus
  mas_media_type :: MediaType
  mas_mime_type :: "string option"
  mas_width_px :: "int option"
  mas_height_px :: "int option"
  mas_byte_size :: "int option"
  mas_content_hash :: "string option"
  mas_perceptual_hash :: "string option"
  mas_classification_status :: MediaClassificationStatus
  mas_model_execution_id :: "uuid option"
  mas_policy_version :: string
  mas_source_media_id :: "string option"
  mas_source_caption :: "string option"
  mas_source_alt_text :: "string option"
  mas_final_url_hash :: "string option"
  mas_retrieval_status_code :: "int option"
  mas_original_filename :: "string option"
  mas_color_space :: "string option"
  mas_orientation :: "int option"
  mas_page_count :: "int option"
  mas_has_alpha :: "bool option"
  mas_animation_detected :: "bool option"
  mas_technical_quality_status :: TechnicalQualityStatus
  mas_content_safety_status :: ContentSafetyStatus
  mas_contact_overlay_status :: ContactOverlayStatus
  mas_watermark_status :: WatermarkStatus
  mas_marketing_use_status :: MarketingUseStatus
  mas_marketing_selected :: bool
  mas_policy_expires_at :: "datetime option"

record media_association =
  mac_id :: uuid
  mac_media_asset_id :: uuid
  mac_building_id :: "uuid option"
  mac_unit_id :: "uuid option"
  mac_canonical_listing_id :: "uuid option"
  mac_layout_class :: "LayoutClass option"
  mac_association_level :: AssociationLevel
  mac_association_status :: AssociationStatus
  mac_confidence :: Confidence
  mac_display_order :: "int option"
  mac_is_primary_candidate :: bool
  mac_evidence :: "json option"

section \<open>The database\<close>

record db =
  db_addresses :: "address list"
  db_buildings :: "building list"
  db_units :: "housing_unit list"
  db_listings :: "canonical_listing list"
  db_links :: "listing_source_link list"
  db_merges :: "canonical_merge list"
  db_candidates :: "duplicate_candidate list"
  db_sources :: "source_row list"
  db_refresh_runs :: "refresh_run list"
  db_source_runs :: "source_run list"
  db_observations :: "source_observation list"
  db_checkpoints :: "adapter_checkpoint list"
  db_assertions :: "fact_assertion list"
  db_resolutions :: "fact_resolution list"
  db_events :: "listing_event list"
  db_overrides :: "human_override list"
  db_issues :: "review_issue list"
  db_selections :: "marketing_selection list"
  db_presets :: "client_search_preset list"
  db_entries :: "client_shortlist_entry list"
  db_audit_log :: "audit_action_log list"
  db_jobs :: "job list"
  db_attempts :: "job_attempt list"
  db_provider_requests :: "provider_request list"
  db_boundaries :: "geographic_boundary list"
  db_stops :: "transit_stop list"
  db_routes :: "transit_route list"
  db_access :: "transit_access list"
  db_destinations :: "destination list"
  db_commutes :: "commute_result list"
  db_executions :: "model_execution list"
  db_company :: "company_property list"
  db_media :: "media_asset list"
  db_media_links :: "media_association list"
  db_next :: uuid

definition empty_db :: db where
  "empty_db = \<lparr>db_addresses = [], db_buildings = [], db_units = [], db_listings = [],
     db_links = [], db_merges = [], db_candidates = [], db_sources = [], db_refresh_runs = [],
     db_source_runs = [], db_observations = [], db_checkpoints = [], db_assertions = [],
     db_resolutions = [], db_events = [], db_overrides = [], db_issues = [], db_selections = [],
     db_presets = [], db_entries = [], db_audit_log = [], db_jobs = [], db_attempts = [],
     db_provider_requests = [], db_boundaries = [], db_stops = [], db_routes = [], db_access = [],
     db_destinations = [], db_commutes = [], db_executions = [], db_company = [], db_media = [],
     db_media_links = [], db_next = 0\<rparr>"

text \<open>A transaction: the body's result and state, or its exception with nothing written.\<close>

type_synonym 'a tx = "db \<Rightarrow> ('a \<times> db) result"

text \<open>\<open>with factory() as session: ...; session.commit()\<close>: a raise leaves the database as it was.\<close>

definition run_tx :: "'a tx \<Rightarrow> db \<Rightarrow> 'a result \<times> db" where
  "run_tx t s = (case t s of Inl e \<Rightarrow> (Inl e, s) | Inr (x, s') \<Rightarrow> (Inr x, s'))"

section \<open>Groups of tables that an operation may leave alone\<close>

text \<open>
  What only people and the merge workflow write: selections, presets, shortlist entries, the audit
  log, overrides and merges.
\<close>

definition manual_state ::
  "db \<Rightarrow> marketing_selection list \<times> client_search_preset list \<times> client_shortlist_entry list \<times>
     audit_action_log list \<times> human_override list \<times> canonical_merge list" where
  "manual_state s = (db_selections s, db_presets s, db_entries s, db_audit_log s, db_overrides s,
     db_merges s)"

text \<open>
  What the canonical services only read: the tables of acquisition (sources, runs, observations,
  checkpoints, jobs, provider requests) and those of enrichment (boundaries, transit data,
  destinations, commutes, model executions, the company portfolio, media).
\<close>

definition upstream_state ::
  "db \<Rightarrow> source_row list \<times> refresh_run list \<times> source_run list \<times> source_observation list \<times>
     adapter_checkpoint list \<times> job list \<times> job_attempt list \<times> provider_request list \<times>
     geographic_boundary list \<times> transit_stop list \<times> transit_route list \<times> transit_access list \<times>
     destination list \<times> commute_result list \<times> model_execution list \<times> company_property list \<times>
     media_asset list \<times> media_association list" where
  "upstream_state s = (db_sources s, db_refresh_runs s, db_source_runs s, db_observations s,
     db_checkpoints s, db_jobs s, db_attempts s, db_provider_requests s, db_boundaries s, db_stops s,
     db_routes s, db_access s, db_destinations s, db_commutes s, db_executions s, db_company s,
     db_media s, db_media_links s)"

text \<open>The tables of canonical identity, and those of their history.\<close>

definition identity_state ::
  "db \<Rightarrow> address list \<times> building list \<times> housing_unit list \<times> listing_source_link list \<times>
     duplicate_candidate list" where
  "identity_state s = (db_addresses s, db_buildings s, db_units s, db_links s, db_candidates s)"

definition fact_state :: "db \<Rightarrow> fact_assertion list \<times> fact_resolution list" where
  "fact_state s = (db_assertions s, db_resolutions s)"

text \<open>What only enrichment and reference-data loading write.\<close>

definition enriched_state ::
  "db \<Rightarrow> geographic_boundary list \<times> transit_stop list \<times> transit_route list \<times> transit_access list \<times>
     destination list \<times> commute_result list \<times> model_execution list \<times> company_property list \<times>
     media_asset list \<times> media_association list" where
  "enriched_state s = (db_boundaries s, db_stops s, db_routes s, db_access s, db_destinations s,
     db_commutes s, db_executions s, db_company s, db_media s, db_media_links s)"

lemmas frame_defs = manual_state_def upstream_state_def identity_state_def fact_state_def
  enriched_state_def

section \<open>What the columns hold\<close>

text \<open>An \<open>Integer\<close> and a \<open>BigInteger\<close> column; what does not fit makes the flush fail.\<close>

definition int4 :: "int \<Rightarrow> bool" where
  "int4 n \<longleftrightarrow> - (2 ^ 31) \<le> n \<and> n < 2 ^ 31"

definition int4_opt :: "int option \<Rightarrow> bool" where
  "int4_opt n = (case n of None \<Rightarrow> True | Some x \<Rightarrow> int4 x)"

definition int8 :: "int \<Rightarrow> bool" where
  "int8 n \<longleftrightarrow> - (2 ^ 63) \<le> n \<and> n < 2 ^ 63"

definition int8_opt :: "int option \<Rightarrow> bool" where
  "int8_opt n = (case n of None \<Rightarrow> True | Some x \<Rightarrow> int8 x)"

definition data_error :: py_error where
  "data_error = ExternalError ''DataError''"

section \<open>Operations without people\<close>

text \<open>
  An operation that runs without people keeps the manual state.  Such operations compose: the
  contract is closed under running a list of inputs, each in its own transaction whose failure
  leaves the database as it was.
\<close>

fun run_all :: "('i \<Rightarrow> 'a tx) \<Rightarrow> 'i list \<Rightarrow> db \<Rightarrow> db" where
  "run_all step [] s = s"
| "run_all step (i # is) s = run_all step is (snd (run_tx (step i) s))"

locale automatic_step =
  fixes step :: "'i \<Rightarrow> 'a tx"
  assumes keeps_manual: "step i s = Inr (x, s') \<Longrightarrow> manual_state s' = manual_state s"
begin

lemma tx_keeps_manual: "manual_state (snd (run_tx (step i) s)) = manual_state s"
  by (auto simp: run_tx_def keeps_manual split: sum.splits)

lemma run_all_keeps_manual: "manual_state (run_all step is s) = manual_state s"
  by (induction "is" arbitrary: s) (simp_all add: tx_keeps_manual)

end

end
