(* ===== verification/JobQueue.thy ===== *)
theory JobQueue
  imports Schema
begin

text \<open>
  The leased job queue of \<open>jobs/queue.py\<close>: \<open>enqueue\<close>, \<open>claim\<close>, \<open>heartbeat\<close>, \<open>complete\<close>,
  \<open>recover_expired_leases\<close> and \<open>queue_depth\<close> over the tables \<open>ops.job\<close> and \<open>ops.job_attempt\<close>.
  Each operation reads the clock once (the argument \<open>now\<close>).  The step relation \<open>queue_step\<close> lets
  any number of workers interleave them while the clock advances; \<open>queue_inv\<close> is the invariant
  that every step keeps, and the lease token is a fencing token: once a job is given up, the old
  token never matches again.
\<close>

section \<open>Operations\<close>

definition CLAIMABLE_STATUSES :: "JobStatus list" where
  "CLAIMABLE_STATUSES = [JobStatus.PENDING, JobStatus.FAILED_RETRYABLE]"

text \<open>The partial unique index \<open>uq_job_active_identity\<close>: rows that are not terminally failed.\<close>

definition job_live :: "job \<Rightarrow> bool" where
  "job_live j \<longleftrightarrow> jb_status j \<notin> {JobStatus.FAILED_TERMINAL, JobStatus.CANCELLED}"

type_synonym job_identity = "JobType \<times> uuid option \<times> string \<times> string"

definition job_identity :: "job \<Rightarrow> job_identity" where
  "job_identity j =
     (jb_job_type j, jb_canonical_listing_id j, jb_input_hash j, jb_dependency_version j)"

definition new_job ::
  "uuid \<Rightarrow> JobType \<Rightarrow> string \<Rightarrow> string \<Rightarrow> uuid option \<Rightarrow> uuid option \<Rightarrow> int \<Rightarrow> int \<Rightarrow>
   datetime \<Rightarrow> datetime \<Rightarrow> job" where
  "new_job i job_type input_hash dependency_version listing refresh_run priority max_attempts
     next_attempt now =
     \<lparr>jb_id = i, jb_refresh_run_id = refresh_run, jb_canonical_listing_id = listing,
      jb_job_type = job_type, jb_input_hash = input_hash,
      jb_dependency_version = dependency_version, jb_status = JobStatus.PENDING,
      jb_priority = priority, jb_attempt_count = 0, jb_max_attempts = max_attempts,
      jb_next_attempt_at = Some next_attempt, jb_started_at = None, jb_completed_at = None,
      jb_error_code = None, jb_error_detail = None, jb_lease_token = None, jb_leased_by = None,
      jb_lease_expires_at = None, jb_heartbeat_at = None, jb_cancellation_requested_at = None,
      jb_terminal_reason = None, jb_created_at = now\<rparr>"

definition enqueue ::
  "JobType \<Rightarrow> string \<Rightarrow> string \<Rightarrow> uuid option \<Rightarrow> uuid option \<Rightarrow> int \<Rightarrow> int \<Rightarrow>
   datetime option \<Rightarrow> datetime \<Rightarrow> db \<Rightarrow> uuid option \<times> db" where
  "enqueue job_type input_hash dependency_version listing refresh_run priority max_attempts
     next_attempt_at now s =
     (let j = new_job (db_next s) job_type input_hash dependency_version listing refresh_run
                priority max_attempts (case next_attempt_at of None \<Rightarrow> now | Some t \<Rightarrow> t) now
      in if \<exists>r \<in> set (db_jobs s). job_live r \<and> job_identity r = job_identity j
         then (None, s)
         else (Some (jb_id j), s\<lparr>db_jobs := db_jobs s @ [j], db_next := Suc (db_next s)\<rparr>))"

text \<open>The \<open>WHERE\<close> clause of \<open>claim\<close>; a comparison with NULL does not hold.\<close>

definition claimable :: "datetime \<Rightarrow> job \<Rightarrow> bool" where
  "claimable now j \<longleftrightarrow>
     jb_status j \<in> set CLAIMABLE_STATUSES \<and>
     (case jb_next_attempt_at j of None \<Rightarrow> False | Some t \<Rightarrow> t \<le> now) \<and>
     (case jb_lease_expires_at j of None \<Rightarrow> True | Some t \<Rightarrow> t < now) \<and>
     jb_attempt_count j < jb_max_attempts j"

definition claim_order :: "job \<Rightarrow> int \<times> datetime" where
  "claim_order j = (- jb_priority j, jb_created_at j)"

definition claim_candidates :: "datetime \<Rightarrow> nat \<Rightarrow> db \<Rightarrow> uuid list" where
  "claim_candidates now batch_size s =
     map jb_id (take batch_size (sort_key claim_order (filter (claimable now) (db_jobs s))))"

definition lease_job :: "string \<Rightarrow> uuid \<Rightarrow> datetime \<Rightarrow> int \<Rightarrow> job \<Rightarrow> job" where
  "lease_job worker token now lease_seconds j =
     j\<lparr>jb_status := JobStatus.RUNNING, jb_lease_token := Some token,
       jb_leased_by := Some worker, jb_lease_expires_at := Some (now + seconds lease_seconds),
       jb_heartbeat_at := Some now, jb_attempt_count := jb_attempt_count j + 1,
       jb_started_at := Some now\<rparr>"

definition new_attempt :: "uuid \<Rightarrow> job \<Rightarrow> string \<Rightarrow> datetime \<Rightarrow> job_attempt" where
  "new_attempt i j worker now =
     \<lparr>ja_id = i, ja_job_id = jb_id j, ja_attempt_number = jb_attempt_count j,
      ja_lease_token = jb_lease_token j, ja_leased_by = Some worker, ja_started_at = now,
      ja_completed_at = None, ja_outcome_status = None, ja_error_code = None,
      ja_error_detail = None\<rparr>"

text \<open>
  The body of the claim loop for one candidate: lease the job under a fresh token and insert its
  attempt row, whose unique constraint is \<open>(job_id, attempt_number)\<close>.
\<close>

definition claim_one :: "string \<Rightarrow> datetime \<Rightarrow> int \<Rightarrow> uuid \<Rightarrow> job tx" where
  "claim_one worker now lease_seconds i s =
     (case get_by jb_id i (db_jobs s) of
        None \<Rightarrow> Inl AssertionError
      | Some j0 \<Rightarrow>
          (let j = lease_job worker (db_next s) now lease_seconds j0;
               a = new_attempt (Suc (db_next s)) j worker now
           in if \<exists>r \<in> set (db_attempts s). ja_job_id r = ja_job_id a \<and>
                    ja_attempt_number r = ja_attempt_number a
              then Inl IntegrityError
              else Inr (j, s\<lparr>db_jobs := update_where (\<lambda>r. jb_id r = i) (\<lambda>_. j) (db_jobs s),
                            db_attempts := db_attempts s @ [a],
                            db_next := Suc (Suc (db_next s))\<rparr>)))"

fun claim_all :: "string \<Rightarrow> datetime \<Rightarrow> int \<Rightarrow> uuid list \<Rightarrow> job list tx" where
  "claim_all worker now lease_seconds [] s = Inr ([], s)"
| "claim_all worker now lease_seconds (i # is) s =
     bind_result (claim_one worker now lease_seconds i s) (\<lambda>(j, s').
     bind_result (claim_all worker now lease_seconds is s') (\<lambda>(js, s'').
     Inr (j # js, s'')))"

definition claim :: "string \<Rightarrow> int \<Rightarrow> nat \<Rightarrow> datetime \<Rightarrow> job list tx" where
  "claim worker lease_seconds batch_size now s =
     claim_all worker now lease_seconds (claim_candidates now batch_size s) s"

definition heartbeat :: "uuid \<Rightarrow> uuid \<Rightarrow> int \<Rightarrow> datetime \<Rightarrow> db \<Rightarrow> bool \<times> db" where
  "heartbeat i token extend_seconds now s =
     (let p = (\<lambda>r. jb_id r = i \<and> jb_lease_token r = Some token \<and> jb_status r = JobStatus.RUNNING)
      in (length (filter p (db_jobs s)) = 1,
          s\<lparr>db_jobs := update_where p
             (\<lambda>r. r\<lparr>jb_heartbeat_at := Some now,
                   jb_lease_expires_at := Some (now + seconds extend_seconds)\<rparr>) (db_jobs s)\<rparr>))"

definition COMPLETION_STATUSES :: "JobStatus list" where
  "COMPLETION_STATUSES = [JobStatus.SUCCEEDED, JobStatus.FAILED_RETRYABLE,
     JobStatus.FAILED_TERMINAL, JobStatus.CANCELLED, JobStatus.BLOCKED, JobStatus.CACHED]"

text \<open>What \<open>complete\<close> does to the loaded job, the retry limit included.\<close>

definition finish_job ::
  "JobStatus \<Rightarrow> string option \<Rightarrow> json option \<Rightarrow> int \<Rightarrow> datetime \<Rightarrow> job \<Rightarrow> job" where
  "finish_job status0 error_code error_detail retry_delay now j0 =
     (let exhausted = (status0 = JobStatus.FAILED_RETRYABLE \<and>
                       jb_max_attempts j0 \<le> jb_attempt_count j0);
          status = (if exhausted then JobStatus.FAILED_TERMINAL else status0);
          j1 = (if exhausted then j0\<lparr>jb_terminal_reason := Some ''max_attempts_exhausted''\<rparr> else j0);
          j2 = j1\<lparr>jb_status := status, jb_error_code := error_code,
                 jb_error_detail := error_detail, jb_lease_token := None, jb_leased_by := None,
                 jb_lease_expires_at := None\<rparr>
      in if status = JobStatus.FAILED_RETRYABLE
         then j2\<lparr>jb_next_attempt_at := Some (now + seconds retry_delay)\<rparr>
         else j2\<lparr>jb_completed_at := Some now\<rparr>)"

definition complete ::
  "uuid \<Rightarrow> uuid \<Rightarrow> JobStatus \<Rightarrow> string option \<Rightarrow> json option \<Rightarrow> int \<Rightarrow> datetime \<Rightarrow> bool tx" where
  "complete i token status error_code error_detail retry_delay now s =
     (if status \<notin> set COMPLETION_STATUSES then Inl ValueError
      else bind_result
        (scalar_one_or_none
          (filter (\<lambda>r. jb_id r = i \<and> jb_lease_token r = Some token) (db_jobs s)))
        (\<lambda>found. case found of
           None \<Rightarrow> Inr (False, s)
         | Some j0 \<Rightarrow>
             (let j = finish_job status error_code error_detail retry_delay now j0;
                  p = (\<lambda>a. ja_job_id a = i \<and> ja_attempt_number a = jb_attempt_count j)
              in bind_result (scalar_one_or_none (filter p (db_attempts s)))
                (\<lambda>_. Inr (True,
                   s\<lparr>db_jobs := update_where (\<lambda>r. jb_id r = i) (\<lambda>_. j) (db_jobs s),
                     db_attempts := update_where p
                       (\<lambda>a. a\<lparr>ja_completed_at := Some now, ja_outcome_status := Some (jb_status j),
                             ja_error_code := error_code\<rparr>) (db_attempts s)\<rparr>)))))"

definition lease_expired :: "datetime \<Rightarrow> job \<Rightarrow> bool" where
  "lease_expired now j \<longleftrightarrow> jb_status j = JobStatus.RUNNING \<and>
     (case jb_lease_expires_at j of None \<Rightarrow> False | Some t \<Rightarrow> t < now)"

definition release_expired :: "datetime \<Rightarrow> job \<Rightarrow> job" where
  "release_expired now j = j\<lparr>jb_status := JobStatus.FAILED_RETRYABLE, jb_lease_token := None,
     jb_leased_by := None, jb_lease_expires_at := None, jb_error_code := Some ''LEASE_EXPIRED'',
     jb_next_attempt_at := Some now\<rparr>"

definition recover_expired_leases :: "datetime \<Rightarrow> db \<Rightarrow> nat \<times> db" where
  "recover_expired_leases now s =
     (length (filter (lease_expired now) (db_jobs s)),
      s\<lparr>db_jobs := update_where (lease_expired now) (release_expired now) (db_jobs s)\<rparr>)"

definition queue_depth :: "db \<Rightarrow> nat" where
  "queue_depth s = length (filter (\<lambda>j. jb_status j \<in> set CLAIMABLE_STATUSES) (db_jobs s))"

section \<open>The invariant\<close>

text \<open>
  Per job: a lease exactly while it runs, and no more attempts than allowed.  Across jobs: primary
  keys, lease tokens and live identities are unique, and every identifier in use was drawn before.
\<close>

definition job_ok :: "job \<Rightarrow> bool" where
  "job_ok j \<longleftrightarrow>
     (jb_lease_token j \<noteq> None \<longleftrightarrow> jb_status j = JobStatus.RUNNING) \<and>
     (jb_lease_token j \<noteq> None \<longleftrightarrow> jb_leased_by j \<noteq> None) \<and>
     (jb_lease_token j \<noteq> None \<longleftrightarrow> jb_lease_expires_at j \<noteq> None) \<and>
     0 \<le> jb_attempt_count j \<and> jb_attempt_count j \<le> max 0 (jb_max_attempts j)"

definition tokens_unique :: "job list \<Rightarrow> bool" where
  "tokens_unique js \<longleftrightarrow> (\<forall>i \<in> set js. \<forall>j \<in> set js. \<forall>t.
     jb_lease_token i = Some t \<and> jb_lease_token j = Some t \<longrightarrow> jb_id i = jb_id j)"

definition identities_unique :: "job list \<Rightarrow> bool" where
  "identities_unique js \<longleftrightarrow> distinct (map job_identity (filter job_live js))"

definition attempts_ok :: "job list \<Rightarrow> job_attempt list \<Rightarrow> bool" where
  "attempts_ok js as \<longleftrightarrow>
     distinct (map (\<lambda>a. (ja_job_id a, ja_attempt_number a)) as) \<and>
     (\<forall>a \<in> set as. 1 \<le> ja_attempt_number a \<and> (\<exists>j \<in> set js. jb_id j = ja_job_id a \<and>
        ja_attempt_number a \<le> jb_attempt_count j))"

definition queue_inv :: "db \<Rightarrow> bool" where
  "queue_inv s \<longleftrightarrow>
     distinct (map jb_id (db_jobs s)) \<and>
     (\<forall>j \<in> set (db_jobs s). job_ok j \<and> jb_id j < db_next s \<and>
        (\<forall>t. jb_lease_token j = Some t \<longrightarrow> t < db_next s)) \<and>
     tokens_unique (db_jobs s) \<and> identities_unique (db_jobs s) \<and>
     attempts_ok (db_jobs s) (db_attempts s)"

section \<open>Each operation keeps the invariant\<close>

lemma identities_unique_update:
  assumes "identities_unique js"
    and "\<And>j. j \<in> set js \<Longrightarrow> p j \<Longrightarrow> job_identity (f j) = job_identity j"
    and "\<And>j. j \<in> set js \<Longrightarrow> p j \<Longrightarrow> job_live (f j) \<Longrightarrow> job_live j"
  shows "identities_unique (update_where p f js)"
proof -
  have sub: "set (map job_identity (filter job_live (update_where p f js))) \<subseteq>
      set (map job_identity (filter job_live js))"
    if "\<And>j. j \<in> set js \<Longrightarrow> p j \<Longrightarrow> job_identity (f j) = job_identity j"
      and "\<And>j. j \<in> set js \<Longrightarrow> p j \<Longrightarrow> job_live (f j) \<Longrightarrow> job_live j" for js
    using that by (force simp: set_update_where)
  show ?thesis
    using assms unfolding identities_unique_def
  proof (induction js)
    case (Cons j js)
    then have IH: "distinct (map job_identity (filter job_live (update_where p f js)))"
      by (simp split: if_splits)
    show ?case
      using Cons.prems IH sub [of js] by (auto split: if_splits)
  qed simp
qed

lemma attempts_ok_update:
  assumes "attempts_ok js as"
    and "\<And>j. j \<in> set js \<Longrightarrow> p j \<Longrightarrow> jb_id (f j) = jb_id j \<and> jb_attempt_count j \<le> jb_attempt_count (f j)"
  shows "attempts_ok (update_where p f js) as"
  unfolding attempts_ok_def
proof (intro conjI ballI)
  show "distinct (map (\<lambda>a. (ja_job_id a, ja_attempt_number a)) as)"
    using assms(1) by (simp add: attempts_ok_def)
  fix a assume a: "a \<in> set as"
  then show "1 \<le> ja_attempt_number a" using assms(1) by (simp add: attempts_ok_def)
  from a obtain j where j: "j \<in> set js" "jb_id j = ja_job_id a"
      "ja_attempt_number a \<le> jb_attempt_count j"
    using assms(1) unfolding attempts_ok_def by blast
  show "\<exists>j \<in> set (update_where p f js). jb_id j = ja_job_id a \<and>
      ja_attempt_number a \<le> jb_attempt_count j"
  proof (rule bexI [where x = "if p j then f j else j"])
    show "jb_id (if p j then f j else j) = ja_job_id a \<and>
        ja_attempt_number a \<le> jb_attempt_count (if p j then f j else j)"
      using j assms(2) [of j] by auto
    show "(if p j then f j else j) \<in> set (update_where p f js)"
      unfolding set_update_where using j(1) by (rule imageI)
  qed
qed

text \<open>An update that keeps keys and identities, revives nothing and adds no lease.\<close>

definition keeps_job :: "job \<Rightarrow> job \<Rightarrow> bool" where
  "keeps_job j j' \<longleftrightarrow> jb_id j' = jb_id j \<and> job_identity j' = job_identity j \<and>
     (job_live j' \<longrightarrow> job_live j) \<and> jb_attempt_count j' = jb_attempt_count j \<and>
     (jb_lease_token j' = None \<or> jb_lease_token j' = jb_lease_token j)"

lemma queue_inv_update:
  assumes inv: "queue_inv s"
    and keep: "\<And>j. j \<in> set (db_jobs s) \<Longrightarrow> p j \<Longrightarrow> keeps_job j (f j) \<and> job_ok (f j)"
    and s': "db_jobs s' = update_where p f (db_jobs s)" "db_next s' = db_next s"
      "map (\<lambda>a. (ja_job_id a, ja_attempt_number a)) (db_attempts s') =
       map (\<lambda>a. (ja_job_id a, ja_attempt_number a)) (db_attempts s)"
  shows "queue_inv s'"
proof -
  let ?js = "db_jobs s"
  let ?key = "\<lambda>a. (ja_job_id a, ja_attempt_number a)"
  have ids: "map jb_id (update_where p f ?js) = map jb_id ?js"
    by (rule map_update_where) (use keep in \<open>auto simp: keeps_job_def\<close>)
  have jobs: "job_ok j \<and> jb_id j < db_next s \<and> (\<forall>t. jb_lease_token j = Some t \<longrightarrow> t < db_next s)"
    if "j \<in> set (update_where p f ?js)" for j
    using that inv keep unfolding queue_inv_def keeps_job_def
    by (elim in_update_whereE) (metis option.distinct(1))+
  have toks: "tokens_unique (update_where p f ?js)"
    unfolding tokens_unique_def
  proof (intro ballI allI impI)
    fix i j t
    assume i: "i \<in> set (update_where p f ?js)" and j: "j \<in> set (update_where p f ?js)"
      and t: "jb_lease_token i = Some t \<and> jb_lease_token j = Some t"
    have old: "\<exists>r \<in> set ?js. jb_id r = jb_id k \<and> jb_lease_token r = Some t"
      if "k \<in> set (update_where p f ?js)" "jb_lease_token k = Some t" for k
      using that keep unfolding keeps_job_def by (elim in_update_whereE) (metis option.distinct(1))+
    from old [OF i] old [OF j] t inv show "jb_id i = jb_id j"
      unfolding queue_inv_def tokens_unique_def by metis
  qed
  have idents: "identities_unique (update_where p f ?js)"
    using inv keep by (intro identities_unique_update) (auto simp: queue_inv_def keeps_job_def)
  have "attempts_ok (update_where p f ?js) (db_attempts s)"
    using inv keep by (intro attempts_ok_update) (auto simp: queue_inv_def keeps_job_def)
  then have "attempts_ok (update_where p f ?js) (db_attempts s')"
  proof -
    assume *: "attempts_ok (update_where p f ?js) (db_attempts s)"
    have "?key ` set (db_attempts s') = ?key ` set (db_attempts s)"
      using s'(3) by (metis list.set_map)
    then have "\<exists>b \<in> set (db_attempts s). ?key b = ?key a" if "a \<in> set (db_attempts s')" for a
      using that by (metis (no_types, lifting) image_iff)
    with * s'(3) show ?thesis unfolding attempts_ok_def by (metis (no_types, lifting) prod.inject)
  qed
  then show ?thesis
    using ids jobs toks idents inv s' unfolding queue_inv_def by simp
qed

lemma queue_inv_heartbeat:
  assumes "queue_inv s"
  shows "queue_inv (snd (heartbeat i token ext now s))"
proof (rule queue_inv_update [OF assms])
  show "db_jobs (snd (heartbeat i token ext now s)) =
      update_where (\<lambda>r. jb_id r = i \<and> jb_lease_token r = Some token \<and> jb_status r = JobStatus.RUNNING)
        (\<lambda>r. r\<lparr>jb_heartbeat_at := Some now,
              jb_lease_expires_at := Some (now + seconds ext)\<rparr>) (db_jobs s)"
    by (simp add: heartbeat_def Let_def)
qed (use assms in \<open>auto simp: heartbeat_def Let_def keeps_job_def job_ok_def job_identity_def
       job_live_def queue_inv_def\<close>)

lemma queue_inv_recover:
  assumes "queue_inv s"
  shows "queue_inv (snd (recover_expired_leases now s))"
proof (rule queue_inv_update [OF assms])
  show "db_jobs (snd (recover_expired_leases now s)) =
      update_where (lease_expired now) (release_expired now) (db_jobs s)"
    by (simp add: recover_expired_leases_def)
qed (use assms in \<open>auto simp: recover_expired_leases_def keeps_job_def job_ok_def job_identity_def
       job_live_def queue_inv_def release_expired_def lease_expired_def\<close>)

lemma finish_job_simps [simp]:
  "jb_id (finish_job st ec ed rd now j) = jb_id j"
  "job_identity (finish_job st ec ed rd now j) = job_identity j"
  "jb_attempt_count (finish_job st ec ed rd now j) = jb_attempt_count j"
  "jb_max_attempts (finish_job st ec ed rd now j) = jb_max_attempts j"
  "jb_lease_token (finish_job st ec ed rd now j) = None"
  "jb_leased_by (finish_job st ec ed rd now j) = None"
  "jb_lease_expires_at (finish_job st ec ed rd now j) = None"
  by (simp_all add: finish_job_def Let_def job_identity_def)

lemma finish_job_status:
  "jb_status (finish_job st ec ed rd now j) =
     (if st = JobStatus.FAILED_RETRYABLE \<and> jb_max_attempts j \<le> jb_attempt_count j
      then JobStatus.FAILED_TERMINAL else st)"
  by (simp add: finish_job_def Let_def)

lemma keeps_finish_job:
  assumes "job_ok j" "jb_lease_token j \<noteq> None" "st \<in> set COMPLETION_STATUSES"
  shows "keeps_job j (finish_job st ec ed rd now j) \<and> job_ok (finish_job st ec ed rd now j)"
  using assms
  by (auto simp: keeps_job_def job_ok_def job_live_def finish_job_status COMPLETION_STATUSES_def)

text \<open>What a completion does, on the branch where the lease matches.\<close>

lemma complete_InrD:
  assumes "complete i token st ec ed rd now s = Inr (b, s')"
  obtains (stale) "\<not> b" "s' = s"
      "\<forall>j \<in> set (db_jobs s). jb_id j = i \<longrightarrow> jb_lease_token j \<noteq> Some token"
    | (finished) j where "b" "j \<in> set (db_jobs s)" "jb_id j = i" "jb_lease_token j = Some token"
      "st \<in> set COMPLETION_STATUSES"
      "s' = s\<lparr>db_jobs := update_where (\<lambda>r. jb_id r = i)
                (\<lambda>_. finish_job st ec ed rd now j) (db_jobs s),
              db_attempts := update_where
                (\<lambda>a. ja_job_id a = i \<and> ja_attempt_number a = jb_attempt_count j)
                (\<lambda>a. a\<lparr>ja_completed_at := Some now,
                      ja_outcome_status := Some (jb_status (finish_job st ec ed rd now j)),
                      ja_error_code := ec\<rparr>) (db_attempts s)\<rparr>"
proof -
  let ?q = "\<lambda>r. jb_id r = i \<and> jb_lease_token r = Some token"
  from assms obtain found where st: "st \<in> set COMPLETION_STATUSES"
    and found: "scalar_one_or_none (filter ?q (db_jobs s)) = Inr found"
    by (auto simp: complete_def bind_result_Inr_iff split: if_splits)
  show thesis
  proof (cases found)
    case None
    with assms found st show thesis
      by (intro stale) (auto simp: complete_def scalar_one_or_none_filter_None)
  next
    case (Some j)
    with found have j: "j \<in> set (db_jobs s)" "jb_id j = i" "jb_lease_token j = Some token"
      by (auto dest: scalar_one_or_none_filter_Some)
    with assms found st Some show thesis
      by (intro finished [of j]) (auto simp: complete_def Let_def bind_result_Inr_iff)
  qed
qed

lemma same_job:
  "queue_inv s \<Longrightarrow> i \<in> set (db_jobs s) \<Longrightarrow> j \<in> set (db_jobs s) \<Longrightarrow> jb_id i = jb_id j \<Longrightarrow> i = j"
  by (auto simp: queue_inv_def distinct_map inj_on_def)

lemma queue_inv_complete:
  assumes inv: "queue_inv s" and c: "complete i token st ec ed rd now s = Inr (b, s')"
  shows "queue_inv s'"
  using c
proof (cases rule: complete_InrD)
  case stale
  with inv show ?thesis by simp
next
  case (finished j)
  have ok: "keeps_job j (finish_job st ec ed rd now j) \<and> job_ok (finish_job st ec ed rd now j)"
    using inv finished by (intro keeps_finish_job) (auto simp: queue_inv_def)
  show ?thesis
  proof (rule queue_inv_update [OF inv])
    show "keeps_job r (finish_job st ec ed rd now j) \<and> job_ok (finish_job st ec ed rd now j)"
      if "r \<in> set (db_jobs s)" "jb_id r = i" for r
      using same_job [OF inv that(1) finished(2)] that finished ok by simp
  qed (use finished in \<open>auto intro!: map_update_where\<close>)
qed

lemma queue_inv_enqueue:
  assumes "queue_inv s"
  shows "queue_inv (snd (enqueue jt ih dv li rr pr ma na now s))"
proof -
  let ?j = "new_job (db_next s) jt ih dv li rr pr ma (case na of None \<Rightarrow> now | Some t \<Rightarrow> t) now"
  show ?thesis
  proof (cases "\<exists>r \<in> set (db_jobs s). job_live r \<and> job_identity r = job_identity ?j")
    case True
    with assms show ?thesis by (simp add: enqueue_def)
  next
    case False
    then have ident: "job_identity ?j \<notin> job_identity ` set (filter job_live (db_jobs s))" by auto
    have new: "job_ok ?j" "jb_id ?j = db_next s" "jb_lease_token ?j = None"
      by (simp_all add: job_ok_def new_job_def)
    from False have s': "snd (enqueue jt ih dv li rr pr ma na now s) =
        s\<lparr>db_jobs := db_jobs s @ [?j], db_next := Suc (db_next s)\<rparr>"
      by (simp add: enqueue_def Let_def)
    have "distinct (map jb_id (db_jobs s @ [?j]))"
      using assms new(2) by (auto simp: queue_inv_def)
    moreover have "\<forall>j \<in> set (db_jobs s @ [?j]). job_ok j \<and> jb_id j < Suc (db_next s) \<and>
        (\<forall>t. jb_lease_token j = Some t \<longrightarrow> t < Suc (db_next s))"
      using assms new by (auto simp: queue_inv_def less_Suc_eq)
    moreover have "tokens_unique (db_jobs s @ [?j])"
      using assms new(3) by (auto simp: queue_inv_def tokens_unique_def)
    moreover have "identities_unique (db_jobs s @ [?j])"
      using assms ident by (simp add: queue_inv_def identities_unique_def)
    moreover have "attempts_ok (db_jobs s @ [?j]) (db_attempts s)"
      using assms by (auto simp: queue_inv_def attempts_ok_def)
    ultimately show ?thesis unfolding s' by (simp add: queue_inv_def)
  qed
qed

lemma lease_job_simps [simp]:
  "jb_id (lease_job w t now ls j) = jb_id j"
  "job_identity (lease_job w t now ls j) = job_identity j"
  "jb_status (lease_job w t now ls j) = JobStatus.RUNNING"
  "jb_lease_token (lease_job w t now ls j) = Some t"
  "jb_attempt_count (lease_job w t now ls j) = jb_attempt_count j + 1"
  "jb_max_attempts (lease_job w t now ls j) = jb_max_attempts j"
  by (simp_all add: lease_job_def job_identity_def)

lemma lease_job_ok:
  "job_ok j \<Longrightarrow> jb_attempt_count j < jb_max_attempts j \<Longrightarrow> job_ok (lease_job w t now ls j)"
  by (auto simp: job_ok_def lease_job_def)

lemma new_attempt_simps [simp]:
  "ja_job_id (new_attempt i j w now) = jb_id j"
  "ja_attempt_number (new_attempt i j w now) = jb_attempt_count j"
  by (simp_all add: new_attempt_def)

lemma attempt_le:
  assumes inv: "queue_inv s" and j: "j \<in> set (db_jobs s)"
    and a: "a \<in> set (db_attempts s)" "ja_job_id a = jb_id j"
  shows "ja_attempt_number a \<le> jb_attempt_count j"
proof -
  obtain r where r: "r \<in> set (db_jobs s)" "jb_id r = ja_job_id a"
      "ja_attempt_number a \<le> jb_attempt_count r"
    using inv a(1) unfolding queue_inv_def attempts_ok_def by blast
  then have "r = j" using same_job [OF inv r(1) j] a(2) by simp
  with r(3) show ?thesis by simp
qed

lemma claim_one_ok:
  assumes inv: "queue_inv s" and j0: "j0 \<in> set (db_jobs s)" "jb_id j0 = i"
    and free: "jb_attempt_count j0 < jb_max_attempts j0" "job_live j0"
  shows "claim_one w now ls i s =
    Inr (lease_job w (db_next s) now ls j0,
      s\<lparr>db_jobs := update_where (\<lambda>r. jb_id r = i) (\<lambda>_. lease_job w (db_next s) now ls j0) (db_jobs s),
        db_attempts := db_attempts s @
          [new_attempt (Suc (db_next s)) (lease_job w (db_next s) now ls j0) w now],
        db_next := Suc (Suc (db_next s))\<rparr>)"
proof -
  have get: "get_by jb_id i (db_jobs s) = Some j0"
    using inv j0 by (auto simp: queue_inv_def get_by_Some_iff)
  have "ja_attempt_number a \<noteq> jb_attempt_count j0 + 1"
    if "a \<in> set (db_attempts s)" "ja_job_id a = i" for a
    using attempt_le [OF inv j0(1) that(1)] that(2) j0(2) by simp
  with get j0(2) show ?thesis by (auto simp: claim_one_def Let_def)
qed

lemma queue_inv_claim_one:
  assumes inv: "queue_inv s" and j0: "j0 \<in> set (db_jobs s)" "jb_id j0 = i"
    and free: "jb_attempt_count j0 < jb_max_attempts j0" "job_live j0"
    and c: "claim_one w now ls i s = Inr (j, s')"
  shows "queue_inv s'"
proof -
  let ?j = "lease_job w (db_next s) now ls j0"
  let ?js = "update_where (\<lambda>r. jb_id r = i) (\<lambda>_. ?j) (db_jobs s)"
  have s': "db_jobs s' = ?js" "db_next s' = Suc (Suc (db_next s))"
      "db_attempts s' = db_attempts s @ [new_attempt (Suc (db_next s)) ?j w now]"
    using c claim_one_ok [OF inv j0 free] by auto
  have only: "r = j0" if "r \<in> set (db_jobs s)" "jb_id r = i" for r
    using same_job [OF inv that(1) j0(1)] that(2) j0(2) by simp
  have mem: "r = ?j \<or> r \<in> set (db_jobs s) \<and> jb_id r \<noteq> i" if "r \<in> set ?js" for r
    using that by (auto simp: set_update_where)
  have ids: "map jb_id ?js = map jb_id (db_jobs s)"
    by (rule map_update_where) (simp add: j0(2))
  have ok: "job_ok j0" "jb_id j0 < db_next s" using inv j0(1) by (auto simp: queue_inv_def)
  have jobs: "\<forall>r \<in> set ?js. job_ok r \<and> jb_id r < Suc (Suc (db_next s)) \<and>
      (\<forall>t. jb_lease_token r = Some t \<longrightarrow> t < Suc (Suc (db_next s)))"
    using inv ok lease_job_ok [OF ok(1) free(1)] mem
    by (auto simp: queue_inv_def dest!: mem)
  have old_tok: "t < db_next s" if "r \<in> set (db_jobs s)" "jb_lease_token r = Some t" for r t
    using inv that by (auto simp: queue_inv_def)
  have toks: "tokens_unique ?js"
    unfolding tokens_unique_def
  proof (intro ballI allI impI)
    fix r1 r2 t
    assume r: "r1 \<in> set ?js" "r2 \<in> set ?js"
      and t: "jb_lease_token r1 = Some t \<and> jb_lease_token r2 = Some t"
    from mem [OF r(1)] mem [OF r(2)] show "jb_id r1 = jb_id r2"
    proof (elim disjE conjE)
      assume "r1 \<in> set (db_jobs s)" "r2 \<in> set (db_jobs s)"
      with t inv show ?thesis unfolding queue_inv_def tokens_unique_def by blast
    qed (use t old_tok in \<open>force+\<close>)
  qed
  have idents: "identities_unique ?js"
    using inv only free(2) by (intro identities_unique_update) (auto simp: queue_inv_def)
  have att: "attempts_ok ?js (db_attempts s)"
    using inv only by (intro attempts_ok_update) (auto simp: queue_inv_def)
  have new: "?j \<in> set ?js"
    using j0 by (force simp: set_update_where)
  have fresh: "(i, jb_attempt_count j0 + 1) \<notin>
      (\<lambda>a. (ja_job_id a, ja_attempt_number a)) ` set (db_attempts s)"
    using attempt_le [OF inv j0(1)] j0(2) by fastforce
  have "attempts_ok ?js (db_attempts s')"
    unfolding attempts_ok_def s'
  proof (intro conjI ballI)
    show "distinct (map (\<lambda>a. (ja_job_id a, ja_attempt_number a))
        (db_attempts s @ [new_attempt (Suc (db_next s)) ?j w now]))"
      using att fresh j0(2) by (simp add: attempts_ok_def)
    fix a assume a: "a \<in> set (db_attempts s @ [new_attempt (Suc (db_next s)) ?j w now])"
    show "1 \<le> ja_attempt_number a"
      using a att ok(1) by (auto simp: attempts_ok_def job_ok_def)
    from a show "\<exists>r \<in> set ?js. jb_id r = ja_job_id a \<and> ja_attempt_number a \<le> jb_attempt_count r"
      using att unfolding attempts_ok_def by (auto intro: bexI [OF _ new])
  qed
  with ids jobs toks idents inv s' show ?thesis by (simp add: queue_inv_def)
qed

section \<open>Claiming a batch\<close>

text \<open>The jobs a batch may hold: they exist, may be tried again and their row is live.\<close>

definition ready :: "uuid \<Rightarrow> db \<Rightarrow> bool" where
  "ready i s \<longleftrightarrow> (\<exists>j \<in> set (db_jobs s). jb_id j = i \<and>
     jb_attempt_count j < jb_max_attempts j \<and> job_live j)"

text \<open>What a batch does to one of its jobs: a lease under a token that was never drawn before.\<close>

definition leased_in :: "string \<Rightarrow> datetime \<Rightarrow> int \<Rightarrow> db \<Rightarrow> job \<Rightarrow> bool" where
  "leased_in w now ls s j \<longleftrightarrow> (\<exists>j0 \<in> set (db_jobs s). \<exists>t. db_next s \<le> t \<and>
     j = lease_job w t now ls j0)"

text \<open>
  The outcome of a batch: exactly the given jobs, leased; every other job as it was; no job lost.
\<close>

definition claim_post ::
  "string \<Rightarrow> datetime \<Rightarrow> int \<Rightarrow> uuid list \<Rightarrow> db \<Rightarrow> job list \<Rightarrow> db \<Rightarrow> bool" where
  "claim_post w now ls is s js s' \<longleftrightarrow> queue_inv s' \<and> db_next s \<le> db_next s' \<and> map jb_id js = is \<and>
     (\<forall>j \<in> set js. leased_in w now ls s j \<and> j \<in> set (db_jobs s')) \<and>
     (\<forall>r. jb_id r \<notin> set is \<longrightarrow> (r \<in> set (db_jobs s') \<longleftrightarrow> r \<in> set (db_jobs s))) \<and>
     jb_id ` set (db_jobs s') = jb_id ` set (db_jobs s)"

lemma claim_all_ok:
  assumes "queue_inv s" "distinct is" "\<forall>i \<in> set is. ready i s"
  shows "\<exists>js s'. claim_all w now ls is s = Inr (js, s') \<and> claim_post w now ls is s js s'"
  using assms
proof (induction "is" arbitrary: s)
  case Nil
  then show ?case by (simp add: claim_post_def)
next
  case (Cons i "is")
  obtain j0 where j0: "j0 \<in> set (db_jobs s)" "jb_id j0 = i"
      "jb_attempt_count j0 < jb_max_attempts j0" "job_live j0"
    using Cons.prems(3) by (auto simp: ready_def)
  let ?j = "lease_job w (db_next s) now ls j0"
  obtain s1 where one: "claim_one w now ls i s = Inr (?j, s1)"
    and s1: "db_jobs s1 = update_where (\<lambda>r. jb_id r = i) (\<lambda>_. ?j) (db_jobs s)"
      "db_next s1 = Suc (Suc (db_next s))"
    using claim_one_ok [OF Cons.prems(1) j0] by simp
  have inv1: "queue_inv s1" by (rule queue_inv_claim_one [OF Cons.prems(1) j0 one])
  have mem1: "r \<in> set (db_jobs s1) \<longleftrightarrow> r = ?j \<or> r \<in> set (db_jobs s) \<and> jb_id r \<noteq> i" for r
    using j0 by (auto simp: s1 set_update_where)
  have ids1: "jb_id ` set (db_jobs s1) = jb_id ` set (db_jobs s)"
  proof -
    have "map jb_id (db_jobs s1) = map jb_id (db_jobs s)"
      unfolding s1 by (rule map_update_where) (simp add: j0(2))
    then show ?thesis by (metis list.set_map)
  qed
  have "ready k s1" if "k \<in> set is" for k
  proof -
    from Cons.prems(3) that obtain j where "j \<in> set (db_jobs s)" "jb_id j = k"
        "jb_attempt_count j < jb_max_attempts j" "job_live j"
      by (auto simp: ready_def)
    moreover have "k \<noteq> i" using Cons.prems(2) that by auto
    ultimately show ?thesis unfolding ready_def using mem1 by blast
  qed
  with Cons.IH [OF inv1] Cons.prems(2) obtain js s2 where two:
      "claim_all w now ls is s1 = Inr (js, s2)" "queue_inv s2" "db_next s1 \<le> db_next s2"
      "map jb_id js = is" "\<forall>j \<in> set js. leased_in w now ls s1 j \<and> j \<in> set (db_jobs s2)"
      "\<forall>r. jb_id r \<notin> set is \<longrightarrow> (r \<in> set (db_jobs s2) \<longleftrightarrow> r \<in> set (db_jobs s1))"
      "jb_id ` set (db_jobs s2) = jb_id ` set (db_jobs s1)"
    by (auto simp: claim_post_def)
  have "leased_in w now ls s j" if "j \<in> set js" for j
  proof -
    have "jb_id j \<in> set is" unfolding two(4) [symmetric] using that by simp
    then have "jb_id j \<noteq> i" using Cons.prems(2) by auto
    have "leased_in w now ls s1 j" using two(5) that by blast
    then obtain r t where r: "r \<in> set (db_jobs s1)" "db_next s1 \<le> t" "j = lease_job w t now ls r"
      by (auto simp: leased_in_def)
    with \<open>jb_id j \<noteq> i\<close> have "r \<in> set (db_jobs s)"
      using mem1 [of r] j0(2) by auto
    then show ?thesis
      unfolding leased_in_def using r(2,3) s1(2) by (intro bexI [of _ r] exI [of _ t]) auto
  qed
  moreover have "leased_in w now ls s ?j" using j0(1) by (auto simp: leased_in_def)
  moreover have "?j \<in> set (db_jobs s2)"
    using two(6) Cons.prems(2) j0(2) by (auto simp: mem1)
  ultimately show ?case
    using one two s1(2) ids1 j0(2) by (auto simp: mem1 claim_post_def)
qed

lemma claim_candidates_props:
  assumes "queue_inv s"
  shows "distinct (claim_candidates now n s)" "length (claim_candidates now n s) \<le> n"
    "\<forall>i \<in> set (claim_candidates now n s). ready i s \<and>
       (\<exists>j \<in> set (db_jobs s). jb_id j = i \<and> claimable now j)"
proof -
  let ?q = "sort_key claim_order (filter (claimable now) (db_jobs s))"
  have "distinct (map jb_id (filter (claimable now) (db_jobs s)))"
    using assms by (auto simp: queue_inv_def distinct_map_filter)
  then have "distinct (map jb_id ?q)" by (simp add: distinct_map)
  then show "distinct (claim_candidates now n s)"
    unfolding claim_candidates_def take_map [symmetric] by (rule distinct_take)
  show "length (claim_candidates now n s) \<le> n" by (simp add: claim_candidates_def)
  show "\<forall>i \<in> set (claim_candidates now n s). ready i s \<and>
       (\<exists>j \<in> set (db_jobs s). jb_id j = i \<and> claimable now j)"
  proof
    fix i assume "i \<in> set (claim_candidates now n s)"
    then obtain j where "j \<in> set (take n ?q)" and i: "jb_id j = i"
      by (auto simp: claim_candidates_def)
    then have "j \<in> set (db_jobs s)" "claimable now j" by (auto dest: in_set_takeD)
    moreover from this(2) have "jb_attempt_count j < jb_max_attempts j" "job_live j"
      by (auto simp: claimable_def job_live_def CLAIMABLE_STATUSES_def)
    ultimately show "ready i s \<and> (\<exists>j \<in> set (db_jobs s). jb_id j = i \<and> claimable now j)"
      using i unfolding ready_def by blast
  qed
qed

lemma claim_ok:
  assumes "queue_inv s"
  shows "\<exists>js s'. claim w ls n now s = Inr (js, s') \<and>
    claim_post w now ls (claim_candidates now n s) s js s'"
  unfolding claim_def
  using claim_candidates_props [OF assms] by (intro claim_all_ok [OF assms]) auto

lemma claim_InrD:
  "queue_inv s \<Longrightarrow> claim w ls n now s = Inr (js, s') \<Longrightarrow>
   claim_post w now ls (claim_candidates now n s) s js s'"
  using claim_ok [of s w ls n now] by auto

section \<open>Interleaved workers\<close>

text \<open>
  A queue state is the clock and the database.  Every rule is one committed transaction of some
  worker, or time passing; a call that raises commits nothing.
\<close>

inductive queue_step :: "datetime \<times> db \<Rightarrow> datetime \<times> db \<Rightarrow> bool" where
  tick: "t \<le> t' \<Longrightarrow> queue_step (t, s) (t', s)"
| enqueue: "enqueue jt ih dv li rr pr ma na t s = (res, s') \<Longrightarrow> queue_step (t, s) (t, s')"
| claim: "claim w ls n t s = Inr (js, s') \<Longrightarrow> queue_step (t, s) (t, s')"
| heartbeat: "heartbeat i token ext t s = (res, s') \<Longrightarrow> queue_step (t, s) (t, s')"
| complete: "complete i token st ec ed rd t s = Inr (res, s') \<Longrightarrow> queue_step (t, s) (t, s')"
| recover: "recover_expired_leases t s = (k, s') \<Longrightarrow> queue_step (t, s) (t, s')"

inductive queue_run :: "datetime \<times> db \<Rightarrow> datetime \<times> db \<Rightarrow> bool" where
  refl: "queue_run c c"
| step: "queue_run c d \<Longrightarrow> queue_step d e \<Longrightarrow> queue_run c e"

inductive_cases queue_stepE: "queue_step (t, s) (t', s')"

section \<open>What every run keeps\<close>

lemma queue_step_inv:
  "queue_step c d \<Longrightarrow> queue_inv (snd c) \<Longrightarrow> queue_inv (snd d)"
proof (induction rule: queue_step.induct)
  case (enqueue jt ih dv li rr pr ma na t s res s')
  then show ?case using queue_inv_enqueue [of s jt ih dv li rr pr ma na t] by simp
next
  case (claim w ls n t s js s')
  then show ?case by (auto dest: claim_InrD simp: claim_post_def)
next
  case (heartbeat i token ext t s res s')
  then show ?case using queue_inv_heartbeat [of s i token ext t] by simp
next
  case (complete i token st ec ed rd t s res s')
  then show ?case by (auto intro: queue_inv_complete)
next
  case (recover t s k s')
  then show ?case using queue_inv_recover [of s t] by simp
qed simp

lemma queue_run_inv: "queue_run c d \<Longrightarrow> queue_inv (snd c) \<Longrightarrow> queue_inv (snd d)"
  by (induction rule: queue_run.induct) (auto dest: queue_step_inv)

lemma queue_inv_empty: "queue_inv empty_db"
  by (simp add: queue_inv_def empty_db_def tokens_unique_def identities_unique_def attempts_ok_def)

text \<open>A token no job holds any more; drawn tokens are never drawn again, so it stays dead.\<close>

definition token_dead :: "uuid \<Rightarrow> db \<Rightarrow> bool" where
  "token_dead token s \<longleftrightarrow> token < db_next s \<and>
     (\<forall>j \<in> set (db_jobs s). jb_lease_token j \<noteq> Some token)"

lemma token_dead_update:
  assumes "token_dead token s" "db_next s \<le> db_next s'" "db_jobs s' = update_where p f (db_jobs s)"
    and "\<And>j. j \<in> set (db_jobs s) \<Longrightarrow> p j \<Longrightarrow>
      jb_lease_token (f j) = None \<or> jb_lease_token (f j) = jb_lease_token j"
  shows "token_dead token s'"
  using assms unfolding token_dead_def by (auto simp: set_update_where) (metis option.distinct(1))

lemma queue_step_token_dead:
  "queue_step c d \<Longrightarrow> queue_inv (snd c) \<Longrightarrow> token_dead token (snd c) \<Longrightarrow> token_dead token (snd d)"
proof (induction rule: queue_step.induct)
  case (enqueue jt ih dv li rr pr ma na t s res s')
  then show ?case
    by (auto simp: enqueue_def Let_def token_dead_def new_job_def split: if_splits)
next
  case (claim w ls n t s js s')
  then have post: "claim_post w t ls (claim_candidates t n s) s js s'"
    by (auto dest: claim_InrD)
  have "jb_lease_token r \<noteq> Some token" if r: "r \<in> set (db_jobs s')" for r
  proof (cases "r \<in> set js")
    case True
    with post claim.prems(2) show ?thesis
      by (auto simp: claim_post_def leased_in_def token_dead_def)
  next
    case False
    have "jb_id r \<notin> set (claim_candidates t n s)"
    proof
      assume "jb_id r \<in> set (claim_candidates t n s)"
      then obtain j where "j \<in> set js" "jb_id j = jb_id r"
        using post by (metis (no_types, lifting) claim_post_def image_iff list.set_map)
      with post r False show False
        using same_job [of s' r j] by (auto simp: claim_post_def)
    qed
    with post r claim.prems(2) show ?thesis by (auto simp: claim_post_def token_dead_def)
  qed
  with post claim.prems(2) show ?case by (auto simp: token_dead_def claim_post_def)
next
  case (heartbeat i tok ext t s res s')
  then show ?case
    by (auto simp: heartbeat_def Let_def intro!: token_dead_update [OF heartbeat.prems(2)])
next
  case (complete i tok st ec ed rd t s res s')
  from complete.hyps show ?case
  proof (cases rule: complete_InrD)
    case stale
    with complete.prems show ?thesis by simp
  next
    case (finished j)
    then show ?thesis using complete.prems(2)
      by (auto intro!: token_dead_update [OF complete.prems(2)])
  qed
next
  case (recover t s k s')
  then show ?case
    by (auto simp: recover_expired_leases_def release_expired_def
        intro!: token_dead_update [OF recover.prems(2)])
qed (simp add: token_dead_def)

lemma queue_run_token_dead:
  "queue_run c d \<Longrightarrow> queue_inv (snd c) \<Longrightarrow> token_dead token (snd c) \<Longrightarrow>
   queue_inv (snd d) \<and> token_dead token (snd d)"
  by (induction rule: queue_run.induct) (auto dest: queue_step_inv queue_step_token_dead)

lemma token_dead_complete:
  assumes "token_dead token s" "st \<in> set COMPLETION_STATUSES"
  shows "complete i token st ec ed rd now s = Inr (False, s)"
proof -
  have "filter (\<lambda>r. jb_id r = i \<and> jb_lease_token r = Some token) (db_jobs s) = []"
    using assms(1) by (auto simp: token_dead_def filter_empty_conv)
  then show ?thesis using assms(2) by (simp add: complete_def)
qed

lemma token_dead_heartbeat:
  assumes "token_dead token s"
  shows "heartbeat i token ext now s = (False, s)"
proof -
  have none: "\<not> (jb_id r = i \<and> jb_lease_token r = Some token \<and> jb_status r = JobStatus.RUNNING)"
    if "r \<in> set (db_jobs s)" for r
    using assms that by (auto simp: token_dead_def)
  then have "filter (\<lambda>r. jb_id r = i \<and> jb_lease_token r = Some token \<and>
      jb_status r = JobStatus.RUNNING) (db_jobs s) = []"
    by (auto simp: filter_empty_conv)
  with none show ?thesis by (simp add: heartbeat_def update_where_none)
qed

section \<open>Idempotent enqueueing\<close>

lemma new_job_simps [simp]:
  "jb_id (new_job i jt ih dv li rr pr ma na now) = i"
  "job_identity (new_job i jt ih dv li rr pr ma na now) = (jt, li, ih, dv)"
  "job_live (new_job i jt ih dv li rr pr ma na now)"
  by (simp_all add: new_job_def job_identity_def job_live_def)

lemma enqueue_clash:
  "\<exists>r \<in> set (db_jobs s). job_live r \<and> job_identity r = (jt, li, ih, dv) \<Longrightarrow>
   enqueue jt ih dv li rr pr ma na now s = (None, s)"
  by (simp add: enqueue_def Let_def)

lemma enqueue_fresh:
  "\<forall>r \<in> set (db_jobs s). job_live r \<longrightarrow> job_identity r \<noteq> (jt, li, ih, dv) \<Longrightarrow>
   enqueue jt ih dv li rr pr ma na now s =
     (Some (db_next s), s\<lparr>db_jobs := db_jobs s @
        [new_job (db_next s) jt ih dv li rr pr ma (case na of None \<Rightarrow> now | Some t \<Rightarrow> t) now],
        db_next := Suc (db_next s)\<rparr>)"
  by (auto simp: enqueue_def Let_def)

text \<open>The queue provides the contract of an idempotent insert, with live identity as its index.\<close>

interpretation job_insert: idempotent_insert db_jobs
  "\<lambda>(jt, ih, dv, li, rr, pr, ma, na, now) s.
     (fst (enqueue jt ih dv li rr pr ma na now s) \<noteq> None, snd (enqueue jt ih dv li rr pr ma na now s))"
  "\<lambda>(jt, ih, dv, li, rr, pr, ma, na, now) s.
     new_job (db_next s) jt ih dv li rr pr ma (case na of None \<Rightarrow> now | Some t \<Rightarrow> t) now"
  "\<lambda>(jt, ih, dv, li, rr, pr, ma, na, now) r. job_live r \<and> job_identity r = (jt, li, ih, dv)"
proof (unfold_locales, goal_cases)
  case (1 s i)
  obtain jt ih dv li rr pr ma na now where "i = (jt, ih, dv, li, rr, pr, ma, na, now)"
    by (metis surj_pair)
  with 1 show ?case by (simp add: enqueue_clash)
next
  case (2 s i)
  obtain jt ih dv li rr pr ma na now where "i = (jt, ih, dv, li, rr, pr, ma, na, now)"
    by (metis surj_pair)
  with 2 show ?case by (simp add: enqueue_fresh)
next
  case (3 i s)
  obtain jt ih dv li rr pr ma na now where "i = (jt, ih, dv, li, rr, pr, ma, na, now)"
    by (metis surj_pair)
  then show ?case by simp
qed

section \<open>Jobs that can never run again\<close>

lemma exhausted_step:
  assumes "queue_step c d" "queue_inv (snd c)" "j \<in> set (db_jobs (snd c))"
    and "jb_status j = JobStatus.FAILED_RETRYABLE" "jb_max_attempts j \<le> jb_attempt_count j"
  shows "j \<in> set (db_jobs (snd d))"
  using assms
proof (induction rule: queue_step.induct)
  case (enqueue jt ih dv li rr pr ma na t s res s')
  then show ?case by (auto simp: enqueue_def Let_def split: if_splits)
next
  case (claim w ls n t s js s')
  have "jb_id j \<notin> set (claim_candidates t n s)"
  proof
    assume "jb_id j \<in> set (claim_candidates t n s)"
    then obtain r where "r \<in> set (db_jobs s)" "jb_id r = jb_id j" "claimable t r"
      using claim_candidates_props(3) [of s t n] claim.prems(1) by auto
    then have "claimable t j" using same_job [of s r j] claim.prems by simp
    with claim.prems(4) show False by (simp add: claimable_def)
  qed
  with claim show ?case by (auto dest!: claim_InrD simp: claim_post_def)
next
  case (heartbeat i tok ext t s res s')
  then show ?case by (auto simp: heartbeat_def Let_def intro!: untouched_by_update)
next
  case (complete i tok st ec ed rd t s res s')
  have "jb_lease_token j = None"
    using complete.prems by (auto simp: queue_inv_def job_ok_def)
  from complete.hyps show ?case
  proof (cases rule: complete_InrD)
    case stale
    with complete.prems show ?thesis by simp
  next
    case (finished r)
    have "jb_id j \<noteq> i"
    proof
      assume "jb_id j = i"
      then have "r = j" using same_job [of s r j] finished(2,3) complete.prems(1,2) by simp
      with finished(4) \<open>jb_lease_token j = None\<close> show False by simp
    qed
    moreover have "j \<in> set (db_jobs s)" using complete.prems(2) by simp
    ultimately show ?thesis using finished(6) by (simp add: untouched_by_update)
  qed
next
  case (recover t s k s')
  then have "db_jobs s' = update_where (lease_expired t) (release_expired t) (db_jobs s)"
    by (auto simp: recover_expired_leases_def)
  moreover have "\<not> lease_expired t j" using recover.prems(3) by (simp add: lease_expired_def)
  ultimately show ?case using recover.prems(2) by (simp add: untouched_by_update)
qed simp

lemma exhausted_run:
  assumes "queue_run c d" "queue_inv (snd c)" "j \<in> set (db_jobs (snd c))"
    and "jb_status j = JobStatus.FAILED_RETRYABLE" "jb_max_attempts j \<le> jb_attempt_count j"
  shows "j \<in> set (db_jobs (snd d))"
  using assms
proof (induction rule: queue_run.induct)
  case (step c d e)
  then show ?case using exhausted_step queue_run_inv by blast
qed

section \<open>Properties\<close>

text \<open>A small history: two jobs are enqueued at time 0 and the first is claimed at time 5.\<close>

definition demo_two_jobs :: db where
  "demo_two_jobs = snd (enqueue JobType.GEOCODE ''b'' ''v1'' None None 0 3 None 0
     (snd (enqueue JobType.NORMALIZE ''a'' ''v1'' None None 10 1 None 0 empty_db)))"

definition demo_claimed :: db where
  "demo_claimed = (case claim ''w1'' 300 1 5 demo_two_jobs of Inr (js, s) \<Rightarrow> s | Inl e \<Rightarrow> empty_db)"

lemma demo_two_jobs_inv: "queue_inv demo_two_jobs"
  unfolding demo_two_jobs_def by (intro queue_inv_enqueue queue_inv_empty)

lemma demo_claimed_run: "queue_run (0, demo_two_jobs) (5, demo_claimed)"
proof -
  obtain js s' where c: "claim ''w1'' 300 1 5 demo_two_jobs = Inr (js, s')"
    using claim_ok [OF demo_two_jobs_inv] by blast
  have "queue_run (0, demo_two_jobs) (5, demo_two_jobs)"
    by (rule queue_run.step [OF queue_run.refl]) (rule queue_step.tick, simp)
  moreover have "queue_step (5, demo_two_jobs) (5, demo_claimed)"
    by (rule queue_step.claim [of "''w1''" 300 1 _ _ js])
      (simp add: demo_claimed_def c del: One_nat_def)
  ultimately show ?thesis by (rule queue_run.step)
qed

text \<open>
  C1. Whatever the workers do, from any queue that satisfies the invariant (the empty one does),
  every reachable queue satisfies it: a job holds a lease exactly while it runs, is never tried more
  often than allowed, and no two live jobs share an identity or a lease token.
\<close>
theorem queue_safety:
  assumes "queue_run (t, s) (t', s')" "queue_inv s"
  shows "queue_inv s'"
  using queue_run_inv [OF assms(1)] assms(2) by simp

theorem queue_safety_witness: "queue_inv demo_claimed"
  by (rule queue_safety [OF demo_claimed_run demo_two_jobs_inv])

text \<open>
  C2. Fencing: once a job is completed, the worker's token is worthless in every later state, also
  after the job was retried by someone else.  A second completion or a heartbeat with it reports
  failure and changes nothing.
\<close>
theorem completed_token_is_fenced:
  assumes "queue_inv s" "complete i token st ec ed rd t s = Inr (True, s1)"
    and "queue_run (t, s1) (t', s')" "st' \<in> set COMPLETION_STATUSES"
  shows "complete k token st' ec' ed' rd' now s' = Inr (False, s') \<and>
    heartbeat k token ext now s' = (False, s')"
proof -
  from assms(2) have dead: "token_dead token s1"
  proof (cases rule: complete_InrD)
    case (finished j)
    have "token < db_next s" using assms(1) finished(2,4) by (auto simp: queue_inv_def)
    moreover have "jb_lease_token r \<noteq> Some token" if "r \<in> set (db_jobs s)" "jb_id r \<noteq> i" for r
      using assms(1) finished(2-4) that unfolding queue_inv_def tokens_unique_def by metis
    ultimately show ?thesis
      unfolding finished(6) token_dead_def by (auto simp: set_update_where)
  qed simp
  have "queue_inv s1" by (rule queue_inv_complete [OF assms(1,2)])
  with queue_run_token_dead [OF assms(3)] dead have "token_dead token s'" by simp
  then show ?thesis
    using token_dead_complete [OF _ assms(4)] token_dead_heartbeat by simp
qed

definition demo_completed :: db where
  "demo_completed =
     (case complete 0 2 JobStatus.FAILED_RETRYABLE None None 60 6 demo_claimed of
        Inr (b, s) \<Rightarrow> s | Inl e \<Rightarrow> empty_db)"

lemma demo_completed_eq:
  "complete 0 2 JobStatus.FAILED_RETRYABLE None None 60 6 demo_claimed = Inr (True, demo_completed)"
  by code_simp

theorem completed_token_is_fenced_witness:
  "complete 0 2 JobStatus.SUCCEEDED None None 60 7 demo_completed = Inr (False, demo_completed) \<and>
   heartbeat 0 2 300 7 demo_completed = (False, demo_completed)"
proof -
  have "JobStatus.SUCCEEDED \<in> set COMPLETION_STATUSES" by (simp add: COMPLETION_STATUSES_def)
  then show ?thesis
    using completed_token_is_fenced [OF queue_run_inv [OF demo_claimed_run, simplified, OF demo_two_jobs_inv]
        demo_completed_eq queue_run.refl] by blast
qed

text \<open>
  C3. Claiming never raises on a well-formed queue and takes the best jobs: at most
  \<open>batch_size\<close> of them, each claimable at this moment, all leased and running afterwards in the
  claimed order; a claimable job is left out only when the batch is full and everything taken has
  at least its priority (ties by age).
\<close>
theorem claim_takes_the_best:
  assumes "queue_inv s"
  shows "\<exists>js s'. claim w ls n now s = Inr (js, s') \<and> length js \<le> n \<and>
    sorted (map claim_order js) \<and>
    (\<forall>j \<in> set js. j \<in> set (db_jobs s') \<and> jb_status j = JobStatus.RUNNING \<and>
       jb_leased_by j = Some w \<and>
       (\<exists>j0 \<in> set (db_jobs s). jb_id j0 = jb_id j \<and> claimable now j0)) \<and>
    (\<forall>k \<in> set (db_jobs s). claimable now k \<and> jb_id k \<notin> jb_id ` set js \<longrightarrow>
       length js = n \<and> (\<forall>j \<in> set js. claim_order j \<le> claim_order k))"
proof -
  let ?q = "sort_key claim_order (filter (claimable now) (db_jobs s))"
  obtain js s' where c: "claim w ls n now s = Inr (js, s')"
    and post: "claim_post w now ls (claim_candidates now n s) s js s'"
    using claim_ok [OF assms] by blast
  have ids: "map jb_id js = map jb_id (take n ?q)"
    using post by (simp add: claim_post_def claim_candidates_def)
  have len: "length js = min n (length ?q)"
    using ids by (metis length_map length_take min.commute)
  have leased: "leased_in w now ls s j \<and> j \<in> set (db_jobs s')" if "j \<in> set js" for j
    using post that by (simp add: claim_post_def)
  have order: "claim_order (js ! i) = claim_order (?q ! i)" if "i < length js" for i
  proof -
    obtain j0 t where j0: "j0 \<in> set (db_jobs s)" "js ! i = lease_job w t now ls j0"
      using leased [OF nth_mem [OF \<open>i < length js\<close>]] by (auto simp: leased_in_def)
    have "jb_id (js ! i) = jb_id (?q ! i)"
      using ids that len by (metis length_map min_less_iff_conj nth_map nth_take)
    moreover have "?q ! i \<in> set (db_jobs s)"
      using that len nth_mem [of i ?q] by simp
    ultimately have "j0 = ?q ! i" using same_job [OF assms j0(1)] j0(2) by simp
    then show ?thesis unfolding j0(2) by (simp add: claim_order_def lease_job_def)
  qed
  have orders: "map claim_order js = take n (map claim_order ?q)"
    by (rule nth_equalityI) (simp_all add: len order min.commute)
  have sorted: "sorted (map claim_order js)"
    unfolding orders by (intro sorted_wrt_take) simp
  have each: "jb_status j = JobStatus.RUNNING \<and> jb_leased_by j = Some w \<and>
      (\<exists>j0 \<in> set (db_jobs s). jb_id j0 = jb_id j \<and> claimable now j0)" if "j \<in> set js" for j
  proof -
    have "map jb_id js = claim_candidates now n s" using post by (simp add: claim_post_def)
    then have "jb_id j \<in> set (claim_candidates now n s)" using that by (metis image_eqI list.set_map)
    with claim_candidates_props(3) [OF assms] leased [OF that] show ?thesis
      by (auto simp: leased_in_def lease_job_def)
  qed
  have rest: "length js = n \<and> (\<forall>j \<in> set js. claim_order j \<le> claim_order k)"
    if k: "k \<in> set (db_jobs s)" "claimable now k" "jb_id k \<notin> jb_id ` set js" for k
  proof -
    have waits: "k \<in> set (filter (claimable now) (db_jobs s))" using k by simp
    have "k \<notin> set (take n ?q)" using k(3) ids by (metis image_eqI list.set_map)
    note best = take_sort_key_best [OF waits this]
    have "length js = n" using best(1) ids by (metis length_map)
    moreover have "\<forall>x \<in> set (map claim_order js). x \<le> claim_order k"
      unfolding orders take_map using best(2) by auto
    ultimately show ?thesis by simp
  qed
  show ?thesis using c len sorted each leased rest by (intro exI [of _ js] exI [of _ s']) auto
qed

theorem claim_takes_the_best_witness:
  "queue_inv demo_two_jobs \<and> (\<exists>js s'. claim ''w1'' 300 1 5 demo_two_jobs = Inr (js, s') \<and> length js \<le> 1)"
  using claim_takes_the_best [OF demo_two_jobs_inv] demo_two_jobs_inv by blast

lemma attempts_of_job:
  assumes "queue_inv s" "j \<in> set (db_jobs s)"
  shows "int (length (filter (\<lambda>a. ja_job_id a = jb_id j) (db_attempts s))) \<le> jb_attempt_count j"
proof -
  let ?as = "filter (\<lambda>a. ja_job_id a = jb_id j) (db_attempts s)"
  have "distinct (map (\<lambda>a. (ja_job_id a, ja_attempt_number a)) ?as)"
    using assms(1) by (simp add: queue_inv_def attempts_ok_def distinct_map_filter)
  then have "distinct (map ja_attempt_number ?as)"
    by (auto simp: distinct_map inj_on_def)
  then have "length ?as = card (ja_attempt_number ` set ?as)"
    by (metis distinct_card length_map list.set_map)
  also have "\<dots> \<le> card {1..jb_attempt_count j}"
    using attempt_le [OF assms] assms(1)
    by (intro card_mono) (auto simp: queue_inv_def attempts_ok_def)
  finally have "length ?as \<le> nat (jb_attempt_count j)" by simp
  moreover have "0 \<le> jb_attempt_count j" using assms by (auto simp: queue_inv_def job_ok_def)
  ultimately show ?thesis by linarith
qed

text \<open>
  Work is bounded: in every reachable state a job has at most \<open>max_attempts\<close> attempt rows, and a
  completion that asks for another retry at the limit makes the job terminal instead.
\<close>
theorem attempts_bounded:
  assumes "queue_run (t, s) (t', s')" "queue_inv s" "j \<in> set (db_jobs s')"
  shows "int (length (filter (\<lambda>a. ja_job_id a = jb_id j) (db_attempts s'))) \<le>
      max 0 (jb_max_attempts j) \<and>
    (jb_attempt_count j = jb_max_attempts j \<longrightarrow>
       jb_status (finish_job JobStatus.FAILED_RETRYABLE ec ed rd t' j) = JobStatus.FAILED_TERMINAL)"
proof -
  have inv: "queue_inv s'" using queue_run_inv [OF assms(1)] assms(2) by simp
  have "jb_attempt_count j \<le> max 0 (jb_max_attempts j)"
    using inv assms(3) by (auto simp: queue_inv_def job_ok_def)
  with attempts_of_job [OF inv assms(3)] show ?thesis by (simp add: finish_job_status)
qed

theorem attempts_bounded_witness:
  "int (length (filter (\<lambda>a. ja_job_id a = 0) (db_attempts demo_claimed))) \<le> 1"
proof -
  let ?j = "hd (db_jobs demo_claimed)"
  have j: "?j \<in> set (db_jobs demo_claimed)" "jb_id ?j = 0" "jb_max_attempts ?j = 1" by code_simp+
  from attempts_bounded [OF demo_claimed_run demo_two_jobs_inv j(1)] show ?thesis
    unfolding j(2,3) by simp
qed

text \<open>
  Enqueueing is idempotent: while a live job with the same identity exists the call returns None
  and changes nothing; right after any call a repetition does so; otherwise one PENDING job with no
  attempt is appended.
\<close>
theorem enqueue_idempotent:
  "enqueue jt ih dv li rr pr ma na now (snd (enqueue jt ih dv li rr pr ma na now s)) =
     (None, snd (enqueue jt ih dv li rr pr ma na now s)) \<and>
   (fst (enqueue jt ih dv li rr pr ma na now s) \<noteq> None \<longleftrightarrow>
     (\<forall>r \<in> set (db_jobs s). \<not> (job_live r \<and> job_identity r = (jt, li, ih, dv)))) \<and>
   (\<exists>new. db_jobs (snd (enqueue jt ih dv li rr pr ma na now s)) = db_jobs s @ new \<and> length new \<le> 1)"
  using job_insert.ins_twice [of "(jt, ih, dv, li, rr, pr, ma, na, now)" s]
    job_insert.ins_True_iff [of "(jt, ih, dv, li, rr, pr, ma, na, now)" s]
    job_insert.ins_grows [of "(jt, ih, dv, li, rr, pr, ma, na, now)" s]
  by (auto simp: prod_eq_iff)

theorem enqueue_idempotent_witness:
  "fst (enqueue JobType.NORMALIZE ''h'' ''v1'' None None 100 3 None 0
     (snd (enqueue JobType.NORMALIZE ''h'' ''v1'' None None 100 3 None 0 empty_db))) = None \<and>
   fst (enqueue JobType.NORMALIZE ''h'' ''v1'' None None 100 3 None 0 empty_db) \<noteq> None"
  using enqueue_idempotent [of JobType.NORMALIZE "''h''" "''v1''" None None 100 3 None 0 empty_db]
  by (simp add: empty_db_def)

text \<open>
  C5. A lease that expires on the last allowed attempt strands its job: recovery marks it
  FAILED_RETRYABLE, and from then on, in every reachable state, it is still FAILED_RETRYABLE, is
  never claimable at any time, and blocks a new job of the same identity from being enqueued.
\<close>
theorem expired_last_attempt_is_stranded:
  assumes "queue_inv s" "j \<in> set (db_jobs s)" "lease_expired t j"
    and "jb_max_attempts j \<le> jb_attempt_count j"
    and "queue_run (t, snd (recover_expired_leases t s)) (t', s')"
  shows "\<exists>k \<in> set (db_jobs s'). jb_id k = jb_id j \<and> jb_status k = JobStatus.FAILED_RETRYABLE \<and>
    (\<forall>now. \<not> claimable now k) \<and>
    enqueue (jb_job_type j) (jb_input_hash j) (jb_dependency_version j) (jb_canonical_listing_id j)
      rr pr ma na now s' = (None, s')"
proof -
  let ?k = "release_expired t j" and ?s = "snd (recover_expired_leases t s)"
  have "?k \<in> set (db_jobs ?s)"
    using assms(2,3) by (force simp: recover_expired_leases_def set_update_where)
  moreover have k: "jb_id ?k = jb_id j" "jb_status ?k = JobStatus.FAILED_RETRYABLE"
      "jb_max_attempts ?k \<le> jb_attempt_count ?k" "job_live ?k"
      "job_identity ?k = (jb_job_type j, jb_canonical_listing_id j, jb_input_hash j,
         jb_dependency_version j)"
    using assms(4) by (simp_all add: release_expired_def job_live_def job_identity_def)
  ultimately have stuck: "?k \<in> set (db_jobs s')"
    using exhausted_run [OF assms(5)] queue_inv_recover [OF assms(1)] by simp
  moreover have "\<not> claimable now' ?k" for now' using k(3) by (simp add: claimable_def)
  moreover have "enqueue (jb_job_type j) (jb_input_hash j) (jb_dependency_version j)
      (jb_canonical_listing_id j) rr pr ma na now s' = (None, s')"
    using stuck k(4,5) by (intro enqueue_clash) blast
  ultimately show ?thesis using k(1,2) by blast
qed

theorem expired_last_attempt_is_stranded_witness:
  "\<exists>k \<in> set (db_jobs (snd (recover_expired_leases (hours 1) demo_claimed))).
     jb_id k = 0 \<and> jb_status k = JobStatus.FAILED_RETRYABLE \<and> (\<forall>now. \<not> claimable now k)"
proof -
  let ?j = "hd (db_jobs demo_claimed)"
  have j: "?j \<in> set (db_jobs demo_claimed)" "lease_expired (hours 1) ?j"
      "jb_max_attempts ?j \<le> jb_attempt_count ?j" "jb_id ?j = 0"
    by code_simp+
  have "queue_inv demo_claimed"
    using queue_run_inv [OF demo_claimed_run] demo_two_jobs_inv by simp
  from expired_last_attempt_is_stranded [OF this j(1-3) queue_run.refl] j(4) show ?thesis by metis
qed

end
