(* ===== verification/QueueRefinement.thy ===== *)
theory QueueRefinement
  imports JobQueue
begin

text \<open>
  What the leased queue of \<open>jobs/queue.py\<close> promises to its workers, without tables, clocks, priorities
  or error columns: every job waits, is held under a token that was never handed out before, or is
  closed for good.  \<open>leases\<close> reads this abstract state off the job table, and every interleaving of
  the detailed operations is a run of the abstract lease service (a forward simulation: a claimed
  batch is a sequence of grants, an expiry sweep a sequence of releases).  What holds of the abstract
  service, such as that closing is final, then holds of the job table.
\<close>

section \<open>The lease service\<close>

text \<open>The numbers are the attempts used and allowed; the set holds the identifiers drawn so far.\<close>

datatype lease_phase =
    Waiting int int
  | Held uuid int int
  | Closed JobStatus

type_synonym leases = "(uuid \<Rightarrow> lease_phase option) \<times> uuid set"

inductive lease_step :: "leases \<Rightarrow> leases \<Rightarrow> bool" where
  draw: "D \<subseteq> D' \<Longrightarrow> lease_step (q, D) (q, D')"
| offer: "q i = None \<Longrightarrow> i \<notin> D \<Longrightarrow> lease_step (q, D) (q(i \<mapsto> Waiting 0 m), insert i D)"
| grant: "q i = Some (Waiting n m) \<Longrightarrow> n < m \<Longrightarrow> k \<notin> D \<Longrightarrow>
    lease_step (q, D) (q(i \<mapsto> Held k (n + 1) m), insert k D)"
| release: "q i = Some (Held k n m) \<Longrightarrow> lease_step (q, D) (q(i \<mapsto> Waiting n m), D)"
| close: "q i = Some (Held k n m) \<Longrightarrow> st \<notin> set CLAIMABLE_STATUSES \<Longrightarrow> st \<noteq> JobStatus.RUNNING \<Longrightarrow>
    lease_step (q, D) (q(i \<mapsto> Closed st), D)"

inductive_simps lease_step_iff: "lease_step (q, D) (q', D')"

abbreviation lease_run :: "leases \<Rightarrow> leases \<Rightarrow> bool" where
  "lease_run \<equiv> lease_step\<^sup>*\<^sup>*"

lemma closed_step: "lease_step c d \<Longrightarrow> fst c i = Some (Closed st) \<Longrightarrow> fst d i = Some (Closed st)"
  by (induction rule: lease_step.induct) auto

lemma closed_run: "lease_run c d \<Longrightarrow> fst c i = Some (Closed st) \<Longrightarrow> fst d i = Some (Closed st)"
  by (induction rule: rtranclp_induct) (auto dest: closed_step)

text \<open>Releasing a list of held jobs, one after the other.\<close>

fun released :: "lease_phase \<Rightarrow> lease_phase" where
  "released (Held k n m) = Waiting n m"
| "released p = p"

definition held :: "lease_phase option \<Rightarrow> bool" where
  "held p \<longleftrightarrow> (case p of Some (Held k n m) \<Rightarrow> True | _ \<Rightarrow> False)"

lemma release_run:
  assumes "distinct is" "\<And>i. i \<in> set is \<Longrightarrow> held (q i)"
  shows "lease_run (q, D) ((\<lambda>i. if i \<in> set is then map_option released (q i) else q i), D)"
  using assms
proof (induction "is" arbitrary: q)
  case (Cons i "is")
  obtain k n m where q: "q i = Some (Held k n m)"
    using Cons.prems(2) [of i] by (auto simp: held_def split: option.splits lease_phase.splits)
  let ?q = "q(i \<mapsto> Waiting n m)"
  have "lease_step (q, D) (?q, D)" using q by (rule lease_step.release)
  moreover have "lease_run (?q, D)
      ((\<lambda>j. if j \<in> set is then map_option released (?q j) else ?q j), D)"
    using Cons.prems by (intro Cons.IH) auto
  moreover have "(\<lambda>j. if j \<in> set is then map_option released (?q j) else ?q j) =
      (\<lambda>j. if j \<in> set (i # is) then map_option released (q j) else q j)"
    using Cons.prems(1) q by auto
  ultimately show ?case by (metis converse_rtranclp_into_rtranclp)
qed simp

section \<open>The abstraction of the job table\<close>

definition phase_of :: "job \<Rightarrow> lease_phase" where
  "phase_of j = (case jb_lease_token j of
     Some k \<Rightarrow> Held k (jb_attempt_count j) (jb_max_attempts j)
   | None \<Rightarrow> (if jb_status j \<in> set CLAIMABLE_STATUSES
              then Waiting (jb_attempt_count j) (jb_max_attempts j) else Closed (jb_status j)))"

definition phases :: "job list \<Rightarrow> uuid \<Rightarrow> lease_phase option" where
  "phases js i = map_option phase_of (get_by jb_id i js)"

definition leases :: "db \<Rightarrow> leases" where
  "leases s = (phases (db_jobs s), {..<db_next s})"

lemma phases_update:
  assumes "\<And>j. j \<in> set js \<Longrightarrow> p j \<Longrightarrow> jb_id (f j) = jb_id j"
  shows "phases (update_where p f js) i =
    map_option (\<lambda>j. phase_of (if p j then f j else j)) (get_by jb_id i js)"
  using assms by (simp add: phases_def get_by_update_where option.map_comp o_def)

lemma phases_row:
  "distinct (map jb_id js) \<Longrightarrow> j \<in> set js \<Longrightarrow> phases js (jb_id j) = Some (phase_of j)"
  using get_by_Some_iff [of jb_id js "jb_id j" j] by (simp add: phases_def)

text \<open>Rewriting the one row of a job.\<close>

lemma phases_replace:
  assumes "distinct (map jb_id js)" "j \<in> set js" "jb_id j = i" "jb_id r = i"
  shows "phases (update_where (\<lambda>x. jb_id x = i) (\<lambda>_. r) js) = (phases js)(i \<mapsto> phase_of r)"
proof
  fix k
  have upd: "phases (update_where (\<lambda>x. jb_id x = i) (\<lambda>_. r) js) k =
      map_option (\<lambda>x. phase_of (if jb_id x = i then r else x)) (get_by jb_id k js)"
    using assms(4) by (intro phases_update) simp
  show "phases (update_where (\<lambda>x. jb_id x = i) (\<lambda>_. r) js) k = ((phases js)(i \<mapsto> phase_of r)) k"
  proof (cases "k = i")
    case True
    moreover have "get_by jb_id i js = Some j" using assms by (simp add: get_by_Some_iff)
    ultimately show ?thesis using upd assms(3) by simp
  next
    case False
    then have "map_option (\<lambda>x. phase_of (if jb_id x = i then r else x)) (get_by jb_id k js) =
        map_option phase_of (get_by jb_id k js)"
      by (cases "get_by jb_id k js") (auto dest: get_by_SomeD)
    with upd False show ?thesis by (simp add: phases_def)
  qed
qed

section \<open>The simulation\<close>

lemma enqueue_simulates:
  assumes inv: "queue_inv s" and e: "enqueue jt ih dv li rr pr ma na now s = (res, s')"
  shows "lease_run (leases s) (leases s')"
proof (cases "\<exists>r \<in> set (db_jobs s). job_live r \<and> job_identity r = (jt, li, ih, dv)")
  case True
  with e show ?thesis by (simp add: enqueue_clash)
next
  case False
  let ?j = "new_job (db_next s) jt ih dv li rr pr ma (case na of None \<Rightarrow> now | Some t \<Rightarrow> t) now"
  have s': "db_jobs s' = db_jobs s @ [?j]" "db_next s' = Suc (db_next s)"
    using e False by (auto simp: enqueue_fresh)
  have none: "get_by jb_id (db_next s) (db_jobs s) = None"
    using inv by (auto simp: get_by_None_iff queue_inv_def)
  have "phase_of ?j = Waiting 0 ma"
    by (simp add: phase_of_def new_job_def CLAIMABLE_STATUSES_def)
  with none have "phases (db_jobs s') = (phases (db_jobs s))(db_next s \<mapsto> Waiting 0 ma)"
    by (auto simp: phases_def s' get_by_append get_by_Cons split: option.splits)
  moreover have "{..<db_next s'} = insert (db_next s) {..<db_next s}" by (auto simp: s')
  moreover have "lease_step (leases s)
      ((phases (db_jobs s))(db_next s \<mapsto> Waiting 0 ma), insert (db_next s) {..<db_next s})"
    unfolding leases_def by (rule lease_step.offer) (use none in \<open>simp_all add: phases_def\<close>)
  ultimately show ?thesis by (simp add: leases_def r_into_rtranclp)
qed

text \<open>One candidate of a batch: a waiting job with attempts left.\<close>

definition offered :: "uuid \<Rightarrow> db \<Rightarrow> bool" where
  "offered i s \<longleftrightarrow> (\<exists>n m. phases (db_jobs s) i = Some (Waiting n m) \<and> n < m)"

lemma offeredD:
  assumes "offered i s"
  obtains j where "j \<in> set (db_jobs s)" "jb_id j = i" "jb_attempt_count j < jb_max_attempts j"
    "job_live j" "phase_of j = Waiting (jb_attempt_count j) (jb_max_attempts j)"
proof -
  from assms obtain j where j: "get_by jb_id i (db_jobs s) = Some j"
    and p: "phase_of j = Waiting (jb_attempt_count j) (jb_max_attempts j)"
      "jb_attempt_count j < jb_max_attempts j" "jb_status j \<in> set CLAIMABLE_STATUSES"
    by (auto simp: offered_def phases_def phase_of_def split: option.splits if_splits)
  have "job_live j" using p(3) by (auto simp: job_live_def CLAIMABLE_STATUSES_def)
  with p(1,2) show thesis using get_by_SomeD [OF j] by (intro that [of j]) auto
qed

lemma claim_one_simulates:
  assumes inv: "queue_inv s" and off: "offered i s"
    and c: "claim_one w now ls i s = Inr (j, s')"
  shows "queue_inv s' \<and> lease_run (leases s) (leases s') \<and>
    (\<forall>k. k \<noteq> i \<longrightarrow> phases (db_jobs s') k = phases (db_jobs s) k)"
proof -
  from off obtain j0 where j0: "j0 \<in> set (db_jobs s)" "jb_id j0 = i"
      "jb_attempt_count j0 < jb_max_attempts j0" "job_live j0"
    and w0: "phase_of j0 = Waiting (jb_attempt_count j0) (jb_max_attempts j0)"
    by (rule offeredD)
  let ?j = "lease_job w (db_next s) now ls j0"
  let ?q = "(phases (db_jobs s))(i \<mapsto> phase_of ?j)"
  have keys: "distinct (map jb_id (db_jobs s))" using inv by (simp add: queue_inv_def)
  have s': "db_jobs s' = update_where (\<lambda>r. jb_id r = i) (\<lambda>_. ?j) (db_jobs s)"
      "db_next s' = Suc (Suc (db_next s))"
    using c claim_one_ok [OF inv j0] by auto
  have ph: "phases (db_jobs s') = ?q"
    unfolding s' using keys j0 by (intro phases_replace) auto
  have pj: "phase_of ?j = Held (db_next s) (jb_attempt_count j0 + 1) (jb_max_attempts j0)"
    by (simp add: phase_of_def)
  have "lease_step (leases s) (?q, insert (db_next s) {..<db_next s})"
    unfolding leases_def pj
    by (rule lease_step.grant) (use phases_row [OF keys j0(1)] j0 w0 in simp_all)
  moreover have "lease_step (?q, insert (db_next s) {..<db_next s}) (leases s')"
    unfolding leases_def ph by (rule lease_step.draw) (auto simp: s')
  ultimately have "lease_run (leases s) (leases s')" by (meson rtranclp.simps)
  moreover have "queue_inv s'" by (rule queue_inv_claim_one [OF inv j0 c])
  ultimately show ?thesis using ph by simp
qed

lemma claim_all_simulates:
  assumes "queue_inv s" "distinct is" "\<And>i. i \<in> set is \<Longrightarrow> offered i s"
    and "claim_all w now ls is s = Inr (js, s')"
  shows "lease_run (leases s) (leases s')"
  using assms
proof (induction "is" arbitrary: s js)
  case (Cons i "is")
  from Cons.prems(4) obtain j s1 js' where one: "claim_one w now ls i s = Inr (j, s1)"
    and rest: "claim_all w now ls is s1 = Inr (js', s')"
    by (auto simp: bind_result_Inr_iff)
  have sim: "queue_inv s1" "lease_run (leases s) (leases s1)"
      "\<forall>k. k \<noteq> i \<longrightarrow> phases (db_jobs s1) k = phases (db_jobs s) k"
    using claim_one_simulates [OF Cons.prems(1) _ one] Cons.prems(3) by auto
  have "offered k s1" if "k \<in> set is" for k
  proof -
    have "k \<noteq> i" "offered k s" using Cons.prems(2,3) that by auto
    with sim(3) show ?thesis by (simp add: offered_def)
  qed
  with Cons.IH [OF sim(1) _ _ rest] Cons.prems(2) have "lease_run (leases s1) (leases s')" by simp
  with sim(2) show ?case by (rule rtranclp_trans)
qed simp

lemma claim_simulates:
  assumes inv: "queue_inv s" and c: "claim w ls n now s = Inr (js, s')"
  shows "lease_run (leases s) (leases s')"
proof (rule claim_all_simulates [OF inv])
  show "distinct (claim_candidates now n s)" by (rule claim_candidates_props [OF inv])
  show "claim_all w now ls (claim_candidates now n s) s = Inr (js, s')"
    using c by (simp add: claim_def)
  fix i assume "i \<in> set (claim_candidates now n s)"
  then obtain j where j: "j \<in> set (db_jobs s)" "jb_id j = i" "claimable now j"
    using claim_candidates_props(3) [OF inv] by blast
  have keys: "distinct (map jb_id (db_jobs s))" using inv by (simp add: queue_inv_def)
  have "job_ok j" using inv j(1) by (simp add: queue_inv_def)
  with j(3) have "phase_of j = Waiting (jb_attempt_count j) (jb_max_attempts j)"
    by (auto simp: phase_of_def job_ok_def claimable_def CLAIMABLE_STATUSES_def)
  with phases_row [OF keys j(1)] j show "offered i s"
    by (auto simp: offered_def claimable_def)
qed

lemma heartbeat_simulates:
  assumes "heartbeat i token ext now s = (res, s')"
  shows "lease_run (leases s) (leases s')"
proof -
  let ?p = "\<lambda>r. jb_id r = i \<and> jb_lease_token r = Some token \<and> jb_status r = JobStatus.RUNNING"
  let ?f = "\<lambda>r. r\<lparr>jb_heartbeat_at := Some now, jb_lease_expires_at := Some (now + seconds ext)\<rparr>"
  have s': "db_jobs s' = update_where ?p ?f (db_jobs s)" "db_next s' = db_next s"
    using assms by (auto simp: heartbeat_def Let_def)
  have "phases (db_jobs s') = phases (db_jobs s)"
  proof
    fix k
    have "phases (db_jobs s') k =
        map_option (\<lambda>j. phase_of (if ?p j then ?f j else j)) (get_by jb_id k (db_jobs s))"
      unfolding s' by (rule phases_update) simp
    also have "\<dots> = map_option phase_of (get_by jb_id k (db_jobs s))"
      by (rule option.map_cong0) (simp add: phase_of_def)
    finally show "phases (db_jobs s') k = phases (db_jobs s) k" by (simp add: phases_def)
  qed
  then have "leases s' = leases s" by (simp add: leases_def s'(2))
  then show ?thesis by simp
qed

lemma complete_simulates:
  assumes inv: "queue_inv s" and c: "complete i token st ec ed rd now s = Inr (b, s')"
  shows "lease_run (leases s) (leases s')"
  using c
proof (cases rule: complete_InrD)
  case (finished j)
  let ?j = "finish_job st ec ed rd now j"
  have keys: "distinct (map jb_id (db_jobs s))" using inv by (simp add: queue_inv_def)
  have q: "phases (db_jobs s) i = Some (Held token (jb_attempt_count j) (jb_max_attempts j))"
    using phases_row [OF keys finished(2)] finished(3,4) by (simp add: phase_of_def)
  have ph: "leases s' = ((phases (db_jobs s))(i \<mapsto> phase_of ?j), {..<db_next s})"
    using finished(6) keys finished(2,3) by (simp add: leases_def phases_replace)
  show ?thesis
  proof (cases "jb_status ?j \<in> set CLAIMABLE_STATUSES")
    case True
    then have "phase_of ?j = Waiting (jb_attempt_count j) (jb_max_attempts j)"
      by (simp add: phase_of_def)
    with q show ?thesis unfolding leases_def [of s] ph
      by (auto intro!: r_into_rtranclp lease_step.release)
  next
    case False
    moreover have "jb_status ?j \<noteq> JobStatus.RUNNING"
      using finished(5) by (auto simp: finish_job_status COMPLETION_STATUSES_def)
    moreover have "phase_of ?j = Closed (jb_status ?j)" using False by (simp add: phase_of_def)
    ultimately show ?thesis unfolding leases_def [of s] ph
      using q by (auto intro!: r_into_rtranclp lease_step.close)
  qed
qed simp

lemma recover_simulates:
  assumes inv: "queue_inv s" and r: "recover_expired_leases now s = (n, s')"
  shows "lease_run (leases s) (leases s')"
proof -
  let ?is = "map jb_id (filter (lease_expired now) (db_jobs s))"
  have keys: "distinct (map jb_id (db_jobs s))" using inv by (simp add: queue_inv_def)
  have s': "db_jobs s' = update_where (lease_expired now) (release_expired now) (db_jobs s)"
      "db_next s' = db_next s"
    using r by (auto simp: recover_expired_leases_def)
  have exp: "\<exists>k. phase_of j = Held k (jb_attempt_count j) (jb_max_attempts j)"
    if "j \<in> set (db_jobs s)" "lease_expired now j" for j
    using that inv by (auto simp: queue_inv_def job_ok_def lease_expired_def phase_of_def)
  have rel: "phase_of (release_expired now j) = released (phase_of j)"
    if "j \<in> set (db_jobs s)" "lease_expired now j" for j
  proof -
    from exp [OF that] obtain k where "phase_of j = Held k (jb_attempt_count j) (jb_max_attempts j)" ..
    moreover have "phase_of (release_expired now j) =
        Waiting (jb_attempt_count j) (jb_max_attempts j)"
      by (simp add: phase_of_def release_expired_def CLAIMABLE_STATUSES_def)
    ultimately show ?thesis by simp
  qed
  have "phases (db_jobs s') k =
      (if k \<in> set ?is then map_option released (phases (db_jobs s) k) else phases (db_jobs s) k)" for k
  proof -
    have "phases (db_jobs s') k = map_option (\<lambda>j. phase_of (if lease_expired now j
        then release_expired now j else j)) (get_by jb_id k (db_jobs s))"
      unfolding s' by (rule phases_update) (simp add: release_expired_def)
    moreover have "k \<in> set ?is \<longleftrightarrow> lease_expired now j"
      if "get_by jb_id k (db_jobs s) = Some j" for j
      using get_by_SomeD [OF that] same_job [OF inv] by auto
    moreover have "k \<notin> set ?is" if "get_by jb_id k (db_jobs s) = None"
      using that by (auto simp: get_by_None_iff)
    ultimately show ?thesis
      by (cases "get_by jb_id k (db_jobs s)") (auto simp: phases_def rel dest: get_by_SomeD)
  qed
  then have "leases s' = ((\<lambda>k. if k \<in> set ?is then map_option released (phases (db_jobs s) k)
      else phases (db_jobs s) k), {..<db_next s})"
    by (simp add: leases_def s' fun_eq_iff)
  moreover have "lease_run (phases (db_jobs s), {..<db_next s})
      ((\<lambda>k. if k \<in> set ?is then map_option released (phases (db_jobs s) k)
        else phases (db_jobs s) k), {..<db_next s})"
  proof (rule release_run)
    show "distinct ?is" using keys by (simp add: distinct_map_filter)
    fix k assume "k \<in> set ?is"
    then obtain j where "j \<in> set (db_jobs s)" "lease_expired now j" "jb_id j = k" by auto
    with exp [of j] phases_row [OF keys, of j] show "held (phases (db_jobs s) k)"
      by (auto simp: held_def)
  qed
  ultimately show ?thesis by (simp add: leases_def)
qed

lemma queue_step_simulates:
  "queue_step c d \<Longrightarrow> queue_inv (snd c) \<Longrightarrow> lease_run (leases (snd c)) (leases (snd d))"
proof (induction rule: queue_step.induct)
  case (enqueue jt ih dv li rr pr ma na t s res s')
  then show ?case using enqueue_simulates by (simp only: snd_conv)
next
  case (claim w ls n t s js s')
  then show ?case using claim_simulates by (simp only: snd_conv)
next
  case (heartbeat i token ext t s res s')
  then show ?case using heartbeat_simulates by (simp only: snd_conv)
next
  case (complete i token st ec ed rd t s res s')
  then show ?case using complete_simulates by (simp only: snd_conv)
next
  case (recover t s k s')
  then show ?case using recover_simulates by (simp only: snd_conv)
qed simp

lemma queue_run_simulates:
  "queue_run c d \<Longrightarrow> queue_inv (snd c) \<Longrightarrow> lease_run (leases (snd c)) (leases (snd d))"
proof (induction rule: queue_run.induct)
  case (step c d e)
  then show ?case
    using queue_run_inv queue_step_simulates by (meson rtranclp_trans)
qed simp

section \<open>Properties\<close>



text \<open>
  A job that succeeded, failed for good, was cancelled, blocked or served from the cache keeps that
  status for ever: no worker can claim it again or overwrite its outcome.
\<close>
theorem closing_is_final:
  assumes "queue_run (t, s) (t', s')" "queue_inv s" "j \<in> set (db_jobs s)"
    and "jb_status j \<notin> set CLAIMABLE_STATUSES" "jb_status j \<noteq> JobStatus.RUNNING"
  shows "\<exists>j' \<in> set (db_jobs s'). jb_id j' = jb_id j \<and> jb_status j' = jb_status j"
proof -
  have inv': "queue_inv s'" using queue_run_inv [OF assms(1)] assms(2) by simp
  have "job_ok j" using assms(2,3) by (simp add: queue_inv_def)
  with assms(4,5) have "phase_of j = Closed (jb_status j)"
    by (auto simp: job_ok_def phase_of_def)
  then have "fst (leases s) (jb_id j) = Some (Closed (jb_status j))"
    using phases_row assms(2,3) by (simp add: leases_def queue_inv_def)
  then have "fst (leases s') (jb_id j) = Some (Closed (jb_status j))"
    using closed_run queue_run_simulates [OF assms(1)] assms(2) by (metis snd_conv)
  then obtain j' where j': "get_by jb_id (jb_id j) (db_jobs s') = Some j'"
      "phase_of j' = Closed (jb_status j)"
    by (auto simp: leases_def phases_def)
  then have "jb_status j' = jb_status j"
    by (auto simp: phase_of_def split: option.splits if_splits)
  with get_by_SomeD [OF j'(1)] show ?thesis by blast
qed

end
