(* ===== verification/Selection.thy ===== *)
theory Selection
  imports Schema
begin

text \<open>
  \<open>canonical/selection_service.py\<close>: marketing selection and the client shortlist, the state that only a
  person may write.  The locale \<open>human_gate\<close> is the contract of \<open>_require_human\<close>, and
  \<open>audited_gate\<close> adds that every success appends exactly one row of the audit log; both are
  interpreted for all six operations here, and for the merge workflow in its own theory.  The
  clock is the argument \<open>now\<close>; foreign keys are not checked.
\<close>

section \<open>The human gate\<close>

locale human_gate =
  fixes act :: "ActorType \<Rightarrow> 'i \<Rightarrow> 'a tx"
  assumes refused: "a \<noteq> ActorType.HUMAN \<Longrightarrow> act a i s = Inl HumanActionRequired"
begin

lemma success_is_human: "act a i s = Inr x \<Longrightarrow> a = ActorType.HUMAN"
  using refused by fastforce

lemma refused_tx: "a \<noteq> ActorType.HUMAN \<Longrightarrow> run_tx (act a i) s = (Inl HumanActionRequired, s)"
  by (simp add: run_tx_def refused)

lemma automatic_runs_write_nothing: "a \<noteq> ActorType.HUMAN \<Longrightarrow> run_all (act a) is s = s"
  by (induction "is") (simp_all add: refused_tx)

end

locale audited_gate = human_gate +
  assumes audited: "act a i s = Inr (x, s') \<Longrightarrow> \<exists>entry. db_audit_log s' = db_audit_log s @ [entry] \<and>
    al_actor_type entry = ActorType.HUMAN"
begin

lemma audit_grows: "length (db_audit_log (run_all (act a) is s)) \<le> length (db_audit_log s) + length is"
proof (induction "is" arbitrary: s)
  case (Cons i "is")
  have "length (db_audit_log (snd (run_tx (act a i) s))) \<le> Suc (length (db_audit_log s))"
    by (auto simp: run_tx_def dest!: audited split: sum.splits)
  with Cons [of "snd (run_tx (act a i) s)"] show ?case by simp
qed simp

text \<open>An operation that wrote anything has left its row in the log.\<close>

lemma change_is_audited:
  assumes "snd (run_tx (act a i) s) \<noteq> s"
  shows "a = ActorType.HUMAN \<and> length (db_audit_log (snd (run_tx (act a i) s))) = Suc (length (db_audit_log s))"
proof (cases "act a i s")
  case (Inl e)
  then show ?thesis using assms by (simp add: run_tx_def)
next
  case (Inr r)
  obtain x s' where r: "r = (x, s')" by (cases r)
  from Inr have run: "act a i s = Inr (x, s')" by (simp add: r)
  from audited [OF run] have "length (db_audit_log s') = Suc (length (db_audit_log s))" by auto
  then show ?thesis using success_is_human [OF run] run by (simp add: run_tx_def)
qed

end

definition require_human :: "ActorType \<Rightarrow> 'a tx \<Rightarrow> 'a tx" where
  "require_human actor_type body s =
     (if actor_type \<noteq> ActorType.HUMAN then Inl HumanActionRequired else body s)"

lemma require_human_refuses: "a \<noteq> ActorType.HUMAN \<Longrightarrow> require_human a body s = Inl HumanActionRequired"
  by (simp add: require_human_def)

lemma require_human_Inr:
  "require_human a body s = Inr x \<longleftrightarrow> a = ActorType.HUMAN \<and> body s = Inr x"
  by (simp add: require_human_def)

section \<open>Rows\<close>

text \<open>The targets: exactly one of a canonical listing and a company property.\<close>

type_synonym targets = "uuid option \<times> uuid option"

definition one_target :: "targets \<Rightarrow> bool" where
  "one_target t \<longleftrightarrow> (fst t = None) \<noteq> (snd t = None)"

definition target_type :: "targets \<Rightarrow> string" where
  "target_type t = (if fst t \<noteq> None then ''canonical_listing'' else ''company_property'')"

definition target_id :: "targets \<Rightarrow> uuid option" where
  "target_id t = (if fst t \<noteq> None then fst t else snd t)"

text \<open>\<open>target_filter\<close>: a comparison with NULL does not hold.\<close>

definition targets_row :: "targets \<Rightarrow> targets \<Rightarrow> bool" where
  "targets_row t r \<longleftrightarrow> (if fst t \<noteq> None then fst r = fst t else snd t \<noteq> None \<and> snd r = snd t)"

definition new_audit_row ::
  "uuid \<Rightarrow> string \<Rightarrow> ActorType \<Rightarrow> string \<Rightarrow> string \<Rightarrow> uuid option \<Rightarrow> json option \<Rightarrow> json option \<Rightarrow>
   string option \<Rightarrow> audit_action_log" where
  "new_audit_row i actor actor_type action kind target before after reason =
     \<lparr>al_id = i, al_actor = actor, al_actor_type = actor_type, al_action_type = action,
      al_target_type = kind, al_target_id = target, al_before_values = before,
      al_after_values = after, al_reason = reason, al_correlation_id = None\<rparr>"

definition selection_targets :: "marketing_selection \<Rightarrow> targets" where
  "selection_targets r = (ms_canonical_listing_id r, ms_company_property_id r)"

definition entry_targets :: "client_shortlist_entry \<Rightarrow> targets" where
  "entry_targets r = (ce_canonical_listing_id r, ce_company_property_id r)"

section \<open>Marketing selection\<close>

definition new_selection ::
  "uuid \<Rightarrow> targets \<Rightarrow> SelectionStatus \<Rightarrow> string \<Rightarrow> datetime \<Rightarrow> string option \<Rightarrow> marketing_selection" where
  "new_selection i t status actor now note =
     \<lparr>ms_id = i, ms_canonical_listing_id = fst t, ms_company_property_id = snd t,
      ms_selection_status = status, ms_selected_by = actor, ms_selected_at = now, ms_note = note,
      ms_listing_snapshot = None\<rparr>"

definition reselect ::
  "SelectionStatus \<Rightarrow> string \<Rightarrow> datetime \<Rightarrow> string option \<Rightarrow> marketing_selection \<Rightarrow> marketing_selection" where
  "reselect status actor now note r =
     r\<lparr>ms_selection_status := status, ms_selected_by := actor, ms_selected_at := now,
       ms_note := (if note \<noteq> None then note else ms_note r)\<rparr>"

definition set_selection ::
  "targets \<Rightarrow> SelectionStatus \<Rightarrow> string \<Rightarrow> ActorType \<Rightarrow> string option \<Rightarrow> datetime \<Rightarrow> marketing_selection tx" where
  "set_selection t status actor actor_type note now = require_human actor_type (\<lambda>s.
     if \<not> one_target t then Inl ValueError
     else bind_result
       (scalar_one_or_none (filter (\<lambda>r. targets_row t (selection_targets r)) (db_selections s)))
       (\<lambda>current.
          let before = map_option (\<lambda>r. JObj [(''selection_status'',
                JStr (SelectionStatus_value (ms_selection_status r)))]) current;
              (row, rows) = (case current of
                  None \<Rightarrow> (let r = new_selection (db_next s) t status actor now note
                           in (r, db_selections s @ [r]))
                | Some r \<Rightarrow> (let r' = reselect status actor now note r
                            in (r', update_where (\<lambda>x. ms_id x = ms_id r) (\<lambda>_. r') (db_selections s))));
              entry = new_audit_row (Suc (db_next s)) actor actor_type ''marketing_selection_change''
                (target_type t) (target_id t) before
                (Some (JObj [(''selection_status'', JStr (SelectionStatus_value status))])) note
          in Inr (row, s\<lparr>db_selections := rows, db_audit_log := db_audit_log s @ [entry],
                        db_next := Suc (Suc (db_next s))\<rparr>)))"

section \<open>The client shortlist\<close>

definition new_preset ::
  "uuid \<Rightarrow> string \<Rightarrow> json \<Rightarrow> string \<Rightarrow> string \<Rightarrow> string option \<Rightarrow> string option \<Rightarrow> client_search_preset" where
  "new_preset i label filter_definition version actor geometry note =
     \<lparr>cp_id = i, cp_label = label, cp_filter_definition = filter_definition,
      cp_filter_schema_version = version, cp_map_geometry = geometry, cp_note = note,
      cp_created_by = actor, cp_archived_at = None\<rparr>"

definition create_preset ::
  "string \<Rightarrow> json \<Rightarrow> string \<Rightarrow> string option \<Rightarrow> string option \<Rightarrow> string \<Rightarrow> ActorType \<Rightarrow>
   client_search_preset tx" where
  "create_preset label filter_definition version geometry note actor actor_type =
     require_human actor_type (\<lambda>s.
       let preset = new_preset (db_next s) label filter_definition version actor geometry note;
           entry = new_audit_row (Suc (db_next s)) actor actor_type ''client_preset_created''
             ''client_search_preset'' None None (Some (JObj [(''label'', JStr label)])) None
       in if \<exists>r \<in> set (db_presets s). cp_label r = label then Inl IntegrityError
          else Inr (preset, s\<lparr>db_presets := db_presets s @ [preset],
                 db_audit_log := db_audit_log s @ [entry], db_next := Suc (Suc (db_next s))\<rparr>))"

definition new_entry ::
  "uuid \<Rightarrow> uuid \<Rightarrow> targets \<Rightarrow> ShortlistEntryStatus \<Rightarrow> string \<Rightarrow> datetime \<Rightarrow> string option \<Rightarrow>
   client_shortlist_entry" where
  "new_entry i preset t status actor now note =
     \<lparr>ce_id = i, ce_client_search_preset_id = preset, ce_canonical_listing_id = fst t,
      ce_company_property_id = snd t, ce_entry_status = status, ce_added_by = actor,
      ce_added_at = now, ce_note = note\<rparr>"

definition revise_entry ::
  "ShortlistEntryStatus \<Rightarrow> string option \<Rightarrow> client_shortlist_entry \<Rightarrow> client_shortlist_entry" where
  "revise_entry status note r =
     r\<lparr>ce_entry_status := status, ce_note := (if note \<noteq> None then note else ce_note r)\<rparr>"

definition set_entry ::
  "uuid \<Rightarrow> targets \<Rightarrow> ShortlistEntryStatus \<Rightarrow> string \<Rightarrow> ActorType \<Rightarrow> string option \<Rightarrow> datetime \<Rightarrow>
   client_shortlist_entry tx" where
  "set_entry preset t status actor actor_type note now = require_human actor_type (\<lambda>s.
     if \<not> one_target t then Inl ValueError
     else bind_result
       (scalar_one_or_none
         (filter (\<lambda>r. ce_client_search_preset_id r = preset \<and> targets_row t (entry_targets r)) (db_entries s)))
       (\<lambda>current.
          let before = map_option (\<lambda>r. JObj [(''entry_status'',
                JStr (ShortlistEntryStatus_value (ce_entry_status r)))]) current;
              (row, rows) = (case current of
                  None \<Rightarrow> (let r = new_entry (db_next s) preset t status actor now note
                           in (r, db_entries s @ [r]))
                | Some r \<Rightarrow> (let r' = revise_entry status note r
                            in (r', update_where (\<lambda>x. ce_id x = ce_id r) (\<lambda>_. r') (db_entries s))));
              entry = new_audit_row (Suc (db_next s)) actor actor_type ''client_shortlist_change''
                ''client_shortlist_entry'' (target_id t) before
                (Some (JObj [(''entry_status'', JStr (ShortlistEntryStatus_value status))])) note
          in Inr (row, s\<lparr>db_entries := rows, db_audit_log := db_audit_log s @ [entry],
                        db_next := Suc (Suc (db_next s))\<rparr>)))"

text \<open>The common body of the three preset updates: load, assign, audit.\<close>

definition change_preset ::
  "uuid \<Rightarrow> string \<Rightarrow> ActorType \<Rightarrow> string \<Rightarrow> (client_search_preset \<Rightarrow> json option) \<Rightarrow>
   (client_search_preset \<Rightarrow> json option) \<Rightarrow> (client_search_preset \<Rightarrow> client_search_preset) \<Rightarrow>
   client_search_preset tx" where
  "change_preset i actor actor_type action before after assign = require_human actor_type (\<lambda>s.
     case get_by cp_id i (db_presets s) of
       None \<Rightarrow> Inl ValueError
     | Some preset \<Rightarrow>
         (let entry = new_audit_row (db_next s) actor actor_type action ''client_search_preset'' (Some i)
                (before preset) (after preset) None
          in Inr (assign preset,
                  s\<lparr>db_presets := update_where (\<lambda>r. cp_id r = i) assign (db_presets s),
                    db_audit_log := db_audit_log s @ [entry], db_next := Suc (db_next s)\<rparr>)))"

definition or_null :: "json option \<Rightarrow> json" where
  "or_null v = (case v of None \<Rightarrow> JNull | Some x \<Rightarrow> x)"

definition update_profile ::
  "uuid \<Rightarrow> json \<Rightarrow> string \<Rightarrow> ActorType \<Rightarrow> client_search_preset tx" where
  "update_profile i profile actor actor_type =
     change_preset i actor actor_type ''client_profile_updated''
       (\<lambda>p. Some (JObj [(''client_profile'', or_null (json_get ''client_profile'' (cp_filter_definition p)))]))
       (\<lambda>_. Some (JObj [(''client_profile'', profile)]))
       (\<lambda>p. p\<lparr>cp_filter_definition := json_set ''client_profile'' profile (cp_filter_definition p)\<rparr>)"

definition restore_preset :: "uuid \<Rightarrow> string \<Rightarrow> ActorType \<Rightarrow> client_search_preset tx" where
  "restore_preset i actor actor_type =
     change_preset i actor actor_type ''client_preset_restored'' (\<lambda>_. None)
       (\<lambda>p. Some (JObj [(''label'', JStr (cp_label p))])) (\<lambda>p. p\<lparr>cp_archived_at := None\<rparr>)"

definition archive_preset :: "uuid \<Rightarrow> string \<Rightarrow> ActorType \<Rightarrow> datetime \<Rightarrow> client_search_preset tx" where
  "archive_preset i actor actor_type now =
     change_preset i actor actor_type ''client_preset_archived'' (\<lambda>_. None)
       (\<lambda>p. Some (JObj [(''label'', JStr (cp_label p))])) (\<lambda>p. p\<lparr>cp_archived_at := Some now\<rparr>)"

section \<open>The gates\<close>

lemma manual_refusals:
  assumes "a \<noteq> ActorType.HUMAN"
  shows "set_selection t st actor a note now s = Inl HumanActionRequired"
    "set_entry p t est actor a note now s = Inl HumanActionRequired"
    "create_preset label fd version geometry note actor a s = Inl HumanActionRequired"
    "change_preset i actor a action b c f s = Inl HumanActionRequired"
    "update_profile i profile actor a s = Inl HumanActionRequired"
    "restore_preset i actor a s = Inl HumanActionRequired"
    "archive_preset i actor a now s = Inl HumanActionRequired"
  using assms
  by (simp_all add: set_selection_def set_entry_def create_preset_def change_preset_def update_profile_def
      restore_preset_def archive_preset_def require_human_refuses)

lemma set_selection_audit:
  "set_selection t st actor a note now s = Inr (x, s') \<Longrightarrow>
   \<exists>entry. db_audit_log s' = db_audit_log s @ [entry] \<and> al_actor_type entry = ActorType.HUMAN"
  by (auto simp: set_selection_def require_human_Inr bind_result_Inr_iff Let_def new_audit_row_def
      split: if_splits option.splits)

lemma set_entry_audit:
  "set_entry p t st actor a note now s = Inr (x, s') \<Longrightarrow>
   \<exists>entry. db_audit_log s' = db_audit_log s @ [entry] \<and> al_actor_type entry = ActorType.HUMAN"
  by (auto simp: set_entry_def require_human_Inr bind_result_Inr_iff Let_def new_audit_row_def
      split: if_splits option.splits)

lemma create_preset_audit:
  "create_preset label fd version geometry note actor a s = Inr (x, s') \<Longrightarrow>
   \<exists>entry. db_audit_log s' = db_audit_log s @ [entry] \<and> al_actor_type entry = ActorType.HUMAN"
  by (auto simp: create_preset_def require_human_Inr Let_def new_audit_row_def split: if_splits)

lemma change_preset_audit:
  "change_preset i actor a action b c f s = Inr (x, s') \<Longrightarrow>
   \<exists>entry. db_audit_log s' = db_audit_log s @ [entry] \<and> al_actor_type entry = ActorType.HUMAN"
  by (auto simp: change_preset_def require_human_Inr Let_def new_audit_row_def split: option.splits)

lemmas preset_audits =
  change_preset_audit [where action = "''client_profile_updated''", folded update_profile_def]
  change_preset_audit [where action = "''client_preset_restored''", folded restore_preset_def]
  change_preset_audit [where action = "''client_preset_archived''", folded archive_preset_def]

interpretation selection_gate: audited_gate
    "\<lambda>a (t, st, actor, note, now). set_selection t st actor a note now"
  by unfold_locales (auto simp: manual_refusals dest: set_selection_audit split: prod.splits)

interpretation entry_gate: audited_gate
    "\<lambda>a (p, t, st, actor, note, now). set_entry p t st actor a note now"
  by unfold_locales (auto simp: manual_refusals dest: set_entry_audit split: prod.splits)

interpretation create_gate: audited_gate
    "\<lambda>a (label, fd, version, geometry, note, actor). create_preset label fd version geometry note actor a"
  by unfold_locales (auto simp: manual_refusals dest: create_preset_audit split: prod.splits)

interpretation profile_gate: audited_gate "\<lambda>a (i, profile, actor). update_profile i profile actor a"
  by unfold_locales (auto simp: manual_refusals update_profile_def dest: change_preset_audit split: prod.splits)

interpretation restore_gate: audited_gate "\<lambda>a (i, actor). restore_preset i actor a"
  by unfold_locales (auto simp: manual_refusals restore_preset_def dest: change_preset_audit split: prod.splits)

interpretation archive_gate: audited_gate "\<lambda>a (i, actor, now). archive_preset i actor a now"
  by unfold_locales (auto simp: manual_refusals archive_preset_def dest: change_preset_audit split: prod.splits)

text \<open>Any of the six requests, for statements about sequences that mix them.\<close>

datatype ManualRequest =
    SetSelection targets SelectionStatus string "string option" datetime
  | SetEntry uuid targets ShortlistEntryStatus string "string option" datetime
  | CreatePreset string json string "string option" "string option" string
  | UpdateProfile uuid json string
  | RestorePreset uuid string
  | ArchivePreset uuid string datetime

definition only_state :: "('a \<times> db) result \<Rightarrow> (unit \<times> db) result" where
  "only_state r = bind_result r (\<lambda>(_, t). Inr ((), t))"

fun submit :: "ActorType \<Rightarrow> ManualRequest \<Rightarrow> unit tx" where
  "submit a (SetSelection t st actor note now) s = only_state (set_selection t st actor a note now s)"
| "submit a (SetEntry p t st actor note now) s = only_state (set_entry p t st actor a note now s)"
| "submit a (CreatePreset label fd version geometry note actor) s =
     only_state (create_preset label fd version geometry note actor a s)"
| "submit a (UpdateProfile i profile actor) s = only_state (update_profile i profile actor a s)"
| "submit a (RestorePreset i actor) s = only_state (restore_preset i actor a s)"
| "submit a (ArchivePreset i actor now) s = only_state (archive_preset i actor a now s)"

lemma only_state_Inr: "only_state r = Inr (u, s') \<longleftrightarrow> (\<exists>x. r = Inr (x, s'))"
  by (auto simp: only_state_def bind_result_Inr_iff)

lemma submit_refused: "a \<noteq> ActorType.HUMAN \<Longrightarrow> submit a r s = Inl HumanActionRequired"
  by (cases r) (simp_all add: manual_refusals only_state_def)

lemma submit_audit:
  "submit a r s = Inr (x, s') \<Longrightarrow>
   \<exists>entry. db_audit_log s' = db_audit_log s @ [entry] \<and> al_actor_type entry = ActorType.HUMAN"
  by (cases r) (auto simp: only_state_Inr update_profile_def restore_preset_def archive_preset_def
      dest: set_selection_audit set_entry_audit create_preset_audit change_preset_audit)

interpretation submit_gate: audited_gate submit
  by unfold_locales (simp_all add: submit_refused submit_audit)

section \<open>One row per target\<close>

definition selection_inv :: "db \<Rightarrow> bool" where
  "selection_inv s \<longleftrightarrow> distinct (map ms_id (db_selections s)) \<and>
     (\<forall>r \<in> set (db_selections s). ms_id r < db_next s \<and> one_target (selection_targets r)) \<and>
     distinct (map selection_targets (db_selections s))"

definition entry_key :: "client_shortlist_entry \<Rightarrow> uuid \<times> targets" where
  "entry_key r = (ce_client_search_preset_id r, entry_targets r)"

definition entry_inv :: "db \<Rightarrow> bool" where
  "entry_inv s \<longleftrightarrow> distinct (map ce_id (db_entries s)) \<and>
     (\<forall>r \<in> set (db_entries s). ce_id r < db_next s \<and> one_target (entry_targets r)) \<and>
     distinct (map entry_key (db_entries s))"

lemma targets_row_eq: "one_target t \<Longrightarrow> one_target r \<Longrightarrow> targets_row t r \<longleftrightarrow> r = t"
  by (cases t; cases r) (auto simp: one_target_def targets_row_def)

text \<open>
  The shape both services share: a table with a primary key and a unique key, into which a row is
  put, replacing the row with the same unique key if there is one.
\<close>

definition put_row :: "('r \<Rightarrow> uuid) \<Rightarrow> 'r option \<Rightarrow> 'r \<Rightarrow> 'r list \<Rightarrow> 'r list" where
  "put_row pk old row rows = (case old of None \<Rightarrow> rows @ [row]
     | Some r \<Rightarrow> update_where (\<lambda>x. pk x = pk r) (\<lambda>_. row) rows)"

lemma put_row_laws:
  assumes "distinct (map pk rows)" "distinct (map key rows)" "\<forall>r \<in> set rows. pk r < n"
    and "scalar_one_or_none (filter (\<lambda>r. key r = k) rows) = Inr old" "key row = k"
    and "pk row = (case old of None \<Rightarrow> n | Some r \<Rightarrow> pk r)"
  shows "filter (\<lambda>r. key r = k) (put_row pk old row rows) = [row]"
    "filter (\<lambda>r. key r \<noteq> k) (put_row pk old row rows) = filter (\<lambda>r. key r \<noteq> k) rows"
    "distinct (map pk (put_row pk old row rows))" "distinct (map key (put_row pk old row rows))"
    "set (put_row pk old row rows) \<subseteq> insert row (set rows)"
proof -
  have "filter (\<lambda>r. key r = k) (put_row pk old row rows) = [row] \<and>
    filter (\<lambda>r. key r \<noteq> k) (put_row pk old row rows) = filter (\<lambda>r. key r \<noteq> k) rows \<and>
    distinct (map pk (put_row pk old row rows)) \<and> distinct (map key (put_row pk old row rows)) \<and>
    set (put_row pk old row rows) \<subseteq> insert row (set rows)"
  proof (cases old)
    case None
    then have no: "\<forall>r \<in> set rows. key r \<noteq> k"
      using assms(4) by (simp only: scalar_one_or_none_filter_None)
    then have "filter (\<lambda>r. key r = k) rows = []" by (simp add: filter_empty_conv)
    moreover have "pk row \<notin> pk ` set rows" using assms(3,6) None by force
    moreover have "key row \<notin> key ` set rows" using no assms(5) by force
    ultimately show ?thesis using assms(1,2,5) None by (auto simp: put_row_def)
  next
    case (Some r)
    have one: "filter (\<lambda>r. key r = k) rows = [r]"
      using assms(4) Some by (simp add: scalar_one_or_none_SomeD)
    then have r: "r \<in> set rows" "key r = k" by (auto simp: filter_eq_Cons_iff)
    have same: "pk x = pk r \<longleftrightarrow> key x = k" if "x \<in> set rows" for x
      using that r assms(1,2) by (auto simp: distinct_map inj_on_def)
    have key: "key row = key r" "pk row = pk r" using assms(5,6) r(2) Some by simp_all
    have "filter (\<lambda>r. key r = k) (update_where (\<lambda>x. pk x = pk r) (\<lambda>_. row) xs) =
        map (\<lambda>_. row) (filter (\<lambda>r. key r = k) xs) \<and>
      filter (\<lambda>r. key r \<noteq> k) (update_where (\<lambda>x. pk x = pk r) (\<lambda>_. row) xs) = filter (\<lambda>r. key r \<noteq> k) xs \<and>
      map pk (update_where (\<lambda>x. pk x = pk r) (\<lambda>_. row) xs) = map pk xs \<and>
      map key (update_where (\<lambda>x. pk x = pk r) (\<lambda>_. row) xs) = map key xs"
      if "set xs \<subseteq> set rows" for xs
      using that
    proof (induction xs)
      case (Cons x xs)
      then have "pk x = pk r \<longleftrightarrow> key x = k" using same by simp
      with Cons key r(2) assms(5) show ?case by auto
    qed simp
    from this [of rows] one assms(1,2) Some show ?thesis
      by (auto simp: put_row_def set_update_where)
  qed
  then show "filter (\<lambda>r. key r = k) (put_row pk old row rows) = [row]"
    "filter (\<lambda>r. key r \<noteq> k) (put_row pk old row rows) = filter (\<lambda>r. key r \<noteq> k) rows"
    "distinct (map pk (put_row pk old row rows))" "distinct (map key (put_row pk old row rows))"
    "set (put_row pk old row rows) \<subseteq> insert row (set rows)" by blast+
qed

lemma unique_key_total:
  assumes "distinct (map key rows)"
  shows "\<exists>old. scalar_one_or_none (filter (\<lambda>r. key r = k) rows) = Inr old"
  by (rule scalar_one_or_none_filter [where g = key]) (use assms in simp_all)

lemma set_selection_run:
  assumes "selection_inv s" "one_target t"
    and "scalar_one_or_none (filter (\<lambda>r. selection_targets r = t) (db_selections s)) = Inr old"
    and row_def: "row = (case old of None \<Rightarrow> new_selection (db_next s) t st actor now note
      | Some r \<Rightarrow> reselect st actor now note r)"
  shows "set_selection t st actor ActorType.HUMAN note now s = Inr (row,
    s\<lparr>db_selections := put_row ms_id old row (db_selections s),
      db_audit_log := db_audit_log s @ [new_audit_row (Suc (db_next s)) actor ActorType.HUMAN
        ''marketing_selection_change'' (target_type t) (target_id t)
        (map_option (\<lambda>r. JObj [(''selection_status'', JStr (SelectionStatus_value (ms_selection_status r)))]) old)
        (Some (JObj [(''selection_status'', JStr (SelectionStatus_value st))])) note],
      db_next := Suc (Suc (db_next s))\<rparr>)"
proof -
  have "filter (\<lambda>r. targets_row t (selection_targets r)) (db_selections s) =
      filter (\<lambda>r. selection_targets r = t) (db_selections s)"
  proof (rule filter_cong [OF refl])
    fix r assume "r \<in> set (db_selections s)"
    then have "one_target (selection_targets r)" using assms(1) by (simp add: selection_inv_def)
    then show "targets_row t (selection_targets r) = (selection_targets r = t)"
      by (rule targets_row_eq [OF assms(2)])
  qed
  then show ?thesis
    using assms(2,3) by (cases old) (simp_all add: set_selection_def require_human_def put_row_def row_def Let_def)
qed

lemma set_entry_run:
  assumes "entry_inv s" "one_target t"
    and "scalar_one_or_none (filter (\<lambda>r. entry_key r = (p, t)) (db_entries s)) = Inr old"
    and row_def: "row = (case old of None \<Rightarrow> new_entry (db_next s) p t st actor now note
      | Some r \<Rightarrow> revise_entry st note r)"
  shows "set_entry p t st actor ActorType.HUMAN note now s = Inr (row,
    s\<lparr>db_entries := put_row ce_id old row (db_entries s),
      db_audit_log := db_audit_log s @ [new_audit_row (Suc (db_next s)) actor ActorType.HUMAN
        ''client_shortlist_change'' ''client_shortlist_entry'' (target_id t)
        (map_option (\<lambda>r. JObj [(''entry_status'', JStr (ShortlistEntryStatus_value (ce_entry_status r)))]) old)
        (Some (JObj [(''entry_status'', JStr (ShortlistEntryStatus_value st))])) note],
      db_next := Suc (Suc (db_next s))\<rparr>)"
proof -
  have "filter (\<lambda>r. ce_client_search_preset_id r = p \<and> targets_row t (entry_targets r)) (db_entries s) =
      filter (\<lambda>r. entry_key r = (p, t)) (db_entries s)"
  proof (rule filter_cong [OF refl])
    fix r assume "r \<in> set (db_entries s)"
    then have "one_target (entry_targets r)" using assms(1) by (simp add: entry_inv_def)
    then show "(ce_client_search_preset_id r = p \<and> targets_row t (entry_targets r)) = (entry_key r = (p, t))"
      by (simp add: entry_key_def targets_row_eq [OF assms(2)])
  qed
  then show ?thesis
    using assms(2,3) by (cases old) (simp_all add: set_entry_def require_human_def put_row_def row_def Let_def)
qed

section \<open>Properties\<close>

definition demo_presets :: db where
  "demo_presets = empty_db\<lparr>db_presets := [new_preset 9 ''client A'' (JObj []) ''1'' ''op'' None None]\<rparr>"

text \<open>
  C13. Only people write manual state: for any actor that is not HUMAN each of the six operations is
  refused with HumanActionRequired whatever its arguments, any sequence of such requests, mixed in
  any way, leaves the database exactly as it was, and a request of any of the six kinds that
  succeeds came from a person and appended exactly one row, of a human actor, to the audit log.
\<close>
theorem only_humans_select:
  assumes "a \<noteq> ActorType.HUMAN"
  shows "set_selection t st actor a note now s = Inl HumanActionRequired \<and>
    set_entry p t est actor a note now s = Inl HumanActionRequired \<and>
    create_preset label fd version geometry note actor a s = Inl HumanActionRequired \<and>
    update_profile i profile actor a s = Inl HumanActionRequired \<and>
    restore_preset i actor a s = Inl HumanActionRequired \<and>
    archive_preset i actor a now s = Inl HumanActionRequired \<and>
    run_all (submit a) requests s = s \<and>
    (\<forall>u s'. submit b request s = Inr (u, s') \<longrightarrow> b = ActorType.HUMAN \<and>
       (\<exists>entry. db_audit_log s' = db_audit_log s @ [entry] \<and> al_actor_type entry = ActorType.HUMAN))"
proof (intro conjI allI impI)
  show "run_all (submit a) requests s = s"
    by (rule submit_gate.automatic_runs_write_nothing [OF assms])
  fix u s' assume run: "submit b request s = Inr (u, s')"
  show "b = ActorType.HUMAN" by (rule submit_gate.success_is_human [OF run])
  show "\<exists>entry. db_audit_log s' = db_audit_log s @ [entry] \<and> al_actor_type entry = ActorType.HUMAN"
    by (rule submit_audit [OF run])
qed (simp_all add: manual_refusals [OF assms])

theorem only_humans_select_witness:
  "run_all (submit ActorType.SYSTEM) [ArchivePreset 9 ''job'' 7, RestorePreset 9 ''job''] demo_presets = demo_presets \<and>
   (\<exists>s'. submit ActorType.HUMAN (ArchivePreset 9 ''op'' 7) demo_presets = Inr ((), s') \<and>
      length (db_audit_log s') = Suc (length (db_audit_log demo_presets)))"
proof -
  have "(case submit ActorType.HUMAN (ArchivePreset 9 ''op'' 7) demo_presets of Inr _ \<Rightarrow> True | Inl _ \<Rightarrow> False)"
    by code_simp
  then obtain s' where r: "submit ActorType.HUMAN (ArchivePreset 9 ''op'' 7) demo_presets = Inr ((), s')"
    by (auto split: sum.splits)
  have "ActorType.SYSTEM \<noteq> ActorType.HUMAN" by simp
  note law = only_humans_select [OF this, where s = demo_presets and b = ActorType.HUMAN
      and requests = "[ArchivePreset 9 ''job'' 7, RestorePreset 9 ''job'']" and request = "ArchivePreset 9 ''op'' 7"]
  have "run_all (submit ActorType.SYSTEM) [ArchivePreset 9 ''job'' 7, RestorePreset 9 ''job''] demo_presets = demo_presets"
    using law by blast
  moreover obtain entry where "db_audit_log s' = db_audit_log demo_presets @ [entry]" using law r by blast
  ultimately show ?thesis using r by (intro conjI exI [of _ s']) simp_all
qed

text \<open>
  A selection by a person sets exactly its target: it never fails for exactly one target, leaves
  one row for it with the new status and actor, keeps the row of every other target, touches neither
  presets nor shortlist entries, and appends one audit row with the status before and after; with no
  or two targets it raises ValueError.
\<close>
theorem set_selection_sets_one_row:
  assumes "selection_inv s"
  shows "if one_target t
    then \<exists>row s' entry. set_selection t st actor ActorType.HUMAN note now s = Inr (row, s') \<and> selection_inv s' \<and>
      filter (\<lambda>r. selection_targets r = t) (db_selections s') = [row] \<and>
      ms_selection_status row = st \<and> ms_selected_by row = actor \<and>
      filter (\<lambda>r. selection_targets r \<noteq> t) (db_selections s') =
        filter (\<lambda>r. selection_targets r \<noteq> t) (db_selections s) \<and>
      (db_presets s', db_entries s', db_listings s') = (db_presets s, db_entries s, db_listings s) \<and>
      db_audit_log s' = db_audit_log s @ [entry] \<and> al_target_id entry = target_id t \<and>
      al_before_values entry = (case filter (\<lambda>r. selection_targets r = t) (db_selections s) of
        [] \<Rightarrow> None | r # _ \<Rightarrow> Some (JObj [(''selection_status'', JStr (SelectionStatus_value (ms_selection_status r)))])) \<and>
      al_after_values entry = Some (JObj [(''selection_status'', JStr (SelectionStatus_value st))])
    else set_selection t st actor ActorType.HUMAN note now s = Inl ValueError"
proof (cases "one_target t")
  case False
  then show ?thesis by (simp add: set_selection_def require_human_def)
next
  case True
  note inv = assms [unfolded selection_inv_def]
  obtain old where old: "scalar_one_or_none (filter (\<lambda>r. selection_targets r = t) (db_selections s)) = Inr old"
    using unique_key_total [of selection_targets "db_selections s" t] inv by blast
  let ?row = "case old of None \<Rightarrow> new_selection (db_next s) t st actor now note
      | Some r \<Rightarrow> reselect st actor now note r"
  note run = set_selection_run [OF assms True old refl, of st actor "note" now]
  have was: "r \<in> set (db_selections s) \<and> selection_targets r = t" if "old = Some r" for r
    using old that by (intro scalar_one_or_none_filter_Some) simp
  have row: "selection_targets ?row = t" "ms_id ?row = (case old of None \<Rightarrow> db_next s | Some r \<Rightarrow> ms_id r)"
    "ms_selection_status ?row = st" "ms_selected_by ?row = actor"
    using was by (auto simp: new_selection_def reselect_def selection_targets_def split: option.split)
  have bound: "\<forall>r \<in> set (db_selections s). ms_id r < db_next s" using inv by blast
  have dist: "distinct (map ms_id (db_selections s))" "distinct (map selection_targets (db_selections s))" using inv by blast+
  note laws = put_row_laws [OF dist bound old row(1,2)]
  have low: "ms_id ?row < Suc (Suc (db_next s))"
    using was bound by (force simp: row(2) split: option.split intro: less_SucI)
  have "selection_inv (s\<lparr>db_selections := put_row ms_id old ?row (db_selections s),
      db_audit_log := log, db_next := Suc (Suc (db_next s))\<rparr>)" for log
    unfolding selection_inv_def
  proof (intro conjI ballI)
    fix r
    assume "r \<in> set (db_selections (s\<lparr>db_selections := put_row ms_id old ?row (db_selections s),
      db_audit_log := log, db_next := Suc (Suc (db_next s))\<rparr>))"
    then have "r = ?row \<or> r \<in> set (db_selections s)" using laws(5) by auto
    then show "ms_id r < db_next (s\<lparr>db_selections := put_row ms_id old ?row (db_selections s),
      db_audit_log := log, db_next := Suc (Suc (db_next s))\<rparr>)" "one_target (selection_targets r)"
      using low row(1) True inv by (auto intro: less_SucI)
  qed (use laws(3,4) in simp_all)
  moreover have "map_option (\<lambda>r. JObj [(''selection_status'', JStr (SelectionStatus_value (ms_selection_status r)))]) old =
      (case filter (\<lambda>r. selection_targets r = t) (db_selections s) of
        [] \<Rightarrow> None | r # _ \<Rightarrow> Some (JObj [(''selection_status'', JStr (SelectionStatus_value (ms_selection_status r)))]))"
    using old by (cases "filter (\<lambda>r. selection_targets r = t) (db_selections s)" rule: scalar_one_or_none.cases) auto
  ultimately show ?thesis
    using run True row laws(1,2) by (simp add: new_audit_row_def)
qed

theorem set_selection_sets_one_row_witness:
  "one_target (Some 3, None) \<and> (\<exists>row s'. set_selection (Some 3, None) SelectionStatus.SELECTED ''op''
     ActorType.HUMAN None 0 empty_db = Inr (row, s') \<and> ms_selection_status row = SelectionStatus.SELECTED)"
proof -
  have inv: "selection_inv empty_db" by (simp add: selection_inv_def empty_db_def)
  have one: "one_target (Some 3, None)" by (simp add: one_target_def)
  from set_selection_sets_one_row [OF inv, of "(Some 3, None)" SelectionStatus.SELECTED "''op''" None 0]
  show ?thesis unfolding if_P [OF one] using one by blast
qed

text \<open>
  A shortlist entry is set exactly for its client and target: one row of that key with the new
  status, every other entry as before, and marketing selections untouched: the two manual states are
  independent.
\<close>
theorem set_entry_sets_one_row:
  assumes "entry_inv s" "one_target t"
  shows "\<exists>row s'. set_entry p t st actor ActorType.HUMAN note now s = Inr (row, s') \<and> entry_inv s' \<and>
    filter (\<lambda>r. entry_key r = (p, t)) (db_entries s') = [row] \<and> ce_entry_status row = st \<and>
    filter (\<lambda>r. entry_key r \<noteq> (p, t)) (db_entries s') = filter (\<lambda>r. entry_key r \<noteq> (p, t)) (db_entries s) \<and>
    (db_presets s', db_selections s', db_listings s') = (db_presets s, db_selections s, db_listings s) \<and>
    length (db_audit_log s') = Suc (length (db_audit_log s))"
proof -
  note inv = assms(1) [unfolded entry_inv_def]
  obtain old where old: "scalar_one_or_none (filter (\<lambda>r. entry_key r = (p, t)) (db_entries s)) = Inr old"
    using unique_key_total [of entry_key "db_entries s" "(p, t)"] inv by blast
  let ?row = "case old of None \<Rightarrow> new_entry (db_next s) p t st actor now note
      | Some r \<Rightarrow> revise_entry st note r"
  note run = set_entry_run [OF assms old refl, of st actor "note" now]
  have was: "r \<in> set (db_entries s) \<and> entry_key r = (p, t)" if "old = Some r" for r
    using old that by (intro scalar_one_or_none_filter_Some) simp
  have row: "entry_key ?row = (p, t)" "ce_id ?row = (case old of None \<Rightarrow> db_next s | Some r \<Rightarrow> ce_id r)"
    "ce_entry_status ?row = st"
    using was by (auto simp: new_entry_def revise_entry_def entry_key_def entry_targets_def split: option.split)
  have bound: "\<forall>r \<in> set (db_entries s). ce_id r < db_next s" using inv by blast
  have dist: "distinct (map ce_id (db_entries s))" "distinct (map entry_key (db_entries s))" using inv by blast+
  note laws = put_row_laws [OF dist bound old row(1,2)]
  have low: "ce_id ?row < Suc (Suc (db_next s))"
    using was bound by (force simp: row(2) split: option.split intro: less_SucI)
  have "entry_inv (s\<lparr>db_entries := put_row ce_id old ?row (db_entries s),
      db_audit_log := log, db_next := Suc (Suc (db_next s))\<rparr>)" for log
    unfolding entry_inv_def
  proof (intro conjI ballI)
    fix r
    assume "r \<in> set (db_entries (s\<lparr>db_entries := put_row ce_id old ?row (db_entries s),
      db_audit_log := log, db_next := Suc (Suc (db_next s))\<rparr>))"
    then have "r = ?row \<or> r \<in> set (db_entries s)" using laws(5) by auto
    then show "ce_id r < db_next (s\<lparr>db_entries := put_row ce_id old ?row (db_entries s),
      db_audit_log := log, db_next := Suc (Suc (db_next s))\<rparr>)" "one_target (entry_targets r)"
      using low row(1) assms(2) inv by (auto simp: entry_key_def intro: less_SucI)
  qed (use laws(3,4) in simp_all)
  then show ?thesis using run row laws(1,2) by simp
qed

theorem set_entry_sets_one_row_witness:
  "\<exists>row s'. set_entry 5 (None, Some 4) ShortlistEntryStatus.INCLUDED ''op'' ActorType.HUMAN None 0 empty_db =
     Inr (row, s') \<and> ce_entry_status row = ShortlistEntryStatus.INCLUDED"
proof -
  have "entry_inv empty_db" "one_target (None, Some 4)"
    by (simp_all add: entry_inv_def empty_db_def one_target_def)
  from set_entry_sets_one_row [OF this] show ?thesis by blast
qed

text \<open>
  Removing a client is soft and reversible: archiving and then restoring a preset that was not
  archived gives back every preset (its profile and filters included) and every shortlist entry;
  the profile stored by an update is the one read back and leaves the other filter keys alone.
\<close>
theorem archive_restore_roundtrip:
  assumes "distinct (map cp_id (db_presets s))" "get_by cp_id i (db_presets s) = Some p"
    and "cp_archived_at p = None"
  shows "\<exists>q s1 r s2. archive_preset i actor ActorType.HUMAN now s = Inr (q, s1) \<and>
    cp_archived_at q = Some now \<and> get_by cp_id i (db_presets s1) = Some q \<and>
    restore_preset i actor2 ActorType.HUMAN s1 = Inr (r, s2) \<and>
    db_presets s2 = db_presets s \<and> db_entries s2 = db_entries s \<and> r = p \<and>
    (\<exists>u s3. update_profile i profile actor ActorType.HUMAN s = Inr (u, s3) \<and>
       json_get k (cp_filter_definition u) =
         (if k = ''client_profile'' then Some profile else json_get k (cp_filter_definition p)))"
proof -
  let ?q = "p\<lparr>cp_archived_at := Some now\<rparr>"
  let ?s1 = "s\<lparr>db_presets := update_where (\<lambda>r. cp_id r = i) (\<lambda>r. r\<lparr>cp_archived_at := Some now\<rparr>) (db_presets s),
    db_audit_log := db_audit_log s @ [new_audit_row (db_next s) actor ActorType.HUMAN
      ''client_preset_archived'' ''client_search_preset'' (Some i) None
      (Some (JObj [(''label'', JStr (cp_label p))])) None], db_next := Suc (db_next s)\<rparr>"
  have p: "p \<in> set (db_presets s)" "cp_id p = i" using get_by_SomeD [OF assms(2)] by simp_all
  have arch: "archive_preset i actor ActorType.HUMAN now s = Inr (?q, ?s1)"
    using assms(2) by (simp add: archive_preset_def change_preset_def require_human_def Let_def)
  have found: "get_by cp_id i (db_presets ?s1) = Some ?q"
    using assms(2) p(2) by (simp add: get_by_update_where)
  have undone: "update_where (\<lambda>r. cp_id r = i) (\<lambda>r. r\<lparr>cp_archived_at := None\<rparr>)
      (update_where (\<lambda>r. cp_id r = i) (\<lambda>r. r\<lparr>cp_archived_at := Some now\<rparr>) xs) = xs"
    if "\<forall>x \<in> set xs. cp_id x = i \<longrightarrow> cp_archived_at x = None" for xs
    using that by (induction xs) auto
  have unarchived: "\<forall>x \<in> set (db_presets s). cp_id x = i \<longrightarrow> cp_archived_at x = None"
    using assms(1,3) p by (auto simp: distinct_map inj_on_def)
  have "\<exists>s2. restore_preset i actor2 ActorType.HUMAN ?s1 = Inr (p, s2) \<and>
      db_presets s2 = db_presets s \<and> db_entries s2 = db_entries s"
    using found undone [OF unarchived] assms(3)
    by (simp add: restore_preset_def change_preset_def require_human_def Let_def)
  moreover have "\<exists>u s3. update_profile i profile actor ActorType.HUMAN s = Inr (u, s3) \<and>
       json_get k (cp_filter_definition u) =
         (if k = ''client_profile'' then Some profile else json_get k (cp_filter_definition p))"
    using assms(2)
    by (simp add: update_profile_def change_preset_def require_human_def Let_def json_get_set)
  ultimately obtain s2 where back_again: "restore_preset i actor2 ActorType.HUMAN ?s1 = Inr (p, s2)"
      "db_presets s2 = db_presets s" "db_entries s2 = db_entries s"
    and profile: "\<exists>u s3. update_profile i profile actor ActorType.HUMAN s = Inr (u, s3) \<and>
       json_get k (cp_filter_definition u) =
         (if k = ''client_profile'' then Some profile else json_get k (cp_filter_definition p))"
    by blast
  have archived: "cp_archived_at ?q = Some now" by simp
  from arch archived found back_again profile show ?thesis by blast
qed

theorem archive_restore_roundtrip_witness:
  "\<exists>q s1 r s2. archive_preset 9 ''op'' ActorType.HUMAN 7 demo_presets = Inr (q, s1) \<and>
     restore_preset 9 ''op'' ActorType.HUMAN s1 = Inr (r, s2) \<and> db_presets s2 = db_presets demo_presets"
proof -
  let ?p = "new_preset 9 ''client A'' (JObj []) ''1'' ''op'' None None"
  have "distinct (map cp_id (db_presets demo_presets))" "get_by cp_id 9 (db_presets demo_presets) = Some ?p"
    "cp_archived_at ?p = None"
    by (simp_all add: demo_presets_def new_preset_def get_by_Cons)
  from archive_restore_roundtrip [OF this, of "''op''" 7 "''op''"] show ?thesis by blast
qed

end
