(* ===== verification/Facts.thy ===== *)
theory Facts
  imports Schema
begin

text \<open>
  Evidence and its precedence: \<open>validation/laundry.py\<close> and \<open>canonical/facts.py\<close>.  A fact key of an
  entity has any number of assertions, at most one current resolution, and possibly an active human
  override that outranks every assertion.  \<open>facts_inv\<close> is the two unique indexes behind that; the
  clock is read once per call (\<open>now\<close>).
\<close>

section \<open>The laundry badge\<close>

definition derive_badge_eligibility ::
  "LaundryType \<Rightarrow> ValidationStatus \<Rightarrow> ResolutionStatus \<Rightarrow> bool \<Rightarrow> bool" where
  "derive_badge_eligibility laundry validation resolution human_confirmed =
     (if laundry \<noteq> LaundryType.IN_UNIT_WASHER_DRYER_CONFIRMED then False
      else let validation_ok = validation = ValidationStatus.PASSED \<or>
                 (validation = ValidationStatus.NOT_APPLICABLE \<and> human_confirmed)
           in if \<not> validation_ok then False
              else resolution \<in> {ResolutionStatus.RESOLVED, ResolutionStatus.MANUAL_OVERRIDE})"

section \<open>Recording facts\<close>

definition RESOLUTION_RULE_VERSION :: string where
  "RESOLUTION_RULE_VERSION = ''recency-1''"

definition is_active_override :: "FactEntityType \<Rightarrow> uuid \<Rightarrow> string \<Rightarrow> human_override \<Rightarrow> bool" where
  "is_active_override entity_type entity_id field r \<longleftrightarrow>
     ho_entity_type r = entity_type \<and> ho_entity_id r = entity_id \<and> ho_field_name r = field \<and>
     ho_override_status r = OverrideStatus.ACTIVE"

definition active_override ::
  "FactEntityType \<Rightarrow> uuid \<Rightarrow> string \<Rightarrow> db \<Rightarrow> human_override option result" where
  "active_override entity_type entity_id field s =
     scalar_one_or_none (filter (is_active_override entity_type entity_id field) (db_overrides s))"

definition is_current_resolution :: "FactEntityType \<Rightarrow> uuid \<Rightarrow> string \<Rightarrow> fact_resolution \<Rightarrow> bool" where
  "is_current_resolution entity_type entity_id key r \<longleftrightarrow>
     fr_entity_type r = entity_type \<and> fr_entity_id r = entity_id \<and> fr_fact_key r = key \<and>
     fr_superseded_at r = None"

text \<open>The arguments of \<open>record\<close> that describe one assertion.\<close>

record fact_input =
  fi_entity_type :: FactEntityType
  fi_entity_id :: uuid
  fi_fact_key :: string
  fi_value_json :: "json option"
  fi_value_status :: ValueStatus
  fi_derivation_type :: DerivationType
  fi_confidence :: Confidence
  fi_source_observation_id :: "uuid option"
  fi_evidence_text :: "string option"

definition new_assertion :: "uuid \<Rightarrow> fact_input \<Rightarrow> datetime \<Rightarrow> fact_assertion" where
  "new_assertion i f now =
     \<lparr>fa_id = i, fa_entity_type = fi_entity_type f, fa_entity_id = fi_entity_id f,
      fa_fact_key = fi_fact_key f, fa_value_json = fi_value_json f,
      fa_value_status = fi_value_status f, fa_derivation_type = fi_derivation_type f,
      fa_source_observation_id = fi_source_observation_id f, fa_media_asset_id = None,
      fa_provider_request_id = None, fa_evidence_text = fi_evidence_text f,
      fa_evidence_locator = None, fa_confidence = fi_confidence f,
      fa_validation_status = ValidationStatus.PENDING, fa_model_execution_id = None,
      fa_asserted_at = now, fa_superseded_at = None\<rparr>"

definition new_resolution :: "uuid \<Rightarrow> uuid \<Rightarrow> fact_input \<Rightarrow> fact_resolution" where
  "new_resolution i assertion f =
     \<lparr>fr_id = i, fr_entity_type = fi_entity_type f, fr_entity_id = fi_entity_id f,
      fr_fact_key = fi_fact_key f, fr_effective_assertion_id = Some assertion,
      fr_resolution_status = (if fi_value_status f = ValueStatus.ASSERTED
        then ResolutionStatus.RESOLVED else ResolutionStatus.UNKNOWN),
      fr_resolution_method = ResolutionMethod.RECENCY,
      fr_resolution_rule_version = RESOLUTION_RULE_VERSION, fr_superseded_at = None\<rparr>"

text \<open>
  \<open>FactRecorder.record\<close>: the assertion is stored in any case; without an active override the current
  resolution is superseded and the assertion becomes the effective one.
\<close>

definition record_fact :: "fact_input \<Rightarrow> datetime \<Rightarrow> fact_assertion tx" where
  "record_fact f now s =
     (let a = new_assertion (db_next s) f now;
          s1 = s\<lparr>db_assertions := db_assertions s @ [a], db_next := Suc (db_next s)\<rparr>
      in bind_result (active_override (fi_entity_type f) (fi_entity_id f) (fi_fact_key f) s1)
        (\<lambda>override. case override of
           Some _ \<Rightarrow> Inr (a, s1)
         | None \<Rightarrow>
             Inr (a, s1\<lparr>db_resolutions :=
                 update_where (is_current_resolution (fi_entity_type f) (fi_entity_id f) (fi_fact_key f))
                   (\<lambda>r. r\<lparr>fr_superseded_at := Some now\<rparr>) (db_resolutions s1)
                 @ [new_resolution (db_next s1) (fa_id a) f],
               db_next := Suc (db_next s1)\<rparr>)))"

definition is_open_conflict :: "uuid \<Rightarrow> review_issue \<Rightarrow> bool" where
  "is_open_conflict entity_id r \<longleftrightarrow>
     ri_entity_type r = FactEntityType.LISTING \<and> ri_entity_id r = entity_id \<and>
     ri_issue_type r = ReviewIssueType.CONFLICT \<and> ri_status r = ReviewIssueStatus.OPEN"

definition new_issue ::
  "uuid \<Rightarrow> uuid \<Rightarrow> ReviewIssueType \<Rightarrow> ReviewIssueSeverity \<Rightarrow> json \<Rightarrow> review_issue" where
  "new_issue i entity_id issue_type severity details =
     \<lparr>ri_id = i, ri_entity_type = FactEntityType.LISTING, ri_entity_id = entity_id,
      ri_issue_type = issue_type, ri_severity = severity, ri_status = ReviewIssueStatus.OPEN,
      ri_details = details, ri_resolved_at = None, ri_resolved_by = None,
      ri_resolution_note = None\<rparr>"

definition conflict_details :: "human_override \<Rightarrow> string \<Rightarrow> json \<Rightarrow> json" where
  "conflict_details override key incoming = JObj
     [(''fact_key'', JStr key), (''override_id'', JUuid (ho_id override)),
      (''override_value'', case ho_override_value override of None \<Rightarrow> JNull | Some v \<Rightarrow> v),
      (''incoming_value'', incoming),
      (''reason'', JStr ''new source evidence conflicts with active human override'')]"

definition raise_conflict_with_override ::
  "human_override \<Rightarrow> uuid \<Rightarrow> string \<Rightarrow> json \<Rightarrow> db \<Rightarrow> db" where
  "raise_conflict_with_override override entity_id key incoming s =
     (if \<not> ho_review_on_new_conflict override then s
      else if \<exists>r \<in> set (filter (is_open_conflict entity_id) (db_issues s)).
                json_get ''fact_key'' (ri_details r) = Some (JStr key)
      then s
      else s\<lparr>db_issues := db_issues s @ [new_issue (db_next s) entity_id ReviewIssueType.CONFLICT
               ReviewIssueSeverity.WARNING (conflict_details override key incoming)],
             db_next := Suc (db_next s)\<rparr>)"

section \<open>The unique indexes\<close>

definition one_current :: "fact_resolution list \<Rightarrow> bool" where
  "one_current rs \<longleftrightarrow>
     (\<forall>et i k. length (filter (is_current_resolution et i k) rs) \<le> 1)"

definition one_active :: "human_override list \<Rightarrow> bool" where
  "one_active os \<longleftrightarrow> (\<forall>et i k. length (filter (is_active_override et i k) os) \<le> 1)"

definition facts_inv :: "db \<Rightarrow> bool" where
  "facts_inv s \<longleftrightarrow> one_current (db_resolutions s) \<and> one_active (db_overrides s)"

lemma scalar_length_le_1: "length rs \<le> 1 \<Longrightarrow> scalar_one_or_none rs = Inr (case rs of [] \<Rightarrow> None | r # _ \<Rightarrow> Some r)"
  by (cases rs rule: scalar_one_or_none.cases) auto

lemma active_override_total: "facts_inv s \<Longrightarrow> \<exists>x. active_override et i k s = Inr x"
  unfolding active_override_def facts_inv_def one_active_def by (metis scalar_length_le_1)

lemma active_override_SomeD:
  "active_override et i k s = Inr (Some r) \<Longrightarrow> r \<in> set (db_overrides s) \<and> is_active_override et i k r"
  unfolding active_override_def by (rule scalar_one_or_none_filter_Some)

lemma active_override_NoneD:
  "active_override et i k s = Inr None \<Longrightarrow> \<forall>r \<in> set (db_overrides s). \<not> is_active_override et i k r"
  by (simp add: active_override_def scalar_one_or_none_filter_None)

lemma active_override_cong:
  "db_overrides s' = db_overrides s \<Longrightarrow> active_override et i k s' = active_override et i k s"
  by (simp add: active_override_def)

section \<open>What recording preserves\<close>

text \<open>Inserting one current row after superseding the current rows of its key.\<close>

lemma superseded_not_current [simp]:
  "\<not> is_current_resolution et i k (r\<lparr>fr_superseded_at := Some now\<rparr>)"
  by (simp add: is_current_resolution_def)

lemma new_resolution_current:
  "is_current_resolution et i k (new_resolution n a f) \<longleftrightarrow>
     et = fi_entity_type f \<and> i = fi_entity_id f \<and> k = fi_fact_key f"
  by (auto simp: is_current_resolution_def new_resolution_def)

lemma filter_superseded_same:
  "filter (is_current_resolution et i k)
     (update_where (is_current_resolution et i k) (\<lambda>r. r\<lparr>fr_superseded_at := Some now\<rparr>) rs) = []"
  by (induction rs) auto

lemma filter_superseded_other:
  assumes "(et, i, k) \<noteq> (et', i', k')"
  shows "filter (is_current_resolution et' i' k')
     (update_where (is_current_resolution et i k) (\<lambda>r. r\<lparr>fr_superseded_at := Some now\<rparr>) rs) =
     filter (is_current_resolution et' i' k') rs"
proof (induction rs)
  case (Cons r rs)
  then show ?case using assms by (auto simp: is_current_resolution_def)
qed simp

lemma record_fact_cases:
  assumes "record_fact f now s = Inr (a, s')"
  obtains
    (overridden) override where
      "active_override (fi_entity_type f) (fi_entity_id f) (fi_fact_key f) s = Inr (Some override)"
      "a = new_assertion (db_next s) f now"
      "s' = s\<lparr>db_assertions := db_assertions s @ [a], db_next := Suc (db_next s)\<rparr>"
  | (resolved)
      "active_override (fi_entity_type f) (fi_entity_id f) (fi_fact_key f) s = Inr None"
      "a = new_assertion (db_next s) f now"
      "s' = s\<lparr>db_assertions := db_assertions s @ [a], db_next := Suc (Suc (db_next s)),
             db_resolutions :=
               update_where (is_current_resolution (fi_entity_type f) (fi_entity_id f) (fi_fact_key f))
                 (\<lambda>r. r\<lparr>fr_superseded_at := Some now\<rparr>) (db_resolutions s)
               @ [new_resolution (Suc (db_next s)) (fa_id a) f]\<rparr>"
proof -
  let ?ao = "active_override (fi_entity_type f) (fi_entity_id f) (fi_fact_key f)"
  have same: "?ao (s\<lparr>db_assertions := as, db_next := n\<rparr>) = ?ao s" for as n
    by (rule active_override_cong) simp
  show thesis
  proof (cases "?ao s")
    case (Inl e)
    with assms show ?thesis by (simp add: record_fact_def Let_def same)
  next
    case (Inr x)
    show ?thesis
    proof (cases x)
      case None
      with Inr assms show ?thesis
        by (intro resolved) (auto simp: record_fact_def Let_def same)
    next
      case (Some ov)
      with Inr assms show ?thesis
        by (intro overridden) (auto simp: record_fact_def Let_def same)
    qed
  qed
qed

lemma record_fact_total:
  assumes "facts_inv s"
  shows "\<exists>a s'. record_fact f now s = Inr (a, s')"
proof -
  obtain x where "active_override (fi_entity_type f) (fi_entity_id f) (fi_fact_key f) s = Inr x"
    using active_override_total [OF assms] by blast
  then show ?thesis
    by (auto simp: record_fact_def Let_def active_override_def split: option.splits)
qed

lemma record_fact_inv:
  assumes "facts_inv s" "record_fact f now s = Inr (a, s')"
  shows "facts_inv s'"
  using assms(2)
proof (cases rule: record_fact_cases)
  case resolved
  have "length (filter (is_current_resolution et i k) (db_resolutions s')) \<le> 1" for et i k
  proof (cases "(fi_entity_type f, fi_entity_id f, fi_fact_key f) = (et, i, k)")
    case True
    then show ?thesis unfolding resolved(3) by (simp add: filter_superseded_same)
  next
    case False
    have "length (filter (is_current_resolution et i k) (db_resolutions s)) \<le> 1"
      using assms(1) by (simp add: facts_inv_def one_current_def)
    then show ?thesis
      using False unfolding resolved(3)
      by (auto simp: filter_superseded_other new_resolution_current)
  qed
  then show ?thesis
    using assms(1) resolved(3) by (simp add: facts_inv_def one_current_def)
qed (use assms(1) in \<open>simp_all add: facts_inv_def\<close>)

text \<open>Only the assertions, the resolutions and the identifier supply change.\<close>

lemma record_fact_frame:
  assumes "record_fact f now s = Inr (a, s')"
  shows "manual_state s' = manual_state s" "upstream_state s' = upstream_state s"
    "identity_state s' = identity_state s" "db_listings s' = db_listings s"
    "db_events s' = db_events s" "db_issues s' = db_issues s" "db_next s < db_next s'"
  using assms by (cases rule: record_fact_cases; simp add: frame_defs)+

lemma raise_conflict_cases:
  obtains (kept) "raise_conflict_with_override ov i k v s = s"
  | (raised) r where "raise_conflict_with_override ov i k v s =
      s\<lparr>db_issues := db_issues s @ [r], db_next := Suc (db_next s)\<rparr>"
      "ri_entity_id r = i" "ri_issue_type r = ReviewIssueType.CONFLICT"
proof (cases "ho_review_on_new_conflict ov \<and>
    \<not> (\<exists>r \<in> set (filter (is_open_conflict i) (db_issues s)).
         json_get ''fact_key'' (ri_details r) = Some (JStr k))")
  case True
  then have "raise_conflict_with_override ov i k v s =
      s\<lparr>db_issues := db_issues s @ [new_issue (db_next s) i ReviewIssueType.CONFLICT
        ReviewIssueSeverity.WARNING (conflict_details ov k v)], db_next := Suc (db_next s)\<rparr>"
    unfolding raise_conflict_with_override_def by meson
  then show thesis by (rule raised) (simp_all add: new_issue_def)
next
  case False
  then have "raise_conflict_with_override ov i k v s = s"
    unfolding raise_conflict_with_override_def by meson
  then show thesis by (rule kept)
qed

lemma raise_conflict_frame:
  "manual_state (raise_conflict_with_override ov i k v s) = manual_state s"
  "upstream_state (raise_conflict_with_override ov i k v s) = upstream_state s"
  "identity_state (raise_conflict_with_override ov i k v s) = identity_state s"
  "fact_state (raise_conflict_with_override ov i k v s) = fact_state s"
  "db_listings (raise_conflict_with_override ov i k v s) = db_listings s"
  "db_events (raise_conflict_with_override ov i k v s) = db_events s"
  "db_next s \<le> db_next (raise_conflict_with_override ov i k v s)"
  by (cases rule: raise_conflict_cases [of ov i k v s]; simp add: frame_defs)+

definition open_conflicts :: "uuid \<Rightarrow> string \<Rightarrow> db \<Rightarrow> review_issue list" where
  "open_conflicts entity_id key s = filter (\<lambda>r. is_open_conflict entity_id r \<and>
     json_get ''fact_key'' (ri_details r) = Some (JStr key)) (db_issues s)"

lemma open_conflicts_new:
  "is_open_conflict i' (new_issue n i ReviewIssueType.CONFLICT sv (conflict_details ov k v)) \<longleftrightarrow> i = i'"
  "json_get ''fact_key'' (ri_details (new_issue n i ty sv (conflict_details ov k v))) = Some (JStr k)"
  by (auto simp: is_open_conflict_def new_issue_def conflict_details_def)

section \<open>Properties\<close>

text \<open>
  C6. Recording evidence never raises on a well-formed store, and it respects precedence: the
  assertion is always stored; under an active human override no resolution changes at all; without
  one the new assertion becomes the one and only current resolution of its key, and the current
  resolution of every other key stays what it was.  No resolution row is ever deleted.
\<close>
theorem record_fact_precedence:
  assumes "facts_inv s"
  shows "\<exists>a s'. record_fact f now s = Inr (a, s') \<and> facts_inv s' \<and>
    db_assertions s' = db_assertions s @ [a] \<and>
    (if \<exists>r \<in> set (db_overrides s).
          is_active_override (fi_entity_type f) (fi_entity_id f) (fi_fact_key f) r
     then db_resolutions s' = db_resolutions s
     else map fr_effective_assertion_id
            (filter (is_current_resolution (fi_entity_type f) (fi_entity_id f) (fi_fact_key f))
              (db_resolutions s')) = [Some (fa_id a)] \<and>
          length (db_resolutions s') = Suc (length (db_resolutions s))) \<and>
    (\<forall>et i k. (et, i, k) \<noteq> (fi_entity_type f, fi_entity_id f, fi_fact_key f) \<longrightarrow>
       filter (is_current_resolution et i k) (db_resolutions s') =
       filter (is_current_resolution et i k) (db_resolutions s))"
proof -
  obtain a s' where rec: "record_fact f now s = Inr (a, s')"
    using record_fact_total [OF assms] by blast
  have inv: "facts_inv s'" by (rule record_fact_inv [OF assms rec])
  from rec show ?thesis
  proof (cases rule: record_fact_cases)
    case (overridden override)
    with active_override_SomeD [OF overridden(1)] rec inv show ?thesis by auto
  next
    case resolved
    have none: "\<not> (\<exists>r \<in> set (db_overrides s).
        is_active_override (fi_entity_type f) (fi_entity_id f) (fi_fact_key f) r)"
      using active_override_NoneD [OF resolved(1)] by blast
    have others: "filter (is_current_resolution et i k) (db_resolutions s') =
        filter (is_current_resolution et i k) (db_resolutions s)"
      if "(et, i, k) \<noteq> (fi_entity_type f, fi_entity_id f, fi_fact_key f)" for et i k
      using that not_sym [OF that] unfolding resolved(3)
      by (simp add: filter_superseded_other new_resolution_current)
    have one: "map fr_effective_assertion_id
        (filter (is_current_resolution (fi_entity_type f) (fi_entity_id f) (fi_fact_key f))
          (db_resolutions s')) = [Some (fa_id a)]"
      "length (db_resolutions s') = Suc (length (db_resolutions s))"
      "db_assertions s' = db_assertions s @ [a]"
      unfolding resolved(3) filter_append filter_superseded_same db.simps
      by (simp_all add: filter_superseded_same new_resolution_current) (simp add: new_resolution_def)
    show ?thesis
      using rec inv one others none by (intro exI [of _ a] exI [of _ s']) simp
  qed
qed

definition demo_fact :: fact_input where
  "demo_fact = \<lparr>fi_entity_type = FactEntityType.LISTING, fi_entity_id = 7,
     fi_fact_key = ''monthly_rent_minor'', fi_value_json = Some (JObj [(''value'', JInt 320000)]),
     fi_value_status = ValueStatus.ASSERTED, fi_derivation_type = DerivationType.SOURCE_TEXT,
     fi_confidence = Confidence.MEDIUM, fi_source_observation_id = None, fi_evidence_text = None\<rparr>"

theorem record_fact_precedence_witness:
  "facts_inv empty_db \<and> (\<exists>a s'. record_fact demo_fact 3 empty_db = Inr (a, s') \<and>
     db_assertions s' = [a] \<and> length (db_resolutions s') = 1)"
proof -
  have inv: "facts_inv empty_db"
    by (simp add: facts_inv_def one_current_def one_active_def empty_db_def)
  have emp: "db_overrides empty_db = []" "db_assertions empty_db = []" "db_resolutions empty_db = []"
    by (simp_all add: empty_db_def)
  show ?thesis using record_fact_precedence [OF inv, of demo_fact 3] inv unfolding emp by auto
qed

text \<open>
  Evidence against an override is surfaced once: while a CONFLICT issue for the listing and the
  fact key is open, raising it again changes nothing, so a listing never has two open issues for
  the same key; and an override that does not ask for review raises none.
\<close>
theorem conflict_surfaced_once:
  assumes "length (open_conflicts i k s) \<le> 1"
  shows "length (open_conflicts i k (raise_conflict_with_override ov i' k' v s)) \<le> 1 \<and>
    raise_conflict_with_override ov2 i' k' v2 (raise_conflict_with_override ov i' k' v s) =
      (if ho_review_on_new_conflict ov then raise_conflict_with_override ov i' k' v s
       else raise_conflict_with_override ov2 i' k' v2 s) \<and>
    (if ho_review_on_new_conflict ov
     then open_conflicts i' k' (raise_conflict_with_override ov i' k' v s) \<noteq> []
     else raise_conflict_with_override ov i' k' v s = s)"
proof -
  have open_iff: "(\<exists>r \<in> set (filter (is_open_conflict i') (db_issues t)).
      json_get ''fact_key'' (ri_details r) = Some (JStr k')) \<longleftrightarrow> open_conflicts i' k' t \<noteq> []" for t
    by (auto simp: open_conflicts_def filter_empty_conv)
  show ?thesis
    using assms unfolding raise_conflict_with_override_def open_iff
    by (auto simp: open_conflicts_def open_conflicts_new)
qed

definition demo_override :: human_override where
  "demo_override = \<lparr>ho_id = 1, ho_entity_type = FactEntityType.LISTING, ho_entity_id = 7,
     ho_field_name = ''monthly_rent_minor'', ho_override_value = Some (JObj [(''value'', JInt 1)]),
     ho_override_status = OverrideStatus.ACTIVE, ho_reason_code = OverrideReasonCode.OTHER,
     ho_reason_text = ''r'', ho_created_by = ''op'', ho_superseded_at = None,
     ho_review_on_new_conflict = True\<rparr>"

theorem conflict_surfaced_once_witness:
  "length (open_conflicts 7 ''k'' (raise_conflict_with_override demo_override 7 ''k'' JNull empty_db)) \<le> 1 \<and>
   open_conflicts 7 ''k'' (raise_conflict_with_override demo_override 7 ''k'' JNull empty_db) \<noteq> []"
proof -
  have "length (open_conflicts 7 ''k'' empty_db) \<le> 1"
    by (simp add: open_conflicts_def empty_db_def)
  from conflict_surfaced_once [OF this, of demo_override 7 "''k''" JNull demo_override JNull] show ?thesis
    by (simp add: demo_override_def)
qed

end
