(* ===== verification/Fingerprints.thy ===== *)
theory Fingerprints
  imports Schema
begin

text \<open>
  The match keys of \<open>canonical/normalization.py\<close>: \<open>unit_fingerprint\<close> and \<open>address_fingerprint\<close>, on
  ASCII text.  A regular expression is the function it computes: a character class is a predicate,
  \<open>\bword\b\<close> matches a maximal run of word characters, and the \<open>re.sub\<close> calls compose in the order
  of the source.  Python's whitespace (\<open>str.strip\<close> and \<open>\s\<close>) is tab to carriage return, the four
  separators 28 to 31, and the space.
\<close>

section \<open>Characters and stripping\<close>

definition py_space :: "char \<Rightarrow> bool" where
  "py_space c \<longleftrightarrow> (let n = of_char c :: nat in (9 \<le> n \<and> n \<le> 13) \<or> (28 \<le> n \<and> n \<le> 32))"

definition ascii_lower :: "char \<Rightarrow> bool" where
  "ascii_lower c \<longleftrightarrow> (let n = of_char c :: nat in 97 \<le> n \<and> n \<le> 122)"

definition ascii_upper :: "char \<Rightarrow> bool" where
  "ascii_upper c \<longleftrightarrow> (let n = of_char c :: nat in 65 \<le> n \<and> n \<le> 90)"

definition upper_char :: "char \<Rightarrow> char" where
  "upper_char c = (if ascii_lower c then char_of (of_char c - 32 :: nat) else c)"

definition lower_char :: "char \<Rightarrow> char" where
  "lower_char c = (if ascii_upper c then char_of (of_char c + 32 :: nat) else c)"

definition word_char :: "char \<Rightarrow> bool" where
  "word_char c \<longleftrightarrow> ascii_lower c \<or> ascii_upper c \<or> c = CHR ''_'' \<or>
     (let n = of_char c :: nat in 48 \<le> n \<and> n \<le> 57)"

definition py_strip :: "string \<Rightarrow> string" where
  "py_strip s = rev (dropWhile py_space (rev (dropWhile py_space s)))"

lemma of_char_less_256 [simp]: "(of_char c :: nat) < 256"
  using nat_of_char_less_256 by simp

lemma of_char_upper: "(of_char (upper_char c) :: nat) = (if ascii_lower c then of_char c - 32 else of_char c)"
  using of_char_less_256 [of c] by (simp add: upper_char_def less_imp_diff_less mod_less)

lemma of_char_lower: "(of_char (lower_char c) :: nat) = (if ascii_upper c then of_char c + 32 else of_char c)"
  by (auto simp: lower_char_def ascii_upper_def Let_def)

lemma char_eqI: "(of_char c :: nat) = of_char d \<Longrightarrow> c = d"
  by simp

lemma upper_lower [simp]: "upper_char (lower_char c) = upper_char c"
  by (rule char_eqI) (auto simp: of_char_upper of_char_lower ascii_lower_def ascii_upper_def Let_def)

lemma lower_upper [simp]: "lower_char (upper_char c) = lower_char c"
  by (rule char_eqI) (auto simp: of_char_upper of_char_lower ascii_lower_def ascii_upper_def Let_def)

lemma upper_upper [simp]: "upper_char (upper_char c) = upper_char c"
  by (rule char_eqI) (auto simp: of_char_upper ascii_lower_def Let_def)

lemma lower_lower [simp]: "lower_char (lower_char c) = lower_char c"
  by (rule char_eqI) (auto simp: of_char_lower ascii_upper_def Let_def)

lemma space_upper [simp]: "py_space (upper_char c) = py_space c"
  by (auto simp: py_space_def of_char_upper ascii_lower_def Let_def)

lemma space_lower [simp]: "py_space (lower_char c) = py_space c"
  by (auto simp: py_space_def of_char_lower ascii_upper_def Let_def)

lemma space_not_word: "py_space c \<Longrightarrow> \<not> word_char c"
  by (auto simp: py_space_def word_char_def ascii_lower_def ascii_upper_def Let_def)

lemma py_strip_map:
  "(\<And>c. py_space (f c) = py_space c) \<Longrightarrow> py_strip (map f s) = map f (py_strip s)"
  by (simp add: py_strip_def rev_map dropWhile_map comp_def)

lemma py_strip_append:
  assumes "\<forall>c \<in> set a. py_space c" "\<forall>c \<in> set b. py_space c"
  shows "py_strip (a @ s @ b) = py_strip s"
proof -
  have "dropWhile py_space (rev (dropWhile py_space (s @ b))) = dropWhile py_space (rev (dropWhile py_space s))"
  proof (cases "\<forall>c \<in> set s. py_space c")
    case True
    then show ?thesis using assms(2) by (simp add: dropWhile_append dropWhile_eq_Nil_conv [THEN iffD2])
  next
    case False
    then have "dropWhile py_space (s @ b) = dropWhile py_space s @ b"
      by (auto simp: dropWhile_append1)
    moreover have "dropWhile py_space (rev b @ r) = dropWhile py_space r" for r
      by (rule dropWhile_append2) (use assms(2) in auto)
    ultimately show ?thesis by simp
  qed
  then show ?thesis using assms(1) by (simp add: py_strip_def dropWhile_append2)
qed

lemma py_strip_id:
  "s = [] \<or> (\<not> py_space (hd s) \<and> \<not> py_space (last s)) \<Longrightarrow> py_strip s = s"
proof -
  assume s: "s = [] \<or> (\<not> py_space (hd s) \<and> \<not> py_space (last s))"
  have id: "dropWhile py_space t = t" if "t = [] \<or> \<not> py_space (hd t)" for t
    using that by (cases t) auto
  show ?thesis using s id [of s] id [of "rev s"] by (auto simp: py_strip_def hd_rev)
qed

lemma py_strip_ends: "py_strip s = [] \<or> (\<not> py_space (hd (py_strip s)) \<and> \<not> py_space (last (py_strip s)))"
proof (cases "py_strip s = []")
  case False
  let ?d = "dropWhile py_space s" and ?e = "dropWhile py_space (rev (dropWhile py_space s))"
  have ne: "?e \<noteq> []" using False by (simp add: py_strip_def)
  have "\<not> py_space (last (py_strip s))"
    using hd_dropWhile [OF ne] by (simp add: py_strip_def last_rev)
  moreover have "hd (py_strip s) = hd ?d"
  proof -
    have "rev ?d = takeWhile py_space (rev ?d) @ ?e" by simp
    then have "?d = rev ?e @ rev (takeWhile py_space (rev ?d))" by (metis rev_append rev_rev_ident)
    then show ?thesis using ne unfolding py_strip_def by (metis hd_append rev_is_Nil_conv)
  qed
  moreover have "?d \<noteq> []" using ne by (metis dropWhile.simps(1) rev.simps(1))
  ultimately show ?thesis using hd_dropWhile [of py_space s] by simp
qed simp

section \<open>Units\<close>

definition UNIT_WORDS :: "string list" where
  "UNIT_WORDS = [''APT'', ''UNIT'', ''STE'', ''SUITE'', ''NO'']"

definition starts_with :: "string \<Rightarrow> string \<Rightarrow> bool" where
  "starts_with s w \<longleftrightarrow> take (length w) s = w"

definition drop_dot :: "string \<Rightarrow> string" where
  "drop_dot s = (case s of [] \<Rightarrow> [] | c # cs \<Rightarrow> if c = CHR ''.'' then cs else s)"

text \<open>\<open>re.sub(r"^(APT|UNIT|STE|SUITE|NO)\.?\s*", "", text)\<close>\<close>

definition drop_unit_word :: "string \<Rightarrow> string" where
  "drop_unit_word s = (case find (starts_with s) UNIT_WORDS of
     None \<Rightarrow> s | Some w \<Rightarrow> dropWhile py_space (drop_dot (drop (length w) s)))"

definition unit_separator :: "char \<Rightarrow> bool" where
  "unit_separator c \<longleftrightarrow> py_space c \<or> c = CHR ''-'' \<or> c = CHR ''#'' \<or> c = CHR ''.''"

definition unit_fingerprint :: "string \<Rightarrow> string" where
  "unit_fingerprint raw =
     filter (\<lambda>c. \<not> unit_separator c) (drop_unit_word (py_strip (map upper_char raw)))"

lemma starts_with_simps [simp]:
  "starts_with s []"
  "\<not> starts_with [] (d # w)"
  "starts_with (c # s) (d # w) \<longleftrightarrow> c = d \<and> starts_with s w"
  by (simp_all add: starts_with_def)

lemma unit_word_unique:
  "w \<in> set UNIT_WORDS \<Longrightarrow> find (starts_with (w @ s)) UNIT_WORDS = Some w"
proof -
  have "find (starts_with (w @ s)) UNIT_WORDS = Some w"
    if "w = ''APT'' \<or> w = ''UNIT'' \<or> w = ''STE'' \<or> w = ''SUITE'' \<or> w = ''NO''" for w
    using that unfolding UNIT_WORDS_def by (elim disjE; hypsubst; simp only: append.simps find.simps starts_with_simps; simp)
  then show "w \<in> set UNIT_WORDS \<Longrightarrow> find (starts_with (w @ s)) UNIT_WORDS = Some w"
    by (simp add: UNIT_WORDS_def)
qed

lemma filter_drop_spaces:
  "filter (\<lambda>c. \<not> unit_separator c) (dropWhile py_space s) = filter (\<lambda>c. \<not> unit_separator c) s"
  by (induction s) (auto simp: unit_separator_def)

lemma filter_py_strip:
  "filter (\<lambda>c. \<not> unit_separator c) (py_strip s) = filter (\<lambda>c. \<not> unit_separator c) s"
  by (simp only: py_strip_def rev_filter [symmetric] filter_drop_spaces rev_rev_ident)

lemma filter_drop_dot:
  "filter (\<lambda>c. \<not> unit_separator c) (drop_dot s) = filter (\<lambda>c. \<not> unit_separator c) s"
  by (cases s) (auto simp: drop_dot_def unit_separator_def)

lemma py_strip_word_append:
  assumes "w \<noteq> []" "\<not> py_space (hd w)" "\<not> py_space (last w)"
  shows "\<exists>c'. py_strip (w @ c) = w @ c' \<and>
    filter (\<lambda>x. \<not> unit_separator x) c' = filter (\<lambda>x. \<not> unit_separator x) c"
proof (intro exI conjI)
  have front: "dropWhile py_space (w @ c) = w @ c" using assms(1,2) by (cases w) auto
  have rw: "dropWhile py_space (rev w) = rev w" using assms(1,3) by (cases w rule: rev_cases) auto
  have "dropWhile py_space (rev c @ rev w) = dropWhile py_space (rev c) @ rev w"
  proof (cases "\<forall>x \<in> set c. py_space x")
    case True
    then have "dropWhile py_space (rev c) = []" by simp
    with True rw show ?thesis by (subst dropWhile_append2) auto
  qed (auto simp: dropWhile_append1)
  then show "py_strip (w @ c) = w @ rev (dropWhile py_space (rev c))"
    by (simp add: py_strip_def front)
  show "filter (\<lambda>x. \<not> unit_separator x) (rev (dropWhile py_space (rev c))) =
      filter (\<lambda>x. \<not> unit_separator x) c"
    by (simp only: rev_filter [symmetric] filter_drop_spaces rev_rev_ident)
qed

lemma unit_words_nonspace: "w \<in> set UNIT_WORDS \<Longrightarrow> w \<noteq> [] \<and> \<not> py_space (hd w) \<and> \<not> py_space (last w)"
  by (auto simp: UNIT_WORDS_def py_space_def)

lemma separator_upper [simp]: "unit_separator (upper_char c) = unit_separator c"
proof -
  have "upper_char c = d \<longleftrightarrow> c = d" if "\<not> ascii_upper d" "\<not> ascii_lower d" for d
  proof
    assume "upper_char c = d"
    with that show "c = d" by (cases "ascii_lower c")
      (auto simp: upper_char_def ascii_lower_def ascii_upper_def Let_def)
  next
    assume "c = d"
    with that show "upper_char c = d" by (simp add: upper_char_def)
  qed
  from this [of "CHR ''-''"] this [of "CHR ''#''"] this [of "CHR ''.''"] show ?thesis
    by (simp add: unit_separator_def ascii_upper_def ascii_lower_def)
qed

lemma unit_fingerprint_with_word:
  assumes "w \<in> set UNIT_WORDS"
  shows "filter (\<lambda>c. \<not> unit_separator c) (drop_unit_word (py_strip (w @ c))) =
    filter (\<lambda>c. \<not> unit_separator c) c"
proof -
  obtain c' where "py_strip (w @ c) = w @ c'"
    and "filter (\<lambda>x. \<not> unit_separator x) c' = filter (\<lambda>x. \<not> unit_separator x) c"
    using py_strip_word_append unit_words_nonspace [OF assms] by blast
  then show ?thesis
    using unit_word_unique [OF assms] by (simp add: drop_unit_word_def filter_drop_spaces filter_drop_dot)
qed

text \<open>The label has no unit word in front.\<close>

definition bare_label :: "string \<Rightarrow> bool" where
  "bare_label raw \<longleftrightarrow> find (starts_with (py_strip (map upper_char raw))) UNIT_WORDS = None"

lemma unit_fingerprint_bare:
  "bare_label raw \<Longrightarrow> unit_fingerprint raw = map upper_char (filter (\<lambda>c. \<not> unit_separator c) raw)"
  by (simp add: bare_label_def unit_fingerprint_def drop_unit_word_def filter_py_strip filter_map comp_def)

section \<open>Addresses\<close>

definition ADDRESS_WORDS :: "(string \<times> string) list" where
  "ADDRESS_WORDS = [(''street'', ''st''), (''avenue'', ''ave''), (''boulevard'', ''blvd''),
     (''road'', ''rd''), (''place'', ''pl''), (''drive'', ''dr''), (''lane'', ''ln''),
     (''terrace'', ''ter''), (''parkway'', ''pkwy''), (''east'', ''e''), (''west'', ''w''),
     (''north'', ''n''), (''south'', ''s'')]"

text \<open>\<open>re.sub(r"\bw\b", r, text)\<close> for a word \<open>w\<close>\<close>

function sub_word :: "string \<Rightarrow> string \<Rightarrow> string \<Rightarrow> string" where
  "sub_word w r [] = []"
| "sub_word w r (c # cs) =
     (if word_char c
      then (if c # takeWhile word_char cs = w then r else c # takeWhile word_char cs) @
           sub_word w r (dropWhile word_char cs)
      else c # sub_word w r cs)"
  by pat_completeness auto
termination
  by (relation "measure (\<lambda>(w, r, s). length s)") (auto simp: less_Suc_eq_le length_dropWhile_le)

text \<open>\<open>re.sub(r"\s+", " ", text)\<close>\<close>

function collapse_spaces :: "string \<Rightarrow> string" where
  "collapse_spaces [] = []"
| "collapse_spaces (c # cs) =
     (if py_space c then CHR '' '' # collapse_spaces (dropWhile py_space cs)
      else c # collapse_spaces cs)"
  by pat_completeness auto
termination
  by (relation "measure length") (auto simp: less_Suc_eq_le length_dropWhile_le)

definition address_punctuation :: "char \<Rightarrow> bool" where
  "address_punctuation c \<longleftrightarrow> c = CHR ''.'' \<or> c = CHR '','' \<or> c = CHR ''#''"

definition address_fingerprint :: "string \<Rightarrow> string" where
  "address_fingerprint raw =
     py_strip (collapse_spaces (fold (\<lambda>(w, r) text. sub_word w r text) ADDRESS_WORDS
       (map (\<lambda>c. if address_punctuation c then CHR '' '' else c)
         (py_strip (map lower_char raw)))))"

subsection \<open>Words of a text\<close>

fun runs :: "string \<Rightarrow> string list" where
  "runs [] = []"
| "runs (c # cs) =
     (if word_char c
      then if cs = [] \<or> \<not> word_char (hd cs) then [c] # runs cs
           else (c # hd (runs cs)) # tl (runs cs)
      else runs cs)"

lemma runs_word:
  assumes "x \<noteq> []" "\<forall>c \<in> set x. word_char c" "t = [] \<or> \<not> word_char (hd t)"
  shows "runs (x @ t) = x # runs t"
  using assms
proof (induction x)
  case (Cons c x)
  show ?case
  proof (cases x)
    case Nil
    then show ?thesis using Cons.prems by simp
  next
    case (Cons d y)
    then have "runs (x @ t) = x # runs t" using Cons.IH Cons.prems by simp
    then show ?thesis using Cons Cons.prems by simp
  qed
qed simp

lemma dropWhile_hd: "dropWhile P s = [] \<or> \<not> P (hd (dropWhile P s))"
  using hd_dropWhile [of P s] by blast

lemma runs_split:
  assumes "word_char c"
  shows "runs (c # cs) = (c # takeWhile word_char cs) # runs (dropWhile word_char cs)"
proof -
  have "\<forall>x \<in> set (c # takeWhile word_char cs). word_char x"
    using assms by (auto dest: set_takeWhileD)
  then have "runs ((c # takeWhile word_char cs) @ dropWhile word_char cs) =
      (c # takeWhile word_char cs) # runs (dropWhile word_char cs)"
    by (intro runs_word dropWhile_hd) simp_all
  then show ?thesis by simp
qed

lemma hd_sub_word:
  "s = [] \<or> \<not> word_char (hd s) \<Longrightarrow> sub_word w r s = [] \<or> \<not> word_char (hd (sub_word w r s))"
  by (cases s) auto

lemma runs_sub_word:
  assumes "r \<noteq> []" "\<forall>c \<in> set r. word_char c"
  shows "runs (sub_word w r s) = map (\<lambda>x. if x = w then r else x) (runs s)"
proof (induction s rule: sub_word.induct [where ?P = "\<lambda>_ _ s. runs (sub_word w r s) =
    map (\<lambda>x. if x = w then r else x) (runs s)" and ?a0.0 = w and ?a1.0 = r])
  case (2 w' r' c cs)
  show ?case
  proof (cases "word_char c")
    case True
    let ?x = "if c # takeWhile word_char cs = w then r else c # takeWhile word_char cs"
    have "sub_word w r (dropWhile word_char cs) = [] \<or>
        \<not> word_char (hd (sub_word w r (dropWhile word_char cs)))"
      by (rule hd_sub_word) (rule dropWhile_hd)
    moreover have "?x \<noteq> []" "\<forall>c \<in> set ?x. word_char c"
      using assms True by (auto dest: set_takeWhileD)
    ultimately have "runs (?x @ sub_word w r (dropWhile word_char cs)) =
        ?x # runs (sub_word w r (dropWhile word_char cs))"
      using runs_word by blast
    then show ?thesis using 2(1) [OF True] True by (simp add: runs_split [OF True] del: runs.simps)
  next
    case False
    then show ?thesis using 2(2) by simp
  qed
qed simp

lemma sub_word_absent: "w \<notin> set (runs s) \<Longrightarrow> sub_word w r s = s"
proof (induction "length s" arbitrary: s rule: less_induct)
  case less
  show ?case
  proof (cases s)
    case (Cons c cs)
    show ?thesis
    proof (cases "word_char c")
      case True
      have "length (dropWhile word_char cs) < length s"
        using Cons by (simp add: less_Suc_eq_le length_dropWhile_le)
      then show ?thesis
        using less Cons True by (auto simp: runs_split simp del: runs.simps(2))
    next
      case False
      then show ?thesis using less Cons by simp
    qed
  qed simp
qed

lemma runs_dropWhile_space [simp]: "runs (dropWhile py_space s) = runs s"
  by (induction s) (auto simp: space_not_word)

lemma collapse_Nil_iff [simp]: "collapse_spaces s = [] \<longleftrightarrow> s = []"
  by (cases s) auto

lemma hd_collapse: "s \<noteq> [] \<Longrightarrow> word_char (hd (collapse_spaces s)) = word_char (hd s)"
  by (cases s) (auto simp: space_not_word, simp_all add: word_char_def ascii_lower_def ascii_upper_def)

lemma runs_collapse: "runs (collapse_spaces s) = runs s"
proof (induction s rule: collapse_spaces.induct)
  case (2 c cs)
  show ?case
  proof (cases "py_space c")
    case True
    have "\<not> word_char (CHR '' '')" by (simp add: word_char_def ascii_lower_def ascii_upper_def)
    then show ?thesis using 2(1) [OF True] True by (simp add: space_not_word)
  next
    case False
    have "cs \<noteq> [] \<Longrightarrow> word_char (hd (collapse_spaces cs)) = word_char (hd cs)" by (rule hd_collapse)
    then show ?thesis using 2(2) [OF False] False by (cases "cs = []") simp_all
  qed
qed simp

lemma runs_append_space: "\<forall>c \<in> set b. py_space c \<Longrightarrow> runs (x @ b) = runs x"
proof (induction x)
  case Nil
  then show ?case by (induction b) (auto simp: space_not_word)
next
  case (Cons c x)
  have "x @ b = [] \<or> \<not> word_char (hd (x @ b)) \<longleftrightarrow> x = [] \<or> \<not> word_char (hd x)"
    using Cons.prems by (cases x; cases b) (auto simp: space_not_word)
  then show ?case using Cons by simp
qed

lemma py_strip_decomp:
  obtains a b where "s = a @ py_strip s @ b" "\<forall>c \<in> set a. py_space c" "\<forall>c \<in> set b. py_space c"
proof
  let ?d = "dropWhile py_space s"
  have "rev ?d = takeWhile py_space (rev ?d) @ dropWhile py_space (rev ?d)" by simp
  then have "?d = py_strip s @ rev (takeWhile py_space (rev ?d))"
    unfolding py_strip_def by (metis rev_append rev_rev_ident)
  then show "s = takeWhile py_space s @ py_strip s @ rev (takeWhile py_space (rev ?d))"
    by (metis takeWhile_dropWhile_id)
qed (auto dest: set_takeWhileD)

lemma runs_strip [simp]: "runs (py_strip s) = runs s"
proof -
  obtain a b where s: "s = a @ py_strip s @ b" "\<forall>c \<in> set a. py_space c" "\<forall>c \<in> set b. py_space c"
    by (rule py_strip_decomp)
  have "dropWhile py_space (a @ py_strip s @ b) = dropWhile py_space (py_strip s @ b)"
    by (rule dropWhile_append2) (use s(2) in auto)
  then have "runs (a @ py_strip s @ b) = runs (py_strip s @ b)" by (metis runs_dropWhile_space)
  with runs_append_space [OF s(3)] s(1) show ?thesis by metis
qed

lemma runs_fold_sub_word:
  "\<lbrakk>\<forall>(w, r) \<in> set ws. r \<noteq> [] \<and> (\<forall>c \<in> set r. word_char c)\<rbrakk> \<Longrightarrow>
   runs (fold (\<lambda>(w, r) t. sub_word w r t) ws s) =
   map (fold (\<lambda>(w, r) x. if x = w then r else x) ws) (runs s)"
  by (induction ws arbitrary: s) (auto simp: runs_sub_word)

lemma fold_sub_word_absent:
  "\<forall>(w, r) \<in> set ws. w \<notin> set (runs s) \<Longrightarrow> fold (\<lambda>(w, r) t. sub_word w r t) ws s = s"
  by (induction ws) (auto simp: sub_word_absent)

lemma address_words_ok: "\<forall>(w, r) \<in> set ADDRESS_WORDS. r \<noteq> [] \<and> (\<forall>c \<in> set r. word_char c)"
  by (simp add: ADDRESS_WORDS_def word_char_def ascii_lower_def)

lemma abbreviations_disjoint: "\<forall>r \<in> snd ` set ADDRESS_WORDS. r \<notin> fst ` set ADDRESS_WORDS"
  by (simp add: ADDRESS_WORDS_def)

lemma fold_abbreviate:
  "fold (\<lambda>(w, r) x. if x = w then r else x) ws x = x \<and> x \<notin> fst ` set ws \<or>
   fold (\<lambda>(w, r) x. if x = w then r else x) ws x \<in> snd ` set ws"
proof (induction ws arbitrary: x)
  case (Cons wr ws)
  obtain w r where [simp]: "wr = (w, r)" by (cases wr)
  show ?case using Cons.IH [of r] Cons.IH [of x] by (cases "x = w") auto
qed simp

lemma abbreviated:
  "\<forall>(w, r) \<in> set ADDRESS_WORDS. fold (\<lambda>(w, r) x. if x = w then r else x) ADDRESS_WORDS x \<noteq> w"
  using fold_abbreviate [of ADDRESS_WORDS x] abbreviations_disjoint by force

subsection \<open>The characters and the spacing of the key\<close>

fun tidy :: "string \<Rightarrow> bool" where
  "tidy [] \<longleftrightarrow> True"
| "tidy (c # cs) \<longleftrightarrow> (py_space c \<longrightarrow> c = CHR '' '' \<and> (cs = [] \<or> \<not> py_space (hd cs))) \<and> tidy cs"

lemma hd_collapse_space: "s \<noteq> [] \<Longrightarrow> py_space (hd (collapse_spaces s)) = py_space (hd s)"
  by (cases s) (auto simp: py_space_def)

lemma tidy_collapse: "tidy (collapse_spaces s)"
proof (induction s rule: collapse_spaces.induct)
  case (2 c cs)
  show ?case
  proof (cases "py_space c")
    case True
    have "dropWhile py_space cs = [] \<or> \<not> py_space (hd (collapse_spaces (dropWhile py_space cs)))"
      using dropWhile_hd [of py_space cs] hd_collapse_space by metis
    then show ?thesis using True 2(1) by simp
  next
    case False
    then show ?thesis using 2(2) by simp
  qed
qed simp

lemma collapse_tidy: "tidy s \<Longrightarrow> collapse_spaces s = s"
proof (induction s)
  case (Cons c cs)
  show ?case
  proof (cases "py_space c")
    case True
    have "dropWhile py_space cs = cs" using Cons.prems True by (cases cs) auto
    then show ?thesis using Cons True by simp
  next
    case False
    then show ?thesis using Cons by simp
  qed
qed simp

lemma tidy_append: "tidy (a @ b) \<Longrightarrow> tidy a \<and> tidy b"
  by (induction a) auto

lemma tidy_strip: "tidy s \<Longrightarrow> tidy (py_strip s)"
  by (rule py_strip_decomp [of s]) (metis tidy_append)

lemma set_collapse: "set (collapse_spaces s) \<subseteq> insert (CHR '' '') (set s)"
  by (induction s rule: collapse_spaces.induct) (auto dest: set_dropWhileD)

lemma set_py_strip: "set (py_strip s) \<subseteq> set s"
  by (auto simp: py_strip_def dest!: set_dropWhileD)

lemma set_sub_word: "set (sub_word w r s) \<subseteq> set r \<union> set s"
  by (induction w r s rule: sub_word.induct) (auto dest: set_takeWhileD set_dropWhileD split: if_splits)

lemma set_fold_sub_word:
  "set (fold (\<lambda>(w, r) t. sub_word w r t) ws s) \<subseteq> (\<Union>(w, r) \<in> set ws. set r) \<union> set s"
proof (induction ws arbitrary: s)
  case (Cons wr ws)
  obtain w r where [simp]: "wr = (w, r)" by (cases wr)
  show ?case using Cons.IH [of "sub_word w r s"] set_sub_word [of w r s] by auto
qed simp

definition key_char :: "char \<Rightarrow> bool" where
  "key_char c \<longleftrightarrow> \<not> ascii_upper c \<and> \<not> address_punctuation c"

lemma key_char_lower: "\<not> ascii_upper (lower_char c)"
  by (auto simp: ascii_upper_def of_char_lower Let_def)

lemma key_char_words: "\<forall>c \<in> (\<Union>(w, r) \<in> set ADDRESS_WORDS. set r). key_char c"
  by (simp add: ADDRESS_WORDS_def key_char_def ascii_upper_def address_punctuation_def)

lemma key_char_space: "key_char (CHR '' '')"
  by (simp add: key_char_def ascii_upper_def address_punctuation_def)

lemma address_fingerprint_chars: "\<forall>c \<in> set (address_fingerprint raw). key_char c"
proof -
  let ?t = "map (\<lambda>c. if address_punctuation c then CHR '' '' else c) (py_strip (map lower_char raw))"
  have "\<forall>c \<in> set ?t. key_char c"
    using set_py_strip [of "map lower_char raw"] key_char_space
    by (auto simp: key_char_def key_char_lower)
  then have "\<forall>c \<in> set (fold (\<lambda>(w, r) text. sub_word w r text) ADDRESS_WORDS ?t). key_char c"
    using set_fold_sub_word [of ADDRESS_WORDS ?t] key_char_words by blast
  then show ?thesis
    unfolding address_fingerprint_def
    using set_collapse set_py_strip key_char_space by blast
qed

lemma lower_key_char: "key_char c \<Longrightarrow> lower_char c = c"
  by (simp add: key_char_def lower_char_def)

lemma address_fingerprint_fixpoint:
  assumes "\<forall>c \<in> set s. key_char c" "tidy s" "s = [] \<or> \<not> py_space (hd s) \<and> \<not> py_space (last s)"
    and "\<forall>(w, r) \<in> set ADDRESS_WORDS. w \<notin> set (runs s)"
  shows "address_fingerprint s = s"
proof -
  have "map lower_char s = s" using assms(1) by (intro map_idI lower_key_char) blast
  moreover have "map (\<lambda>c. if address_punctuation c then CHR '' '' else c) s = s"
    using assms(1) by (intro map_idI) (auto simp: key_char_def)
  ultimately show ?thesis
    unfolding address_fingerprint_def
    by (simp add: py_strip_id [OF assms(3)] fold_sub_word_absent [OF assms(4)] collapse_tidy [OF assms(2)])
qed

section \<open>Properties\<close>

text \<open>
  The unit key ignores how a label is written: upper or lower case, surrounding and inner spaces,
  dashes, dots and number signs, and one leading unit word (APT, UNIT, STE, SUITE, NO in any case) in
  front of a bare label.  What remains has no lower-case letter and no separator.
\<close>
theorem unit_fingerprint_variants:
  assumes "bare_label raw" "bare_label raw'"
    and "filter (\<lambda>c. \<not> unit_separator c) (map upper_char raw') =
         filter (\<lambda>c. \<not> unit_separator c) (map upper_char raw)"
    and "map upper_char w \<in> set UNIT_WORDS" "\<forall>c \<in> set sp. py_space c"
  shows "unit_fingerprint raw' = unit_fingerprint raw \<and>
    unit_fingerprint (sp @ w @ raw') = unit_fingerprint raw \<and>
    unit_fingerprint (map lower_char (sp @ w @ raw')) = unit_fingerprint raw \<and>
    (\<forall>c \<in> set (unit_fingerprint raw). \<not> unit_separator c \<and> \<not> ascii_lower c)"
proof -
  have word: "unit_fingerprint (sp @ w @ raw') = filter (\<lambda>c. \<not> unit_separator c) (map upper_char raw')"
  proof -
    have "py_strip (map upper_char sp @ (map upper_char w @ map upper_char raw') @ []) =
        py_strip (map upper_char w @ map upper_char raw')"
      by (rule py_strip_append) (use assms(5) in auto)
    then show ?thesis
      using unit_fingerprint_with_word [OF assms(4)] by (simp add: unit_fingerprint_def)
  qed
  have "unit_fingerprint (map lower_char (sp @ w @ raw')) = unit_fingerprint (sp @ w @ raw')"
    by (simp add: unit_fingerprint_def comp_def)
  moreover have "\<not> ascii_lower (upper_char c)" for c
    by (auto simp: ascii_lower_def of_char_upper Let_def)
  ultimately show ?thesis
    using assms(3) word unit_fingerprint_bare [OF assms(1)] unit_fingerprint_bare [OF assms(2)]
    by (auto simp: filter_map comp_def)
qed

theorem unit_fingerprint_variants_witness:
  "unit_fingerprint ''4-A'' = unit_fingerprint ''#4a'' \<and>
   unit_fingerprint '' Apt. 4-A'' = unit_fingerprint ''#4a''"
proof -
  have bare: "bare_label ''#4a''" "bare_label ''4-A''" "bare_label ''. 4-A''" by code_simp+
  have same: "filter (\<lambda>c. \<not> unit_separator c) (map upper_char ''4-A'') =
         filter (\<lambda>c. \<not> unit_separator c) (map upper_char ''#4a'')"
    "filter (\<lambda>c. \<not> unit_separator c) (map upper_char ''. 4-A'') =
         filter (\<lambda>c. \<not> unit_separator c) (map upper_char ''#4a'')" by code_simp+
  have w: "map upper_char ''Apt'' \<in> set UNIT_WORDS" and sp: "\<forall>c \<in> set '' ''. py_space c"
    by code_simp+
  have "unit_fingerprint ('' '' @ ''Apt'' @ ''. 4-A'') = unit_fingerprint ''#4a''"
    by (rule conjunct1 [OF conjunct2 [OF unit_fingerprint_variants [OF bare(1,3) same(2) w sp]]])
  moreover have "unit_fingerprint ''4-A'' = unit_fingerprint ''#4a''"
    by (rule conjunct1 [OF unit_fingerprint_variants [OF bare(1,2) same(1) w sp]])
  ultimately show ?thesis by (simp only: append.simps)
qed

text \<open>
  The address key is a normal form: fingerprinting a key gives the key back, upper and lower case
  and surrounding white space make no difference, and the key has no upper-case letter, no dot, comma
  or number sign, no double, leading or trailing space, and none of the long street words.
\<close>
theorem address_fingerprint_normal_form:
  "address_fingerprint (address_fingerprint raw) = address_fingerprint raw \<and>
   address_fingerprint (map upper_char raw) = address_fingerprint raw \<and>
   address_fingerprint (CHR '' '' # raw @ '' '') = address_fingerprint raw \<and>
   tidy (address_fingerprint raw) \<and> list_all key_char (address_fingerprint raw) \<and>
   list_all (\<lambda>(w, r). w \<notin> set (runs (address_fingerprint raw))) ADDRESS_WORDS"
proof -
  let ?y = "address_fingerprint raw"
  let ?f = "fold (\<lambda>(w, r) text. sub_word w r text) ADDRESS_WORDS"
  have runs: "\<forall>(w, r) \<in> set ADDRESS_WORDS. w \<notin> set (runs ?y)"
    unfolding address_fingerprint_def
    using abbreviated by (fastforce simp: runs_collapse runs_fold_sub_word [OF address_words_ok])
  have tidy: "tidy ?y"
    unfolding address_fingerprint_def by (rule tidy_strip) (rule tidy_collapse)
  have ends: "?y = [] \<or> \<not> py_space (hd ?y) \<and> \<not> py_space (last ?y)"
    unfolding address_fingerprint_def by (rule py_strip_ends)
  have fixed: "address_fingerprint ?y = ?y"
    by (rule address_fingerprint_fixpoint [OF address_fingerprint_chars tidy ends runs])
  have "py_strip ([CHR '' ''] @ map lower_char raw @ [CHR '' '']) = py_strip (map lower_char raw)"
    by (rule py_strip_append) (simp_all add: py_space_def)
  then have space: "address_fingerprint (CHR '' '' # raw @ '' '') = ?y"
    by (simp add: address_fingerprint_def lower_char_def ascii_upper_def)
  have upper: "address_fingerprint (map upper_char raw) = ?y"
    by (simp add: address_fingerprint_def comp_def)
  show ?thesis
    using fixed space upper tidy runs address_fingerprint_chars [of raw] by (auto simp: list_all_iff)
qed

end
