(* ===== verification/Normalization.thy ===== *)
theory Normalization
  imports Facts Fingerprints "HOL-Library.Sublist"
begin

text \<open>
  \<open>canonical/normalization.py\<close>: one stored observation becomes canonical state.  An unknown source
  identity resolves or creates the address, building and unit, then attaches to an existing listing
  (same unit, or a unique cross-source match) or creates one with its link, event, facts and
  duplicate candidates; a known identity refreshes its link and applies typed changes that no human
  override blocks.  \<open>now\<close> is the clock of the fact recorder.  Rows that a query returns without
  an order come in insertion order, which also settles ties of \<open>ORDER BY last_seen_at\<close>.
\<close>

section \<open>Vocabulary\<close>

definition IDENTITY_RULE_VERSION :: string where
  "IDENTITY_RULE_VERSION = ''phase3-skeleton-2''"

text \<open>
  The product with the float 0.02 is compared with an integer; for rents below \<open>2 ^ 45\<close> the rounding
  of the product cannot cross an integer, so the comparison is the one of exact fractions.
\<close>

definition RENT_SIMILARITY_TOLERANCE :: rat where
  "RENT_SIMILARITY_TOLERANCE = 2 / 100"

record NormalizationOutcome =
  no_classification :: string
  no_canonical_listing_id :: "uuid option"
  no_listing_source_link_id :: "uuid option"
  no_events_emitted :: "ListingEventType list"

definition outcome ::
  "string \<Rightarrow> uuid option \<Rightarrow> uuid option \<Rightarrow> ListingEventType list \<Rightarrow> NormalizationOutcome" where
  "outcome c listing link events = \<lparr>no_classification = c, no_canonical_listing_id = listing,
     no_listing_source_link_id = link, no_events_emitted = events\<rparr>"

text \<open>\<open>a or b\<close> and the truth value of an optional text: None and the empty text are false.\<close>

definition truthy :: "string option \<Rightarrow> bool" where
  "truthy t \<longleftrightarrow> t \<noteq> None \<and> t \<noteq> Some []"

definition or_text :: "string option \<Rightarrow> string option \<Rightarrow> string option" where
  "or_text a b = (if truthy a then a else b)"

text \<open>Python's equality of the scalars that facts hold: numbers compare across bool, int and float.\<close>

fun json_number :: "json \<Rightarrow> rat option" where
  "json_number (JInt n) = Some (of_int n)"
| "json_number (JNum q) = Some q"
| "json_number (JBool b) = Some (if b then 1 else 0)"
| "json_number _ = None"

definition py_equal :: "json \<Rightarrow> json \<Rightarrow> bool" where
  "py_equal x y = (case json_number x of Some q \<Rightarrow> json_number y = Some q | None \<Rightarrow> x = y)"

section \<open>What the listing columns hold\<close>

text \<open>
  A \<open>Numeric(3, 1)\<close> column: the value is rounded to one decimal, half away from zero, and what then
  needs more than two digits before the point is out of range.
\<close>

definition numeric_3_1 :: "rat \<Rightarrow> rat" where
  "numeric_3_1 x = (let tenths = of_int \<lfloor>\<bar>x\<bar> * 10 + 1 / 2\<rfloor> / 10 in if x < 0 then - tenths else tenths)"

definition fits_numeric_3_1 :: "rat option \<Rightarrow> bool" where
  "fits_numeric_3_1 x = (case x of None \<Rightarrow> True | Some q \<Rightarrow> \<bar>numeric_3_1 q\<bar> < 100)"

text \<open>The payload's numbers go into the columns of \<open>canonical_listing\<close>.\<close>

definition storable :: "ParsedSourceObservation \<Rightarrow> bool" where
  "storable observation \<longleftrightarrow> int8_opt (pb_monthly_rent_minor (po_pricing observation)) \<and>
     fits_numeric_3_1 (lb_source_bedrooms (po_layout observation)) \<and>
     fits_numeric_3_1 (lb_source_bathrooms (po_layout observation))"

section \<open>Links\<close>

definition link_matches :: "source_observation \<Rightarrow> listing_source_link \<Rightarrow> bool" where
  "link_matches row l \<longleftrightarrow> lk_source_id l = so_source_id row \<and>
     (case so_source_native_id row of
        Some n \<Rightarrow> lk_source_native_id l = Some n
      | None \<Rightarrow> lk_source_url l = so_source_url row)"

definition find_link :: "source_observation \<Rightarrow> db \<Rightarrow> listing_source_link option result" where
  "find_link row s = scalar_one_or_none (filter (link_matches row) (db_links s))"

definition new_link ::
  "uuid \<Rightarrow> uuid \<Rightarrow> source_observation \<Rightarrow> DiscoveryMethod \<Rightarrow> IdentityMethod \<Rightarrow> IdentityConfidence \<Rightarrow>
   listing_source_link" where
  "new_link i listing row discovery_method identity_method identity_confidence =
     \<lparr>lk_id = i, lk_canonical_listing_id = listing, lk_source_id = so_source_id row,
      lk_source_native_id = so_source_native_id row, lk_source_url = so_source_url row,
      lk_first_observation_id = so_id row, lk_latest_observation_id = so_id row,
      lk_first_seen_at = so_observed_at row, lk_last_seen_at = so_observed_at row,
      lk_link_status = LinkStatus.ACTIVE, lk_discovery_method = discovery_method,
      lk_identity_method = identity_method, lk_identity_confidence = identity_confidence,
      lk_identity_rule_version = IDENTITY_RULE_VERSION\<rparr>"

definition update_listing :: "uuid \<Rightarrow> (canonical_listing \<Rightarrow> canonical_listing) \<Rightarrow> db \<Rightarrow> db" where
  "update_listing i f s =
     s\<lparr>db_listings := update_where (\<lambda>r. cl_id r = i) f (db_listings s)\<rparr>"

section \<open>Events\<close>

definition event_key_of :: "uuid \<Rightarrow> ListingEventType \<Rightarrow> source_observation \<Rightarrow> event_key" where
  "event_key_of listing event_type row = (listing, event_type, KeyId (so_id row))"

definition new_event ::
  "uuid \<Rightarrow> uuid \<Rightarrow> ListingEventType \<Rightarrow> source_observation \<Rightarrow> json option \<Rightarrow> json option \<Rightarrow>
   datetime option \<Rightarrow> listing_event" where
  "new_event i listing event_type row before after event_time =
     \<lparr>ev_id = i, ev_canonical_listing_id = listing, ev_event_type = event_type,
      ev_event_time = (case event_time of Some t \<Rightarrow> t | None \<Rightarrow> so_observed_at row),
      ev_refresh_run_id = None, ev_source_observation_id = Some (so_id row),
      ev_before_values = before, ev_after_values = after, ev_reason_codes = None,
      ev_idempotency_key = event_key_of listing event_type row\<rparr>"

definition emit_event ::
  "uuid \<Rightarrow> ListingEventType \<Rightarrow> source_observation \<Rightarrow> json option \<Rightarrow> json option \<Rightarrow>
   datetime option \<Rightarrow> db \<Rightarrow> ListingEventType list \<times> db" where
  "emit_event listing event_type row before after event_time s =
     (if \<exists>r \<in> set (db_events s). ev_idempotency_key r = event_key_of listing event_type row
      then ([], s)
      else ([event_type],
            s\<lparr>db_events := db_events s @ [new_event (db_next s) listing event_type row before after event_time],
              db_next := Suc (db_next s)\<rparr>))"

section \<open>The address, building and unit chain\<close>

definition observation_locality :: "ParsedSourceObservation \<Rightarrow> string" where
  "observation_locality observation =
     (case ib_source_geographic_labels (po_identity observation) of
        [] \<Rightarrow> ''UNRESOLVED'' | l # _ \<Rightarrow> l)"

definition area_of_locality :: "string \<Rightarrow> string" where
  "area_of_locality locality =
     (if locality \<in> {''Jersey City'', ''Hoboken'', ''Fort Lee''} then ''NJ'' else ''NY'')"

definition new_address ::
  "uuid \<Rightarrow> string option \<Rightarrow> string \<Rightarrow> string \<Rightarrow> string \<Rightarrow> address" where
  "new_address i line_1 locality formatted fingerprint =
     \<lparr>ad_id = i, ad_line_1 = line_1, ad_line_2 = None, ad_locality = locality,
      ad_administrative_area = area_of_locality locality, ad_postal_code = None,
      ad_country_code = ''US'', ad_borough = None, ad_neighborhood = None,
      ad_formatted_address = formatted, ad_fingerprint = Some fingerprint,
      ad_location_point = None, ad_location_precision = LocationPrecision.UNKNOWN,
      ad_geocoder_source_id = None, ad_geocoder_result_id = None, ad_geocoded_at = None,
      ad_geocode_input_hash = None, ad_geocode_status = GeocodeStatus.PENDING,
      ad_boundary_status = BoundaryStatus.UNRESOLVED\<rparr>"

definition add_address :: "address \<Rightarrow> db \<Rightarrow> address \<times> db" where
  "add_address a s = (a, s\<lparr>db_addresses := db_addresses s @ [a], db_next := Suc (db_next s)\<rparr>)"

definition ensure_address :: "source_observation \<Rightarrow> ParsedSourceObservation \<Rightarrow> address tx" where
  "ensure_address row observation s =
     (let locality = observation_locality observation;
          raw = ib_raw_address_text (po_identity observation)
      in if truthy raw
         then (let text = the raw; fingerprint = address_fingerprint text
               in bind_result
                    (scalar_one_or_none
                      (filter (\<lambda>a. ad_fingerprint a = Some fingerprint) (db_addresses s)))
                    (\<lambda>found. Inr (case found of
                       Some a \<Rightarrow> (a, s)
                     | None \<Rightarrow> add_address (new_address (db_next s) raw locality text fingerprint) s)))
         else Inr (add_address
                (new_address (db_next s) None locality (''[address unresolved] '' @ so_source_url row)
                  (''unresolved:'' @ so_source_url row)) s))"

definition new_building :: "uuid \<Rightarrow> uuid \<Rightarrow> building" where
  "new_building i address =
     \<lparr>bd_id = i, bd_address_id = address, bd_canonical_name = None,
      bd_property_type = PropertyType.UNKNOWN,
      bd_identity_status = BuildingIdentityStatus.PROVISIONAL\<rparr>"

definition ensure_building :: "address \<Rightarrow> building tx" where
  "ensure_building address s =
     bind_result
       (scalar_one_or_none (filter (\<lambda>b. bd_address_id b = ad_id address) (db_buildings s)))
       (\<lambda>found. Inr (case found of
          Some b \<Rightarrow> (b, s)
        | None \<Rightarrow> (let b = new_building (db_next s) (ad_id address)
                   in (b, s\<lparr>db_buildings := db_buildings s @ [b], db_next := Suc (db_next s)\<rparr>))))"

definition new_unit :: "uuid \<Rightarrow> uuid \<Rightarrow> string \<Rightarrow> LayoutClass \<Rightarrow> housing_unit" where
  "new_unit i building unit_label layout =
     \<lparr>un_id = i, un_building_id = building, un_canonical_unit_label = Some unit_label,
      un_fingerprint = Some (unit_fingerprint unit_label), un_floor_label = None,
      un_layout_class = layout, un_bedroom_count = None, un_bathroom_count = None,
      un_identity_status = UnitIdentityStatus.PROVISIONAL\<rparr>"

definition observation_unit_label :: "ParsedSourceObservation \<Rightarrow> string option" where
  "observation_unit_label observation =
     or_text (ib_raw_unit_label (po_identity observation))
       (ib_normalized_unit_candidate (po_identity observation))"

text \<open>\<open>ORDER BY last_seen_at DESC LIMIT 1\<close> over the unit's listings that are not merged away.\<close>

definition latest_listing_of_unit :: "uuid \<Rightarrow> db \<Rightarrow> canonical_listing option" where
  "latest_listing_of_unit unit s =
     (case sort_key (\<lambda>l. - cl_last_seen_at l)
             (filter (\<lambda>l. cl_unit_id l = Some unit \<and> cl_lifecycle_status l \<noteq> LifecycleStatus.MERGED)
               (db_listings s)) of
        [] \<Rightarrow> None | l # _ \<Rightarrow> Some l)"

text \<open>Step 2 of the identity hierarchy: an existing listing of the unit, or the unit to create one for.\<close>

definition match_unit ::
  "building \<Rightarrow> ParsedSourceObservation \<Rightarrow> (canonical_listing + housing_unit option) tx" where
  "match_unit building observation s =
     (let unit_label = observation_unit_label observation
      in if \<not> truthy unit_label then Inr (Inr None, s)
         else (let fingerprint = unit_fingerprint (the unit_label)
               in bind_result
                    (scalar_one_or_none
                      (filter (\<lambda>u. un_building_id u = bd_id building \<and>
                                   un_fingerprint u = Some fingerprint) (db_units s)))
                    (\<lambda>found. Inr (case found of
                       Some u \<Rightarrow>
                         (case latest_listing_of_unit (un_id u) s of
                            Some existing \<Rightarrow> (Inl existing, s)
                          | None \<Rightarrow> (Inr (Some u), s))
                     | None \<Rightarrow>
                         (let u = new_unit (db_next s) (bd_id building) (the unit_label)
                                    (lb_proposed_layout_class (po_layout observation))
                          in (Inr (Some u),
                              s\<lparr>db_units := db_units s @ [u], db_next := Suc (db_next s)\<rparr>))))))"

section \<open>Cross-source identity\<close>

definition same_source_link :: "source_observation \<Rightarrow> db \<Rightarrow> canonical_listing \<Rightarrow> bool" where
  "same_source_link row s l \<longleftrightarrow> (\<exists>k \<in> set (db_links s).
     lk_canonical_listing_id k = cl_id l \<and> lk_source_id k = so_source_id row)"

definition strong_match ::
  "building \<Rightarrow> LayoutClass \<Rightarrow> int \<Rightarrow> source_observation \<Rightarrow> db \<Rightarrow> canonical_listing \<Rightarrow> bool" where
  "strong_match building layout rent row s l \<longleftrightarrow>
     cl_building_id l = bd_id building \<and> cl_layout_class l = layout \<and>
     cl_monthly_rent_minor l = Some rent \<and> cl_unit_id l = None \<and>
     cl_lifecycle_status l \<notin> {LifecycleStatus.MERGED, LifecycleStatus.INACTIVE} \<and>
     \<not> same_source_link row s l"

definition unusable_layout :: "LayoutClass \<Rightarrow> bool" where
  "unusable_layout layout \<longleftrightarrow> layout \<in> {LayoutClass.UNKNOWN, LayoutClass.CONFLICTING}"

definition strong_multi_field_match ::
  "building \<Rightarrow> ParsedSourceObservation \<Rightarrow> source_observation \<Rightarrow> db \<Rightarrow> canonical_listing option" where
  "strong_multi_field_match building observation row s =
     (let layout = lb_proposed_layout_class (po_layout observation)
      in case pb_monthly_rent_minor (po_pricing observation) of
           None \<Rightarrow> None
         | Some rent \<Rightarrow>
             if unusable_layout layout then None
             else (case filter (strong_match building layout rent row s) (db_listings s) of
                     [l] \<Rightarrow> Some l | _ \<Rightarrow> None))"

definition attach_cross_source_link ::
  "source_observation \<Rightarrow> canonical_listing \<Rightarrow> DiscoveryMethod \<Rightarrow> IdentityMethod \<Rightarrow>
   IdentityConfidence \<Rightarrow> db \<Rightarrow> NormalizationOutcome \<times> db" where
  "attach_cross_source_link row listing discovery_method identity_method identity_confidence s =
     (let link = new_link (db_next s) (cl_id listing) row discovery_method identity_method
                   identity_confidence;
          s1 = s\<lparr>db_links := db_links s @ [link], db_next := Suc (db_next s)\<rparr>;
          s2 = update_listing (cl_id listing)
                 (\<lambda>r. r\<lparr>cl_last_seen_at := max (cl_last_seen_at listing) (so_observed_at row)\<rparr>) s1
      in (outcome ''MATCHED_EXISTING'' (Some (cl_id listing)) (Some (lk_id link)) [], s2))"

section \<open>Facts and duplicate candidates\<close>

definition value_json :: "json \<Rightarrow> json" where
  "value_json v = JObj [(''value'', v)]"

definition listing_fact ::
  "uuid \<Rightarrow> source_observation \<Rightarrow> string \<Rightarrow> json \<Rightarrow> Confidence \<Rightarrow> string option \<Rightarrow> fact_input" where
  "listing_fact listing row key v confidence evidence =
     \<lparr>fi_entity_type = FactEntityType.LISTING, fi_entity_id = listing, fi_fact_key = key,
      fi_value_json = Some (value_json v), fi_value_status = ValueStatus.ASSERTED,
      fi_derivation_type = DerivationType.SOURCE_TEXT, fi_confidence = confidence,
      fi_source_observation_id = Some (so_id row), fi_evidence_text = evidence\<rparr>"

definition listing_facts :: "uuid \<Rightarrow> ParsedSourceObservation \<Rightarrow> source_observation \<Rightarrow> fact_input list" where
  "listing_facts listing observation row =
     (case pb_monthly_rent_minor (po_pricing observation) of None \<Rightarrow> [] | Some rent \<Rightarrow>
        [listing_fact listing row ''monthly_rent_minor'' (JInt rent) Confidence.MEDIUM
           (pb_source_price_text (po_pricing observation))]) @
     (let layout = po_layout observation
      in if lb_proposed_layout_class layout = LayoutClass.UNKNOWN then [] else
        [listing_fact listing row ''layout_class''
           (JStr (LayoutClass_value (lb_proposed_layout_class layout))) (lb_confidence layout)
           (lb_raw_layout_text layout)]) @
     (let laundry = po_laundry observation
      in if yb_proposed_laundry_type laundry = LaundryType.UNKNOWN then [] else
        [listing_fact listing row ''laundry_type''
           (JStr (LaundryType_value (yb_proposed_laundry_type laundry))) (yb_confidence laundry)
           (yb_evidence_text laundry)]) @
     (let availability = po_availability observation
      in if ab_proposed_status availability = AvailabilityStatus.UNKNOWN then [] else
        [listing_fact listing row ''availability_status''
           (JStr (AvailabilityStatus_value (ab_proposed_status availability))) Confidence.MEDIUM
           (ab_source_status_text availability)])"

fun record_facts :: "fact_input list \<Rightarrow> datetime \<Rightarrow> db \<Rightarrow> db result" where
  "record_facts [] now s = Inr s"
| "record_facts (f # fs) now s =
     bind_result (record_fact f now s) (\<lambda>(_, s'). record_facts fs now s')"

definition record_listing_facts ::
  "uuid \<Rightarrow> ParsedSourceObservation \<Rightarrow> source_observation \<Rightarrow> datetime \<Rightarrow> db \<Rightarrow> db result" where
  "record_listing_facts listing observation row now s =
     record_facts (listing_facts listing observation row) now s"

definition candidate_evidence :: "LayoutClass \<Rightarrow> int \<Rightarrow> json" where
  "candidate_evidence layout rent_delta = JObj
     [(''rule'', JStr ''same_building_layout_similar_rent''),
      (''layout_class'', JStr (LayoutClass_value layout)), (''rent_delta_minor'', JInt rent_delta),
      (''tolerance'', JNum RENT_SIMILARITY_TOLERANCE)]"

definition new_candidate :: "uuid \<Rightarrow> uuid \<Rightarrow> uuid \<Rightarrow> json \<Rightarrow> duplicate_candidate" where
  "new_candidate i a b evidence =
     \<lparr>dc_id = i, dc_listing_a_id = a, dc_listing_b_id = b, dc_candidate_score = None,
      dc_evidence = evidence, dc_rule_version = IDENTITY_RULE_VERSION,
      dc_status = DuplicateCandidateStatus.PENDING, dc_resolved_by = None, dc_resolved_at = None\<rparr>"

definition same_candidate :: "uuid \<Rightarrow> uuid \<Rightarrow> duplicate_candidate \<Rightarrow> bool" where
  "same_candidate a b r \<longleftrightarrow> dc_listing_a_id r = a \<and> dc_listing_b_id r = b \<and>
     dc_rule_version r = IDENTITY_RULE_VERSION"

text \<open>The pair with its review issue, unless the unique constraint has the pair already.\<close>

definition propose_candidate :: "uuid \<Rightarrow> uuid \<Rightarrow> json \<Rightarrow> db \<Rightarrow> db" where
  "propose_candidate x y evidence s =
     (let a = min x y; b = max x y; c = db_next s
      in if \<exists>r \<in> set (db_candidates s). same_candidate a b r then s
         else s\<lparr>db_candidates := db_candidates s @ [new_candidate c a b evidence],
                db_issues := db_issues s @
                  [new_issue (Suc c) a ReviewIssueType.DUPLICATE_CANDIDATE ReviewIssueSeverity.WARNING
                    (JObj [(''duplicate_candidate_id'', JUuid c), (''listing_a_id'', JUuid a),
                           (''listing_b_id'', JUuid b)])],
                db_next := Suc (Suc c)\<rparr>)"

definition comparable_listing :: "building \<Rightarrow> canonical_listing \<Rightarrow> canonical_listing \<Rightarrow> bool" where
  "comparable_listing building listing other \<longleftrightarrow>
     cl_building_id other = bd_id building \<and> cl_id other \<noteq> cl_id listing \<and>
     cl_layout_class other = cl_layout_class listing \<and> cl_monthly_rent_minor other \<noteq> None \<and>
     cl_lifecycle_status other \<noteq> LifecycleStatus.MERGED"

definition similar_rent :: "int \<Rightarrow> int \<Rightarrow> bool" where
  "similar_rent rent other_rent \<longleftrightarrow>
     \<not> (of_int \<bar>other_rent - rent\<bar> > RENT_SIMILARITY_TOLERANCE * of_int rent)"

definition generate_duplicate_candidates :: "canonical_listing \<Rightarrow> building \<Rightarrow> db \<Rightarrow> db" where
  "generate_duplicate_candidates listing building s =
     (case cl_monthly_rent_minor listing of
        None \<Rightarrow> s
      | Some rent \<Rightarrow>
          if unusable_layout (cl_layout_class listing) then s
          else fold (\<lambda>other t.
                 case cl_monthly_rent_minor other of
                   None \<Rightarrow> t
                 | Some other_rent \<Rightarrow>
                     if similar_rent rent other_rent
                     then propose_candidate (cl_id listing) (cl_id other)
                            (candidate_evidence (cl_layout_class listing) \<bar>other_rent - rent\<bar>) t
                     else t)
               (filter (comparable_listing building listing) (db_listings s)) s)"

section \<open>A new identity\<close>

definition new_listing ::
  "uuid \<Rightarrow> uuid \<Rightarrow> uuid option \<Rightarrow> ParsedSourceObservation \<Rightarrow> source_observation \<Rightarrow> canonical_listing" where
  "new_listing i building unit observation row =
     \<lparr>cl_id = i, cl_building_id = building, cl_unit_id = unit,
      cl_layout_class = lb_proposed_layout_class (po_layout observation),
      cl_bedroom_count = map_option numeric_3_1 (lb_source_bedrooms (po_layout observation)),
      cl_bathroom_count = map_option numeric_3_1 (lb_source_bathrooms (po_layout observation)),
      cl_monthly_rent_minor = pb_monthly_rent_minor (po_pricing observation),
      cl_currency_code = ''USD'', cl_available_from = None,
      cl_availability_status = ab_proposed_status (po_availability observation),
      cl_lifecycle_status = LifecycleStatus.CANDIDATE,
      cl_laundry_type = yb_proposed_laundry_type (po_laundry observation),
      cl_indoor_laundry_badge_eligible = False,
      cl_description_current = eb_text (po_description observation),
      cl_first_seen_at = so_observed_at row, cl_last_seen_at = so_observed_at row,
      cl_last_material_change_at = so_observed_at row, cl_inactive_at = None,
      cl_canonical_resolution_status = CanonicalResolutionStatus.PROVISIONAL,
      cl_enrichment_status = EnrichmentStatus.NOT_STARTED\<rparr>"

text \<open>A number that its column cannot hold makes the flush of the listing fail.\<close>

definition create_listing ::
  "source_observation \<Rightarrow> ParsedSourceObservation \<Rightarrow> DiscoveryMethod \<Rightarrow> datetime \<Rightarrow> building \<Rightarrow>
   housing_unit option \<Rightarrow> NormalizationOutcome tx" where
  "create_listing row observation discovery_method now building unit s =
     (if \<not> storable observation then Inl data_error
      else let listing = new_listing (db_next s) (bd_id building) (map_option un_id unit) observation row;
          link = new_link (Suc (db_next s)) (cl_id listing) row discovery_method
                   IdentityMethod.SOURCE_NATIVE_CONTINUITY IdentityConfidence.HIGH;
          s1 = s\<lparr>db_listings := db_listings s @ [listing], db_links := db_links s @ [link],
                 db_next := Suc (Suc (db_next s))\<rparr>;
          (emitted, s2) = emit_event (cl_id listing) ListingEventType.CREATED row None
            (Some (JObj [(''lifecycle_status'',
               JStr (LifecycleStatus_value (cl_lifecycle_status listing)))])) None s1
      in bind_result (record_listing_facts (cl_id listing) observation row now s2)
           (\<lambda>s3. Inr (outcome ''NEW'' (Some (cl_id listing)) (Some (lk_id link)) emitted,
                      generate_duplicate_candidates listing building s3)))"

definition create_canonical ::
  "source_observation \<Rightarrow> ParsedSourceObservation \<Rightarrow> DiscoveryMethod \<Rightarrow> datetime \<Rightarrow>
   NormalizationOutcome tx" where
  "create_canonical row observation discovery_method now s =
     bind_result (ensure_address row observation s) (\<lambda>(address, s1).
     bind_result (ensure_building address s1) (\<lambda>(building, s2).
     bind_result (match_unit building observation s2) (\<lambda>(matched, s3).
       case matched of
         Inl existing \<Rightarrow> Inr (attach_cross_source_link row existing discovery_method
           IdentityMethod.EXACT_ADDRESS_AND_UNIT IdentityConfidence.HIGH s3)
       | Inr unit \<Rightarrow>
           (case if unit = None then strong_multi_field_match building observation row s3 else None of
              Some strong \<Rightarrow> Inr (attach_cross_source_link row strong discovery_method
                IdentityMethod.STRONG_MULTI_FIELD IdentityConfidence.MEDIUM s3)
            | None \<Rightarrow> create_listing row observation discovery_method now building unit s3))))"

section \<open>A known identity\<close>

definition touch_freshness ::
  "listing_source_link \<Rightarrow> canonical_listing \<Rightarrow> source_observation \<Rightarrow> db \<Rightarrow> db" where
  "touch_freshness link listing row s =
     update_listing (cl_id listing)
       (\<lambda>r. r\<lparr>cl_last_seen_at := max (cl_last_seen_at listing) (so_observed_at row)\<rparr>)
       (if lk_last_seen_at link \<le> so_observed_at row
        then s\<lparr>db_links := update_where (\<lambda>k. lk_id k = lk_id link)
                 (\<lambda>k. k\<lparr>lk_last_seen_at := so_observed_at row,
                       lk_latest_observation_id := so_id row\<rparr>) (db_links s)\<rparr>
        else s)"

definition override_blocks :: "uuid \<Rightarrow> string \<Rightarrow> json \<Rightarrow> bool tx" where
  "override_blocks listing key incoming s =
     bind_result (active_override FactEntityType.LISTING listing key s)
       (\<lambda>found. Inr (case found of
          None \<Rightarrow> (False, s)
        | Some override \<Rightarrow>
            (let stored = Option.bind (ho_override_value override) (json_get ''value'')
             in (True,
                 if \<not> py_equal incoming (case stored of None \<Rightarrow> JNull | Some v \<Rightarrow> v)
                 then raise_conflict_with_override override listing key incoming s
                 else s))))"

text \<open>
  The body shared by the three field updates: override, event, assignment.  A value that does not fit
  its column fails when the assignment is flushed, at the latest with the caller's next statement.
\<close>

definition apply_change ::
  "uuid \<Rightarrow> source_observation \<Rightarrow> string \<Rightarrow> ListingEventType \<Rightarrow> json \<Rightarrow> json \<Rightarrow>
   bool \<Rightarrow> (canonical_listing \<Rightarrow> canonical_listing) \<Rightarrow> ListingEventType list tx" where
  "apply_change listing row key event_type old new fits assign s =
     bind_result (override_blocks listing key new s) (\<lambda>(blocked, s1).
       if blocked then Inr ([], s1)
       else if \<not> fits then Inl data_error
       else (let (emitted, s2) = emit_event listing event_type row (Some (JObj [(key, old)]))
                                   (Some (JObj [(key, new)])) None s1
             in Inr (emitted, update_listing listing assign s2)))"

definition update_rent ::
  "canonical_listing \<Rightarrow> source_observation \<Rightarrow> ParsedSourceObservation \<Rightarrow> ListingEventType list tx" where
  "update_rent listing row observation s =
     (case pb_monthly_rent_minor (po_pricing observation) of
        None \<Rightarrow> Inr ([], s)
      | Some new_rent \<Rightarrow>
          if cl_monthly_rent_minor listing = Some new_rent then Inr ([], s)
          else apply_change (cl_id listing) row ''monthly_rent_minor'' ListingEventType.PRICE_CHANGED
                 (case cl_monthly_rent_minor listing of None \<Rightarrow> JNull | Some n \<Rightarrow> JInt n) (JInt new_rent)
                 (int8 new_rent) (\<lambda>r. r\<lparr>cl_monthly_rent_minor := Some new_rent\<rparr>) s)"

definition update_availability ::
  "canonical_listing \<Rightarrow> source_observation \<Rightarrow> ParsedSourceObservation \<Rightarrow> ListingEventType list tx" where
  "update_availability listing row observation s =
     (let new = ab_proposed_status (po_availability observation)
      in if new = AvailabilityStatus.UNKNOWN \<or> new = cl_availability_status listing then Inr ([], s)
         else apply_change (cl_id listing) row ''availability_status''
                ListingEventType.AVAILABILITY_CHANGED
                (JStr (AvailabilityStatus_value (cl_availability_status listing)))
                (JStr (AvailabilityStatus_value new))
                True (\<lambda>r. r\<lparr>cl_availability_status := new\<rparr>) s)"

definition update_laundry ::
  "canonical_listing \<Rightarrow> source_observation \<Rightarrow> ParsedSourceObservation \<Rightarrow> ListingEventType list tx" where
  "update_laundry listing row observation s =
     (let new = yb_proposed_laundry_type (po_laundry observation)
      in if new = LaundryType.UNKNOWN \<or> new = cl_laundry_type listing then Inr ([], s)
         else apply_change (cl_id listing) row ''laundry_type'' ListingEventType.LAUNDRY_CHANGED
                (JStr (LaundryType_value (cl_laundry_type listing))) (JStr (LaundryType_value new))
                True (\<lambda>r. r\<lparr>cl_laundry_type := new,
                      cl_indoor_laundry_badge_eligible :=
                        derive_badge_eligibility new ValidationStatus.PENDING
                          ResolutionStatus.RESOLVED False\<rparr>) s)"

text \<open>
  The rest of \<open>_update_existing\<close> once the content hash differs: evidence first, then the three fields
  in the order of the source.
\<close>

definition apply_evidence ::
  "canonical_listing \<Rightarrow> source_observation \<Rightarrow> ParsedSourceObservation \<Rightarrow> datetime \<Rightarrow>
   ListingEventType list tx" where
  "apply_evidence listing row observation now s1 =
     bind_result (record_listing_facts (cl_id listing) observation row now s1) (\<lambda>s2.
     bind_result (update_rent listing row observation s2) (\<lambda>(e1, s3).
     bind_result (update_availability listing row observation s3) (\<lambda>(e2, s4).
     bind_result (update_laundry listing row observation s4) (\<lambda>(e3, s5).
       Inr (e1 @ e2 @ e3,
            if e1 @ e2 @ e3 \<noteq> []
            then update_listing (cl_id listing)
                   (\<lambda>r. r\<lparr>cl_last_material_change_at := so_observed_at row\<rparr>) s5
            else s5)))))"

definition update_existing ::
  "source_observation \<Rightarrow> ParsedSourceObservation \<Rightarrow> listing_source_link \<Rightarrow> datetime \<Rightarrow>
   NormalizationOutcome tx" where
  "update_existing row observation link now s =
     (let previous = get_by so_id (lk_latest_observation_id link) (db_observations s);
          out = (\<lambda>c. outcome c (Some (lk_canonical_listing_id link)) (Some (lk_id link)))
      in case get_by cl_id (lk_canonical_listing_id link) (db_listings s) of
           None \<Rightarrow> Inl AssertionError
         | Some listing \<Rightarrow>
             if lk_latest_observation_id link = so_id row then Inr (out ''UNCHANGED'' [], s)
             else (let s1 = touch_freshness link listing row s
                   in if map_option so_content_hash previous = Some (so_content_hash row)
                      then Inr (out ''UNCHANGED'' [], s1)
                      else
                        bind_result (apply_evidence listing row observation now s1) (\<lambda>(emitted, s2).
                          Inr (out (if emitted \<noteq> [] then ''MATERIAL_CHANGE'' else ''UNCHANGED'') emitted, s2))))"

section \<open>The service\<close>

definition process_observation ::
  "uuid \<Rightarrow> DiscoveryMethod \<Rightarrow> datetime \<Rightarrow> NormalizationOutcome tx" where
  "process_observation i discovery_method now s =
     (case get_by so_id i (db_observations s) of
        None \<Rightarrow> Inl LookupError
      | Some row \<Rightarrow>
          if so_parse_status row \<notin> {ParseStatus.VALID, ParseStatus.PARTIAL}
          then Inr (outcome ''UNRESOLVED'' None None [], s)
          else bind_result (find_link row s) (\<lambda>found. case found of
                 None \<Rightarrow> create_canonical row (so_parsed_payload row) discovery_method now s
               | Some link \<Rightarrow> update_existing row (so_parsed_payload row) link now s))"

section \<open>Steps that only write history\<close>

text \<open>
  Facts, events and review issues: the rest of the database stays, the event log and the issues only
  grow, and the unique indexes keep holding.
\<close>

definition keys_unique :: "db \<Rightarrow> bool" where
  "keys_unique s \<longleftrightarrow> distinct (map ev_idempotency_key (db_events s))"

definition history_step :: "db \<Rightarrow> db \<Rightarrow> bool" where
  "history_step s s' \<longleftrightarrow>
     manual_state s' = manual_state s \<and> upstream_state s' = upstream_state s \<and>
     identity_state s' = identity_state s \<and> db_listings s' = db_listings s \<and>
     db_next s \<le> db_next s' \<and>
     (\<exists>new. db_events s' = db_events s @ new) \<and> (\<exists>new. db_issues s' = db_issues s @ new) \<and>
     (facts_inv s \<longrightarrow> facts_inv s') \<and> (keys_unique s \<longrightarrow> keys_unique s')"

lemma history_refl [simp, intro]: "history_step s s"
  by (simp add: history_step_def)

lemma history_trans [trans]: "history_step s t \<Longrightarrow> history_step t u \<Longrightarrow> history_step s u"
  unfolding history_step_def by (elim conjE exE, intro conjI) auto

lemma history_frame:
  assumes "history_step s s'"
  shows "manual_state s' = manual_state s" "upstream_state s' = upstream_state s"
    "identity_state s' = identity_state s" "db_listings s' = db_listings s" "db_next s \<le> db_next s'"
    "facts_inv s \<Longrightarrow> facts_inv s'" "keys_unique s \<Longrightarrow> keys_unique s'"
  using assms by (simp_all add: history_step_def)

lemma record_fact_history:
  assumes "record_fact f now s = Inr (a, s')"
  shows "history_step s s'"
  unfolding history_step_def
  using record_fact_frame [OF assms] record_fact_inv [OF _ assms]
  by (simp add: keys_unique_def)

lemma record_facts_history: "record_facts fs now s = Inr s' \<Longrightarrow> history_step s s'"
proof (induction fs arbitrary: s)
  case (Cons f fs)
  then obtain a t where "record_fact f now s = Inr (a, t)" "record_facts fs now t = Inr s'"
    by (auto simp: bind_result_Inr_iff)
  with Cons.IH record_fact_history show ?case by (blast intro: history_trans)
qed simp

lemma record_facts_total: "facts_inv s \<Longrightarrow> \<exists>s'. record_facts fs now s = Inr s'"
proof (induction fs arbitrary: s)
  case (Cons f fs)
  obtain a t where t: "record_fact f now s = Inr (a, t)"
    using record_fact_total [OF Cons.prems] by blast
  show ?case using Cons.IH [OF record_fact_inv [OF Cons.prems t]] t by simp
qed simp

lemma raise_conflict_history: "history_step s (raise_conflict_with_override ov i k v s)"
proof (cases rule: raise_conflict_cases [of ov i k v s])
  case (raised r)
  then show ?thesis
    by (simp add: history_step_def frame_defs facts_inv_def keys_unique_def)
qed simp

lemma emit_event_cases:
  assumes "emit_event i ty row b a et s = (evs, s')"
  obtains (replayed) "\<exists>r \<in> set (db_events s). ev_idempotency_key r = event_key_of i ty row"
      "evs = []" "s' = s"
  | (fresh) "\<forall>r \<in> set (db_events s). ev_idempotency_key r \<noteq> event_key_of i ty row"
      "evs = [ty]" "s' = s\<lparr>db_events := db_events s @ [new_event (db_next s) i ty row b a et],
        db_next := Suc (db_next s)\<rparr>"
proof (cases "\<exists>r \<in> set (db_events s). ev_idempotency_key r = event_key_of i ty row")
  case True
  with assms show thesis by (intro replayed) (simp_all add: emit_event_def)
next
  case False
  with assms show thesis by (intro fresh) (simp_all add: emit_event_def)
qed

lemma emit_event_history: "emit_event i ty row b a et s = (evs, s') \<Longrightarrow> history_step s s'"
proof (erule emit_event_cases)
  assume fresh: "\<forall>r \<in> set (db_events s). ev_idempotency_key r \<noteq> event_key_of i ty row"
    and s': "s' = s\<lparr>db_events := db_events s @ [new_event (db_next s) i ty row b a et],
      db_next := Suc (db_next s)\<rparr>"
  have "keys_unique s \<longrightarrow> keys_unique s'"
    using fresh by (auto simp: s' keys_unique_def new_event_def)
  then show "history_step s s'"
    unfolding history_step_def by (simp add: s' frame_defs facts_inv_def)
qed simp

interpretation event_insert: idempotent_insert db_events
    "\<lambda>(i, ty, row, b, a, et) s. case emit_event i ty row b a et s of (evs, s') \<Rightarrow> (evs \<noteq> [], s')"
    "\<lambda>(i, ty, row, b, a, et) s. new_event (db_next s) i ty row b a et"
    "\<lambda>(i, ty, row, b, a, et) r. ev_idempotency_key r = event_key_of i ty row"
  by unfold_locales (auto simp: emit_event_def new_event_def split: prod.splits)

lemma override_blocks_cases:
  assumes "override_blocks i k v s = Inr (b, s')"
  obtains (blocked) ov where "b" "ov \<in> set (db_overrides s)" "is_active_override FactEntityType.LISTING i k ov"
      "history_step s s'"
  | (free) "\<not> b" "\<forall>r \<in> set (db_overrides s). \<not> is_active_override FactEntityType.LISTING i k r" "s' = s"
proof (cases "active_override FactEntityType.LISTING i k s")
  case (Inl e)
  then show thesis using assms by (simp add: override_blocks_def)
next
  case (Inr found)
  show thesis
  proof (cases found)
    case None
    then show thesis using assms Inr active_override_NoneD by (intro free) (auto simp: override_blocks_def)
  next
    case (Some ov)
    with assms Inr have "b" "s' = s \<or> (\<exists>w. s' = raise_conflict_with_override ov i k w s)"
      by (auto simp: override_blocks_def Let_def split: if_splits)
    moreover have "history_step s s'" using calculation(2) raise_conflict_history by auto
    ultimately show thesis using Inr Some active_override_SomeD [of FactEntityType.LISTING i k s ov] by (intro blocked [of ov]) auto
  qed
qed

lemma override_blocks_total: "facts_inv s \<Longrightarrow> \<exists>b s'. override_blocks i k v s = Inr (b, s')"
  using active_override_total [of s FactEntityType.LISTING i k]
  by (auto simp: override_blocks_def Let_def split: option.splits if_splits)

section \<open>Listings that evolve\<close>

text \<open>The columns that normalization never writes on an existing row.\<close>

definition frozen :: "canonical_listing \<Rightarrow> canonical_listing" where
  "frozen l = l\<lparr>cl_last_seen_at := 0, cl_monthly_rent_minor := None,
     cl_availability_status := AvailabilityStatus.UNKNOWN, cl_laundry_type := LaundryType.UNKNOWN,
     cl_indoor_laundry_badge_eligible := False, cl_last_material_change_at := 0\<rparr>"

definition evolves :: "canonical_listing \<Rightarrow> canonical_listing \<Rightarrow> bool" where
  "evolves l l' \<longleftrightarrow> frozen l' = frozen l \<and> cl_last_seen_at l \<le> cl_last_seen_at l' \<and>
     (cl_indoor_laundry_badge_eligible l' \<longrightarrow>
        cl_indoor_laundry_badge_eligible l \<and> cl_laundry_type l' = cl_laundry_type l)"

lemma frozen_fields:
  assumes "frozen l' = frozen l"
  shows "cl_id l' = cl_id l" "cl_building_id l' = cl_building_id l" "cl_unit_id l' = cl_unit_id l"
    "cl_lifecycle_status l' = cl_lifecycle_status l" "cl_layout_class l' = cl_layout_class l"
    "cl_inactive_at l' = cl_inactive_at l" "cl_first_seen_at l' = cl_first_seen_at l"
  using arg_cong [OF assms, of cl_id] arg_cong [OF assms, of cl_building_id]
    arg_cong [OF assms, of cl_unit_id] arg_cong [OF assms, of cl_lifecycle_status]
    arg_cong [OF assms, of cl_layout_class] arg_cong [OF assms, of cl_inactive_at]
    arg_cong [OF assms, of cl_first_seen_at]
  by (simp_all add: frozen_def)

lemma evolves_refl [simp, intro]: "evolves l l"
  by (simp add: evolves_def)

lemma evolves_trans: "evolves l m \<Longrightarrow> evolves m n \<Longrightarrow> evolves l n"
  by (auto simp: evolves_def)

definition listings_evolve :: "db \<Rightarrow> db \<Rightarrow> bool" where
  "listings_evolve s s' \<longleftrightarrow> list_all2 evolves (db_listings s) (db_listings s')"

lemma list_all2_evolves_refl: "list_all2 evolves ls ls"
  by (simp add: list_all2_refl)

lemma listings_evolve_trans: "listings_evolve s t \<Longrightarrow> listings_evolve t u \<Longrightarrow> listings_evolve s u"
  unfolding listings_evolve_def by (rule list_all2_trans [OF evolves_trans])

lemma listings_evolve_same: "db_listings s' = db_listings s \<Longrightarrow> listings_evolve s s'"
  by (simp add: listings_evolve_def list_all2_evolves_refl)

lemma list_all2_update_where:
  "(\<And>r. r \<in> set rs \<Longrightarrow> p r \<Longrightarrow> R r (f r)) \<Longrightarrow> (\<And>r. R r r) \<Longrightarrow> list_all2 R rs (update_where p f rs)"
  by (induction rs) auto

lemma update_listing_evolves:
  "(\<And>l. l \<in> set (db_listings s) \<Longrightarrow> cl_id l = i \<Longrightarrow> evolves l (f l)) \<Longrightarrow> listings_evolve s (update_listing i f s)"
  by (simp add: listings_evolve_def update_listing_def list_all2_update_where)

lemma update_listing_frame [simp]:
  "manual_state (update_listing i f s) = manual_state s"
  "upstream_state (update_listing i f s) = upstream_state s"
  "identity_state (update_listing i f s) = identity_state s"
  "fact_state (update_listing i f s) = fact_state s"
  "db_events (update_listing i f s) = db_events s"
  "db_issues (update_listing i f s) = db_issues s"
  "db_next (update_listing i f s) = db_next s"
  "facts_inv (update_listing i f s) = facts_inv s"
  "keys_unique (update_listing i f s) = keys_unique s"
  by (simp_all add: update_listing_def frame_defs facts_inv_def keys_unique_def)

lemma evolves_ids: "list_all2 evolves ls ls' \<Longrightarrow> map cl_id ls' = map cl_id ls"
  by (induction rule: list_all2_induct) (auto simp: evolves_def dest: frozen_fields)

section \<open>Applying a change\<close>

lemma apply_change_cases:
  assumes "apply_change i row k ty old new fits f s = Inr (evs, s')"
  obtains (blocked) ov where "ov \<in> set (db_overrides s)" "is_active_override FactEntityType.LISTING i k ov"
      "evs = []" "history_step s s'"
  | (applied) t where "\<forall>r \<in> set (db_overrides s). \<not> is_active_override FactEntityType.LISTING i k r"
      "emit_event i ty row (Some (JObj [(k, old)])) (Some (JObj [(k, new)])) None s = (evs, t)"
      "s' = update_listing i f t"
proof -
  from assms obtain b t where t: "override_blocks i k new s = Inr (b, t)"
    and rest: "(if b then Inr ([], t) else if \<not> fits then Inl data_error else (let (emitted, s2) = emit_event i ty row
        (Some (JObj [(k, old)])) (Some (JObj [(k, new)])) None t
        in Inr (emitted, update_listing i f s2))) = (Inr (evs, s') :: (ListingEventType list \<times> db) result)"
    by (auto simp: apply_change_def bind_result_Inr_iff)
  from t show thesis
  proof (cases rule: override_blocks_cases)
    case (blocked ov)
    with rest show ?thesis by (intro that(1)) auto
  next
    case free
    obtain u where "emit_event i ty row (Some (JObj [(k, old)])) (Some (JObj [(k, new)])) None s = (evs, u)"
      "s' = update_listing i f u"
      using rest free(1,3) by (auto split: prod.splits if_splits)
    with free(2) show ?thesis by (rule that(2))
  qed
qed

lemma apply_change_total: "facts_inv s \<Longrightarrow> fits \<Longrightarrow> \<exists>evs s'. apply_change i row k ty old new fits f s = Inr (evs, s')"
  using override_blocks_total [of s i k new] by (auto simp: apply_change_def split: prod.splits)

text \<open>
  What a field update may do: evolve one listing, and write history.  The overrides stay, so the
  next field sees the same precedence.
\<close>

definition field_step :: "uuid \<Rightarrow> db \<Rightarrow> db \<Rightarrow> bool" where
  "field_step i s s' \<longleftrightarrow>
     manual_state s' = manual_state s \<and> upstream_state s' = upstream_state s \<and>
     identity_state s' = identity_state s \<and> listings_evolve s s' \<and>
     (\<forall>l \<in> set (db_listings s). cl_id l \<noteq> i \<longrightarrow> l \<in> set (db_listings s')) \<and>
     db_next s \<le> db_next s' \<and> (\<exists>new. db_events s' = db_events s @ new) \<and>
     (facts_inv s \<longrightarrow> facts_inv s') \<and> (keys_unique s \<longrightarrow> keys_unique s')"

lemma field_step_trans: "field_step i s t \<Longrightarrow> field_step i t u \<Longrightarrow> field_step i s u"
proof -
  assume st: "field_step i s t" and tu: "field_step i t u"
  have "listings_evolve s u"
    using listings_evolve_trans st tu unfolding field_step_def by blast
  then show ?thesis
    using st tu unfolding field_step_def by (elim conjE exE, intro conjI) simp_all
qed

lemma history_field_step: "history_step s s' \<Longrightarrow> field_step i s s'"
  unfolding field_step_def history_step_def by (auto intro: listings_evolve_same)

lemma field_step_refl [simp, intro]: "field_step i s s"
  by (simp add: history_field_step)

lemma field_step_update:
  assumes "field_step i s t"
    "\<And>l. l \<in> set (db_listings t) \<Longrightarrow> cl_id l = i \<Longrightarrow> evolves l (f l)"
  shows "field_step i s (update_listing i f t)"
proof (rule field_step_trans [OF assms(1)])
  have "listings_evolve t (update_listing i f t)" by (rule update_listing_evolves) (rule assms(2))
  moreover have "l \<in> set (db_listings (update_listing i f t))"
    if "l \<in> set (db_listings t)" "cl_id l \<noteq> i" for l
    using that by (simp add: update_listing_def untouched_by_update)
  ultimately show "field_step i t (update_listing i f t)" by (auto simp: field_step_def)
qed

lemma apply_change_step:
  assumes "apply_change i row k ty old new fits f s = Inr (evs, s')" "\<And>l. evolves l (f l)"
  shows "field_step i s s'"
  using assms(1)
proof (cases rule: apply_change_cases)
  case (applied t)
  have "field_step i s t" by (rule history_field_step) (rule emit_event_history [OF applied(2)])
  then show ?thesis unfolding applied(3) by (rule field_step_update) (rule assms(2))
qed (rule history_field_step)

lemma badge_never_granted [simp]:
  "\<not> derive_badge_eligibility laundry ValidationStatus.PENDING resolution confirmed"
  by (simp add: derive_badge_eligibility_def)

lemma update_rent_step: "update_rent l row obs s = Inr (evs, s') \<Longrightarrow> field_step (cl_id l) s s'"
  by (auto simp: update_rent_def evolves_def frozen_def intro!: apply_change_step split: option.splits if_splits)

lemma update_availability_step: "update_availability l row obs s = Inr (evs, s') \<Longrightarrow> field_step (cl_id l) s s'"
  by (auto simp: update_availability_def Let_def evolves_def frozen_def intro!: apply_change_step
      split: if_splits)

lemma update_laundry_step: "update_laundry l row obs s = Inr (evs, s') \<Longrightarrow> field_step (cl_id l) s s'"
  by (auto simp: update_laundry_def Let_def evolves_def frozen_def intro!: apply_change_step
      split: if_splits)

lemma field_updates_total:
  assumes "facts_inv s"
  shows "int8_opt (pb_monthly_rent_minor (po_pricing obs)) \<Longrightarrow> \<exists>evs s'. update_rent l row obs s = Inr (evs, s')"
    "\<exists>evs s'. update_availability l row obs s = Inr (evs, s')"
    "\<exists>evs s'. update_laundry l row obs s = Inr (evs, s')"
  using apply_change_total [OF assms]
  by (auto simp: update_rent_def update_availability_def update_laundry_def Let_def int8_opt_def split: option.splits)

section \<open>Links that are refreshed\<close>

definition frozen_link :: "listing_source_link \<Rightarrow> listing_source_link" where
  "frozen_link k = k\<lparr>lk_last_seen_at := 0, lk_latest_observation_id := 0\<rparr>"

definition refreshes :: "listing_source_link \<Rightarrow> listing_source_link \<Rightarrow> bool" where
  "refreshes k k' \<longleftrightarrow> frozen_link k' = frozen_link k \<and> lk_last_seen_at k \<le> lk_last_seen_at k'"

lemma frozen_link_fields:
  assumes "frozen_link k' = frozen_link k"
  shows "lk_id k' = lk_id k" "lk_canonical_listing_id k' = lk_canonical_listing_id k"
    "lk_source_id k' = lk_source_id k" "lk_source_native_id k' = lk_source_native_id k"
    "lk_source_url k' = lk_source_url k" "lk_link_status k' = lk_link_status k"
    "lk_discovery_method k' = lk_discovery_method k"
  using arg_cong [OF assms, of lk_id] arg_cong [OF assms, of lk_canonical_listing_id]
    arg_cong [OF assms, of lk_source_id] arg_cong [OF assms, of lk_source_native_id]
    arg_cong [OF assms, of lk_source_url] arg_cong [OF assms, of lk_link_status]
    arg_cong [OF assms, of lk_discovery_method]
  by (simp_all add: frozen_link_def)

lemma refreshes_refl [simp, intro]: "refreshes k k"
  by (simp add: refreshes_def)

definition native_key :: "listing_source_link \<Rightarrow> uuid \<times> string option" where
  "native_key k = (lk_source_id k, lk_source_native_id k)"

definition has_native :: "listing_source_link \<Rightarrow> bool" where
  "has_native k \<longleftrightarrow> lk_source_native_id k \<noteq> None"

lemma refreshes_maps:
  assumes "list_all2 refreshes ks ks'"
  shows "map lk_id ks' = map lk_id ks"
    "map native_key (filter has_native ks') = map native_key (filter has_native ks)"
    "map lk_canonical_listing_id ks' = map lk_canonical_listing_id ks"
  using assms
  by (induction rule: list_all2_induct)
    (auto simp: refreshes_def native_key_def has_native_def dest: frozen_link_fields)

section \<open>The invariant of the canonical tables\<close>

definition match_keys :: "db \<Rightarrow> string list" where
  "match_keys s = filter (\<lambda>k. \<not> starts_with k ''unresolved:'')
     (List.map_filter ad_fingerprint (db_addresses s))"

definition chain_inv :: "db \<Rightarrow> bool" where
  "chain_inv s \<longleftrightarrow> distinct (match_keys s) \<and> distinct (map bd_address_id (db_buildings s)) \<and>
     distinct (map (\<lambda>u. (un_building_id u, un_fingerprint u)) (db_units s))"

definition link_inv :: "db \<Rightarrow> bool" where
  "link_inv s \<longleftrightarrow> distinct (map cl_id (db_listings s)) \<and> distinct (map lk_id (db_links s)) \<and>
     (\<forall>i \<in> set (map cl_id (db_listings s)). i < db_next s) \<and>
     (\<forall>i \<in> set (map lk_id (db_links s)). i < db_next s) \<and>
     set (map lk_canonical_listing_id (db_links s)) \<subseteq> set (map cl_id (db_listings s)) \<and>
     distinct (map native_key (filter has_native (db_links s)))"

definition canonical_inv :: "db \<Rightarrow> bool" where
  "canonical_inv s \<longleftrightarrow> chain_inv s \<and> link_inv s \<and> facts_inv s \<and> keys_unique s"

lemma chain_inv_cong:
  "identity_state s' = identity_state s \<Longrightarrow> chain_inv s' = chain_inv s"
  by (simp add: identity_state_def chain_inv_def match_keys_def)

lemma link_inv_evolve:
  assumes "link_inv s" "listings_evolve s s'" "list_all2 refreshes (db_links s) (db_links s')"
    "db_next s \<le> db_next s'"
  shows "link_inv s'"
  using assms(1,4) refreshes_maps [OF assms(3)]
    evolves_ids [OF assms(2) [unfolded listings_evolve_def]]
  unfolding link_inv_def by (auto intro: order_less_le_trans)

section \<open>The known-identity path\<close>

definition known_step :: "db \<Rightarrow> db \<Rightarrow> bool" where
  "known_step s s' \<longleftrightarrow>
     manual_state s' = manual_state s \<and> upstream_state s' = upstream_state s \<and>
     (db_addresses s', db_buildings s', db_units s', db_candidates s') =
       (db_addresses s, db_buildings s, db_units s, db_candidates s) \<and>
     list_all2 refreshes (db_links s) (db_links s') \<and> listings_evolve s s' \<and>
     db_next s \<le> db_next s' \<and> (\<exists>new. db_events s' = db_events s @ new) \<and>
     (facts_inv s \<longrightarrow> facts_inv s') \<and> (keys_unique s \<longrightarrow> keys_unique s')"

lemma known_step_field: "known_step s t \<Longrightarrow> field_step i t u \<Longrightarrow> known_step s u"
proof -
  assume st: "known_step s t" and tu: "field_step i t u"
  have "listings_evolve s u"
    using listings_evolve_trans st tu unfolding known_step_def field_step_def by blast
  then show ?thesis
    using st tu unfolding known_step_def field_step_def identity_state_def
    by (elim conjE exE, intro conjI) simp_all
qed

lemma known_step_refl [simp]: "known_step s s"
  by (simp add: known_step_def list_all2_refl listings_evolve_same)

lemma known_step_inv:
  assumes "canonical_inv s" "known_step s s'"
  shows "canonical_inv s'"
proof -
  have "chain_inv s'" using assms by (simp add: canonical_inv_def known_step_def chain_inv_def match_keys_def)
  moreover have "link_inv s'"
    using assms link_inv_evolve unfolding canonical_inv_def known_step_def by blast
  ultimately show ?thesis using assms unfolding canonical_inv_def known_step_def by blast
qed

lemma listing_by_id:
  assumes "distinct (map cl_id ls)" "l \<in> set ls" "m \<in> set ls" "cl_id l = cl_id m"
  shows "l = m"
  using assms by (auto simp: distinct_map inj_on_def)

lemma link_by_id:
  assumes "distinct (map lk_id ks)" "l \<in> set ks" "m \<in> set ks" "lk_id l = lk_id m"
  shows "l = m"
  using assms by (auto simp: distinct_map inj_on_def)

lemma touch_freshness_step:
  assumes "link_inv s" "link \<in> set (db_links s)" "listing \<in> set (db_listings s)"
  shows "known_step s (touch_freshness link listing row s)"
proof -
  have links: "list_all2 refreshes (db_links s) (update_where (\<lambda>k. lk_id k = lk_id link)
      (\<lambda>k. k\<lparr>lk_last_seen_at := so_observed_at row, lk_latest_observation_id := so_id row\<rparr>) (db_links s))"
    if "lk_last_seen_at link \<le> so_observed_at row"
  proof (rule list_all2_update_where)
    fix r assume "r \<in> set (db_links s)" "lk_id r = lk_id link"
    then have "r = link" using assms(1,2) link_by_id unfolding link_inv_def by blast
    then show "refreshes r (r\<lparr>lk_last_seen_at := so_observed_at row, lk_latest_observation_id := so_id row\<rparr>)"
      using that by (simp add: refreshes_def frozen_link_def)
  qed simp
  have listings: "list_all2 evolves (db_listings s) (update_where (\<lambda>r. cl_id r = cl_id listing)
      (\<lambda>r. r\<lparr>cl_last_seen_at := max (cl_last_seen_at listing) (so_observed_at row)\<rparr>) (db_listings s))"
  proof (rule list_all2_update_where)
    fix r assume "r \<in> set (db_listings s)" "cl_id r = cl_id listing"
    then have "r = listing" using assms(1,3) listing_by_id unfolding link_inv_def by blast
    then show "evolves r (r\<lparr>cl_last_seen_at := max (cl_last_seen_at listing) (so_observed_at row)\<rparr>)"
      by (simp add: evolves_def frozen_def)
  qed simp
  show ?thesis
    using links listings
    by (simp add: known_step_def touch_freshness_def update_listing_def listings_evolve_def
        frame_defs facts_inv_def keys_unique_def list_all2_refl)
qed

lemma apply_evidence_cases:
  assumes "apply_evidence listing row obs now s = Inr (evs, s')"
  obtains s2 e1 s3 e2 s4 e3 s5 where
    "record_listing_facts (cl_id listing) obs row now s = Inr s2"
    "update_rent listing row obs s2 = Inr (e1, s3)"
    "update_availability listing row obs s3 = Inr (e2, s4)"
    "update_laundry listing row obs s4 = Inr (e3, s5)"
    "evs = e1 @ e2 @ e3"
    "s' = (if evs \<noteq> [] then update_listing (cl_id listing)
            (\<lambda>r. r\<lparr>cl_last_material_change_at := so_observed_at row\<rparr>) s5 else s5)"
  using assms unfolding apply_evidence_def bind_result_Inr_iff
  by (elim exE conjE) (auto simp: bind_result_Inr_iff simp del: append_is_Nil_conv)

lemma apply_evidence_step:
  assumes "apply_evidence listing row obs now s = Inr (evs, s')"
  shows "field_step (cl_id listing) s s'"
  using assms
proof (cases rule: apply_evidence_cases)
  case (1 s2 e1 s3 e2 s4 e3 s5)
  have "field_step (cl_id listing) s s2"
    using record_facts_history 1(1) unfolding record_listing_facts_def
    by (blast intro: history_field_step)
  then have s5: "field_step (cl_id listing) s s5"
    using update_rent_step [OF 1(2)] update_availability_step [OF 1(3)] update_laundry_step [OF 1(4)]
    by (blast intro: field_step_trans)
  have "evolves l (l\<lparr>cl_last_material_change_at := so_observed_at row\<rparr>)" for l
    by (simp add: evolves_def frozen_def)
  then show ?thesis unfolding 1(6) using s5 field_step_update by simp
qed

lemma apply_evidence_total:
  assumes "facts_inv s" "int8_opt (pb_monthly_rent_minor (po_pricing obs))"
  shows "\<exists>evs s'. apply_evidence listing row obs now s = Inr (evs, s')"
proof -
  obtain s2 where s2: "record_listing_facts (cl_id listing) obs row now s = Inr s2"
    using record_facts_total [OF assms(1)] unfolding record_listing_facts_def by blast
  then have f2: "facts_inv s2"
    using record_facts_history history_frame(6) assms(1) unfolding record_listing_facts_def by blast
  obtain e1 s3 where s3: "update_rent listing row obs s2 = Inr (e1, s3)"
    using field_updates_total(1) [OF f2 assms(2)] by blast
  then have f3: "facts_inv s3" using update_rent_step f2 unfolding field_step_def by blast
  obtain e2 s4 where s4: "update_availability listing row obs s3 = Inr (e2, s4)"
    using field_updates_total(2) [OF f3] by blast
  then have f4: "facts_inv s4" using update_availability_step f3 unfolding field_step_def by blast
  obtain e3 s5 where "update_laundry listing row obs s4 = Inr (e3, s5)"
    using field_updates_total(3) [OF f4] by blast
  with s2 s3 s4 show ?thesis by (simp add: apply_evidence_def)
qed

text \<open>The result of \<open>update_existing\<close>, branch by branch.\<close>

definition link_outcome :: "listing_source_link \<Rightarrow> string \<Rightarrow> ListingEventType list \<Rightarrow> NormalizationOutcome" where
  "link_outcome link c evs = outcome c (Some (lk_canonical_listing_id link)) (Some (lk_id link)) evs"

lemma update_existing_unfold:
  assumes "get_by cl_id (lk_canonical_listing_id link) (db_listings s) = Some listing"
  shows "update_existing row obs link now s =
    (if lk_latest_observation_id link = so_id row then Inr (link_outcome link ''UNCHANGED'' [], s)
     else if map_option so_content_hash (get_by so_id (lk_latest_observation_id link) (db_observations s)) =
             Some (so_content_hash row)
     then Inr (link_outcome link ''UNCHANGED'' [], touch_freshness link listing row s)
     else bind_result (apply_evidence listing row obs now (touch_freshness link listing row s))
       (\<lambda>(evs, t). Inr (link_outcome link (if evs \<noteq> [] then ''MATERIAL_CHANGE'' else ''UNCHANGED'') evs, t)))"
  by (simp only: update_existing_def Let_def assms option.case link_outcome_def)

lemma update_existing_cases:
  assumes "update_existing row obs link now s = Inr (out, s')"
  obtains
    (replay) listing where "get_by cl_id (lk_canonical_listing_id link) (db_listings s) = Some listing"
      "lk_latest_observation_id link = so_id row" "s' = s" "out = link_outcome link ''UNCHANGED'' []"
  | (fresh) listing where "get_by cl_id (lk_canonical_listing_id link) (db_listings s) = Some listing"
      "lk_latest_observation_id link \<noteq> so_id row" "s' = touch_freshness link listing row s"
      "out = link_outcome link ''UNCHANGED'' []"
  | (changed) listing evs where
      "get_by cl_id (lk_canonical_listing_id link) (db_listings s) = Some listing"
      "lk_latest_observation_id link \<noteq> so_id row"
      "apply_evidence listing row obs now (touch_freshness link listing row s) = Inr (evs, s')"
      "out = link_outcome link (if evs \<noteq> [] then ''MATERIAL_CHANGE'' else ''UNCHANGED'') evs"
proof (cases "get_by cl_id (lk_canonical_listing_id link) (db_listings s)")
  case None
  then show thesis using assms by (simp add: update_existing_def Let_def)
next
  case (Some listing)
  from assms show thesis
    unfolding update_existing_unfold [OF Some]
    using replay [OF Some] fresh [OF Some] changed [OF Some]
    by (force simp: bind_result_Inr_iff split: if_split_asm)
qed

lemma update_existing_step:
  assumes "link_inv s" "link \<in> set (db_links s)" "update_existing row obs link now s = Inr (out, s')"
  shows "known_step s s'"
  using assms(3)
proof (cases rule: update_existing_cases)
  case (fresh listing)
  then show ?thesis using touch_freshness_step [OF assms(1,2)] get_by_SomeD by fast
next
  case (changed listing evs)
  have "listing \<in> set (db_listings s)" using changed(1) get_by_SomeD by fast
  from touch_freshness_step [OF assms(1,2) this] apply_evidence_step [OF changed(3)] show ?thesis
    by (rule known_step_field)
qed simp

lemma update_existing_total:
  assumes "link_inv s" "facts_inv s" "link \<in> set (db_links s)" "int8_opt (pb_monthly_rent_minor (po_pricing obs))"
  shows "\<exists>out s'. update_existing row obs link now s = Inr (out, s')"
proof -
  have "lk_canonical_listing_id link \<in> cl_id ` set (db_listings s)"
    using assms(1,3) by (auto simp: link_inv_def)
  then obtain listing where l: "get_by cl_id (lk_canonical_listing_id link) (db_listings s) = Some listing"
    by (metis get_by_None_iff not_None_eq)
  then have "listing \<in> set (db_listings s)" using get_by_SomeD by fast
  from touch_freshness_step [OF assms(1,3) this] have "facts_inv (touch_freshness link listing row s)"
    using assms(2) unfolding known_step_def by blast
  from apply_evidence_total [OF this assms(4)] obtain evs t where
    "apply_evidence listing row obs now (touch_freshness link listing row s) = Inr (evs, t)" by blast
  then show ?thesis by (simp add: update_existing_unfold [OF l])
qed

section \<open>The chain of a new identity\<close>

definition chain_step :: "db \<Rightarrow> db \<Rightarrow> bool" where
  "chain_step s s' \<longleftrightarrow>
     manual_state s' = manual_state s \<and> upstream_state s' = upstream_state s \<and>
     fact_state s' = fact_state s \<and> db_listings s' = db_listings s \<and> db_links s' = db_links s \<and>
     db_candidates s' = db_candidates s \<and> db_events s' = db_events s \<and> db_issues s' = db_issues s \<and>
     prefix (db_addresses s) (db_addresses s') \<and> prefix (db_buildings s) (db_buildings s') \<and>
     prefix (db_units s) (db_units s') \<and> db_next s \<le> db_next s' \<and> (chain_inv s \<longrightarrow> chain_inv s')"

lemma chain_step_refl [simp, intro]: "chain_step s s"
  by (simp add: chain_step_def)

lemma chain_step_trans: "chain_step s t \<Longrightarrow> chain_step t u \<Longrightarrow> chain_step s u"
proof -
  assume st: "chain_step s t" and tu: "chain_step t u"
  have "prefix (db_addresses s) (db_addresses u)" "prefix (db_buildings s) (db_buildings u)"
    "prefix (db_units s) (db_units u)"
    using st tu prefix_order.trans unfolding chain_step_def by blast+
  then show ?thesis using st tu unfolding chain_step_def by (elim conjE, intro conjI) simp_all
qed

lemma chain_step_inv: "chain_step s s' \<Longrightarrow> canonical_inv s \<Longrightarrow> canonical_inv s'"
proof -
  assume step: "chain_step s s'" and inv: "canonical_inv s"
  have "facts_inv s' = facts_inv s" "keys_unique s' = keys_unique s"
    using step by (simp_all add: chain_step_def facts_inv_def keys_unique_def frame_defs)
  moreover have "link_inv s'"
    using step inv unfolding chain_step_def canonical_inv_def link_inv_def
    by (elim conjE, intro conjI) (simp, simp, force, force, simp, simp)
  ultimately show ?thesis using step inv by (simp add: chain_step_def canonical_inv_def)
qed

lemma unique_key_found:
  assumes "distinct (filter Q (List.map_filter g xs))" "Q k"
  shows "\<exists>x. scalar_one_or_none (filter (\<lambda>a. g a = Some k) xs) = Inr x"
proof -
  have count: "length (filter (\<lambda>a. g a = Some k) xs) = count_list (List.map_filter g xs) k" for xs
    by (induction xs) (auto split: option.splits)
  have "count_list ys k \<le> 1" if "distinct (filter Q ys)" for ys
    using that
  proof (induction ys)
    case (Cons y ys)
    then show ?case using assms(2) by (auto simp: count_list_0_iff split: if_splits)
  qed simp
  with count [of xs] assms(1) have "length (filter (\<lambda>a. g a = Some k) xs) \<le> 1" by simp
  then show ?thesis using scalar_length_le_1 by blast
qed

text \<open>The raw address does not itself read like a placeholder key.\<close>

definition address_key_ok :: "ParsedSourceObservation \<Rightarrow> bool" where
  "address_key_ok observation \<longleftrightarrow> (let raw = ib_raw_address_text (po_identity observation)
     in truthy raw \<longrightarrow> \<not> starts_with (address_fingerprint (the raw)) ''unresolved:'')"

lemma ensure_address_total:
  assumes "chain_inv s" "address_key_ok obs"
  shows "\<exists>a s'. ensure_address row obs s = Inr (a, s')"
proof (cases "truthy (ib_raw_address_text (po_identity obs))")
  case True
  have "\<exists>x. scalar_one_or_none (filter (\<lambda>a. ad_fingerprint a =
      Some (address_fingerprint (the (ib_raw_address_text (po_identity obs))))) (db_addresses s)) = Inr x"
    by (rule unique_key_found [where Q = "\<lambda>k. \<not> starts_with k ''unresolved:''"])
      (use assms True in \<open>simp_all add: chain_inv_def match_keys_def address_key_ok_def\<close>)
  then show ?thesis using True by (auto simp: ensure_address_def Let_def add_address_def split: option.splits)
qed (simp add: ensure_address_def add_address_def Let_def)

lemma add_address_step:
  assumes "starts_with k ''unresolved:'' \<or> (\<forall>a \<in> set (db_addresses s). ad_fingerprint a \<noteq> Some k)"
  shows "chain_step s (snd (add_address (new_address i l loc f k) s))"
proof -
  have "distinct (match_keys s) \<longrightarrow>
      distinct (match_keys (s\<lparr>db_addresses := db_addresses s @ [new_address i l loc f k], db_next := n\<rparr>))" for n
    using assms by (auto simp: match_keys_def map_filter_def new_address_def)
  then show ?thesis
    by (simp add: chain_step_def add_address_def frame_defs chain_inv_def match_keys_def)
qed

lemma ensure_address_step:
  assumes "ensure_address row obs s = Inr (a, s')"
  shows "chain_step s s'"
proof (cases "truthy (ib_raw_address_text (po_identity obs))")
  case True
  let ?raw = "ib_raw_address_text (po_identity obs)"
  let ?fp = "address_fingerprint (the ?raw)"
  obtain found where f: "scalar_one_or_none (filter (\<lambda>a. ad_fingerprint a = Some ?fp) (db_addresses s)) = Inr found"
    and r: "(a, s') = (case found of Some a \<Rightarrow> (a, s) | None \<Rightarrow>
      add_address (new_address (db_next s) ?raw (observation_locality obs) (the ?raw) ?fp) s)"
    using assms True by (auto simp: ensure_address_def Let_def bind_result_Inr_iff)
  show ?thesis
  proof (cases found)
    case None
    with f have "\<forall>a \<in> set (db_addresses s). ad_fingerprint a \<noteq> Some ?fp"
      by (simp add: scalar_one_or_none_filter_None)
    with None r add_address_step show ?thesis by (metis option.case(1) snd_conv)
  qed (use r in simp)
next
  case False
  have "starts_with (''unresolved:'' @ so_source_url row) ''unresolved:''" by simp
  with False assms add_address_step show ?thesis
    by (simp only: ensure_address_def Let_def if_False sum.inject) (metis snd_conv)
qed

lemma ensure_building_total: "chain_inv s \<Longrightarrow> \<exists>b s'. ensure_building a s = Inr (b, s')"
  using scalar_one_or_none_filter [of "db_buildings s" "\<lambda>b. bd_address_id b = ad_id a" bd_address_id]
  by (auto simp: ensure_building_def chain_inv_def Let_def split: option.splits)

lemma ensure_building_step:
  assumes "ensure_building a s = Inr (b, s')"
  shows "chain_step s s'"
proof -
  obtain found where f: "scalar_one_or_none (filter (\<lambda>b. bd_address_id b = ad_id a) (db_buildings s)) = Inr found"
    and r: "(b, s') = (case found of Some b \<Rightarrow> (b, s) | None \<Rightarrow>
      (let b = new_building (db_next s) (ad_id a)
       in (b, s\<lparr>db_buildings := db_buildings s @ [b], db_next := Suc (db_next s)\<rparr>)))"
    using assms by (auto simp: ensure_building_def bind_result_Inr_iff)
  show ?thesis
  proof (cases found)
    case None
    with f have "\<forall>b \<in> set (db_buildings s). bd_address_id b \<noteq> ad_id a"
      by (simp add: scalar_one_or_none_filter_None)
    with None r show ?thesis
      by (auto simp: Let_def chain_step_def chain_inv_def match_keys_def frame_defs new_building_def)
  qed (use r in simp)
qed

lemma match_unit_total:
  assumes "chain_inv s"
  shows "\<exists>m s'. match_unit b obs s = Inr (m, s')"
proof -
  have "\<exists>x. scalar_one_or_none (filter (\<lambda>u. un_building_id u = bd_id b \<and> un_fingerprint u = Some k) (db_units s)) = Inr x" for k
    by (rule scalar_one_or_none_filter [where g = "\<lambda>u. (un_building_id u, un_fingerprint u)"])
      (use assms in \<open>simp_all add: chain_inv_def\<close>)
  from this [of "unit_fingerprint (the (observation_unit_label obs))"] show ?thesis
    by (auto simp: match_unit_def Let_def split: option.splits)
qed

lemma latest_listing_of_unitD:
  assumes "latest_listing_of_unit u s = Some l"
  shows "l \<in> set (db_listings s)" "cl_unit_id l = Some u" "cl_lifecycle_status l \<noteq> LifecycleStatus.MERGED"
proof -
  let ?ls = "filter (\<lambda>l. cl_unit_id l = Some u \<and> cl_lifecycle_status l \<noteq> LifecycleStatus.MERGED) (db_listings s)"
  obtain rest where "sort_key (\<lambda>l. - cl_last_seen_at l) ?ls = l # rest"
    using assms by (auto simp: latest_listing_of_unit_def split: list.splits)
  then have "set (l # rest) = set ?ls" by (metis set_sort)
  then have "l \<in> set ?ls" by (metis list.set_intros(1))
  then show "l \<in> set (db_listings s)" "cl_unit_id l = Some u"
    "cl_lifecycle_status l \<noteq> LifecycleStatus.MERGED" by auto
qed

lemma match_unit_cases:
  assumes "match_unit b obs s = Inr (m, s')"
  obtains (unlabelled) "\<not> truthy (observation_unit_label obs)" "m = Inr None" "s' = s"
  | (matched) u l where "truthy (observation_unit_label obs)" "m = Inl l" "s' = s" "u \<in> set (db_units s)"
      "un_building_id u = bd_id b" "un_fingerprint u = Some (unit_fingerprint (the (observation_unit_label obs)))"
      "latest_listing_of_unit (un_id u) s = Some l"
  | (vacant) u where "truthy (observation_unit_label obs)" "m = Inr (Some u)" "s' = s" "u \<in> set (db_units s)"
      "latest_listing_of_unit (un_id u) s = None"
  | (created) u where "truthy (observation_unit_label obs)" "m = Inr (Some u)"
      "u = new_unit (db_next s) (bd_id b) (the (observation_unit_label obs)) (lb_proposed_layout_class (po_layout obs))"
      "s' = s\<lparr>db_units := db_units s @ [u], db_next := Suc (db_next s)\<rparr>"
      "\<forall>v \<in> set (db_units s). \<not> (un_building_id v = bd_id b \<and>
         un_fingerprint v = Some (unit_fingerprint (the (observation_unit_label obs))))"
proof (cases "truthy (observation_unit_label obs)")
  case False
  then show thesis using assms by (intro unlabelled) (auto simp: match_unit_def Let_def)
next
  case True
  let ?p = "\<lambda>u. un_building_id u = bd_id b \<and> un_fingerprint u = Some (unit_fingerprint (the (observation_unit_label obs)))"
  obtain found where f: "scalar_one_or_none (filter ?p (db_units s)) = Inr found"
    and r: "(m, s') = (case found of
         Some u \<Rightarrow> (case latest_listing_of_unit (un_id u) s of Some e \<Rightarrow> (Inl e, s) | None \<Rightarrow> (Inr (Some u), s))
       | None \<Rightarrow> (let u = new_unit (db_next s) (bd_id b) (the (observation_unit_label obs))
                      (lb_proposed_layout_class (po_layout obs))
                  in (Inr (Some u), s\<lparr>db_units := db_units s @ [u], db_next := Suc (db_next s)\<rparr>)))"
    using assms True by (auto simp: match_unit_def Let_def bind_result_Inr_iff)
  show thesis
  proof (cases found)
    case None
    let ?u = "new_unit (db_next s) (bd_id b) (the (observation_unit_label obs))
      (lb_proposed_layout_class (po_layout obs))"
    have "m = Inr (Some ?u)" "s' = s\<lparr>db_units := db_units s @ [?u], db_next := Suc (db_next s)\<rparr>"
      using r None by (simp_all add: Let_def)
    moreover have "\<forall>v \<in> set (db_units s). \<not> ?p v"
      using f None by (simp only: scalar_one_or_none_filter_None)
    ultimately show thesis by (rule created [OF True _ refl])
  next
    case (Some u)
    with f have u: "u \<in> set (db_units s) \<and> ?p u"
      by (intro scalar_one_or_none_filter_Some) simp
    show thesis
    proof (cases "latest_listing_of_unit (un_id u) s")
      case None
      with Some r have "m = Inr (Some u)" "s' = s" by simp_all
      with None u show thesis by (intro vacant [OF True]) auto
    next
      case (Some l)
      with \<open>found = Some u\<close> r have "m = Inl l" "s' = s" by simp_all
      with u show thesis by (intro matched [OF True _ _ _ _ _ Some]) blast+
    qed
  qed
qed

lemma match_unit_step: "match_unit b obs s = Inr (m, s') \<Longrightarrow> chain_step s s'"
proof (erule match_unit_cases, simp, simp, simp)
  fix u
  assume u: "u = new_unit (db_next s) (bd_id b) (the (observation_unit_label obs))
        (lb_proposed_layout_class (po_layout obs))"
    and s': "s' = s\<lparr>db_units := db_units s @ [u], db_next := Suc (db_next s)\<rparr>"
    and none: "\<forall>v \<in> set (db_units s). \<not> (un_building_id v = bd_id b \<and>
         un_fingerprint v = Some (unit_fingerprint (the (observation_unit_label obs))))"
  have "(un_building_id u, un_fingerprint u) \<notin> (\<lambda>u. (un_building_id u, un_fingerprint u)) ` set (db_units s)"
    using none by (auto simp: u new_unit_def)
  then have "chain_inv s \<longrightarrow> chain_inv s'" by (simp add: s' chain_inv_def match_keys_def)
  then show "chain_step s s'" by (simp add: chain_step_def s' frame_defs)
qed

end
