(* ===== verification/EvidenceLaws.thy ===== *)
theory EvidenceLaws
  imports Normalization
begin

text \<open>
  What processing an observation does to the evidence: assertions and review issues are only added, a
  resolution is at most superseded, and every table that normalization does not write stays.  One
  lemma per operation of \<open>canonical/normalization.py\<close>, in the order of the code.
\<close>

section \<open>Evidence that grows\<close>

definition settles :: "fact_resolution \<Rightarrow> fact_resolution \<Rightarrow> bool" where
  "settles r r' \<longleftrightarrow> r' = r \<or> fr_superseded_at r = None \<and> (\<exists>t. r' = r\<lparr>fr_superseded_at := Some t\<rparr>)"

text \<open>The tables outside the canonical ones, with the canonical tables blanked out.\<close>

definition other_tables :: "db \<Rightarrow> db" where
  "other_tables s = s\<lparr>db_addresses := [], db_buildings := [], db_units := [], db_listings := [],
     db_links := [], db_candidates := [], db_events := [], db_assertions := [], db_resolutions := [],
     db_issues := [], db_next := 0\<rparr>"

definition evidence_grows :: "db \<Rightarrow> db \<Rightarrow> bool" where
  "evidence_grows s s' \<longleftrightarrow>
     prefix (db_assertions s) (db_assertions s') \<and> prefix (db_issues s) (db_issues s') \<and>
     (\<exists>rs new. db_resolutions s' = rs @ new \<and> list_all2 settles (db_resolutions s) rs) \<and>
     other_tables s' = other_tables s"

definition evidence_of ::
  "db \<Rightarrow> fact_assertion list \<times> fact_resolution list \<times> review_issue list \<times> db" where
  "evidence_of s = (db_assertions s, db_resolutions s, db_issues s, other_tables s)"

lemma settles_refl [simp, intro]: "settles r r"
  by (simp add: settles_def)

lemma settles_trans: "settles p q \<Longrightarrow> settles q r \<Longrightarrow> settles p r"
  by (auto simp: settles_def)

lemma grows_unresolved:
  assumes "prefix (db_assertions s) (db_assertions s')" "prefix (db_issues s) (db_issues s')"
    and "db_resolutions s' = db_resolutions s" "other_tables s' = other_tables s"
  shows "evidence_grows s s'"
  unfolding evidence_grows_def using assms
  by (intro conjI exI [of _ "db_resolutions s"] exI [of _ "[]"]) (simp_all add: list_all2_refl)

lemma grows_same: "evidence_of s' = evidence_of s \<Longrightarrow> evidence_grows s s'"
  by (rule grows_unresolved) (simp_all add: evidence_of_def)

lemma grows_refl [simp, intro]: "evidence_grows s s"
  by (simp add: grows_same)

lemma grows_trans: "evidence_grows s t \<Longrightarrow> evidence_grows t u \<Longrightarrow> evidence_grows s u"
proof -
  assume st: "evidence_grows s t" and tu: "evidence_grows t u"
  obtain qs new1 where q: "db_resolutions t = qs @ new1" "list_all2 settles (db_resolutions s) qs"
    using st by (auto simp: evidence_grows_def)
  obtain rs new2 where r: "db_resolutions u = rs @ new2" "list_all2 settles (qs @ new1) rs"
    using tu q(1) by (auto simp: evidence_grows_def)
  then obtain rs1 rs2 where rs: "rs = rs1 @ rs2" "list_all2 settles qs rs1"
    by (auto simp: list_all2_append1)
  have "list_all2 settles (db_resolutions s) rs1"
    using list_all2_trans [OF settles_trans q(2) rs(2)] .
  moreover have "db_resolutions u = rs1 @ (rs2 @ new2)" using r(1) rs(1) by simp
  moreover have "prefix (db_assertions s) (db_assertions u)" "prefix (db_issues s) (db_issues u)"
    using st tu prefix_order.trans unfolding evidence_grows_def by blast+
  ultimately show ?thesis using st tu unfolding evidence_grows_def by auto
qed

lemma evidence_of_simps [simp]:
  "evidence_of (s\<lparr>db_listings := ls\<rparr>) = evidence_of s"
  "evidence_of (s\<lparr>db_links := ks\<rparr>) = evidence_of s"
  "evidence_of (s\<lparr>db_events := es\<rparr>) = evidence_of s"
  "evidence_of (s\<lparr>db_candidates := cs\<rparr>) = evidence_of s"
  "evidence_of (s\<lparr>db_addresses := as\<rparr>) = evidence_of s"
  "evidence_of (s\<lparr>db_buildings := bs\<rparr>) = evidence_of s"
  "evidence_of (s\<lparr>db_units := us\<rparr>) = evidence_of s"
  "evidence_of (s\<lparr>db_next := n\<rparr>) = evidence_of s"
  by (simp_all add: evidence_of_def other_tables_def)

section \<open>Facts, conflicts and events\<close>

lemma record_fact_grows:
  assumes "record_fact f now s = Inr (a, s')"
  shows "evidence_grows s s'"
  using assms
proof (cases rule: record_fact_cases)
  case (overridden override)
  then show ?thesis by (intro grows_unresolved) (simp_all add: other_tables_def)
next
  case resolved
  let ?p = "is_current_resolution (fi_entity_type f) (fi_entity_id f) (fi_fact_key f)"
  let ?rs = "update_where ?p (\<lambda>r. r\<lparr>fr_superseded_at := Some now\<rparr>) (db_resolutions s)"
  have "list_all2 settles (db_resolutions s) ?rs"
    by (rule list_all2_update_where) (auto simp: settles_def is_current_resolution_def)
  then show ?thesis
    unfolding resolved(3) evidence_grows_def
    by (intro conjI exI [of _ ?rs] exI [of _ "[new_resolution (Suc (db_next s)) (fa_id a) f]"])
      (simp_all add: other_tables_def)
qed

lemma record_facts_grows: "record_facts fs now s = Inr s' \<Longrightarrow> evidence_grows s s'"
proof (induction fs arbitrary: s)
  case (Cons f fs)
  then obtain a t where "record_fact f now s = Inr (a, t)" "record_facts fs now t = Inr s'"
    by (auto simp: bind_result_Inr_iff)
  with Cons.IH record_fact_grows show ?case by (blast intro: grows_trans)
qed simp

lemma raise_conflict_grows: "evidence_grows s (raise_conflict_with_override ov i k v s)"
proof (cases rule: raise_conflict_cases [of ov i k v s])
  case (raised r)
  then show ?thesis by (intro grows_unresolved) (simp_all add: other_tables_def)
qed simp

lemma override_blocks_grows:
  assumes "override_blocks i k v s = Inr (b, s')"
  shows "evidence_grows s s'"
proof -
  have "s' = s \<or> (\<exists>ov w. s' = raise_conflict_with_override ov i k w s)"
  proof (cases "active_override FactEntityType.LISTING i k s")
    case (Inl e)
    then show ?thesis using assms by (simp add: override_blocks_def)
  next
    case (Inr found)
    then show ?thesis using assms by (cases found) (auto simp: override_blocks_def Let_def split: if_splits)
  qed
  then show ?thesis using raise_conflict_grows by auto
qed

lemma emit_event_evidence: "emit_event i ty row b a et s = (evs, s') \<Longrightarrow> evidence_of s' = evidence_of s"
  by (erule emit_event_cases) simp_all

lemma update_listing_evidence [simp]: "evidence_of (update_listing i f s) = evidence_of s"
  by (simp add: update_listing_def)

section \<open>A known identity\<close>

lemma apply_change_grows:
  assumes "apply_change i row k ty old new fits f s = Inr (evs, s')"
  shows "evidence_grows s s'"
proof -
  obtain b t where t: "override_blocks i k new s = Inr (b, t)"
    and rest: "(if b then Inr ([], t) else if \<not> fits then Inl data_error else (let (emitted, s2) = emit_event i ty row
        (Some (JObj [(k, old)])) (Some (JObj [(k, new)])) None t
        in Inr (emitted, update_listing i f s2))) = (Inr (evs, s') :: (ListingEventType list \<times> db) result)"
    using assms by (auto simp: apply_change_def bind_result_Inr_iff)
  have "evidence_of s' = evidence_of t"
    using rest by (auto split: if_splits prod.splits simp: emit_event_evidence)
  then show ?thesis using override_blocks_grows [OF t] grows_same grows_trans by blast
qed

lemma field_updates_grow:
  "update_rent l row obs s = Inr (evs, s') \<Longrightarrow> evidence_grows s s'"
  "update_availability l row obs s = Inr (evs, s') \<Longrightarrow> evidence_grows s s'"
  "update_laundry l row obs s = Inr (evs, s') \<Longrightarrow> evidence_grows s s'"
  by (auto simp: update_rent_def update_availability_def update_laundry_def Let_def
      split: option.splits if_splits dest: apply_change_grows)

lemma apply_evidence_grows:
  assumes "apply_evidence listing row obs now s = Inr (evs, s')"
  shows "evidence_grows s s'"
  using assms
proof (cases rule: apply_evidence_cases)
  case (1 s2 e1 s3 e2 s4 e3 s5)
  have "evidence_grows s s2" using record_facts_grows 1(1) unfolding record_listing_facts_def by blast
  then have "evidence_grows s s5"
    using field_updates_grow(1) [OF 1(2)] field_updates_grow(2) [OF 1(3)] field_updates_grow(3) [OF 1(4)]
    by (blast intro: grows_trans)
  moreover have "evidence_grows s5 s'" unfolding 1(6) by (simp add: grows_same)
  ultimately show ?thesis by (rule grows_trans)
qed

lemma touch_freshness_evidence: "evidence_of (touch_freshness link listing row s) = evidence_of s"
  by (simp add: touch_freshness_def Let_def)

lemma update_existing_grows:
  assumes "update_existing row obs link now s = Inr (out, s')"
  shows "evidence_grows s s'"
  using assms
proof (cases rule: update_existing_cases)
  case (fresh listing)
  then show ?thesis by (simp add: grows_same touch_freshness_evidence)
next
  case (changed listing evs)
  then show ?thesis
    using apply_evidence_grows grows_trans grows_same touch_freshness_evidence by metis
qed simp

section \<open>A new identity\<close>

lemma chain_evidence:
  "ensure_address row obs s = Inr (a, s') \<Longrightarrow> evidence_of s' = evidence_of s"
  "ensure_building a s = Inr (b, s') \<Longrightarrow> evidence_of s' = evidence_of s"
  "match_unit b obs s = Inr (m, s') \<Longrightarrow> evidence_of s' = evidence_of s"
  by (auto simp: ensure_address_def ensure_building_def match_unit_def add_address_def Let_def
      bind_result_Inr_iff split: option.splits if_splits)

lemma attach_evidence:
  "attach_cross_source_link row listing dm im ic s = (out, s') \<Longrightarrow> evidence_of s' = evidence_of s"
  by (auto simp: attach_cross_source_link_def Let_def)

lemma propose_candidate_grows: "evidence_grows s (propose_candidate x y e s)"
  by (auto simp: propose_candidate_def Let_def other_tables_def intro!: grows_unresolved)

lemma fold_grows: "(\<And>x t. evidence_grows t (f x t)) \<Longrightarrow> evidence_grows s (fold f xs s)"
proof (induction xs arbitrary: s)
  case (Cons x xs)
  then have "evidence_grows s (f x s)" "evidence_grows (f x s) (fold f xs (f x s))" by simp_all
  then show ?case using grows_trans by fastforce
qed simp

lemma generate_grows: "evidence_grows s (generate_duplicate_candidates listing b s)"
  by (auto simp: generate_duplicate_candidates_def intro!: fold_grows propose_candidate_grows
      split: option.splits)

lemma create_listing_grows:
  assumes "create_listing row obs dm now b u s = Inr (out, s')"
  shows "evidence_grows s s'"
proof -
  let ?l = "new_listing (db_next s) (bd_id b) (map_option un_id u) obs row"
  let ?k = "new_link (Suc (db_next s)) (cl_id ?l) row dm
    IdentityMethod.SOURCE_NATIVE_CONTINUITY IdentityConfidence.HIGH"
  let ?s1 = "s\<lparr>db_listings := db_listings s @ [?l], db_links := db_links s @ [?k],
    db_next := Suc (Suc (db_next s))\<rparr>"
  obtain evs s2 where ev: "emit_event (cl_id ?l) ListingEventType.CREATED row None
      (Some (JObj [(''lifecycle_status'', JStr (LifecycleStatus_value (cl_lifecycle_status ?l)))])) None ?s1 = (evs, s2)"
    by (cases rule: prod.exhaust)
  obtain t where t: "record_listing_facts (cl_id ?l) obs row now s2 = Inr t"
    "s' = generate_duplicate_candidates ?l b t"
    using assms ev by (auto simp: create_listing_def Let_def bind_result_Inr_iff split: if_splits)
  have "evidence_of s2 = evidence_of s" using emit_event_evidence [OF ev] by simp
  moreover have "evidence_grows s2 t"
    using record_facts_grows t(1) unfolding record_listing_facts_def by blast
  moreover have "evidence_grows t s'" unfolding t(2) by (rule generate_grows)
  ultimately show ?thesis using grows_same grows_trans by blast
qed

lemma create_canonical_grows:
  assumes "create_canonical row obs dm now s = Inr (out, s')"
  shows "evidence_grows s s'"
proof -
  obtain a s1 b s2 m s3 where a: "ensure_address row obs s = Inr (a, s1)"
    and b: "ensure_building a s1 = Inr (b, s2)" and m: "match_unit b obs s2 = Inr (m, s3)"
    and rest: "(case m of
         Inl existing \<Rightarrow> Inr (attach_cross_source_link row existing dm
           IdentityMethod.EXACT_ADDRESS_AND_UNIT IdentityConfidence.HIGH s3)
       | Inr unit \<Rightarrow>
           (case if unit = None then strong_multi_field_match b obs row s3 else None of
              Some strong \<Rightarrow> Inr (attach_cross_source_link row strong dm
                IdentityMethod.STRONG_MULTI_FIELD IdentityConfidence.MEDIUM s3)
            | None \<Rightarrow> create_listing row obs dm now b unit s3)) = Inr (out, s')"
    using assms unfolding create_canonical_def by (elim bind_pairE)
  have "evidence_of s3 = evidence_of s"
    using chain_evidence(1) [OF a] chain_evidence(2) [OF b] chain_evidence(3) [OF m] by simp
  moreover have "evidence_grows s3 s'"
    using rest attach_evidence create_listing_grows
    by (auto split: sum.splits option.splits intro: grows_same)
  ultimately show ?thesis using grows_same grows_trans by blast
qed

section \<open>The service\<close>

lemma process_observation_grows:
  assumes "process_observation i dm now s = Inr (out, s')"
  shows "evidence_grows s s'"
  using assms create_canonical_grows update_existing_grows
  by (auto simp: process_observation_def bind_result_Inr_iff split: option.splits if_splits)

end
