(* ===== verification/NormalizationLaws.thy ===== *)
theory NormalizationLaws
  imports EvidenceLaws
begin

text \<open>
  The laws of normalization: what attaching, creating and proposing candidates change, the invariant
  \<open>canonical_inv\<close> over a whole \<open>process_observation\<close>, and the properties of the service: it never
  raises on a well-formed database, replays are without effect, human decisions outrank sources,
  identities attach only on the documented evidence, and duplicates are only proposed.
\<close>

section \<open>Duplicate candidates\<close>

definition candidate_step :: "(duplicate_candidate \<Rightarrow> bool) \<Rightarrow> db \<Rightarrow> db \<Rightarrow> bool" where
  "candidate_step P s s' \<longleftrightarrow>
     manual_state s' = manual_state s \<and> upstream_state s' = upstream_state s \<and>
     fact_state s' = fact_state s \<and> db_addresses s' = db_addresses s \<and>
     db_buildings s' = db_buildings s \<and> db_units s' = db_units s \<and> db_links s' = db_links s \<and>
     db_listings s' = db_listings s \<and> db_events s' = db_events s \<and> db_next s \<le> db_next s' \<and>
     (\<exists>new. db_candidates s' = db_candidates s @ new \<and> (\<forall>c \<in> set new. P c))"

lemma candidate_step_refl [simp, intro]: "candidate_step P s s"
  by (simp add: candidate_step_def)

lemma candidate_step_trans: "candidate_step P s t \<Longrightarrow> candidate_step P t u \<Longrightarrow> candidate_step P s u"
  unfolding candidate_step_def by (elim conjE exE, intro conjI) (simp_all, blast)

lemma candidate_step_inv: "candidate_step P s s' \<Longrightarrow> canonical_inv s \<Longrightarrow> canonical_inv s'"
proof -
  assume step: "candidate_step P s s'" and inv: "canonical_inv s"
  have "facts_inv s' = facts_inv s" "keys_unique s' = keys_unique s" "chain_inv s' = chain_inv s"
    using step by (simp_all add: candidate_step_def facts_inv_def keys_unique_def chain_inv_def
        match_keys_def frame_defs)
  moreover have "link_inv s'"
    using step inv unfolding candidate_step_def canonical_inv_def link_inv_def
    by (elim conjE, intro conjI) (simp, simp, force, force, simp, simp)
  ultimately show ?thesis using inv by (simp add: canonical_inv_def)
qed

lemma propose_candidate_step:
  assumes "P (new_candidate (db_next s) (min x y) (max x y) evidence)"
  shows "candidate_step P s (propose_candidate x y evidence s)"
  using assms by (simp add: candidate_step_def propose_candidate_def Let_def frame_defs)

lemma propose_candidate_there:
  "\<exists>c \<in> set (db_candidates (propose_candidate x y evidence s)). same_candidate (min x y) (max x y) c"
  by (auto simp: propose_candidate_def Let_def same_candidate_def new_candidate_def)

text \<open>A pending proposal for a pair that is comparable and close in rent.\<close>

definition is_proposal ::
  "canonical_listing list \<Rightarrow> building \<Rightarrow> canonical_listing \<Rightarrow> duplicate_candidate \<Rightarrow> bool" where
  "is_proposal ls building listing c \<longleftrightarrow> dc_status c = DuplicateCandidateStatus.PENDING \<and>
     (\<exists>other \<in> set ls. comparable_listing building listing other \<and>
        dc_listing_a_id c = min (cl_id listing) (cl_id other) \<and>
        dc_listing_b_id c = max (cl_id listing) (cl_id other) \<and>
        (case (cl_monthly_rent_minor listing, cl_monthly_rent_minor other) of
           (Some r, Some r') \<Rightarrow> similar_rent r r' | _ \<Rightarrow> False))"

definition must_propose :: "building \<Rightarrow> canonical_listing \<Rightarrow> canonical_listing \<Rightarrow> bool" where
  "must_propose building listing other \<longleftrightarrow>
     \<not> unusable_layout (cl_layout_class listing) \<and> comparable_listing building listing other \<and>
     (case (cl_monthly_rent_minor listing, cl_monthly_rent_minor other) of
        (Some r, Some r') \<Rightarrow> similar_rent r r' | _ \<Rightarrow> False)"

lemma candidate_step_keeps:
  "candidate_step P s t \<Longrightarrow> c \<in> set (db_candidates s) \<Longrightarrow> c \<in> set (db_candidates t)"
  by (auto simp: candidate_step_def)

lemma candidate_fold:
  assumes "\<And>y t. y \<in> set os \<Longrightarrow> candidate_step P t (f y t)"
    and "\<And>y t. y \<in> set os \<Longrightarrow> Q y \<Longrightarrow> \<exists>c \<in> set (db_candidates (f y t)). R y c"
  shows "candidate_step P s (fold f os s) \<and>
    (\<forall>y \<in> set os. Q y \<longrightarrow> (\<exists>c \<in> set (db_candidates (fold f os s)). R y c))"
  using assms
proof (induction os arbitrary: s)
  case (Cons x xs)
  have first: "candidate_step P s (f x s)" using Cons.prems(1) by simp
  have IH: "candidate_step P (f x s) (fold f xs (f x s)) \<and>
      (\<forall>y \<in> set xs. Q y \<longrightarrow> (\<exists>c \<in> set (db_candidates (fold f xs (f x s))). R y c))"
    by (rule Cons.IH) (use Cons.prems in \<open>simp_all\<close>)
  have "\<exists>c \<in> set (db_candidates (fold f xs (f x s))). R x c" if "Q x"
    using Cons.prems(2) [OF _ that, of s] IH candidate_step_keeps by fastforce
  with IH candidate_step_trans [OF first] show ?case by simp
qed simp

lemma generate_duplicates:
  assumes s'_def: "s' = generate_duplicate_candidates listing building s"
  shows "candidate_step (is_proposal (db_listings s) building listing) s s'"
    and "\<And>other. other \<in> set (db_listings s) \<Longrightarrow> must_propose building listing other \<Longrightarrow>
      \<exists>c \<in> set (db_candidates s'). same_candidate (min (cl_id listing) (cl_id other)) (max (cl_id listing) (cl_id other)) c"
proof -
  let ?P = "is_proposal (db_listings s) building listing"
  let ?os = "filter (comparable_listing building listing) (db_listings s)"
  let ?R = "\<lambda>other c. same_candidate (min (cl_id listing) (cl_id other)) (max (cl_id listing) (cl_id other)) c"
  have "candidate_step ?P s s' \<and>
    (\<forall>other \<in> set (db_listings s). must_propose building listing other \<longrightarrow>
       (\<exists>c \<in> set (db_candidates s'). ?R other c))"
  proof (cases "cl_monthly_rent_minor listing")
    case None
    then show ?thesis by (simp add: s'_def generate_duplicate_candidates_def must_propose_def)
  next
    case (Some rent)
    show ?thesis
    proof (cases "unusable_layout (cl_layout_class listing)")
      case True
      with Some show ?thesis by (simp add: s'_def generate_duplicate_candidates_def must_propose_def)
    next
      case False
      let ?f = "\<lambda>other t. case cl_monthly_rent_minor other of None \<Rightarrow> t
        | Some other_rent \<Rightarrow> if similar_rent rent other_rent
            then propose_candidate (cl_id listing) (cl_id other)
                   (candidate_evidence (cl_layout_class listing) \<bar>other_rent - rent\<bar>) t
            else t"
      have step: "candidate_step ?P t (?f other t)" if "other \<in> set ?os" for other t
      proof (cases "cl_monthly_rent_minor other")
        case (Some other_rent)
        have "?P (new_candidate n (min (cl_id listing) (cl_id other)) (max (cl_id listing) (cl_id other)) e)"
          if "similar_rent rent other_rent" for n e
          using that \<open>other \<in> set ?os\<close> Some \<open>cl_monthly_rent_minor listing = Some rent\<close>
          by (auto simp: is_proposal_def new_candidate_def intro!: bexI [of _ other])
        then show ?thesis using Some by (simp add: propose_candidate_step)
      qed simp
      have there: "\<exists>c \<in> set (db_candidates (?f other t)). ?R other c"
        if "other \<in> set ?os" "must_propose building listing other" for other t
        using that Some propose_candidate_there
        by (auto simp: must_propose_def split: option.splits)
      have "s' = fold ?f ?os s"
        using Some False by (simp add: s'_def generate_duplicate_candidates_def)
      then show ?thesis
        using candidate_fold [of ?os ?P ?f "must_propose building listing" ?R s, OF step there]
        by (auto simp: must_propose_def)
    qed
  qed
  then show "candidate_step ?P s s'"
    "\<And>other. other \<in> set (db_listings s) \<Longrightarrow> must_propose building listing other \<Longrightarrow>
      \<exists>c \<in> set (db_candidates s'). ?R other c" by blast+
qed

section \<open>Attaching and creating\<close>

text \<open>What a new link must respect for the links to stay well-formed.\<close>

lemma link_inv_add:
  assumes "link_inv s" "\<forall>k \<in> set (db_links s). \<not> link_matches row k"
    and "db_links s' = db_links s @ [new_link i listing row dm im ic]"
    and "map cl_id (db_listings s') = map cl_id (db_listings s) @ new"
    and "distinct new" "\<forall>j \<in> set new. db_next s \<le> j \<and> j < db_next s'"
    and "listing \<in> set (map cl_id (db_listings s'))" "db_next s \<le> i" "i < db_next s'"
  shows "link_inv s'"
proof -
  have low: "j < db_next s" if "j \<in> set (map cl_id (db_listings s)) \<or> j \<in> set (map lk_id (db_links s))" for j
    using assms(1) that unfolding link_inv_def by blast
  have "distinct (map cl_id (db_listings s'))"
    using assms(1,5,6) low unfolding assms(4) link_inv_def by fastforce
  moreover have "\<forall>j \<in> set (map cl_id (db_listings s')). j < db_next s'"
    using assms(6,8,9) low unfolding assms(4) by fastforce
  moreover have "distinct (map lk_id (db_links s'))"
    using assms(1,8) low unfolding assms(3) link_inv_def by (fastforce simp: new_link_def)
  moreover have "\<forall>j \<in> set (map lk_id (db_links s')). j < db_next s'"
    using assms(8,9) low unfolding assms(3) by (fastforce simp: new_link_def)
  moreover have "set (map lk_canonical_listing_id (db_links s')) \<subseteq> set (map cl_id (db_listings s'))"
    using assms(1,4,7) unfolding assms(3) link_inv_def by (auto simp: new_link_def)
  moreover have "distinct (map native_key (filter has_native (db_links s')))"
  proof -
    have "native_key k \<noteq> native_key (new_link i listing row dm im ic)"
      if "k \<in> set (db_links s)" "so_source_native_id row \<noteq> None" for k
      using assms(2) that by (auto simp: link_matches_def native_key_def new_link_def)
    moreover have "has_native (new_link i listing row dm im ic) \<longleftrightarrow> so_source_native_id row \<noteq> None"
      by (simp add: has_native_def new_link_def)
    ultimately have "has_native (new_link i listing row dm im ic) \<longrightarrow>
        native_key (new_link i listing row dm im ic) \<notin> native_key ` set (filter has_native (db_links s))"
      by fastforce
    then show ?thesis using assms(1) unfolding assms(3) link_inv_def by simp
  qed
  ultimately show ?thesis by (simp add: link_inv_def)
qed

definition attached :: "source_observation \<Rightarrow> canonical_listing \<Rightarrow> DiscoveryMethod \<Rightarrow> IdentityMethod \<Rightarrow>
    IdentityConfidence \<Rightarrow> db \<Rightarrow> listing_source_link" where
  "attached row listing dm im ic s = new_link (db_next s) (cl_id listing) row dm im ic"

lemma attach_state:
  assumes "attach_cross_source_link row listing dm im ic s = (out, s')"
  shows "db_links s' = db_links s @ [attached row listing dm im ic s]"
    "db_listings s' = update_where (\<lambda>r. cl_id r = cl_id listing)
       (\<lambda>r. r\<lparr>cl_last_seen_at := max (cl_last_seen_at listing) (so_observed_at row)\<rparr>) (db_listings s)"
    "db_next s' = Suc (db_next s)" "manual_state s' = manual_state s"
    "upstream_state s' = upstream_state s" "fact_state s' = fact_state s" "db_events s' = db_events s"
    "db_candidates s' = db_candidates s" "db_issues s' = db_issues s"
    "db_addresses s' = db_addresses s" "db_buildings s' = db_buildings s" "db_units s' = db_units s"
    "out = outcome ''MATCHED_EXISTING'' (Some (cl_id listing)) (Some (db_next s)) []"
  using assms
  by (auto simp: attach_cross_source_link_def Let_def update_listing_def frame_defs attached_def new_link_def)

lemma touch_evolves:
  assumes "link_inv s" "listing \<in> set (db_listings s)"
  shows "list_all2 evolves (db_listings s) (update_where (\<lambda>r. cl_id r = cl_id listing)
      (\<lambda>r. r\<lparr>cl_last_seen_at := max (cl_last_seen_at listing) (so_observed_at row)\<rparr>) (db_listings s))"
proof (rule list_all2_update_where)
  fix r assume "r \<in> set (db_listings s)" "cl_id r = cl_id listing"
  then have "r = listing" using assms listing_by_id unfolding link_inv_def by blast
  then show "evolves r (r\<lparr>cl_last_seen_at := max (cl_last_seen_at listing) (so_observed_at row)\<rparr>)"
    by (simp add: evolves_def frozen_def)
qed simp

lemma attach_inv:
  assumes "canonical_inv s" "listing \<in> set (db_listings s)" "\<forall>k \<in> set (db_links s). \<not> link_matches row k"
    and "attach_cross_source_link row listing dm im ic s = (out, s')"
  shows "canonical_inv s'"
proof -
  note st = attach_state [OF assms(4)]
  have li: "link_inv s" using assms(1) by (simp add: canonical_inv_def)
  have ids: "map cl_id (db_listings s') = map cl_id (db_listings s)"
    unfolding st(2) by (rule evolves_ids) (rule touch_evolves [OF li assms(2)])
  have "link_inv s'"
  proof (rule link_inv_add [OF li assms(3) st(1) [unfolded attached_def], where new = "[]"])
    show "cl_id listing \<in> set (map cl_id (db_listings s'))" using ids assms(2) by simp
  qed (simp_all add: ids st(3))
  moreover have "facts_inv s' = facts_inv s" "keys_unique s' = keys_unique s" "chain_inv s' = chain_inv s"
    using st(4-12) by (simp_all add: facts_inv_def keys_unique_def chain_inv_def match_keys_def frame_defs)
  ultimately show ?thesis using assms(1) by (simp add: canonical_inv_def)
qed

text \<open>The rows that \<open>create_listing\<close> inserts, before any history is written.\<close>

definition first_link :: "source_observation \<Rightarrow> DiscoveryMethod \<Rightarrow> db \<Rightarrow> listing_source_link" where
  "first_link row dm s = new_link (Suc (db_next s)) (db_next s) row dm
     IdentityMethod.SOURCE_NATIVE_CONTINUITY IdentityConfidence.HIGH"

definition with_listing :: "canonical_listing \<Rightarrow> listing_source_link \<Rightarrow> db \<Rightarrow> db" where
  "with_listing listing link s = s\<lparr>db_listings := db_listings s @ [listing],
     db_links := db_links s @ [link], db_next := Suc (Suc (db_next s))\<rparr>"

lemma with_listing_simps [simp]:
  "db_listings (with_listing l k s) = db_listings s @ [l]"
  "db_links (with_listing l k s) = db_links s @ [k]"
  "db_next (with_listing l k s) = Suc (Suc (db_next s))"
  "db_events (with_listing l k s) = db_events s"
  "db_addresses (with_listing l k s) = db_addresses s"
  "db_buildings (with_listing l k s) = db_buildings s"
  "db_units (with_listing l k s) = db_units s"
  "db_candidates (with_listing l k s) = db_candidates s"
  "manual_state (with_listing l k s) = manual_state s"
  "upstream_state (with_listing l k s) = upstream_state s"
  "facts_inv (with_listing l k s) = facts_inv s"
  "keys_unique (with_listing l k s) = keys_unique s"
  "chain_inv (with_listing l k s) = chain_inv s"
  by (simp_all add: with_listing_def frame_defs facts_inv_def keys_unique_def chain_inv_def match_keys_def)

lemma create_listing_cases:
  assumes "create_listing row obs dm now building unit s = Inr (out, s')"
  obtains listing t evs where
    "listing = new_listing (db_next s) (bd_id building) (map_option un_id unit) obs row"
    "history_step (with_listing listing (first_link row dm s) s) t"
    "s' = generate_duplicate_candidates listing building t"
    "out = outcome ''NEW'' (Some (db_next s)) (Some (Suc (db_next s))) evs"
proof -
  let ?l = "new_listing (db_next s) (bd_id building) (map_option un_id unit) obs row"
  let ?s1 = "with_listing ?l (first_link row dm s) s"
  have id: "cl_id ?l = db_next s" by (simp add: new_listing_def)
  obtain evs s2 where ev: "emit_event (db_next s) ListingEventType.CREATED row None
      (Some (JObj [(''lifecycle_status'', JStr (LifecycleStatus_value (cl_lifecycle_status ?l)))])) None ?s1 = (evs, s2)"
    by (cases rule: prod.exhaust)
  with assms obtain t where "record_listing_facts (db_next s) obs row now s2 = Inr t"
    "s' = generate_duplicate_candidates ?l building t"
    "out = outcome ''NEW'' (Some (db_next s)) (Some (Suc (db_next s))) evs"
    by (auto simp: create_listing_def Let_def id bind_result_Inr_iff with_listing_def first_link_def new_link_def split: if_splits)
  moreover have "history_step ?s1 t"
    using emit_event_history [OF ev] record_facts_history calculation(1)
    unfolding record_listing_facts_def by (blast intro: history_trans)
  ultimately show thesis using that by blast
qed

lemma create_listing_total:
  assumes "facts_inv s" "storable obs"
  shows "\<exists>out s'. create_listing row obs dm now building unit s = Inr (out, s')"
proof -
  let ?l = "new_listing (db_next s) (bd_id building) (map_option un_id unit) obs row"
  let ?s1 = "with_listing ?l (first_link row dm s) s"
  have id: "cl_id ?l = db_next s" by (simp add: new_listing_def)
  obtain evs s2 where ev: "emit_event (db_next s) ListingEventType.CREATED row None
      (Some (JObj [(''lifecycle_status'', JStr (LifecycleStatus_value (cl_lifecycle_status ?l)))])) None ?s1 = (evs, s2)"
    by (cases rule: prod.exhaust)
  have "facts_inv s2" using history_frame(6) [OF emit_event_history [OF ev]] assms(1) by simp
  then obtain t where "record_listing_facts (db_next s) obs row now s2 = Inr t"
    using record_facts_total unfolding record_listing_facts_def by blast
  with ev assms(2) show ?thesis
    by (simp add: create_listing_def Let_def id with_listing_def first_link_def)
qed

lemma identity_stateD:
  assumes "identity_state s' = identity_state s"
  shows "db_addresses s' = db_addresses s" "db_buildings s' = db_buildings s" "db_units s' = db_units s"
    "db_links s' = db_links s" "db_candidates s' = db_candidates s"
  using assms by (simp_all add: identity_state_def)

lemma create_listing_inv:
  assumes "canonical_inv s" "\<forall>k \<in> set (db_links s). \<not> link_matches row k"
    and "create_listing row obs dm now building unit s = Inr (out, s')"
  shows "canonical_inv s'"
  using assms(3)
proof (cases rule: create_listing_cases)
  case (1 listing t evs)
  let ?s1 = "with_listing listing (first_link row dm s) s"
  note inv = assms(1) [unfolded canonical_inv_def]
  have "link_inv s" using inv by blast
  then have "link_inv ?s1"
  proof (rule link_inv_add [OF _ assms(2), where new = "[db_next s]"])
    show "db_links ?s1 = db_links s @ [new_link (Suc (db_next s)) (db_next s) row dm
       IdentityMethod.SOURCE_NATIVE_CONTINUITY IdentityConfidence.HIGH]" by (simp add: first_link_def)
  qed (simp_all add: 1(1) new_listing_def)
  moreover have "db_links t = db_links ?s1" "db_listings t = db_listings ?s1" "db_next ?s1 \<le> db_next t"
    using history_frame(3-5) [OF 1(2)] identity_stateD(4) by blast+
  ultimately have "link_inv t"
    unfolding link_inv_def by (elim conjE, intro conjI) (simp, simp, force, force, simp, simp)
  moreover have "chain_inv t" using chain_inv_cong [OF history_frame(3) [OF 1(2)]] inv by simp
  moreover have "facts_inv t" "keys_unique t" using history_frame(6,7) [OF 1(2)] inv by simp_all
  ultimately have "canonical_inv t" by (simp add: canonical_inv_def)
  then show ?thesis using candidate_step_inv generate_duplicates(1) [OF 1(3)] by blast
qed

section \<open>The new-identity path\<close>

text \<open>The building stands at the address of the observation.\<close>

definition observation_key :: "source_observation \<Rightarrow> ParsedSourceObservation \<Rightarrow> string" where
  "observation_key row obs = (let raw = ib_raw_address_text (po_identity obs)
     in if truthy raw then address_fingerprint (the raw) else ''unresolved:'' @ so_source_url row)"

definition located :: "source_observation \<Rightarrow> ParsedSourceObservation \<Rightarrow> building \<Rightarrow> db \<Rightarrow> bool" where
  "located row obs b s \<longleftrightarrow> (\<exists>a \<in> set (db_addresses s). ad_fingerprint a = Some (observation_key row obs) \<and>
     bd_address_id b = ad_id a \<and> b \<in> set (db_buildings s))"

lemma ensure_address_found:
  assumes "ensure_address row obs s = Inr (a, s')"
  shows "a \<in> set (db_addresses s') \<and> ad_fingerprint a = Some (observation_key row obs)"
proof (cases "truthy (ib_raw_address_text (po_identity obs))")
  case True
  let ?p = "\<lambda>a. ad_fingerprint a = Some (address_fingerprint (the (ib_raw_address_text (po_identity obs))))"
  obtain found where f: "scalar_one_or_none (filter ?p (db_addresses s)) = Inr found"
    and r: "(a, s') = (case found of Some a \<Rightarrow> (a, s) | None \<Rightarrow>
      add_address (new_address (db_next s) (ib_raw_address_text (po_identity obs)) (observation_locality obs)
        (the (ib_raw_address_text (po_identity obs)))
        (address_fingerprint (the (ib_raw_address_text (po_identity obs))))) s)"
    using assms True by (auto simp: ensure_address_def Let_def bind_result_Inr_iff)
  show ?thesis
  proof (cases found)
    case None
    then show ?thesis using r True
      by (simp add: add_address_def new_address_def observation_key_def)
  next
    case (Some x)
    with f have "x \<in> set (db_addresses s) \<and> ?p x" by (intro scalar_one_or_none_filter_Some) simp
    then show ?thesis using r Some True by (simp add: observation_key_def)
  qed
next
  case False
  with assms show ?thesis
    by (auto simp: ensure_address_def Let_def add_address_def new_address_def observation_key_def)
qed

lemma ensure_building_found:
  assumes "ensure_building a s = Inr (b, s')"
  shows "b \<in> set (db_buildings s') \<and> bd_address_id b = ad_id a"
proof -
  let ?p = "\<lambda>b. bd_address_id b = ad_id a"
  obtain found where f: "scalar_one_or_none (filter ?p (db_buildings s)) = Inr found"
    and r: "(b, s') = (case found of Some b \<Rightarrow> (b, s) | None \<Rightarrow>
      (let b = new_building (db_next s) (ad_id a)
       in (b, s\<lparr>db_buildings := db_buildings s @ [b], db_next := Suc (db_next s)\<rparr>)))"
    using assms by (auto simp: ensure_building_def bind_result_Inr_iff)
  show ?thesis
  proof (cases found)
    case None
    then show ?thesis using r by (simp add: Let_def new_building_def)
  next
    case (Some x)
    with f have "x \<in> set (db_buildings s) \<and> ?p x" by (intro scalar_one_or_none_filter_Some) simp
    then show ?thesis using r Some by simp
  qed
qed

lemma located_mono:
  "located row obs b s \<Longrightarrow> chain_step s t \<Longrightarrow> located row obs b t"
  unfolding located_def chain_step_def by (meson set_mono_prefix subsetD)

text \<open>The evidence on which a source attaches to an existing listing.\<close>

definition unit_evidence ::
  "ParsedSourceObservation \<Rightarrow> building \<Rightarrow> db \<Rightarrow> canonical_listing \<Rightarrow> bool" where
  "unit_evidence obs b s l \<longleftrightarrow> truthy (observation_unit_label obs) \<and>
     cl_lifecycle_status l \<noteq> LifecycleStatus.MERGED \<and>
     (\<exists>u \<in> set (db_units s). un_building_id u = bd_id b \<and> cl_unit_id l = Some (un_id u) \<and>
        un_fingerprint u = Some (unit_fingerprint (the (observation_unit_label obs))))"

definition strong_evidence ::
  "source_observation \<Rightarrow> ParsedSourceObservation \<Rightarrow> building \<Rightarrow> db \<Rightarrow> canonical_listing \<Rightarrow> bool" where
  "strong_evidence row obs b s l \<longleftrightarrow> \<not> truthy (observation_unit_label obs) \<and>
     \<not> unusable_layout (lb_proposed_layout_class (po_layout obs)) \<and>
     (\<exists>rent. pb_monthly_rent_minor (po_pricing obs) = Some rent \<and>
        filter (strong_match b (lb_proposed_layout_class (po_layout obs)) rent row s) (db_listings s) = [l])"

lemma strong_multi_field_matchD:
  assumes "strong_multi_field_match b obs row s = Some l" "\<not> truthy (observation_unit_label obs)"
  shows "strong_evidence row obs b s l" "l \<in> set (db_listings s)"
proof -
  have ev: "strong_evidence row obs b s l"
    using assms by (auto simp: strong_multi_field_match_def strong_evidence_def Let_def
        split: option.splits if_splits list.splits)
  then show "strong_evidence row obs b s l" .
  from ev show "l \<in> set (db_listings s)"
    unfolding strong_evidence_def by (metis filter_is_subset list.set_intros(1) subsetD)
qed

lemma create_canonical_cases:
  assumes "create_canonical row obs dm now s = Inr (out, s')"
  obtains
    (attached) b t l im ic where "chain_step s t" "located row obs b t" "l \<in> set (db_listings t)"
      "attach_cross_source_link row l dm im ic t = (out, s')"
      "(im, ic) = (IdentityMethod.EXACT_ADDRESS_AND_UNIT, IdentityConfidence.HIGH) \<and> unit_evidence obs b t l \<or>
       (im, ic) = (IdentityMethod.STRONG_MULTI_FIELD, IdentityConfidence.MEDIUM) \<and> strong_evidence row obs b t l"
  | (created) b t u where "chain_step s t" "located row obs b t"
      "create_listing row obs dm now b u t = Inr (out, s')"
proof -
  obtain a s1 b s2 m s3 where a: "ensure_address row obs s = Inr (a, s1)"
    and b: "ensure_building a s1 = Inr (b, s2)" and m: "match_unit b obs s2 = Inr (m, s3)"
    and rest: "(case m of
         Inl existing \<Rightarrow> Inr (attach_cross_source_link row existing dm
           IdentityMethod.EXACT_ADDRESS_AND_UNIT IdentityConfidence.HIGH s3)
       | Inr unit \<Rightarrow>
           (case if unit = None then strong_multi_field_match b obs row s3 else None of
              Some strong \<Rightarrow> Inr (attach_cross_source_link row strong dm
                IdentityMethod.STRONG_MULTI_FIELD IdentityConfidence.MEDIUM s3)
            | None \<Rightarrow> create_listing row obs dm now b unit s3)) = Inr (out, s')"
    using assms unfolding create_canonical_def by (elim bind_pairE)
  have steps: "chain_step s s3" "chain_step s1 s2" "chain_step s2 s3"
    using ensure_address_step [OF a] ensure_building_step [OF b] match_unit_step [OF m]
    by (blast intro: chain_step_trans)+
  have "a \<in> set (db_addresses s2)"
    using ensure_address_found [OF a] steps(2) unfolding chain_step_def by (meson set_mono_prefix subsetD)
  then have "located row obs b s2"
    using ensure_address_found [OF a] ensure_building_found [OF b] by (auto simp: located_def)
  then have loc: "located row obs b s3" using steps(3) by (rule located_mono)
  show thesis
  proof (cases m)
    case (Inl l)
    from m [unfolded Inl] obtain u where u: "truthy (observation_unit_label obs)" "s3 = s2"
        "u \<in> set (db_units s2)" "un_building_id u = bd_id b"
        "un_fingerprint u = Some (unit_fingerprint (the (observation_unit_label obs)))"
        "latest_listing_of_unit (un_id u) s2 = Some l"
      by (cases rule: match_unit_cases) auto
    have "unit_evidence obs b s3 l"
      using u latest_listing_of_unitD [OF u(6)] by (auto simp: unit_evidence_def)
    with steps(1) loc latest_listing_of_unitD(1) [OF u(6)] u(2) rest Inl show thesis
      by (intro attached) auto
  next
    case (Inr unit)
    show thesis
    proof (cases "if unit = None then strong_multi_field_match b obs row s3 else None")
      case None
      with rest Inr steps(1) loc show thesis by (intro created) auto
    next
      case (Some l)
      then have unit: "unit = None" "strong_multi_field_match b obs row s3 = Some l"
        by (simp_all split: if_splits)
      from m [unfolded Inr unit(1)] have "\<not> truthy (observation_unit_label obs)"
        by (cases rule: match_unit_cases) auto
      note ev = strong_multi_field_matchD [OF unit(2) this]
      with rest Inr Some steps(1) loc show thesis by (intro attached) auto
    qed
  qed
qed

lemma create_canonical_inv:
  assumes "canonical_inv s" "\<forall>k \<in> set (db_links s). \<not> link_matches row k"
    and "create_canonical row obs dm now s = Inr (out, s')"
  shows "canonical_inv s'"
  using assms(3)
proof (cases rule: create_canonical_cases)
  case (attached b t l im ic)
  have "\<forall>k \<in> set (db_links t). \<not> link_matches row k"
    using assms(2) attached(1) by (simp add: chain_step_def)
  with chain_step_inv [OF attached(1) assms(1)] attached(3) show ?thesis
    using attached(4) by (rule attach_inv)
next
  case (created b t u)
  have "\<forall>k \<in> set (db_links t). \<not> link_matches row k"
    using assms(2) created(1) by (simp add: chain_step_def)
  with chain_step_inv [OF created(1) assms(1)] show ?thesis
    using created(3) by (rule create_listing_inv)
qed

lemma create_canonical_total:
  assumes "canonical_inv s" "address_key_ok obs" "storable obs"
  shows "\<exists>out s'. create_canonical row obs dm now s = Inr (out, s')"
proof -
  have "chain_inv s" using assms(1) by (simp add: canonical_inv_def)
  then obtain a s1 where a: "ensure_address row obs s = Inr (a, s1)"
    using ensure_address_total [OF _ assms(2)] by blast
  have i1: "canonical_inv s1" using chain_step_inv [OF ensure_address_step [OF a] assms(1)] .
  then obtain b s2 where b: "ensure_building a s1 = Inr (b, s2)"
    using ensure_building_total unfolding canonical_inv_def by blast
  have i2: "canonical_inv s2" using chain_step_inv [OF ensure_building_step [OF b] i1] .
  then obtain m s3 where m: "match_unit b obs s2 = Inr (m, s3)"
    using match_unit_total unfolding canonical_inv_def by blast
  have "facts_inv s3"
    using chain_step_inv [OF match_unit_step [OF m] i2] by (simp add: canonical_inv_def)
  from create_listing_total [OF this assms(3)] show ?thesis
    using a b m by (auto simp: create_canonical_def split: sum.splits option.splits)
qed

section \<open>A whole observation\<close>

lemma find_link_NoneD: "find_link row s = Inr None \<Longrightarrow> \<forall>k \<in> set (db_links s). \<not> link_matches row k"
  by (simp add: find_link_def scalar_one_or_none_filter_None)

lemma find_link_SomeD: "find_link row s = Inr (Some k) \<Longrightarrow> k \<in> set (db_links s) \<and> link_matches row k"
  unfolding find_link_def by (rule scalar_one_or_none_filter_Some)

lemma find_link_total:
  assumes "link_inv s" "so_source_native_id row \<noteq> None"
  shows "\<exists>found. find_link row s = Inr found"
proof -
  have "filter (link_matches row) (db_links s) = filter (link_matches row) (filter has_native (db_links s))"
    using assms(2) by (auto simp: link_matches_def has_native_def intro!: filter_cong)
  moreover have "\<exists>x. scalar_one_or_none (filter (link_matches row) (filter has_native (db_links s))) = Inr x"
    by (rule scalar_one_or_none_filter [where g = native_key])
      (use assms in \<open>auto simp: link_matches_def native_key_def link_inv_def\<close>)
  ultimately show ?thesis by (simp add: find_link_def)
qed

lemma process_cases:
  assumes "process_observation i dm now s = Inr (out, s')"
  obtains
    (unresolved) row where "get_by so_id i (db_observations s) = Some row"
      "s' = s" "out = outcome ''UNRESOLVED'' None None []"
  | (known) row link where "get_by so_id i (db_observations s) = Some row"
      "find_link row s = Inr (Some link)"
      "update_existing row (so_parsed_payload row) link now s = Inr (out, s')"
      "so_parse_status row \<in> {ParseStatus.VALID, ParseStatus.PARTIAL}"
  | (new) row where "get_by so_id i (db_observations s) = Some row" "find_link row s = Inr None"
      "create_canonical row (so_parsed_payload row) dm now s = Inr (out, s')"
      "so_parse_status row \<in> {ParseStatus.VALID, ParseStatus.PARTIAL}"
proof (cases "get_by so_id i (db_observations s)")
  case None
  then show thesis using assms by (simp add: process_observation_def)
next
  case (Some row)
  show thesis
  proof (cases "so_parse_status row \<in> {ParseStatus.VALID, ParseStatus.PARTIAL}")
    case False
    then show thesis using assms Some by (intro unresolved) (auto simp: process_observation_def)
  next
    case True
    then have eq: "process_observation i dm now s = bind_result (find_link row s) (\<lambda>found. case found of
        None \<Rightarrow> create_canonical row (so_parsed_payload row) dm now s
      | Some link \<Rightarrow> update_existing row (so_parsed_payload row) link now s)"
      using Some by (simp only: process_observation_def option.case) simp
    obtain found where f: "find_link row s = Inr found"
      and r: "(case found of None \<Rightarrow> create_canonical row (so_parsed_payload row) dm now s
         | Some link \<Rightarrow> update_existing row (so_parsed_payload row) link now s) = Inr (out, s')"
      using assms unfolding eq bind_result_Inr_iff by blast
    show thesis
    proof (cases found)
      case None
      with f r Some True show thesis by (intro new) simp_all
    next
      case (Some link)
      with f r \<open>get_by so_id i (db_observations s) = Some row\<close> True show thesis by (intro known) simp_all
    qed
  qed
qed

lemma process_inv:
  assumes "canonical_inv s" "process_observation i dm now s = Inr (out, s')"
  shows "canonical_inv s'"
  using assms(2)
proof (cases rule: process_cases)
  case (known row link)
  have "known_step s s'"
    using update_existing_step [OF _ _ known(3)] find_link_SomeD [OF known(2)] assms(1)
    unfolding canonical_inv_def by blast
  with assms(1) show ?thesis by (rule known_step_inv)
next
  case (new row)
  from assms(1) find_link_NoneD [OF new(2)] new(3) show ?thesis by (rule create_canonical_inv)
qed (use assms(1) in simp)

section \<open>Properties\<close>

text \<open>
  C7. Normalization never fails on a well-formed database: a stored observation with a source-native
  identity, whose address does not imitate a placeholder key and whose rent, bedrooms and bathrooms
  fit their columns (\<open>BigInteger\<close>, \<open>Numeric(3, 1)\<close>), is always processed (no MultipleResultsFound, no
  DataError, no failed assertion), and the identity keys, links, facts and event keys are well-formed
  again afterwards.
\<close>
theorem normalization_total:
  assumes "canonical_inv s" "get_by so_id i (db_observations s) = Some row"
    and "so_source_native_id row \<noteq> None" "address_key_ok (so_parsed_payload row)"
    and "storable (so_parsed_payload row)"
  shows "\<exists>out s'. process_observation i dm now s = Inr (out, s') \<and> canonical_inv s'"
proof -
  note inv = assms(1) [unfolded canonical_inv_def]
  obtain found where f: "find_link row s = Inr found"
    using find_link_total [OF _ assms(3)] inv by blast
  have "\<exists>out s'. process_observation i dm now s = Inr (out, s')"
  proof (cases found)
    case None
    then show ?thesis
      using create_canonical_total [OF assms(1,4,5), of row dm now] assms(2) f
      by (auto simp: process_observation_def)
  next
    case (Some link)
    then have "link \<in> set (db_links s)" using find_link_SomeD f by blast
    then show ?thesis
      using update_existing_total [of s link "so_parsed_payload row" row now] inv Some assms(2,5) f
      by (auto simp: process_observation_def storable_def)
  qed
  then show ?thesis using process_inv [OF assms(1)] by blast
qed

definition demo_payload :: ParsedSourceObservation where
  "demo_payload = (new_observation ''ac'' (Some ''n1'') ''u1'' 10 11 (default_extraction ''v1''))
     \<lparr>po_identity := default_identity\<lparr>ib_raw_address_text := Some ''1 Main St''\<rparr>,
      po_pricing := default_pricing\<lparr>pb_monthly_rent_minor := Some 300000\<rparr>,
      po_layout := default_layout\<lparr>lb_proposed_layout_class := LayoutClass.STUDIO\<rparr>\<rparr>"

definition demo_row :: "uuid \<Rightarrow> uuid \<Rightarrow> string \<Rightarrow> datetime \<Rightarrow> string \<Rightarrow> int \<Rightarrow> source_observation" where
  "demo_row i source native observed hash rent =
     \<lparr>so_id = i, so_source_id = source, so_source_run_id = 0, so_source_native_id = Some native,
      so_source_url = ''u1'', so_observed_at = observed, so_retrieved_at = observed,
      so_content_hash = hash, so_raw_payload_ref = None,
      so_parsed_payload = demo_payload\<lparr>po_pricing := default_pricing\<lparr>pb_monthly_rent_minor := Some rent\<rparr>\<rparr>,
      so_parse_status = ParseStatus.VALID, so_validation_issues = None,
      so_contact_redaction_status = ContactRedactionStatus.NOT_PRESENT, so_adapter_version = ''v1'',
      so_schema_version = OBSERVATION_SCHEMA_VERSION\<rparr>"

text \<open>
  Five stored observations: a first sighting, a later one of the same identity, an older one that
  arrives late, one of another source for the same building, layout and rent, and one of that source
  with a rent that is only similar.
\<close>

definition demo_stored :: db where
  "demo_stored = empty_db\<lparr>db_observations :=
     [demo_row 1 50 ''n1'' 10 ''h1'' 300000, demo_row 2 50 ''n1'' 20 ''h2'' 310000,
      demo_row 3 50 ''n1'' 15 ''h3'' 290000, demo_row 4 51 ''m1'' 12 ''h4'' 300000,
      demo_row 5 51 ''m2'' 13 ''h5'' 302000], db_next := 100\<rparr>"

definition demo_after :: "uuid list \<Rightarrow> db" where
  "demo_after is = run_all (\<lambda>i. process_observation i DiscoveryMethod.DIRECT 30) is demo_stored"

lemma demo_stored_inv: "canonical_inv demo_stored"
  by (simp add: demo_stored_def canonical_inv_def chain_inv_def match_keys_def link_inv_def
      facts_inv_def one_current_def one_active_def keys_unique_def empty_db_def map_filter_simps)

lemma run_all_inv: "canonical_inv s \<Longrightarrow> canonical_inv (run_all (\<lambda>i. process_observation i dm now) is s)"
  by (induction "is" arbitrary: s) (auto simp: run_tx_def process_inv split: sum.splits)

lemma demo_after_inv: "canonical_inv (demo_after is)"
  unfolding demo_after_def by (rule run_all_inv) (rule demo_stored_inv)

theorem normalization_total_witness:
  "\<exists>out s'. process_observation 1 DiscoveryMethod.DIRECT 30 demo_stored = Inr (out, s') \<and> canonical_inv s'"
proof -
  have row: "get_by so_id 1 (db_observations demo_stored) = Some (demo_row 1 50 ''n1'' 10 ''h1'' 300000)"
    by (simp add: demo_stored_def get_by_Cons demo_row_def)
  have "so_source_native_id (demo_row 1 50 ''n1'' 10 ''h1'' 300000) \<noteq> None"
    "address_key_ok (so_parsed_payload (demo_row 1 50 ''n1'' 10 ''h1'' 300000))"
    "storable (so_parsed_payload (demo_row 1 50 ''n1'' 10 ''h1'' 300000))" by code_simp+
  from normalization_total [OF demo_stored_inv row this] show ?thesis .
qed

text \<open>
  What a processed observation may do to the canonical tables: existing rows evolve, nothing is
  deleted, at most one listing and one link are added, and new candidates are only pending.
\<close>

definition canonical_progress :: "db \<Rightarrow> db \<Rightarrow> bool" where
  "canonical_progress s s' \<longleftrightarrow>
     manual_state s' = manual_state s \<and> upstream_state s' = upstream_state s \<and>
     (\<exists>ls new. db_listings s' = ls @ new \<and> list_all2 evolves (db_listings s) ls \<and> length new \<le> 1 \<and>
        (\<forall>l \<in> set new. cl_lifecycle_status l = LifecycleStatus.CANDIDATE \<and>
           \<not> cl_indoor_laundry_badge_eligible l)) \<and>
     (\<exists>ks new. db_links s' = ks @ new \<and> list_all2 refreshes (db_links s) ks \<and> length new \<le> 1) \<and>
     prefix (db_addresses s) (db_addresses s') \<and> prefix (db_buildings s) (db_buildings s') \<and>
     prefix (db_units s) (db_units s') \<and> prefix (db_events s) (db_events s') \<and>
     (\<exists>new. db_candidates s' = db_candidates s @ new \<and>
        (\<forall>c \<in> set new. dc_status c = DuplicateCandidateStatus.PENDING))"

lemma known_progress: "known_step s s' \<Longrightarrow> canonical_progress s s'"
proof -
  assume k: "known_step s s'"
  have l: "db_listings s' = db_listings s' @ [] \<and> list_all2 evolves (db_listings s) (db_listings s')"
    and n: "db_links s' = db_links s' @ [] \<and> list_all2 refreshes (db_links s) (db_links s')"
    and c: "db_candidates s' = db_candidates s @ []"
    using k by (simp_all add: known_step_def listings_evolve_def)
  show ?thesis
    unfolding canonical_progress_def
  proof (intro conjI)
    show "\<exists>ls new. db_listings s' = ls @ new \<and> list_all2 evolves (db_listings s) ls \<and> length new \<le> 1 \<and>
        (\<forall>l \<in> set new. cl_lifecycle_status l = LifecycleStatus.CANDIDATE \<and>
           \<not> cl_indoor_laundry_badge_eligible l)"
      using l by (intro exI [of _ "db_listings s'"] exI [of _ "[]"]) simp
    show "\<exists>ks new. db_links s' = ks @ new \<and> list_all2 refreshes (db_links s) ks \<and> length new \<le> 1"
      using n by (intro exI [of _ "db_links s'"] exI [of _ "[]"]) simp
    show "\<exists>new. db_candidates s' = db_candidates s @ new \<and>
        (\<forall>c \<in> set new. dc_status c = DuplicateCandidateStatus.PENDING)"
      using c by (intro exI [of _ "[]"]) simp
  qed (use k in \<open>auto simp: known_step_def\<close>)
qed

lemma created_state:
  assumes "create_listing row obs dm now b u t = Inr (out, s')"
  obtains listing where
    "listing = new_listing (db_next t) (bd_id b) (map_option un_id u) obs row"
    "db_listings s' = db_listings t @ [listing]" "db_links s' = db_links t @ [first_link row dm t]"
    "manual_state s' = manual_state t" "upstream_state s' = upstream_state t"
    "db_addresses s' = db_addresses t" "db_buildings s' = db_buildings t" "db_units s' = db_units t"
    "prefix (db_events t) (db_events s')"
    "\<exists>new. db_candidates s' = db_candidates t @ new \<and>
       (\<forall>c \<in> set new. is_proposal (db_listings s') b listing c)"
    "\<forall>other \<in> set (db_listings s'). must_propose b listing other \<longrightarrow>
       (\<exists>c \<in> set (db_candidates s'). same_candidate (min (cl_id listing) (cl_id other))
          (max (cl_id listing) (cl_id other)) c)"
    "no_classification out = ''NEW''" "no_canonical_listing_id out = Some (db_next t)"
    "no_listing_source_link_id out = Some (Suc (db_next t))"
  using assms
proof (cases rule: create_listing_cases)
  case (1 listing h evs)
  let ?s1 = "with_listing listing (first_link row dm t) t"
  note hist = history_frame [OF 1(2)] and idn = identity_stateD [OF history_frame(3) [OF 1(2)]]
  have gen: "candidate_step (is_proposal (db_listings h) b listing) h s'"
    by (rule generate_duplicates(1) [OF 1(3)])
  have must: "\<forall>other \<in> set (db_listings h). must_propose b listing other \<longrightarrow>
       (\<exists>c \<in> set (db_candidates s'). same_candidate (min (cl_id listing) (cl_id other))
          (max (cl_id listing) (cl_id other)) c)"
    using generate_duplicates(2) [OF 1(3)] by blast
  have ls: "db_listings s' = db_listings h" "db_listings h = db_listings t @ [listing]"
    using gen hist(4) by (simp_all add: candidate_step_def)
  show thesis
  proof (rule that [OF 1(1)])
    show "\<exists>new. db_candidates s' = db_candidates t @ new \<and>
        (\<forall>c \<in> set new. is_proposal (db_listings s') b listing c)"
      using gen idn(5) unfolding candidate_step_def ls(1) by simp
    show "prefix (db_events t) (db_events s')"
      using gen 1(2) by (auto simp: candidate_step_def history_step_def)
    show "\<forall>other \<in> set (db_listings s'). must_propose b listing other \<longrightarrow>
       (\<exists>c \<in> set (db_candidates s'). same_candidate (min (cl_id listing) (cl_id other))
          (max (cl_id listing) (cl_id other)) c)"
      using must unfolding ls(1) .
  qed (use gen hist idn ls 1(4) in \<open>simp_all add: candidate_step_def outcome_def\<close>)
qed

lemma created_parts:
  assumes "create_listing row obs dm now b u t = Inr (out, s')"
  shows "\<exists>listing. db_listings s' = db_listings t @ [listing]"
    "db_links s' = db_links t @ [first_link row dm t]" "manual_state s' = manual_state t"
    "no_canonical_listing_id out = Some (db_next t)"
    "no_listing_source_link_id out = Some (Suc (db_next t))"
  by (rule created_state [OF assms]; simp)+

lemma create_progress:
  assumes "link_inv s" "create_canonical row obs dm now s = Inr (out, s')"
  shows "canonical_progress s s'"
  using assms(2)
proof (cases rule: create_canonical_cases)
  case (attached b t l im ic)
  note st = attach_state [OF attached(4)] and ch = attached(1) [unfolded chain_step_def]
  have l: "l \<in> set (db_listings s)" using attached(3) ch by simp
  have evo: "list_all2 evolves (db_listings s) (db_listings s')"
    unfolding st(2) using touch_evolves [OF assms(1) l] ch by simp
  show ?thesis
    unfolding canonical_progress_def
  proof (intro conjI)
    show "\<exists>ls new. db_listings s' = ls @ new \<and> list_all2 evolves (db_listings s) ls \<and> length new \<le> 1 \<and>
        (\<forall>l \<in> set new. cl_lifecycle_status l = LifecycleStatus.CANDIDATE \<and>
           \<not> cl_indoor_laundry_badge_eligible l)"
      using evo by (intro exI [of _ "db_listings s'"] exI [of _ "[]"]) simp
    show "\<exists>ks new. db_links s' = ks @ new \<and> list_all2 refreshes (db_links s) ks \<and> length new \<le> 1"
      using st(1) ch by (intro exI [of _ "db_links s"] exI [of _ "[attached row l dm im ic t]"])
        (simp add: list_all2_refl)
    show "\<exists>new. db_candidates s' = db_candidates s @ new \<and>
        (\<forall>c \<in> set new. dc_status c = DuplicateCandidateStatus.PENDING)"
      using st ch by (intro exI [of _ "[]"]) simp
  qed (use st ch in simp_all)
next
  case (created b t u)
  note ch = created(1) [unfolded chain_step_def]
  from created(3) show ?thesis
  proof (rule created_state)
    fix listing
    assume st: "listing = new_listing (db_next t) (bd_id b) (map_option un_id u) obs row"
      "db_listings s' = db_listings t @ [listing]" "db_links s' = db_links t @ [first_link row dm t]"
      "manual_state s' = manual_state t" "upstream_state s' = upstream_state t"
      "db_addresses s' = db_addresses t" "db_buildings s' = db_buildings t" "db_units s' = db_units t"
      "prefix (db_events t) (db_events s')"
      and cand: "\<exists>new. db_candidates s' = db_candidates t @ new \<and>
        (\<forall>c \<in> set new. is_proposal (db_listings s') b listing c)"
    show "canonical_progress s s'"
      unfolding canonical_progress_def
    proof (intro conjI)
      show "\<exists>ls new. db_listings s' = ls @ new \<and> list_all2 evolves (db_listings s) ls \<and> length new \<le> 1 \<and>
          (\<forall>l \<in> set new. cl_lifecycle_status l = LifecycleStatus.CANDIDATE \<and>
             \<not> cl_indoor_laundry_badge_eligible l)"
        using st(1,2) ch by (intro exI [of _ "db_listings s"] exI [of _ "[listing]"])
          (simp add: list_all2_evolves_refl new_listing_def)
      show "\<exists>ks new. db_links s' = ks @ new \<and> list_all2 refreshes (db_links s) ks \<and> length new \<le> 1"
        using st(3) ch by (intro exI [of _ "db_links s"] exI [of _ "[first_link row dm t]"])
          (simp add: list_all2_refl)
      show "\<exists>new. db_candidates s' = db_candidates s @ new \<and>
          (\<forall>c \<in> set new. dc_status c = DuplicateCandidateStatus.PENDING)"
        using cand ch by (auto simp: is_proposal_def)
    qed (use st(4-9) ch in simp_all)
  qed
qed

lemma process_progress:
  assumes "link_inv s" "process_observation i dm now s = Inr (out, s')"
  shows "canonical_progress s s'"
  using assms(2)
proof (cases rule: process_cases)
  case (unresolved row)
  then show ?thesis using known_progress by simp
next
  case (known row link)
  show ?thesis
    using update_existing_step [OF assms(1) _ known(3)] find_link_SomeD [OF known(2)] known_progress by blast
next
  case (new row)
  show ?thesis by (rule create_progress [OF assms(1) new(3)])
qed

lemma touch_frame:
  "manual_state (touch_freshness link listing row s) = manual_state s"
  "db_observations (touch_freshness link listing row s) = db_observations s"
  by (simp_all add: touch_freshness_def frame_defs update_listing_def)

lemma process_keeps_manual:
  assumes "process_observation i dm now s = Inr (out, s')"
  shows "manual_state s' = manual_state s"
  using assms
proof (cases rule: process_cases)
  case (known row link)
  from known(3) show ?thesis
  proof (cases rule: update_existing_cases)
    case (changed listing evs)
    then show ?thesis using apply_evidence_step [OF changed(3)] touch_frame by (simp add: field_step_def)
  qed (simp_all add: touch_frame)
next
  case (new row)
  from new(3) show ?thesis
  proof (cases rule: create_canonical_cases)
    case (attached b t l im ic)
    then show ?thesis using attach_state(4) [OF attached(4)] by (simp add: chain_step_def)
  next
    case (created b t u)
    then show ?thesis using created_parts(3) [OF created(3)] by (simp add: chain_step_def)
  qed
qed simp

interpretation normalize: automatic_step "\<lambda>(i, dm, now). process_observation i dm now"
  by unfold_locales (auto dest: process_keeps_manual)

text \<open>
  C8. Processing only ever moves forward and never decides for people: selections, presets,
  shortlists, overrides, merges and the audit log stay, no row of any table is deleted, an existing
  listing keeps its identity and lifecycle (so none is inactivated or merged) and never gains the
  laundry badge, a link keeps its status, at most one CANDIDATE listing and one link are added, the
  event log, the assertions and the review issues are append-only, a resolution is at most marked
  superseded, every new duplicate candidate is PENDING, and the tables that normalization does not
  write are as before.
\<close>
theorem normalization_progress:
  assumes "canonical_inv s" "process_observation i dm now s = Inr (out, s')"
  shows "canonical_progress s s' \<and> evidence_grows s s'"
  using process_progress [OF _ assms(2)] process_observation_grows [OF assms(2)] assms(1)
  unfolding canonical_inv_def by blast

lemma demo_first:
  "no_classification (case process_observation 1 DiscoveryMethod.DIRECT 30 demo_stored of
     Inr (out, _) \<Rightarrow> out | Inl _ \<Rightarrow> outcome ''ERROR'' None None []) = ''NEW''"
  by code_simp

lemma demo_first_run:
  obtains out where "process_observation 1 DiscoveryMethod.DIRECT 30 demo_stored = Inr (out, demo_after [1])"
    "no_classification out = ''NEW''"
proof (cases "process_observation 1 DiscoveryMethod.DIRECT 30 demo_stored")
  case (Inl e)
  then show thesis using demo_first by (simp add: outcome_def)
next
  case (Inr x)
  then show thesis using demo_first that by (cases x) (simp add: demo_after_def run_tx_def)
qed

theorem normalization_progress_witness:
  "canonical_progress demo_stored (demo_after [1]) \<and> evidence_grows demo_stored (demo_after [1])"
  by (rule demo_first_run) (rule normalization_progress [OF demo_stored_inv])

subsection \<open>Replays\<close>

lemma find_link_appended:
  assumes "find_link row s = Inr None" "db_links s' = db_links s @ [k]" "link_matches row k"
  shows "find_link row s' = Inr (Some k)"
proof -
  have "filter (link_matches row) (db_links s) = []"
    using find_link_NoneD [OF assms(1)] by (simp add: filter_empty_conv)
  then show ?thesis using assms(2,3) by (simp add: find_link_def)
qed

lemma matches_frozen: "frozen_link k' = frozen_link k \<Longrightarrow> link_matches row k' = link_matches row k"
  using frozen_link_fields [of k' k] by (simp add: link_matches_def split: option.splits)

lemma find_link_update:
  assumes "find_link row s = Inr (Some link)"
    and "db_links s' = update_where (\<lambda>k. lk_id k = lk_id link) f (db_links s)"
    and "\<And>k. frozen_link (f k) = frozen_link k"
  shows "find_link row s' = Inr (Some (f link))"
proof -
  have one: "filter (link_matches row) (db_links s) = [link]"
    using assms(1) by (simp add: find_link_def scalar_one_or_none_SomeD)
  have "filter (link_matches row) (update_where (\<lambda>k. lk_id k = lk_id link) f ks) =
      update_where (\<lambda>k. lk_id k = lk_id link) f (filter (link_matches row) ks)" for ks
    by (induction ks) (auto simp: matches_frozen [OF assms(3)])
  then show ?thesis using one assms(2) by (simp add: find_link_def)
qed

lemma process_known:
  assumes "get_by so_id i (db_observations s) = Some row"
    and "so_parse_status row \<in> {ParseStatus.VALID, ParseStatus.PARTIAL}" "find_link row s = Inr (Some link)"
  shows "process_observation i dm now s = update_existing row (so_parsed_payload row) link now s"
  using assms by (auto simp: process_observation_def)

lemma replay_unchanged:
  assumes "canonical_inv s" "find_link row s = Inr (Some link)" "lk_latest_observation_id link = so_id row"
    and "get_by so_id i (db_observations s) = Some row"
    and "so_parse_status row \<in> {ParseStatus.VALID, ParseStatus.PARTIAL}"
  shows "process_observation i dm now s = Inr (link_outcome link ''UNCHANGED'' [], s)"
proof -
  have "lk_canonical_listing_id link \<in> cl_id ` set (db_listings s)"
    using find_link_SomeD [OF assms(2)] assms(1) by (auto simp: canonical_inv_def link_inv_def)
  then obtain listing where "get_by cl_id (lk_canonical_listing_id link) (db_listings s) = Some listing"
    by (metis get_by_None_iff not_None_eq)
  from update_existing_unfold [OF this] show ?thesis
    using process_known [OF assms(4,5,2)] assms(3) by simp
qed

lemma upstream_observations: "upstream_state s' = upstream_state s \<Longrightarrow> db_observations s' = db_observations s"
  by (simp add: upstream_state_def)

text \<open>The observation is at least as recent as what its link has already seen.\<close>

definition not_stale :: "uuid \<Rightarrow> db \<Rightarrow> bool" where
  "not_stale i s \<longleftrightarrow> (case get_by so_id i (db_observations s) of None \<Rightarrow> True | Some row \<Rightarrow>
     (case find_link row s of Inr (Some link) \<Rightarrow> lk_last_seen_at link \<le> so_observed_at row | _ \<Rightarrow> True))"

lemma known_then_latest:
  assumes "find_link row s = Inr (Some link)" "lk_last_seen_at link \<le> so_observed_at row"
    and "update_existing row obs link now s = Inr (out, s')"
  shows "\<exists>link'. find_link row s' = Inr (Some link') \<and> lk_latest_observation_id link' = so_id row \<and>
    lk_id link' = lk_id link \<and> lk_canonical_listing_id link' = lk_canonical_listing_id link"
  using assms(3)
proof (cases rule: update_existing_cases)
  case (replay listing)
  then show ?thesis using assms(1) by auto
next
  case (fresh listing)
  have "db_links s' = update_where (\<lambda>k. lk_id k = lk_id link) (\<lambda>k. k\<lparr>lk_last_seen_at := so_observed_at row,
      lk_latest_observation_id := so_id row\<rparr>) (db_links s)"
    using assms(2) fresh(3) by (simp add: touch_freshness_def update_listing_def)
  from find_link_update [OF assms(1) this] show ?thesis by (simp add: frozen_link_def)
next
  case (changed listing evs)
  have "db_links s' = db_links (touch_freshness link listing row s)"
    using apply_evidence_step [OF changed(3)] identity_stateD(4) unfolding field_step_def by blast
  also have "\<dots> = update_where (\<lambda>k. lk_id k = lk_id link) (\<lambda>k. k\<lparr>lk_last_seen_at := so_observed_at row,
      lk_latest_observation_id := so_id row\<rparr>) (db_links s)"
    using assms(2) by (simp add: touch_freshness_def update_listing_def)
  finally show ?thesis using find_link_update [OF assms(1)] by (simp add: frozen_link_def)
qed

text \<open>
  C9. Replays are without effect: processing an observation again, right after it was processed, reports UNCHANGED for the same listing and link, emits no event and leaves the
  database exactly as it is, whatever the discovery method and the clock of the second run.  Two cases are
  left out: an observation that was not attached to any listing (UNRESOLVED), and a stale one, older
  than the last sighting of its link, for which the claim fails.
\<close>
theorem replay_is_noop:
  assumes "canonical_inv s" "process_observation i dm now s = Inr (out, s')"
    and "no_classification out \<noteq> ''UNRESOLVED''" "not_stale i s"
  shows "process_observation i dm' now' s' = Inr (outcome ''UNCHANGED''
    (no_canonical_listing_id out) (no_listing_source_link_id out) [], s')"
proof -
  have inv: "canonical_inv s'" by (rule process_inv [OF assms(1,2)])
  have obs: "db_observations s' = db_observations s"
    using process_progress [OF _ assms(2)] assms(1) upstream_observations
    unfolding canonical_inv_def canonical_progress_def by blast
  from assms(2) show ?thesis
  proof (cases rule: process_cases)
    case (unresolved row)
    then show ?thesis using assms(3) by (simp add: outcome_def)
  next
    case (known row link)
    have "lk_last_seen_at link \<le> so_observed_at row"
      using assms(4) known(1,2) by (simp add: not_stale_def)
    from known_then_latest [OF known(2) this known(3)] obtain link' where
      l: "find_link row s' = Inr (Some link')" "lk_latest_observation_id link' = so_id row"
      "lk_id link' = lk_id link" "lk_canonical_listing_id link' = lk_canonical_listing_id link" by blast
    have "no_canonical_listing_id out = Some (lk_canonical_listing_id link) \<and>
        no_listing_source_link_id out = Some (lk_id link)"
      using known(3) by (cases rule: update_existing_cases) (simp_all add: link_outcome_def outcome_def)
    then show ?thesis
      using replay_unchanged [OF inv l(1,2) _ known(4)] known(1) obs l(3,4) by (simp add: link_outcome_def)
  next
    case (new row)
    obtain k where k: "find_link row s' = Inr (Some k)" "lk_latest_observation_id k = so_id row"
        "no_canonical_listing_id out = Some (lk_canonical_listing_id k)"
        "no_listing_source_link_id out = Some (lk_id k)"
      using new(3)
    proof (cases rule: create_canonical_cases)
      case (attached b t l im ic)
      have "db_links s' = db_links s @ [attached row l dm im ic t]"
        using attach_state(1) [OF attached(4)] attached(1) by (simp add: chain_step_def)
      moreover have "link_matches row (attached row l dm im ic t)"
        by (simp add: attached_def new_link_def link_matches_def split: option.split)
      ultimately have "find_link row s' = Inr (Some (attached row l dm im ic t))"
        by (rule find_link_appended [OF new(2)])
      then show thesis
        by (rule that) (simp_all add: attach_state(13) [OF attached(4)] attached_def new_link_def outcome_def)
    next
      case (created b t u)
      have "db_links s' = db_links s @ [first_link row dm t]"
        using created_parts(2) [OF created(3)] created(1) by (simp add: chain_step_def)
      moreover have "link_matches row (first_link row dm t)"
        by (simp add: first_link_def new_link_def link_matches_def split: option.split)
      ultimately have "find_link row s' = Inr (Some (first_link row dm t))"
        by (rule find_link_appended [OF new(2)])
      then show thesis
        by (rule that) (simp_all add: created_parts(4,5) [OF created(3)] first_link_def new_link_def)
    qed
    from replay_unchanged [OF inv k(1,2) _ new(4)] show ?thesis
      using new(1) obs k(3,4) by (simp add: link_outcome_def)
  qed
qed

theorem replay_is_noop_witness:
  "\<exists>out. process_observation 1 DiscoveryMethod.SEARCH_INDEX 99 (demo_after [1]) = Inr (out, demo_after [1]) \<and>
     no_classification out = ''UNCHANGED''"
proof (rule demo_first_run)
  fix out assume o: "process_observation 1 DiscoveryMethod.DIRECT 30 demo_stored = Inr (out, demo_after [1])"
    "no_classification out = ''NEW''"
  have "not_stale 1 demo_stored" by code_simp
  moreover have "no_classification out \<noteq> ''UNRESOLVED''" using o(2) by simp
  ultimately show ?thesis
    using replay_is_noop [OF demo_stored_inv o(1), of DiscoveryMethod.SEARCH_INDEX 99] by (simp add: outcome_def)
qed

subsection \<open>Precedence of human overrides\<close>

definition column :: "(canonical_listing \<Rightarrow> 'c) \<Rightarrow> uuid \<Rightarrow> db \<Rightarrow> 'c option" where
  "column g i s = map_option g (get_by cl_id i (db_listings s))"

lemma column_same: "db_listings s' = db_listings s \<Longrightarrow> column g i s' = column g i s"
  by (simp add: column_def)

lemma column_update_listing:
  assumes "\<And>l. cl_id (f l) = cl_id l" "j \<noteq> i \<or> (\<forall>l. g (f l) = g l)"
  shows "column g i (update_listing j f s) = column g i s"
proof -
  have "get_by cl_id i (update_where (\<lambda>r. cl_id r = j) f (db_listings s)) =
      map_option (\<lambda>r. if cl_id r = j then f r else r) (get_by cl_id i (db_listings s))"
    by (rule get_by_update_where) (simp add: assms(1))
  moreover have "cl_id r = i" if "get_by cl_id i (db_listings s) = Some r" for r
    using get_by_SomeD [OF that] by simp
  ultimately show ?thesis
    using assms(2) by (cases "get_by cl_id i (db_listings s)") (auto simp: column_def update_listing_def)
qed

text \<open>An active override of a field of the listing.\<close>

definition overridden :: "uuid \<Rightarrow> string \<Rightarrow> db \<Rightarrow> bool" where
  "overridden i key s \<longleftrightarrow> (\<exists>r \<in> set (db_overrides s). is_active_override FactEntityType.LISTING i key r)"

lemma overridden_cong: "manual_state s' = manual_state s \<Longrightarrow> overridden i key s' = overridden i key s"
  by (simp add: manual_state_def overridden_def)

lemma field_overridden: "field_step j s s' \<Longrightarrow> overridden i key s' = overridden i key s"
  by (rule overridden_cong) (simp add: field_step_def)

lemma apply_change_column:
  assumes "apply_change j row k ty old new fits f s = Inr (evs, s')"
    and "\<And>l. cl_id (f l) = cl_id l" "j = i \<Longrightarrow> \<not> overridden i k s \<Longrightarrow> \<forall>l. g (f l) = g l"
  shows "column g i s' = column g i s"
  using assms(1)
proof (cases rule: apply_change_cases)
  case (blocked ov)
  then show ?thesis by (intro column_same) (rule history_frame(4))
next
  case (applied t)
  have "column g i t = column g i s"
    by (rule column_same) (rule history_frame(4) [OF emit_event_history [OF applied(2)]])
  moreover have "j \<noteq> i \<or> (\<forall>l. g (f l) = g l)"
    using assms(3) applied(1) by (auto simp: overridden_def)
  ultimately show ?thesis
    unfolding applied(3) using column_update_listing [of f j i g t] assms(2) by simp
qed

lemma update_rent_column:
  assumes "update_rent l row obs s = Inr (evs, s')"
    and "overridden i ''monthly_rent_minor'' s \<or> (\<forall>r x. g (r\<lparr>cl_monthly_rent_minor := x\<rparr>) = g r)"
  shows "column g i s' = column g i s"
  using assms
  by (auto simp: update_rent_def intro: apply_change_column split: option.splits if_splits)

lemma update_availability_column:
  assumes "update_availability l row obs s = Inr (evs, s')"
    and "overridden i ''availability_status'' s \<or> (\<forall>r x. g (r\<lparr>cl_availability_status := x\<rparr>) = g r)"
  shows "column g i s' = column g i s"
  using assms
  by (auto simp: update_availability_def Let_def intro: apply_change_column split: if_splits)

lemma update_laundry_column:
  assumes "update_laundry l row obs s = Inr (evs, s')"
    and "overridden i ''laundry_type'' s \<or>
      (\<forall>r x b. g (r\<lparr>cl_laundry_type := x, cl_indoor_laundry_badge_eligible := b\<rparr>) = g r)"
  shows "column g i s' = column g i s"
  using assms
  by (auto simp: update_laundry_def Let_def intro: apply_change_column split: if_splits)

text \<open>
  A column survives the field updates when its own update is blocked and the others do not write it.
\<close>

lemma apply_evidence_column:
  assumes "apply_evidence listing row obs now s = Inr (evs, s')"
    and "overridden i ''monthly_rent_minor'' s \<or> (\<forall>r x. g (r\<lparr>cl_monthly_rent_minor := x\<rparr>) = g r)"
    and "overridden i ''availability_status'' s \<or> (\<forall>r x. g (r\<lparr>cl_availability_status := x\<rparr>) = g r)"
    and "overridden i ''laundry_type'' s \<or>
      (\<forall>r x b. g (r\<lparr>cl_laundry_type := x, cl_indoor_laundry_badge_eligible := b\<rparr>) = g r)"
    and "\<And>r x. g (r\<lparr>cl_last_material_change_at := x\<rparr>) = g r"
  shows "column g i s' = column g i s"
  using assms(1)
proof (cases rule: apply_evidence_cases)
  case (1 s2 e1 s3 e2 s4 e3 s5)
  have h: "history_step s s2"
    using record_facts_history 1(1) unfolding record_listing_facts_def by blast
  note f1 = history_field_step [OF h] and f2 = update_rent_step [OF 1(2)]
    and f3 = update_availability_step [OF 1(3)]
  have "column g i s2 = column g i s" by (rule column_same) (rule history_frame(4) [OF h])
  moreover have "column g i s3 = column g i s2"
    by (rule update_rent_column [OF 1(2)]) (use assms(2) field_overridden [OF f1] in simp)
  moreover have "column g i s4 = column g i s3"
    by (rule update_availability_column [OF 1(3)])
      (use assms(3) field_overridden [OF f1] field_overridden [OF f2] in simp)
  moreover have "column g i s5 = column g i s4"
    by (rule update_laundry_column [OF 1(4)])
      (use assms(4) field_overridden [OF f1] field_overridden [OF f2] field_overridden [OF f3] in simp)
  ultimately show ?thesis
    unfolding 1(6) using assms(5) by (simp add: column_update_listing)
qed

lemma touch_column:
  assumes "\<And>r x. g (r\<lparr>cl_last_seen_at := x\<rparr>) = g r"
  shows "column g i (touch_freshness link listing row s) = column g i s"
proof -
  have "column g i (if b then s\<lparr>db_links := ks\<rparr> else s) = column g i s" for b ks
    by (simp add: column_def)
  then show ?thesis
    unfolding touch_freshness_def using assms by (subst column_update_listing) simp_all
qed

lemma get_by_append_old: "i \<in> f ` set xs \<Longrightarrow> get_by f i (xs @ ys) = get_by f i xs"
  by (auto simp: get_by_append split: option.split) (metis get_by_None_iff image_eqI)

lemma create_column:
  assumes "create_canonical row obs dm now s = Inr (out, s')" "i \<in> cl_id ` set (db_listings s)"
    and "\<And>r x. g (r\<lparr>cl_last_seen_at := x\<rparr>) = g r"
  shows "column g i s' = column g i s"
  using assms(1)
proof (cases rule: create_canonical_cases)
  case (attached b t l im ic)
  have "column g i s' = column g i (update_listing (cl_id l)
      (\<lambda>r. r\<lparr>cl_last_seen_at := max (cl_last_seen_at l) (so_observed_at row)\<rparr>) s)"
    using attach_state(2) [OF attached(4)] attached(1)
    by (simp add: column_def update_listing_def chain_step_def)
  then show ?thesis using assms(3) by (simp add: column_update_listing)
next
  case (created b t u)
  then obtain listing where "db_listings s' = db_listings s @ [listing]"
    using created_parts(1) [OF created(3)] by (auto simp: chain_step_def)
  then show ?thesis using assms(2) by (simp add: column_def get_by_append_old)
qed

lemma process_column:
  assumes "process_observation j dm now s = Inr (out, s')" "i \<in> cl_id ` set (db_listings s)"
    and "overridden i ''monthly_rent_minor'' s \<or> (\<forall>r x. g (r\<lparr>cl_monthly_rent_minor := x\<rparr>) = g r)"
    and "overridden i ''availability_status'' s \<or> (\<forall>r x. g (r\<lparr>cl_availability_status := x\<rparr>) = g r)"
    and "overridden i ''laundry_type'' s \<or>
      (\<forall>r x b. g (r\<lparr>cl_laundry_type := x, cl_indoor_laundry_badge_eligible := b\<rparr>) = g r)"
    and "\<And>r x. g (r\<lparr>cl_last_material_change_at := x\<rparr>) = g r" "\<And>r x. g (r\<lparr>cl_last_seen_at := x\<rparr>) = g r"
  shows "column g i s' = column g i s"
  using assms(1)
proof (cases rule: process_cases)
  case (known row link)
  from known(3) show ?thesis
  proof (cases rule: update_existing_cases)
    case (fresh listing)
    show ?thesis unfolding fresh(3) by (rule touch_column) (rule assms(7))
  next
    case (changed listing evs)
    have "overridden i k (touch_freshness link listing row s) = overridden i k s" for k
      by (rule overridden_cong) (rule touch_frame)
    then have "column g i s' = column g i (touch_freshness link listing row s)"
      by (intro apply_evidence_column [OF changed(3)]) (use assms(3-6) in simp_all)
    moreover have "column g i (touch_freshness link listing row s) = column g i s"
      by (rule touch_column) (rule assms(7))
    ultimately show ?thesis by simp
  qed simp
next
  case (new row)
  show ?thesis by (rule create_column [OF new(3) assms(2,7)])
qed simp

text \<open>
  C10. People outrank sources: while a human override of a listing's rent, availability or laundry is
  active, no observation whatever, of this listing or another, changes that field of the listing.
\<close>
theorem overrides_outrank_sources:
  assumes "process_observation j dm now s = Inr (out, s')" "i \<in> cl_id ` set (db_listings s)"
  shows "(overridden i ''monthly_rent_minor'' s \<longrightarrow>
      column cl_monthly_rent_minor i s' = column cl_monthly_rent_minor i s) \<and>
    (overridden i ''availability_status'' s \<longrightarrow>
      column cl_availability_status i s' = column cl_availability_status i s) \<and>
    (overridden i ''laundry_type'' s \<longrightarrow>
      column cl_laundry_type i s' = column cl_laundry_type i s \<and>
      column cl_indoor_laundry_badge_eligible i s' = column cl_indoor_laundry_badge_eligible i s)"
  by (auto intro!: process_column [OF assms])

text \<open>The first listing with its rent fixed by a person, before the second observation.\<close>

definition demo_overridden :: db where
  "demo_overridden = (demo_after [1])\<lparr>db_overrides := [demo_override\<lparr>ho_entity_id := 102\<rparr>]\<rparr>"

theorem overrides_outrank_sources_witness:
  "\<exists>out s'. process_observation 2 DiscoveryMethod.DIRECT 30 demo_overridden = Inr (out, s') \<and>
     column cl_monthly_rent_minor 102 s' = Some (Some 300000)"
proof -
  let ?r = "process_observation 2 DiscoveryMethod.DIRECT 30 demo_overridden"
  have ok: "(case ?r of Inr _ \<Rightarrow> True | Inl _ \<Rightarrow> False)" by code_simp
  then obtain out s' where r: "?r = Inr (out, s')" by (auto split: sum.splits)
  have col: "column cl_monthly_rent_minor 102 demo_overridden = Some (Some 300000)" by code_simp
  then have "102 \<in> cl_id ` set (db_listings demo_overridden)"
    by (metis column_def get_by_None_iff option.map_disc_iff option.distinct(1))
  moreover have "overridden 102 ''monthly_rent_minor'' demo_overridden"
    by (simp add: demo_overridden_def overridden_def is_active_override_def demo_override_def)
  ultimately have "column cl_monthly_rent_minor 102 s' = Some (Some 300000)"
    using conjunct1 [OF overrides_outrank_sources [OF r]] col by metis
  with r show ?thesis by blast
qed

subsection \<open>Identity decisions\<close>

text \<open>
  C11. A source attaches to an existing listing only on the documented evidence: either the building
  at the observed address has a unit with the same unit key whose unmerged listing it joins (HIGH
  confidence), or, without any unit label, the listing is the only one in the building with the same
  usable layout and the identical rent, without unit, neither merged nor inactive, and not linked to
  this source (MEDIUM).  Exactly one ACTIVE link is added, and no listing.
\<close>
theorem attach_only_on_evidence:
  assumes "process_observation i dm now s = Inr (out, s')" "no_classification out = ''MATCHED_EXISTING''"
  shows "\<exists>row b l k. get_by so_id i (db_observations s) = Some row \<and> find_link row s = Inr None \<and>
    located row (so_parsed_payload row) b s' \<and> l \<in> set (db_listings s) \<and>
    db_links s' = db_links s @ [k] \<and> lk_canonical_listing_id k = cl_id l \<and>
    lk_source_id k = so_source_id row \<and> lk_link_status k = LinkStatus.ACTIVE \<and>
    length (db_listings s') = length (db_listings s) \<and>
    no_canonical_listing_id out = Some (cl_id l) \<and>
    (lk_identity_method k = IdentityMethod.EXACT_ADDRESS_AND_UNIT \<and>
       lk_identity_confidence k = IdentityConfidence.HIGH \<and> unit_evidence (so_parsed_payload row) b s' l \<or>
     lk_identity_method k = IdentityMethod.STRONG_MULTI_FIELD \<and>
       lk_identity_confidence k = IdentityConfidence.MEDIUM \<and>
       strong_evidence row (so_parsed_payload row) b s l)"
  using assms(1)
proof (cases rule: process_cases)
  case (known row link)
  have "no_classification out \<noteq> ''MATCHED_EXISTING''"
    using known(3) by (cases rule: update_existing_cases) (simp_all add: link_outcome_def outcome_def)
  then show ?thesis using assms(2) by simp
next
  case (new row)
  let ?obs = "so_parsed_payload row"
  from new(3) show ?thesis
  proof (cases rule: create_canonical_cases)
    case (attached b t l im ic)
    let ?k = "attached row l dm im ic t"
    note ch = attached(1) [unfolded chain_step_def] and st = attach_state [OF attached(4)]
    have "strong_match b lay rent row t = strong_match b lay rent row s" for lay rent
      using ch by (simp add: strong_match_def same_source_link_def fun_eq_iff)
    then have "strong_evidence row ?obs b t l \<Longrightarrow> strong_evidence row ?obs b s l"
      using ch by (simp add: strong_evidence_def)
    moreover have "unit_evidence ?obs b t l \<Longrightarrow> unit_evidence ?obs b s' l"
      using st(12) by (simp add: unit_evidence_def)
    ultimately have ev: "im = IdentityMethod.EXACT_ADDRESS_AND_UNIT \<and> ic = IdentityConfidence.HIGH \<and>
          unit_evidence ?obs b s' l \<or>
        im = IdentityMethod.STRONG_MULTI_FIELD \<and> ic = IdentityConfidence.MEDIUM \<and>
          strong_evidence row ?obs b s l"
      using attached(5) by blast
    have "located row ?obs b s'" using attached(2) st(10,11) by (simp add: located_def)
    moreover have "l \<in> set (db_listings s)" using attached(3) ch by simp
    moreover have "db_links s' = db_links s @ [?k]" "length (db_listings s') = length (db_listings s)"
      using st(1,2) ch by simp_all
    moreover have "no_canonical_listing_id out = Some (cl_id l)" using st(13) by (simp add: outcome_def)
    moreover have "lk_canonical_listing_id ?k = cl_id l" "lk_source_id ?k = so_source_id row"
      "lk_link_status ?k = LinkStatus.ACTIVE" "lk_identity_method ?k = im" "lk_identity_confidence ?k = ic"
      by (simp_all add: attached_def new_link_def)
    ultimately show ?thesis using new(1,2) ev by blast
  next
    case (created b t u)
    from created(3) have "no_classification out = ''NEW''" by (rule created_state)
    then show ?thesis using assms(2) by simp
  qed
qed (use assms(2) in \<open>simp add: outcome_def\<close>)

theorem attach_only_on_evidence_witness:
  "\<exists>out s' k. process_observation 4 DiscoveryMethod.DIRECT 30 (demo_after [1]) = Inr (out, s') \<and>
     db_links s' = db_links (demo_after [1]) @ [k] \<and> no_canonical_listing_id out = Some (lk_canonical_listing_id k)"
proof -
  let ?r = "process_observation 4 DiscoveryMethod.DIRECT 30 (demo_after [1])"
  have ok: "(case ?r of Inr (out, _) \<Rightarrow> no_classification out = ''MATCHED_EXISTING'' | Inl _ \<Rightarrow> False)"
    by code_simp
  then obtain out s' where r: "?r = Inr (out, s')" "no_classification out = ''MATCHED_EXISTING''"
    by (auto split: sum.splits)
  from attach_only_on_evidence [OF r] obtain k where "db_links s' = db_links (demo_after [1]) @ [k]"
    "no_canonical_listing_id out = Some (lk_canonical_listing_id k)" by metis
  with r(1) show ?thesis by blast
qed

text \<open>
  C12. Weak similarity never merges, it is only proposed, and never missed: when an observation creates
  a listing, the candidates added are pending pairs of it with a listing of its own building and
  layout whose rent is within the tolerance, every such listing has a candidate with it afterwards,
  and no merge is recorded.
\<close>
theorem duplicates_only_proposed:
  assumes "process_observation i dm now s = Inr (out, s')" "no_classification out = ''NEW''"
  shows "\<exists>listing b new. db_listings s' = db_listings s @ [listing] \<and>
    b \<in> set (db_buildings s') \<and> bd_id b = cl_building_id listing \<and>
    no_canonical_listing_id out = Some (cl_id listing) \<and>
    db_candidates s' = db_candidates s @ new \<and>
    list_all (is_proposal (db_listings s') b listing) new \<and>
    list_all (\<lambda>other. \<not> must_propose b listing other \<or>
       list_ex (same_candidate (min (cl_id listing) (cl_id other)) (max (cl_id listing) (cl_id other)))
         (db_candidates s')) (db_listings s') \<and>
    db_merges s' = db_merges s"
proof -
  have merges: "db_merges s' = db_merges s"
    using process_keeps_manual [OF assms(1)] by (simp add: manual_state_def)
  from assms(1) show ?thesis
  proof (cases rule: process_cases)
    case (known row link)
    have "no_classification out \<noteq> ''NEW''"
      using known(3) by (cases rule: update_existing_cases) (simp_all add: link_outcome_def outcome_def)
    then show ?thesis using assms(2) by simp
  next
    case (new row)
    from new(3) show ?thesis
    proof (cases rule: create_canonical_cases)
      case (attached b t l im ic)
      then show ?thesis using assms(2) attach_state(13) [OF attached(4)] by (simp add: outcome_def)
    next
      case (created b t u)
      note ch = created(1) [unfolded chain_step_def]
      have bt: "b \<in> set (db_buildings t)" using created(2) by (auto simp: located_def)
      from created(3) show ?thesis
      proof (rule created_state)
        fix listing
        assume l: "listing = new_listing (db_next t) (bd_id b) (map_option un_id u) (so_parsed_payload row) row"
          and bs: "db_buildings s' = db_buildings t"
          and ls: "db_listings s' = db_listings t @ [listing]"
          and cs: "\<exists>new. db_candidates s' = db_candidates t @ new \<and>
            (\<forall>c \<in> set new. is_proposal (db_listings s') b listing c)"
          and must: "\<forall>other \<in> set (db_listings s'). must_propose b listing other \<longrightarrow>
            (\<exists>c \<in> set (db_candidates s'). same_candidate (min (cl_id listing) (cl_id other))
              (max (cl_id listing) (cl_id other)) c)"
          and out: "no_canonical_listing_id out = Some (db_next t)"
        obtain new where n: "db_candidates s' = db_candidates t @ new"
          "\<forall>c \<in> set new. is_proposal (db_listings s') b listing c" using cs by blast
        show ?thesis
        proof (intro exI conjI)
          show "db_listings s' = db_listings s @ [listing]" using ls ch by simp
          show "b \<in> set (db_buildings s')" using bt bs by simp
          show "bd_id b = cl_building_id listing" using l by (simp add: new_listing_def)
          show "no_canonical_listing_id out = Some (cl_id listing)" using out l by (simp add: new_listing_def)
          show "db_candidates s' = db_candidates s @ new" using n(1) ch by simp
          show "list_all (is_proposal (db_listings s') b listing) new" using n(2) by (simp add: list_all_iff)
          show "list_all (\<lambda>other. \<not> must_propose b listing other \<or>
             list_ex (same_candidate (min (cl_id listing) (cl_id other)) (max (cl_id listing) (cl_id other)))
               (db_candidates s')) (db_listings s')"
            using must by (auto simp: list_all_iff list_ex_iff)
          show "db_merges s' = db_merges s" by (rule merges)
        qed
      qed
    qed
  qed (use assms(2) in \<open>simp add: outcome_def\<close>)
qed

text \<open>Only the building's identifier matters, so any building row with it can be used to compute.\<close>

lemma must_propose_building:
  "bd_id b = bd_id b' \<Longrightarrow> must_propose b listing other = must_propose b' listing other"
  by (simp add: must_propose_def comparable_listing_def)

theorem duplicates_only_proposed_witness:
  "\<exists>out s' x y. process_observation 5 DiscoveryMethod.DIRECT 30 (demo_after [1]) = Inr (out, s') \<and>
     db_listings s' = [y, x] \<and> cl_monthly_rent_minor x = Some 302000 \<and>
     cl_monthly_rent_minor y = Some 300000 \<and>
     list_ex (same_candidate (min (cl_id x) (cl_id y)) (max (cl_id x) (cl_id y))) (db_candidates s')"
proof -
  let ?r = "process_observation 5 DiscoveryMethod.DIRECT 30 (demo_after [1])"
  have ok: "(case ?r of Inr (out, s') \<Rightarrow> no_classification out = ''NEW'' \<and> (case db_listings s' of
      [y, x] \<Rightarrow> cl_monthly_rent_minor x = Some 302000 \<and> cl_monthly_rent_minor y = Some 300000 \<and>
        must_propose (new_building (cl_building_id x) 0) x y | _ \<Rightarrow> False) | Inl _ \<Rightarrow> False)"
    by code_simp
  then obtain out s' x y where r: "?r = Inr (out, s')" "no_classification out = ''NEW''"
    and ls: "db_listings s' = [y, x]" and rents: "cl_monthly_rent_minor x = Some 302000"
      "cl_monthly_rent_minor y = Some 300000"
    and must: "must_propose (new_building (cl_building_id x) 0) x y"
    by (auto split: sum.splits prod.splits list.splits)
  from duplicates_only_proposed [OF r] obtain listing b where l: "db_listings s' = db_listings (demo_after [1]) @ [listing]"
    and b: "bd_id b = cl_building_id listing"
    and all: "list_all (\<lambda>other. \<not> must_propose b listing other \<or>
       list_ex (same_candidate (min (cl_id listing) (cl_id other)) (max (cl_id listing) (cl_id other)))
         (db_candidates s')) (db_listings s')" by blast
  have x: "listing = x" using l ls by (metis append_butlast_last_id last_snoc last.simps list.distinct(1))
  have "must_propose b x y"
    using must must_propose_building [of b "new_building (cl_building_id x) 0"] b x by (simp add: new_building_def)
  with all x ls have "list_ex (same_candidate (min (cl_id x) (cl_id y)) (max (cl_id x) (cl_id y))) (db_candidates s')"
    by simp
  with r(1) ls rents show ?thesis by (intro exI conjI)
qed

subsection \<open>The order of processing, not of observation, decides\<close>

lemma history_overrides: "history_step s s' \<Longrightarrow> overridden i k s' = overridden i k s"
  by (rule overridden_cong) (rule history_frame(1))

lemma update_rent_applies:
  assumes "facts_inv s" "\<not> overridden (cl_id l) ''monthly_rent_minor'' s"
    and "pb_monthly_rent_minor (po_pricing obs) = Some rent"
    and "column cl_monthly_rent_minor (cl_id l) s = Some (cl_monthly_rent_minor l)"
    and "update_rent l row obs s = Inr (evs, s')"
  shows "column cl_monthly_rent_minor (cl_id l) s' = Some (Some rent)"
proof (cases "cl_monthly_rent_minor l = Some rent")
  case True
  then show ?thesis using assms(3-5) by (simp add: update_rent_def)
next
  case False
  then have "apply_change (cl_id l) row ''monthly_rent_minor'' ListingEventType.PRICE_CHANGED
      (case cl_monthly_rent_minor l of None \<Rightarrow> JNull | Some n \<Rightarrow> JInt n) (JInt rent)
      (int8 rent) (\<lambda>r. r\<lparr>cl_monthly_rent_minor := Some rent\<rparr>) s = Inr (evs, s')"
    using assms(3,5) by (simp add: update_rent_def)
  then show ?thesis
  proof (cases rule: apply_change_cases)
    case (blocked ov)
    then show ?thesis using assms(2) by (auto simp: overridden_def)
  next
    case (applied t)
    have "db_listings t = db_listings s" by (rule history_frame(4) [OF emit_event_history [OF applied(2)]])
    then show ?thesis
      using assms(4) unfolding applied(3) column_def update_listing_def
      by (cases "get_by cl_id (cl_id l) (db_listings s)")
        (auto simp: get_by_update_where dest: get_by_SomeD)
  qed
qed

text \<open>
  The last processed evidence wins, not the latest observed: an observation of a known identity
  with new content and a rent sets the listing's rent (unless a person overrides it) even when it is
  older than what its link has seen, in which case the link keeps pointing at the newer observation
  while the listing shows the older rent.
\<close>
theorem last_processed_rent_wins:
  assumes "canonical_inv s" "get_by so_id i (db_observations s) = Some row"
    and "so_parse_status row = ParseStatus.VALID" "find_link row s = Inr (Some link)"
    and "lk_latest_observation_id link \<noteq> so_id row"
    and "map_option so_content_hash (get_by so_id (lk_latest_observation_id link) (db_observations s)) \<noteq>
      Some (so_content_hash row)"
    and "pb_monthly_rent_minor (po_pricing (so_parsed_payload row)) = Some rent"
    and "\<not> overridden (lk_canonical_listing_id link) ''monthly_rent_minor'' s" "int8 rent"
  shows "\<exists>out s'. process_observation i dm now s = Inr (out, s') \<and>
    column cl_monthly_rent_minor (lk_canonical_listing_id link) s' = Some (Some rent) \<and>
    (so_observed_at row < lk_last_seen_at link \<longrightarrow> find_link row s' = Inr (Some link))"
proof -
  note inv = assms(1) [unfolded canonical_inv_def]
  let ?obs = "so_parsed_payload row"
  have link: "link \<in> set (db_links s)" using find_link_SomeD [OF assms(4)] by blast
  then have "lk_canonical_listing_id link \<in> cl_id ` set (db_listings s)"
    using inv by (auto simp: link_inv_def)
  then obtain l where l: "get_by cl_id (lk_canonical_listing_id link) (db_listings s) = Some l"
    by (metis get_by_None_iff not_None_eq)
  then have lid: "cl_id l = lk_canonical_listing_id link" "l \<in> set (db_listings s)"
    using get_by_SomeD by fast+
  let ?s1 = "touch_freshness link l row s"
  have "known_step s ?s1" using touch_freshness_step link lid(2) inv by blast
  then have f1: "facts_inv ?s1" using inv by (simp add: known_step_def)
  obtain evs s' where ev: "apply_evidence l row ?obs now ?s1 = Inr (evs, s')"
    using apply_evidence_total [OF f1, of ?obs l row now] assms(7,9) by (auto simp: int8_opt_def)
  have run: "process_observation i dm now s =
      Inr (link_outcome link (if evs \<noteq> [] then ''MATERIAL_CHANGE'' else ''UNCHANGED'') evs, s')"
  proof -
    have "process_observation i dm now s = update_existing row ?obs link now s"
      by (rule process_known [OF assms(2) _ assms(4)]) (simp add: assms(3))
    then show ?thesis
      unfolding update_existing_unfold [OF l] using assms(5,6) ev by (simp only: if_False bind_result.simps prod.case)
  qed
  have rent: "column cl_monthly_rent_minor (cl_id l) s' = Some (Some rent)"
    using ev
  proof (cases rule: apply_evidence_cases)
    case (1 s2 e1 s3 e2 s4 e3 s5)
    have h: "history_step ?s1 s2"
      using record_facts_history 1(1) unfolding record_listing_facts_def by blast
    have c0: "column cl_monthly_rent_minor (cl_id l) ?s1 = Some (cl_monthly_rent_minor l)"
      using l lid(1) by (subst touch_column) (simp_all add: column_def)
    have "\<not> overridden (cl_id l) ''monthly_rent_minor'' s2"
      using assms(8) lid(1) history_overrides [OF h] overridden_cong [OF touch_frame(1)] by simp
    moreover have "column cl_monthly_rent_minor (cl_id l) s2 = Some (cl_monthly_rent_minor l)"
      using c0 by (simp add: column_same [OF history_frame(4) [OF h]])
    ultimately have "column cl_monthly_rent_minor (cl_id l) s3 = Some (Some rent)"
      using update_rent_applies [OF _ _ assms(7) _ 1(2)] history_frame(6) [OF h f1] by blast
    moreover have "column cl_monthly_rent_minor (cl_id l) s4 = column cl_monthly_rent_minor (cl_id l) s3"
      by (rule update_availability_column [OF 1(3)]) simp
    moreover have "column cl_monthly_rent_minor (cl_id l) s5 = column cl_monthly_rent_minor (cl_id l) s4"
      by (rule update_laundry_column [OF 1(4)]) simp
    ultimately show ?thesis unfolding 1(6) by (simp add: column_update_listing)
  qed
  have "find_link row s' = Inr (Some link)" if "so_observed_at row < lk_last_seen_at link"
  proof -
    have "db_links s' = db_links ?s1"
      using apply_evidence_step [OF ev] identity_stateD(4) unfolding field_step_def by blast
    also have "\<dots> = db_links s" using that by (simp add: touch_freshness_def update_listing_def)
    finally show ?thesis using assms(4) by (simp add: find_link_def)
  qed
  with run rent lid(1) show ?thesis by simp
qed

theorem last_processed_rent_wins_witness:
  "\<exists>out s'. process_observation 3 DiscoveryMethod.DIRECT 30 (demo_after [1, 2]) = Inr (out, s') \<and>
     column cl_monthly_rent_minor 102 s' = Some (Some 290000)"
proof -
  let ?row = "demo_row 3 50 ''n1'' 15 ''h3'' 290000"
  let ?s = "demo_after [1, 2]"
  have obs: "get_by so_id 3 (db_observations ?s) = Some ?row" by code_simp
  obtain link where link: "find_link ?row ?s = Inr (Some link)" "lk_latest_observation_id link = 2"
    "lk_canonical_listing_id link = 102"
  proof -
    have "(case find_link ?row ?s of Inr (Some link) \<Rightarrow> lk_latest_observation_id link = 2 \<and>
        lk_canonical_listing_id link = 102 | _ \<Rightarrow> False)" by code_simp
    then show thesis using that by (auto split: sum.splits option.splits)
  qed
  have "so_parse_status ?row = ParseStatus.VALID" "2 \<noteq> so_id ?row"
    "pb_monthly_rent_minor (po_pricing (so_parsed_payload ?row)) = Some 290000"
    by (simp_all add: demo_row_def)
  moreover have "map_option so_content_hash (get_by so_id 2 (db_observations ?s)) \<noteq> Some (so_content_hash ?row)"
    by code_simp
  moreover have "\<not> overridden 102 ''monthly_rent_minor'' ?s" by code_simp
  moreover have "int8 290000" by (simp add: int8_def)
  ultimately show ?thesis
    using last_processed_rent_wins [OF demo_after_inv obs _ link(1)] link(2,3) by simp blast
qed

end
