(* ===== verification/Samples.thy ===== *)
theory Samples
  imports NormalizationLaws
begin

text \<open>
  Small concrete databases on which the properties of the canonical services are exercised.
\<close>

definition demo_listing :: "uuid \<Rightarrow> canonical_listing" where
  "demo_listing i = new_listing i 1 None demo_payload (demo_row 2 50 ''n'' 10 ''h'' 300000)"

definition demo_link :: "uuid \<Rightarrow> uuid \<Rightarrow> listing_source_link" where
  "demo_link i listing = new_link i listing (demo_row i 50 [char_of i] 10 ''h'' 300000) DiscoveryMethod.DIRECT
     IdentityMethod.SOURCE_NATIVE_CONTINUITY IdentityConfidence.HIGH"

text \<open>Three listings of a building with one link each, and a row counter above them.\<close>

definition demo_three :: db where
  "demo_three = empty_db\<lparr>db_listings := [demo_listing 10, demo_listing 11, demo_listing 12],
     db_links := [demo_link 20 10, demo_link 21 11, demo_link 22 12], db_next := 30\<rparr>"

text \<open>Their building in scope, the second listing without a link, the third in a building out of scope.\<close>

definition demo_address :: "uuid \<Rightarrow> BoundaryStatus \<Rightarrow> address" where
  "demo_address i boundary = (new_address i (Some ''1 Main St'') ''New York'' ''1 Main St'' [char_of i])
     \<lparr>ad_boundary_status := boundary, ad_location_precision := LocationPrecision.BUILDING\<rparr>"

definition demo_waiting :: db where
  "demo_waiting = demo_three\<lparr>
     db_listings := [demo_listing 10, demo_listing 11, (demo_listing 12)\<lparr>cl_building_id := 2\<rparr>],
     db_links := [demo_link 20 10], db_buildings := [new_building 1 3, new_building 2 4],
     db_addresses := [demo_address 3 BoundaryStatus.IN_SCOPE, demo_address 4 BoundaryStatus.OUT_OF_SCOPE]\<rparr>"

lemmas demo_defs = demo_waiting_def demo_three_def demo_listing_def demo_link_def demo_address_def
  new_listing_def new_link_def new_address_def new_building_def empty_db_def demo_row_def demo_payload_def
  new_observation_def default_layout_def

end
