(* ===== verification/Merge.thy ===== *)
theory Merge
  imports Selection Samples
begin

text \<open>
  \<open>canonical/merge_service.py\<close>: the manual merge and split workflow and the verdict on duplicate
  candidates.  A merge moves the links of the source listing to the target and records their
  identifiers, so that \<open>reverse_merge\<close> can move them back; nothing is deleted.  The human gates of the
  selection service are interpreted here on the merge operations.
\<close>

section \<open>Operations\<close>

definition new_merge ::
  "uuid \<Rightarrow> uuid \<Rightarrow> uuid \<Rightarrow> MergeReasonCode \<Rightarrow> json \<Rightarrow> ActorType \<Rightarrow> string \<Rightarrow> datetime \<Rightarrow> canonical_merge" where
  "new_merge i source target reason evidence actor_type actor now =
     \<lparr>mg_id = i, mg_source_listing_id = source, mg_target_listing_id = target,
      mg_reason_code = reason, mg_evidence = evidence,
      mg_performed_by_type =
        (if actor_type = ActorType.HUMAN then PerformedByType.HUMAN else PerformedByType.SYSTEM),
      mg_performed_by = Some actor, mg_performed_at = now, mg_reversed_at = None\<rparr>"

definition new_merge_event :: "uuid \<Rightarrow> uuid \<Rightarrow> uuid \<Rightarrow> datetime \<Rightarrow> listing_event" where
  "new_merge_event i source target now =
     \<lparr>ev_id = i, ev_canonical_listing_id = source, ev_event_type = ListingEventType.MERGED,
      ev_event_time = now, ev_refresh_run_id = None, ev_source_observation_id = None,
      ev_before_values = None, ev_after_values = Some (JObj [(''target_listing_id'', JUuid target)]),
      ev_reason_codes = None, ev_idempotency_key = (source, ListingEventType.MERGED, KeyId target)\<rparr>"

definition emit_merge_event :: "uuid \<Rightarrow> uuid \<Rightarrow> datetime \<Rightarrow> db \<Rightarrow> db" where
  "emit_merge_event source target now s =
     (let e = new_merge_event (db_next s) source target now
      in if \<exists>r \<in> set (db_events s). ev_idempotency_key r = ev_idempotency_key e then s
         else s\<lparr>db_events := db_events s @ [e], db_next := Suc (db_next s)\<rparr>)"

definition links_of :: "uuid \<Rightarrow> db \<Rightarrow> uuid list" where
  "links_of listing s = map lk_id (filter (\<lambda>k. lk_canonical_listing_id k = listing) (db_links s))"

definition merge_evidence :: "json option \<Rightarrow> uuid list \<Rightarrow> json" where
  "merge_evidence evidence moved =
     json_set ''moved_link_ids'' (JList (map JUuid moved))
       (case evidence of None \<Rightarrow> JObj [] | Some e \<Rightarrow> e)"

definition move_links :: "uuid \<Rightarrow> uuid \<Rightarrow> listing_source_link list \<Rightarrow> listing_source_link list" where
  "move_links source target = update_where (\<lambda>k. lk_canonical_listing_id k = source)
     (\<lambda>k. k\<lparr>lk_canonical_listing_id := target\<rparr>)"

text \<open>The writes of \<open>merge_listings\<close> once its guards hold.\<close>

definition perform_merge ::
  "canonical_listing \<Rightarrow> canonical_listing \<Rightarrow> string \<Rightarrow> ActorType \<Rightarrow> MergeReasonCode \<Rightarrow> json option \<Rightarrow>
   datetime \<Rightarrow> db \<Rightarrow> canonical_merge \<times> db" where
  "perform_merge source target actor actor_type reason evidence now s =
     (let m = new_merge (db_next s) (cl_id source) (cl_id target) reason
                (merge_evidence evidence (links_of (cl_id source) s)) actor_type actor now;
          s1 = s\<lparr>db_links := move_links (cl_id source) (cl_id target) (db_links s),
                 db_merges := db_merges s @ [m], db_next := Suc (db_next s)\<rparr>;
          s2 = update_listing (cl_id source) (\<lambda>r. r\<lparr>cl_lifecycle_status := LifecycleStatus.MERGED\<rparr>) s1;
          s3 = update_listing (cl_id target)
                 (\<lambda>r. r\<lparr>cl_last_seen_at := max (cl_last_seen_at target) (cl_last_seen_at source)\<rparr>) s2;
          s4 = emit_merge_event (cl_id source) (cl_id target) now s3;
          entry = new_audit_row (db_next s4) actor actor_type ''canonical_merge'' ''canonical_listing''
            (Some (cl_id source)) None
            (Some (JObj [(''target_listing_id'', JUuid (cl_id target)),
                         (''reason_code'', JStr (MergeReasonCode_value reason))])) None
      in (m, s4\<lparr>db_audit_log := db_audit_log s4 @ [entry], db_next := Suc (db_next s4)\<rparr>))"

definition merge_listings ::
  "uuid \<Rightarrow> uuid \<Rightarrow> string \<Rightarrow> ActorType \<Rightarrow> MergeReasonCode \<Rightarrow> json option \<Rightarrow> datetime \<Rightarrow>
   canonical_merge tx" where
  "merge_listings source target actor actor_type reason evidence now s =
     (if reason = MergeReasonCode.MANUAL \<and> actor_type \<noteq> ActorType.HUMAN then Inl HumanActionRequired
      else if source = target then Inl MergeError
      else case (get_by cl_id source (db_listings s), get_by cl_id target (db_listings s)) of
             (Some a, Some b) \<Rightarrow>
               if cl_lifecycle_status a = LifecycleStatus.MERGED then Inl MergeError
               else if cl_lifecycle_status b = LifecycleStatus.MERGED then Inl MergeError
               else Inr (perform_merge a b actor actor_type reason evidence now s)
           | _ \<Rightarrow> Inl LookupError)"

text \<open>\<open>[uuid.UUID(x) for x in ...]\<close>: anything but a list of identifiers raises.\<close>

fun json_uuids :: "json \<Rightarrow> uuid list result" where
  "json_uuids (JList []) = Inr []"
| "json_uuids (JList (JUuid i # js)) = bind_result (json_uuids (JList js)) (\<lambda>is. Inr (i # is))"
| "json_uuids _ = Inl ValueError"

definition reverse_merge ::
  "uuid \<Rightarrow> string \<Rightarrow> ActorType \<Rightarrow> string \<Rightarrow> datetime \<Rightarrow> unit tx" where
  "reverse_merge i actor actor_type reason now = require_human actor_type (\<lambda>s.
     case get_by mg_id i (db_merges s) of
       None \<Rightarrow> Inl LookupError
     | Some m \<Rightarrow>
         if mg_reversed_at m \<noteq> None then Inl MergeError
         else bind_result
           (case json_get ''moved_link_ids'' (mg_evidence m) of None \<Rightarrow> Inr [] | Some v \<Rightarrow> json_uuids v)
           (\<lambda>moved.
              let s1 = s\<lparr>db_links := update_where (\<lambda>k. lk_id k \<in> set moved)
                    (\<lambda>k. k\<lparr>lk_canonical_listing_id := mg_source_listing_id m\<rparr>) (db_links s)\<rparr>
              in if get_by cl_id (mg_source_listing_id m) (db_listings s) = None then Inl AssertionError
                 else Inr ((),
                   (update_listing (mg_source_listing_id m)
                      (\<lambda>r. r\<lparr>cl_lifecycle_status := LifecycleStatus.REVIEW_REQUIRED\<rparr>) s1)
                   \<lparr>db_merges := update_where (\<lambda>r. mg_id r = i) (\<lambda>r. r\<lparr>mg_reversed_at := Some now\<rparr>)
                        (db_merges s),
                    db_audit_log := db_audit_log s @
                      [new_audit_row (db_next s) actor actor_type ''canonical_merge_reversed''
                        ''canonical_listing'' (Some (mg_source_listing_id m)) None None (Some reason)],
                    db_next := Suc (db_next s)\<rparr>)))"

definition is_candidate_issue :: "uuid \<Rightarrow> review_issue \<Rightarrow> bool" where
  "is_candidate_issue i r \<longleftrightarrow> ri_issue_type r = ReviewIssueType.DUPLICATE_CANDIDATE \<and>
     ri_status r = ReviewIssueStatus.OPEN \<and>
     json_get ''duplicate_candidate_id'' (ri_details r) = Some (JUuid i)"

definition resolve_candidate_issues :: "uuid \<Rightarrow> string \<Rightarrow> datetime \<Rightarrow> db \<Rightarrow> db" where
  "resolve_candidate_issues i actor now s =
     s\<lparr>db_issues := update_where (is_candidate_issue i)
         (\<lambda>r. r\<lparr>ri_status := ReviewIssueStatus.RESOLVED, ri_resolved_at := Some now,
               ri_resolved_by := Some actor\<rparr>) (db_issues s)\<rparr>"

definition close_candidate ::
  "uuid \<Rightarrow> DuplicateCandidateStatus \<Rightarrow> string \<Rightarrow> datetime \<Rightarrow> db \<Rightarrow> duplicate_candidate tx" where
  "close_candidate i status actor now s t =
     (case get_by dc_id i (db_candidates t) of
        None \<Rightarrow> Inl LookupError
      | Some c \<Rightarrow>
          (let c' = c\<lparr>dc_status := status, dc_resolved_by := Some actor, dc_resolved_at := Some now\<rparr>
           in Inr (c', resolve_candidate_issues i actor now
                (t\<lparr>db_candidates := update_where (\<lambda>r. dc_id r = i) (\<lambda>_. c') (db_candidates t)\<rparr>))))"

definition resolve_duplicate_candidate ::
  "uuid \<Rightarrow> bool \<Rightarrow> string \<Rightarrow> ActorType \<Rightarrow> uuid option \<Rightarrow> datetime \<Rightarrow> duplicate_candidate tx" where
  "resolve_duplicate_candidate i confirmed actor actor_type survivor_id now =
     require_human actor_type (\<lambda>s.
       case get_by dc_id i (db_candidates s) of
         None \<Rightarrow> Inl LookupError
       | Some c \<Rightarrow>
           if dc_status c \<noteq> DuplicateCandidateStatus.PENDING then Inl MergeError
           else if confirmed
           then (let survivor = (case survivor_id of None \<Rightarrow> dc_listing_a_id c | Some x \<Rightarrow> x)
                 in if survivor \<notin> {dc_listing_a_id c, dc_listing_b_id c} then Inl MergeError
                    else bind_result
                      (merge_listings
                        (if survivor = dc_listing_a_id c then dc_listing_b_id c else dc_listing_a_id c)
                        survivor actor actor_type MergeReasonCode.MANUAL
                        (Some (JObj [(''duplicate_candidate_id'', JUuid i)])) now s)
                      (\<lambda>(_, t). close_candidate i DuplicateCandidateStatus.CONFIRMED_DUPLICATE actor now s t))
           else close_candidate i DuplicateCandidateStatus.CONFIRMED_DISTINCT actor now s s)"

section \<open>The gates\<close>

lemma update_listing_audit [simp]: "db_audit_log (update_listing i f s) = db_audit_log s"
  by (simp add: update_listing_def)

lemma emit_merge_event_frame [simp]:
  "manual_state (emit_merge_event a b now s) = manual_state s"
  "db_audit_log (emit_merge_event a b now s) = db_audit_log s"
  "db_links (emit_merge_event a b now s) = db_links s"
  "db_listings (emit_merge_event a b now s) = db_listings s"
  "db_merges (emit_merge_event a b now s) = db_merges s"
  "db_candidates (emit_merge_event a b now s) = db_candidates s"
  "db_issues (emit_merge_event a b now s) = db_issues s"
  "db_selections (emit_merge_event a b now s) = db_selections s"
  "db_presets (emit_merge_event a b now s) = db_presets s"
  "db_entries (emit_merge_event a b now s) = db_entries s"
  "db_overrides (emit_merge_event a b now s) = db_overrides s"
  by (simp_all add: emit_merge_event_def Let_def manual_state_def)

lemma perform_merge_state:
  assumes "perform_merge a b actor aty reason evidence now s = (m, s')"
  shows "m = new_merge (db_next s) (cl_id a) (cl_id b) reason
      (merge_evidence evidence (links_of (cl_id a) s)) aty actor now"
    "db_links s' = move_links (cl_id a) (cl_id b) (db_links s)"
    "db_merges s' = db_merges s @ [m]"
    "db_listings s' = update_where (\<lambda>r. cl_id r = cl_id b)
       (\<lambda>r. r\<lparr>cl_last_seen_at := max (cl_last_seen_at b) (cl_last_seen_at a)\<rparr>)
       (update_where (\<lambda>r. cl_id r = cl_id a) (\<lambda>r. r\<lparr>cl_lifecycle_status := LifecycleStatus.MERGED\<rparr>) (db_listings s))"
    "\<exists>entry. db_audit_log s' = db_audit_log s @ [entry] \<and> al_actor_type entry = aty"
    "db_candidates s' = db_candidates s" "db_issues s' = db_issues s"
    "db_selections s' = db_selections s" "db_presets s' = db_presets s" "db_entries s' = db_entries s"
    "db_overrides s' = db_overrides s"
  using assms
  by (auto simp: perform_merge_def Let_def update_listing_def new_audit_row_def)

text \<open>The tables that a merge does not write, and a link but for the listing it supports.\<close>

definition merge_frame :: "db \<Rightarrow> db" where
  "merge_frame s = s\<lparr>db_links := [], db_listings := [], db_merges := [], db_events := [],
     db_audit_log := [], db_next := 0\<rparr>"

definition link_content :: "listing_source_link \<Rightarrow> listing_source_link" where
  "link_content k = k\<lparr>lk_canonical_listing_id := 0\<rparr>"

lemma link_content_move [simp]: "map link_content (move_links a b ks) = map link_content ks"
  by (induction ks) (simp_all add: move_links_def link_content_def)

lemma perform_merge_frame:
  assumes "perform_merge a b actor aty reason evidence now s = (m, s')"
  shows "prefix (db_events s) (db_events s')" "merge_frame s' = merge_frame s"
  using assms
  by (auto simp: perform_merge_def emit_merge_event_def Let_def update_listing_def merge_frame_def)

lemma merge_listings_InrD:
  assumes "merge_listings src tgt actor aty reason evidence now s = Inr (m, s')"
  obtains a b where "get_by cl_id src (db_listings s) = Some a" "get_by cl_id tgt (db_listings s) = Some b"
    "cl_id a = src" "cl_id b = tgt" "src \<noteq> tgt"
    "cl_lifecycle_status a \<noteq> LifecycleStatus.MERGED" "cl_lifecycle_status b \<noteq> LifecycleStatus.MERGED"
    "perform_merge a b actor aty reason evidence now s = (m, s')"
    "reason = MergeReasonCode.MANUAL \<longrightarrow> aty = ActorType.HUMAN"
proof -
  from assms obtain a b where g: "get_by cl_id src (db_listings s) = Some a"
      "get_by cl_id tgt (db_listings s) = Some b"
    by (auto simp: merge_listings_def split: if_splits option.splits)
  with assms have "perform_merge a b actor aty reason evidence now s = (m, s')" "src \<noteq> tgt"
    "cl_lifecycle_status a \<noteq> LifecycleStatus.MERGED" "cl_lifecycle_status b \<noteq> LifecycleStatus.MERGED"
    "reason = MergeReasonCode.MANUAL \<longrightarrow> aty = ActorType.HUMAN"
    by (auto simp: merge_listings_def split: if_splits)
  with g get_by_SomeD [OF g(1)] get_by_SomeD [OF g(2)] show thesis using that by blast
qed

lemma reverse_merge_InrD:
  assumes "reverse_merge i actor aty reason now s = Inr (x, s')"
  obtains m moved where "aty = ActorType.HUMAN" "get_by mg_id i (db_merges s) = Some m" "mg_reversed_at m = None"
    "(case json_get ''moved_link_ids'' (mg_evidence m) of None \<Rightarrow> Inr [] | Some v \<Rightarrow> json_uuids v) = Inr moved"
    "db_links s' = update_where (\<lambda>k. lk_id k \<in> set moved)
       (\<lambda>k. k\<lparr>lk_canonical_listing_id := mg_source_listing_id m\<rparr>) (db_links s)"
    "db_listings s' = update_where (\<lambda>r. cl_id r = mg_source_listing_id m)
       (\<lambda>r. r\<lparr>cl_lifecycle_status := LifecycleStatus.REVIEW_REQUIRED\<rparr>) (db_listings s)"
    "db_merges s' = update_where (\<lambda>r. mg_id r = i) (\<lambda>r. r\<lparr>mg_reversed_at := Some now\<rparr>) (db_merges s)"
    "\<exists>entry. db_audit_log s' = db_audit_log s @ [entry] \<and> al_actor_type entry = ActorType.HUMAN"
proof -
  from assms obtain m where m: "aty = ActorType.HUMAN" "get_by mg_id i (db_merges s) = Some m" "mg_reversed_at m = None"
    by (auto simp: reverse_merge_def require_human_Inr split: option.splits if_splits)
  with assms obtain moved where moved:
    "(case json_get ''moved_link_ids'' (mg_evidence m) of None \<Rightarrow> Inr [] | Some v \<Rightarrow> json_uuids v) = Inr moved"
    by (auto simp: reverse_merge_def require_human_Inr bind_result_Inr_iff)
  show thesis
    by (rule that [OF m moved])
      (use assms m moved in \<open>auto simp: reverse_merge_def require_human_Inr Let_def update_listing_def
        new_audit_row_def split: if_splits\<close>)
qed

interpretation merge_gate: audited_gate
    "\<lambda>a (src, tgt, actor, evidence, now). merge_listings src tgt actor a MergeReasonCode.MANUAL evidence now"
proof unfold_locales
  fix a :: ActorType and i :: "uuid \<times> uuid \<times> string \<times> json option \<times> datetime" and s
  assume "a \<noteq> ActorType.HUMAN"
  then show "(case i of (src, tgt, actor, evidence, now) \<Rightarrow>
      merge_listings src tgt actor a MergeReasonCode.MANUAL evidence now) s = Inl HumanActionRequired"
    by (simp add: merge_listings_def split: prod.splits)
next
  fix a :: ActorType and i :: "uuid \<times> uuid \<times> string \<times> json option \<times> datetime" and s x s'
  assume "(case i of (src, tgt, actor, evidence, now) \<Rightarrow>
      merge_listings src tgt actor a MergeReasonCode.MANUAL evidence now) s = Inr (x, s')"
  then show "\<exists>entry. db_audit_log s' = db_audit_log s @ [entry] \<and> al_actor_type entry = ActorType.HUMAN"
    by (cases i) (auto elim!: merge_listings_InrD dest: perform_merge_state(5))
qed

interpretation reverse_gate: audited_gate
    "\<lambda>a (i, actor, reason, now). reverse_merge i actor a reason now"
  by unfold_locales
    (auto simp: reverse_merge_def require_human_refuses elim!: reverse_merge_InrD [unfolded reverse_merge_def]
      split: prod.splits)

interpretation verdict_gate: human_gate
    "\<lambda>a (i, confirmed, actor, survivor, now). resolve_duplicate_candidate i confirmed actor a survivor now"
  by unfold_locales (simp add: resolve_duplicate_candidate_def require_human_refuses split: prod.splits)

section \<open>How links and lifecycles move\<close>

lemma json_uuids_map: "json_uuids (JList (map JUuid is)) = Inr is"
  by (induction "is") simp_all

lemma merge_evidence_ids:
  "json_get ''moved_link_ids'' (merge_evidence ev is) = Some (JList (map JUuid is))"
  by (simp add: merge_evidence_def json_get_set)

definition linked :: "uuid \<Rightarrow> listing_source_link list \<Rightarrow> uuid list" where
  "linked a ks = map lk_id (filter (\<lambda>k. lk_canonical_listing_id k = a) ks)"

lemma in_links_of: "i \<in> set (links_of a s) \<longleftrightarrow> (\<exists>k \<in> set (db_links s). lk_id k = i \<and> lk_canonical_listing_id k = a)"
  by (auto simp: links_of_def)

lemma move_links_ids [simp]: "map lk_id (move_links a b ks) = map lk_id ks"
  by (simp add: move_links_def map_update_where)

lemma move_links_other [simp]: "map native_key (filter has_native (move_links a b ks)) = map native_key (filter has_native ks)"
  by (induction ks) (auto simp: move_links_def native_key_def has_native_def)

lemma links_of_ids: "links_of a s = linked a (db_links s)"
  by (simp add: links_of_def linked_def)

lemma linked_move:
  assumes "a \<noteq> b"
  shows "linked a (move_links a b ks) = []" "set (linked b (move_links a b ks)) = set (linked b ks) \<union> set (linked a ks)"
    "c \<noteq> a \<Longrightarrow> c \<noteq> b \<Longrightarrow> linked c (move_links a b ks) = linked c ks"
  using assms by (induction ks) (auto simp: move_links_def linked_def)

lemma links_of_move:
  assumes "db_links s' = move_links a b (db_links s)" "a \<noteq> b"
  shows "links_of a s' = []" "set (links_of b s') = set (links_of b s) \<union> set (links_of a s)"
    "c \<noteq> a \<Longrightarrow> c \<noteq> b \<Longrightarrow> links_of c s' = links_of c s"
  using linked_move [OF assms(2)] by (simp_all add: links_of_ids assms(1))

definition restore_links :: "uuid list \<Rightarrow> uuid \<Rightarrow> listing_source_link list \<Rightarrow> listing_source_link list" where
  "restore_links moved a = update_where (\<lambda>k. lk_id k \<in> set moved) (\<lambda>k. k\<lparr>lk_canonical_listing_id := a\<rparr>)"

lemma linked_restore:
  "set (linked a (restore_links moved a ks)) = set (linked a ks) \<union> (set moved \<inter> set (map lk_id ks))"
  "distinct (map lk_id ks) \<Longrightarrow> c \<noteq> a \<Longrightarrow>
    set (linked c (restore_links moved a ks)) = set (linked c ks) - set moved"
  by (induction ks) (auto simp: restore_links_def linked_def)

lemma restore_after_move:
  assumes "distinct (map lk_id ks)"
  shows "restore_links (map lk_id (filter (\<lambda>k. lk_canonical_listing_id k = a) ks)) a (move_links a b ks) = ks"
proof -
  let ?moved = "map lk_id (filter (\<lambda>k. lk_canonical_listing_id k = a) ks)"
  have same: "lk_id k \<in> set ?moved \<longleftrightarrow> lk_canonical_listing_id k = a" if "k \<in> set ks" for k
    using that assms by (auto simp: distinct_map inj_on_def)
  have "restore_links ?moved a (move_links a b xs) = xs" if "set xs \<subseteq> set ks" for xs
    using that
  proof (induction xs)
    case (Cons x xs)
    then show ?case using same [of x] by (auto simp: restore_links_def move_links_def)
  qed (simp add: restore_links_def move_links_def)
  then show ?thesis by simp
qed

lemma reverse_merge_runs:
  assumes "get_by mg_id i (db_merges s) = Some m" "mg_reversed_at m = None"
    and "json_get ''moved_link_ids'' (mg_evidence m) = Some (JList (map JUuid moved))"
    and "mg_source_listing_id m \<in> set (map cl_id (db_listings s))"
  shows "\<exists>s'. reverse_merge i actor ActorType.HUMAN why now s = Inr ((), s') \<and>
    db_links s' = restore_links moved (mg_source_listing_id m) (db_links s) \<and>
    map cl_id (db_listings s') = map cl_id (db_listings s) \<and>
    db_merges s' = update_where (\<lambda>r. mg_id r = i) (\<lambda>r. r\<lparr>mg_reversed_at := Some now\<rparr>) (db_merges s)"
proof -
  have "get_by cl_id (mg_source_listing_id m) (db_listings s) \<noteq> None"
    using assms(4) by (auto simp: get_by_None_iff)
  then show ?thesis
    using assms(1-3) by (simp add: reverse_merge_def require_human_def json_uuids_map Let_def
        restore_links_def update_listing_def map_update_where)
qed

lemma merge_listings_state:
  assumes "merge_listings src tgt actor aty reason evidence now s = Inr (m, s')"
  shows "db_links s' = move_links src tgt (db_links s)" "src \<noteq> tgt"
    "map cl_id (db_listings s') = map cl_id (db_listings s)"
    "src \<in> set (map cl_id (db_listings s))" "tgt \<in> set (map cl_id (db_listings s))"
proof -
  from assms obtain a b where ab: "get_by cl_id src (db_listings s) = Some a" "get_by cl_id tgt (db_listings s) = Some b"
      "cl_id a = src" "cl_id b = tgt" "src \<noteq> tgt" "perform_merge a b actor aty reason evidence now s = (m, s')"
    by (rule merge_listings_InrD)
  note st = perform_merge_state [OF ab(6), unfolded ab(3,4)]
  show "db_links s' = move_links src tgt (db_links s)" "src \<noteq> tgt" by (rule st(2), rule ab(5))
  show "map cl_id (db_listings s') = map cl_id (db_listings s)"
    unfolding st(4) by (simp add: map_update_where)
  show "src \<in> set (map cl_id (db_listings s))" "tgt \<in> set (map cl_id (db_listings s))"
    using get_by_SomeD [OF ab(1)] get_by_SomeD [OF ab(2)] by force+
qed

definition mergeable :: "uuid \<Rightarrow> db \<Rightarrow> bool" where
  "mergeable i s \<longleftrightarrow> (case get_by cl_id i (db_listings s) of
     None \<Rightarrow> False | Some l \<Rightarrow> cl_lifecycle_status l \<noteq> LifecycleStatus.MERGED)"

lemma lifecycle_after_merge:
  assumes "db_listings s' = update_where (\<lambda>r. cl_id r = b) (\<lambda>r. r\<lparr>cl_last_seen_at := t\<rparr>)
       (update_where (\<lambda>r. cl_id r = a) (\<lambda>r. r\<lparr>cl_lifecycle_status := st\<rparr>) (db_listings s))"
  shows "column cl_lifecycle_status i s' =
    (if i = a then map_option (\<lambda>_. st) (get_by cl_id a (db_listings s)) else column cl_lifecycle_status i s)"
proof -
  have "get_by cl_id i (db_listings s') = map_option (\<lambda>r. if cl_id r = b then r\<lparr>cl_last_seen_at := t\<rparr> else r)
      (map_option (\<lambda>r. if cl_id r = a then r\<lparr>cl_lifecycle_status := st\<rparr> else r) (get_by cl_id i (db_listings s)))"
    unfolding assms by (simp add: get_by_update_where)
  then show ?thesis
    using get_by_SomeD [of cl_id i "db_listings s"]
    by (cases "get_by cl_id i (db_listings s)") (auto simp: column_def)
qed

lemma lifecycle_after_reverse:
  assumes "db_listings s' = update_where (\<lambda>r. cl_id r = a) (\<lambda>r. r\<lparr>cl_lifecycle_status := st\<rparr>) (db_listings s)"
  shows "column cl_lifecycle_status i s' =
    (if i = a then map_option (\<lambda>_. st) (get_by cl_id a (db_listings s)) else column cl_lifecycle_status i s)"
proof -
  have "get_by cl_id i (db_listings s') =
      map_option (\<lambda>r. if cl_id r = a then r\<lparr>cl_lifecycle_status := st\<rparr> else r) (get_by cl_id i (db_listings s))"
    unfolding assms by (simp add: get_by_update_where)
  then show ?thesis
    using get_by_SomeD [of cl_id i "db_listings s"]
    by (cases "get_by cl_id i (db_listings s)") (auto simp: column_def)
qed

definition merges_inv :: "db \<Rightarrow> bool" where
  "merges_inv s \<longleftrightarrow> distinct (map mg_id (db_merges s)) \<and> (\<forall>m \<in> set (db_merges s). mg_id m < db_next s)"

lemma perform_merge_next:
  "perform_merge a b actor aty reason evidence now s = (m, s') \<Longrightarrow> db_next s < db_next s'"
  by (auto simp: perform_merge_def Let_def emit_merge_event_def)

lemma merge_link_inv:
  assumes "link_inv s" "merge_listings src tgt actor aty reason evidence now s = Inr (m, s')"
  shows "link_inv s'"
  using assms(2)
proof (cases rule: merge_listings_InrD)
  case (1 a b)
  note st = perform_merge_state [OF 1(8)] and nxt = perform_merge_next [OF 1(8)]
  have ids: "map cl_id (db_listings s') = map cl_id (db_listings s)"
    unfolding st(4) by (simp add: map_update_where)
  have lids: "map lk_id (db_links s') = map lk_id (db_links s)" unfolding st(2) by simp
  have "tgt \<in> set (map cl_id (db_listings s))" using get_by_SomeD [OF 1(2)] by force
  then have "set (map lk_canonical_listing_id (db_links s')) \<subseteq> set (map cl_id (db_listings s'))"
    using assms(1) unfolding ids st(2) link_inv_def
    by (auto simp: move_links_def set_update_where 1(4))
  then show ?thesis
    using assms(1) nxt ids lids unfolding link_inv_def by (auto simp: st(2) intro: less_trans)
qed

lemma merge_merges_inv:
  assumes "merges_inv s" "merge_listings src tgt actor aty reason evidence now s = Inr (m, s')"
  shows "merges_inv s'" "get_by mg_id (mg_id m) (db_merges s') = Some m" "mg_id m = db_next s"
    "mg_reversed_at m = None" "mg_source_listing_id m = src" "mg_target_listing_id m = tgt"
    "json_get ''moved_link_ids'' (mg_evidence m) = Some (JList (map JUuid (links_of src s)))"
    "db_merges s' = db_merges s @ [m]"
proof -
  from assms(2) obtain a b where ab: "cl_id a = src" "cl_id b = tgt"
      "perform_merge a b actor aty reason evidence now s = (m, s')"
    by (rule merge_listings_InrD)
  note st = perform_merge_state [OF ab(3)] and nxt = perform_merge_next [OF ab(3)]
  show id: "mg_id m = db_next s" "mg_reversed_at m = None" "mg_source_listing_id m = src" "mg_target_listing_id m = tgt"
    "json_get ''moved_link_ids'' (mg_evidence m) = Some (JList (map JUuid (links_of src s)))"
    by (simp_all add: st(1) new_merge_def ab(1,2) merge_evidence_ids)
  show "db_merges s' = db_merges s @ [m]" by (rule st(3))
  show inv: "merges_inv s'"
    using assms(1) nxt id(1) unfolding merges_inv_def st(3) by (auto intro: less_trans)
  then show "get_by mg_id (mg_id m) (db_merges s') = Some m"
    unfolding merges_inv_def st(3) by (subst get_by_Some_iff) simp_all
qed

section \<open>Properties\<close>

text \<open>
  C14. A merge by a person succeeds exactly when both listings exist, differ and are not merged
  already.  Then every link of the source now supports the target, and a merge row by a person that
  lists exactly those links is stored after the earlier ones.  The source and only the source becomes
  MERGED, every listing but the two is as before, links change only in the listing they support, the
  event log is append-only, one audit row is written, no row of any table is deleted, and every other
  table (selections, presets, shortlist entries and overrides among them) is as before.
\<close>
theorem merge_moves_links:
  assumes "link_inv s"
  shows "if src \<noteq> tgt \<and> mergeable src s \<and> mergeable tgt s
    then \<exists>m s'. merge_listings src tgt actor ActorType.HUMAN reason evidence now s = Inr (m, s') \<and>
      link_inv s' \<and> links_of src s' = [] \<and>
      set (links_of tgt s') = set (links_of tgt s) \<union> set (links_of src s) \<and>
      db_merges s' = db_merges s @ [m] \<and> mg_source_listing_id m = src \<and> mg_target_listing_id m = tgt \<and>
      mg_performed_by_type m = PerformedByType.HUMAN \<and> mg_reversed_at m = None \<and>
      json_get ''moved_link_ids'' (mg_evidence m) = Some (JList (map JUuid (links_of src s))) \<and>
      map lk_id (db_links s') = map lk_id (db_links s) \<and>
      map link_content (db_links s') = map link_content (db_links s) \<and>
      map cl_id (db_listings s') = map cl_id (db_listings s) \<and>
      (\<forall>i. i \<noteq> src \<and> i \<noteq> tgt \<longrightarrow> get_by cl_id i (db_listings s') = get_by cl_id i (db_listings s)) \<and>
      prefix (db_events s) (db_events s') \<and> (\<exists>entry. db_audit_log s' = db_audit_log s @ [entry]) \<and>
      merge_frame s' = merge_frame s \<and>
      column cl_lifecycle_status src s' = Some LifecycleStatus.MERGED \<and>
      (\<forall>i. i \<noteq> src \<longrightarrow> column cl_lifecycle_status i s' = column cl_lifecycle_status i s) \<and>
      (db_selections s', db_presets s', db_entries s', db_overrides s') =
        (db_selections s, db_presets s, db_entries s, db_overrides s)
    else \<exists>e \<in> {MergeError, LookupError}.
      merge_listings src tgt actor ActorType.HUMAN reason evidence now s = Inl e"
proof (cases "src \<noteq> tgt \<and> mergeable src s \<and> mergeable tgt s")
  case False
  then show ?thesis by (auto simp: merge_listings_def mergeable_def split: option.splits)
next
  case True
  then obtain a b where g: "get_by cl_id src (db_listings s) = Some a" "get_by cl_id tgt (db_listings s) = Some b"
      "cl_lifecycle_status a \<noteq> LifecycleStatus.MERGED" "cl_lifecycle_status b \<noteq> LifecycleStatus.MERGED"
    by (auto simp: mergeable_def split: option.splits)
  have ids: "cl_id a = src" "cl_id b = tgt" using get_by_SomeD [OF g(1)] get_by_SomeD [OF g(2)] by simp_all
  obtain m s' where p: "perform_merge a b actor ActorType.HUMAN reason evidence now s = (m, s')"
    by (cases rule: prod.exhaust)
  have run: "merge_listings src tgt actor ActorType.HUMAN reason evidence now s = Inr (m, s')"
    using True g p by (simp add: merge_listings_def)
  note st = perform_merge_state [OF p, unfolded ids]
  have diff: "src \<noteq> tgt" using True by blast
  have "column cl_lifecycle_status i s' = (if i = src then Some LifecycleStatus.MERGED
      else column cl_lifecycle_status i s)" for i
    using lifecycle_after_merge [OF st(4)] g(1) by simp
  moreover have "map cl_id (db_listings s') = map cl_id (db_listings s)"
    unfolding st(4) by (simp add: map_update_where)
  moreover have "map lk_id (db_links s') = map lk_id (db_links s)" unfolding st(2) by simp
  moreover have "map link_content (db_links s') = map link_content (db_links s)" unfolding st(2) by simp
  moreover have "get_by cl_id i (db_listings s') = get_by cl_id i (db_listings s)" if "i \<noteq> src \<and> i \<noteq> tgt" for i
    unfolding st(4) using that
    by (cases "get_by cl_id i (db_listings s)") (auto simp: get_by_update_where dest: get_by_SomeD)
  moreover note perform_merge_frame [OF p]
  moreover have "mg_source_listing_id m = src \<and> mg_target_listing_id m = tgt \<and>
      mg_performed_by_type m = PerformedByType.HUMAN \<and> mg_reversed_at m = None"
    by (simp add: st(1) new_merge_def)
  moreover have "\<exists>entry. db_audit_log s' = db_audit_log s @ [entry]" using st(5) by blast
  moreover have "json_get ''moved_link_ids'' (mg_evidence m) = Some (JList (map JUuid (links_of src s)))"
    by (simp add: st(1) new_merge_def merge_evidence_ids)
  ultimately show ?thesis
    unfolding if_P [OF True] using run merge_link_inv [OF assms run] links_of_move(1,2) [OF st(2) diff] st(3,8-11)
    by (intro exI [of _ m] exI [of _ s'] conjI) simp_all
qed

lemma demo_three_inv: "link_inv demo_three" "merges_inv demo_three"
  by (simp_all add: link_inv_def merges_inv_def demo_three_def demo_listing_def demo_link_def new_listing_def
      new_link_def empty_db_def native_key_def has_native_def demo_row_def)

lemma demo_three_mergeable: "mergeable 10 demo_three" "mergeable 11 demo_three" "mergeable 12 demo_three"
  by (simp_all add: mergeable_def demo_three_def demo_listing_def new_listing_def get_by_Cons)

theorem merge_moves_links_witness:
  "\<exists>m s'. merge_listings 10 11 ''op'' ActorType.HUMAN MergeReasonCode.MANUAL None 40 demo_three = Inr (m, s') \<and>
     links_of 10 s' = []"
proof -
  have "(10::uuid) \<noteq> 11 \<and> mergeable 10 demo_three \<and> mergeable 11 demo_three"
    using demo_three_mergeable by simp
  from merge_moves_links [OF demo_three_inv(1), of 10 11 "''op''" MergeReasonCode.MANUAL None 40,
      unfolded if_P [OF this]]
  show ?thesis by blast
qed

text \<open>
  C15. Reversing a merge right away undoes it: every link is exactly as before the merge, the superseded
  listing waits in REVIEW_REQUIRED, no other lifecycle changed, and a second reversal of the same
  merge is refused.
\<close>
theorem merge_reverse_roundtrip:
  assumes "link_inv s" "merges_inv s"
    and "merge_listings src tgt actor aty reason evidence now s = Inr (m, s1)"
  shows "\<exists>s2. reverse_merge (mg_id m) actor2 ActorType.HUMAN why now2 s1 = Inr ((), s2) \<and>
    db_links s2 = db_links s \<and> column cl_lifecycle_status src s2 = Some LifecycleStatus.REVIEW_REQUIRED \<and>
    (\<forall>i. i \<noteq> src \<longrightarrow> column cl_lifecycle_status i s2 = column cl_lifecycle_status i s) \<and>
    reverse_merge (mg_id m) actor3 ActorType.HUMAN why3 now3 s2 = Inl MergeError"
  using assms(3)
proof (cases rule: merge_listings_InrD)
  case (1 a b)
  note st = perform_merge_state [OF 1(8), unfolded 1(3,4)] and m = merge_merges_inv(1-5,7) [OF assms(2,3)]
  have ids: "map cl_id (db_listings s1) = map cl_id (db_listings s)"
    unfolding st(4) by (simp add: map_update_where)
  then have "src \<in> cl_id ` set (db_listings s1)" using get_by_SomeD [OF 1(1)] by (metis image_eqI list.set_map)
  then obtain l1 where l1: "get_by cl_id src (db_listings s1) = Some l1" by (metis get_by_None_iff not_None_eq)
  have "\<exists>s2. reverse_merge (mg_id m) actor2 ActorType.HUMAN why now2 s1 = Inr ((), s2)"
    using m(2,4-6) l1
    by (simp add: reverse_merge_def require_human_def json_uuids_map Let_def)
  then obtain s2 where run: "reverse_merge (mg_id m) actor2 ActorType.HUMAN why now2 s1 = Inr ((), s2)" by blast
  then show ?thesis
  proof (cases rule: reverse_merge_InrD)
    case (1 m' moved)
    have "m' = m" using 1(2) m(2) by simp
    with 1(4) m(6) have moved: "moved = links_of src s" by (simp add: json_uuids_map)
    have "db_links s2 = restore_links moved src (db_links s1)"
      using 1(5) m(5) \<open>m' = m\<close> by (simp add: restore_links_def)
    then have links: "db_links s2 = db_links s"
      using restore_after_move assms(1) unfolding st(2) moved links_of_def link_inv_def by simp
    have life: "column cl_lifecycle_status i s2 = (if i = src then Some LifecycleStatus.REVIEW_REQUIRED
        else column cl_lifecycle_status i s)" for i
      using lifecycle_after_reverse [OF 1(6)] lifecycle_after_merge [OF st(4)] l1 m(5) \<open>m' = m\<close> by simp
    have "get_by mg_id (mg_id m) (db_merges s2) = Some (m\<lparr>mg_reversed_at := Some now2\<rparr>)"
      unfolding 1(7) using m(2) by (simp add: get_by_update_where)
    then have "reverse_merge (mg_id m) actor3 ActorType.HUMAN why3 now3 s2 = Inl MergeError"
      by (simp add: reverse_merge_def require_human_def)
    with run links life show ?thesis by simp
  qed
qed

lemma demo_merge_run:
  obtains m s' where "merge_listings 10 11 ''op'' ActorType.HUMAN MergeReasonCode.MANUAL None 40 demo_three = Inr (m, s')"
proof -
  have "(case merge_listings 10 11 ''op'' ActorType.HUMAN MergeReasonCode.MANUAL None 40 demo_three of
      Inr _ \<Rightarrow> True | Inl _ \<Rightarrow> False)" by code_simp
  then show thesis using that by (auto split: sum.splits)
qed

theorem merge_reverse_roundtrip_witness:
  "\<exists>m s1 s2. merge_listings 10 11 ''op'' ActorType.HUMAN MergeReasonCode.MANUAL None 40 demo_three = Inr (m, s1) \<and>
     reverse_merge (mg_id m) ''op'' ActorType.HUMAN ''oops'' 41 s1 = Inr ((), s2) \<and> db_links s2 = db_links demo_three"
proof (rule demo_merge_run)
  fix m s1 assume r: "merge_listings 10 11 ''op'' ActorType.HUMAN MergeReasonCode.MANUAL None 40 demo_three = Inr (m, s1)"
  from merge_reverse_roundtrip [OF demo_three_inv r] r show ?thesis by blast
qed

text \<open>
  Merges must be reversed in the opposite order of their making.  When A was merged into B and B
  into C, reversing the first merge gives A its links back, but reversing the second one afterwards
  takes them away again: its evidence lists them, so they end at B and A is left without any.
\<close>
theorem late_reversal_steals_links:
  assumes "link_inv s" "merges_inv s"
    and "merge_listings a b actor aty reason evidence now s = Inr (m1, s1)"
    and "merge_listings b c actor aty reason evidence now s1 = Inr (m2, s2)"
  shows "\<exists>s3 s4. reverse_merge (mg_id m1) actor ActorType.HUMAN why now s2 = Inr ((), s3) \<and>
    reverse_merge (mg_id m2) actor ActorType.HUMAN why now s3 = Inr ((), s4) \<and>
    set (links_of a s3) = set (links_of a s) \<and>
    links_of a s4 = [] \<and> set (links_of b s4) = set (links_of b s) \<union> set (links_of a s)"
proof -
  note A = merge_listings_state [OF assms(3)] and m1 = merge_merges_inv [OF assms(2,3)]
  note B = merge_listings_state [OF assms(4)] and m2 = merge_merges_inv [OF m1(1) assms(4)]
  have ne: "mg_id m1 \<noteq> mg_id m2"
  proof -
    have "m1 \<in> set (db_merges s1)" using get_by_SomeD [OF m1(2)] by simp
    with m1(1) m2(3) show ?thesis unfolding merges_inv_def by force
  qed
  have "get_by mg_id (mg_id m1) (db_merges s2) = Some m1"
    unfolding m2(8) by (simp add: get_by_append m1(2))
  then obtain s3 where s3: "reverse_merge (mg_id m1) actor ActorType.HUMAN why now s2 = Inr ((), s3)"
      "db_links s3 = restore_links (links_of a s) a (db_links s2)"
      "map cl_id (db_listings s3) = map cl_id (db_listings s2)"
      "db_merges s3 = update_where (\<lambda>r. mg_id r = mg_id m1) (\<lambda>r. r\<lparr>mg_reversed_at := Some now\<rparr>) (db_merges s2)"
    using reverse_merge_runs [of "mg_id m1" s2 m1 "links_of a s" actor why now] m1(4,5,7) A(3,4) B(3) by auto
  have "get_by mg_id (mg_id m2) (db_merges s3) = Some m2"
    unfolding s3(4) using m2(2) ne by (simp add: get_by_update_where)
  then obtain s4 where s4: "reverse_merge (mg_id m2) actor ActorType.HUMAN why now s3 = Inr ((), s4)"
      "db_links s4 = restore_links (links_of b s1) b (db_links s3)"
    using reverse_merge_runs [of "mg_id m2" s3 m2 "links_of b s1" actor why now] m2(4,5,7) A(3,5) B(3) s3(3) by auto
  have dist: "distinct (map lk_id (db_links s))" using assms(1) by (simp add: link_inv_def)
  have ids: "map lk_id (db_links s3) = map lk_id (db_links s)"
    unfolding s3(2) B(1) A(1) by (simp add: restore_links_def map_update_where)
  have sub: "set (linked x (db_links s)) \<subseteq> set (map lk_id (db_links s))" for x
    by (auto simp: linked_def)
  have "a \<noteq> c"
  proof
    assume "a = c"
    from assms(3) obtain la lb where st: "get_by cl_id a (db_listings s) = Some la" "cl_id la = a" "cl_id lb = b"
        "perform_merge la lb actor aty reason evidence now s = (m1, s1)"
      by (rule merge_listings_InrD)
    have "column cl_lifecycle_status a s1 = Some LifecycleStatus.MERGED"
      using lifecycle_after_merge [OF perform_merge_state(4) [OF st(4), unfolded st(2,3)]] st(1) by simp
    with assms(4) \<open>a = c\<close> show False by (auto elim!: merge_listings_InrD simp: column_def)
  qed
  have b1: "set (linked b (db_links s1)) = set (linked b (db_links s)) \<union> set (linked a (db_links s))"
    unfolding A(1) using linked_move(2) [OF A(2)] .
  have a2: "linked a (db_links s2) = []"
    unfolding B(1) A(1) using linked_move(3) [OF B(2) A(2) \<open>a \<noteq> c\<close>] linked_move(1) [OF A(2)] by simp
  have b2: "linked b (db_links s2) = []" unfolding B(1) by (rule linked_move(1) [OF B(2)])
  have ids2: "map lk_id (db_links s2) = map lk_id (db_links s)" unfolding B(1) A(1) by simp
  have a3: "set (linked a (db_links s3)) = set (linked a (db_links s))"
    unfolding s3(2) links_of_ids linked_restore(1) a2 ids2 using sub [of a] by auto
  have b3: "set (linked b (db_links s3)) = {}"
    unfolding s3(2) links_of_ids using linked_restore(2) [of "db_links s2" b a] dist ids2 A(2) b2 by simp
  have a4: "set (linked a (db_links s4)) = {}"
    unfolding s4(2) links_of_ids using linked_restore(2) [of "db_links s3" a b] dist ids A(2) a3 b1 by simp
  have b4: "set (linked b (db_links s4)) = set (linked b (db_links s)) \<union> set (linked a (db_links s))"
    unfolding s4(2) links_of_ids linked_restore(1) ids b1 b3 using sub [of a] sub [of b] by auto
  show ?thesis using s3(1) s4(1) a3 a4 b4 by (auto simp: links_of_ids)
qed

lemma demo_chain_run:
  "\<exists>m1 s1 m2 s2. merge_listings 10 11 ''op'' ActorType.HUMAN MergeReasonCode.MANUAL None 40 demo_three = Inr (m1, s1) \<and>
     merge_listings 11 12 ''op'' ActorType.HUMAN MergeReasonCode.MANUAL None 40 s1 = Inr (m2, s2)"
proof -
  have "(case merge_listings 10 11 ''op'' ActorType.HUMAN MergeReasonCode.MANUAL None 40 demo_three of
      Inl _ \<Rightarrow> False
    | Inr (m1, s1) \<Rightarrow> (case merge_listings 11 12 ''op'' ActorType.HUMAN MergeReasonCode.MANUAL None 40 s1 of
        Inr (m2, s2) \<Rightarrow> True | Inl _ \<Rightarrow> False))" by code_simp
  then show ?thesis by (auto split: sum.splits prod.splits) (metis obj_sumE surj_pair)
qed

theorem late_reversal_steals_links_witness:
  "\<exists>m1 s1 m2 s2 s3 s4. merge_listings 10 11 ''op'' ActorType.HUMAN MergeReasonCode.MANUAL None 40 demo_three = Inr (m1, s1) \<and>
     merge_listings 11 12 ''op'' ActorType.HUMAN MergeReasonCode.MANUAL None 40 s1 = Inr (m2, s2) \<and>
     reverse_merge (mg_id m1) ''op'' ActorType.HUMAN ''oops'' 40 s2 = Inr ((), s3) \<and>
     reverse_merge (mg_id m2) ''op'' ActorType.HUMAN ''oops'' 40 s3 = Inr ((), s4) \<and>
     set (links_of 10 s3) = {20} \<and> links_of 10 s4 = [] \<and> set (links_of 11 s4) = {20, 21}"
proof -
  obtain m1 s1 m2 s2 where r: "merge_listings 10 11 ''op'' ActorType.HUMAN MergeReasonCode.MANUAL None 40 demo_three = Inr (m1, s1)"
      "merge_listings 11 12 ''op'' ActorType.HUMAN MergeReasonCode.MANUAL None 40 s1 = Inr (m2, s2)"
    using demo_chain_run by blast
  have l: "set (links_of 10 demo_three) = {20}" "set (links_of 11 demo_three) = {21}"
    by (simp_all add: links_of_def demo_three_def demo_link_def new_link_def)
  from late_reversal_steals_links [OF demo_three_inv r, of "''oops''"] r l show ?thesis by auto
qed

section \<open>Verdicts on duplicate candidates\<close>

lemma close_candidate_InrD:
  assumes "close_candidate i st actor now s t = Inr (c', s')"
  shows "dc_status c' = st" "get_by dc_id i (db_candidates s') = Some c'"
    "\<exists>c. get_by dc_id i (db_candidates t) = Some c \<and> dc_listing_a_id c' = dc_listing_a_id c \<and>
       dc_listing_b_id c' = dc_listing_b_id c \<and> dc_rule_version c' = dc_rule_version c"
    "db_issues s' = update_where (is_candidate_issue i) (\<lambda>r. r\<lparr>ri_status := ReviewIssueStatus.RESOLVED,
       ri_resolved_at := Some now, ri_resolved_by := Some actor\<rparr>) (db_issues t)"
    "db_audit_log s' = db_audit_log t" "db_links s' = db_links t" "db_listings s' = db_listings t"
    "db_merges s' = db_merges t"
proof -
  from assms obtain c where c: "get_by dc_id i (db_candidates t) = Some c"
    by (auto simp: close_candidate_def split: option.splits)
  let ?c = "c\<lparr>dc_status := st, dc_resolved_by := Some actor, dc_resolved_at := Some now\<rparr>"
  have eq: "c' = ?c" "s' = resolve_candidate_issues i actor now
      (t\<lparr>db_candidates := update_where (\<lambda>r. dc_id r = i) (\<lambda>_. ?c) (db_candidates t)\<rparr>)"
    using assms c by (auto simp: close_candidate_def Let_def)
  have "dc_id c = i" using get_by_SomeD [OF c] by simp
  then show "get_by dc_id i (db_candidates s') = Some c'"
    unfolding eq resolve_candidate_issues_def using c by (simp, subst get_by_update_where) auto
  show "\<exists>c. get_by dc_id i (db_candidates t) = Some c \<and> dc_listing_a_id c' = dc_listing_a_id c \<and>
       dc_listing_b_id c' = dc_listing_b_id c \<and> dc_rule_version c' = dc_rule_version c"
    using c unfolding eq(1) by (intro exI [of _ c]) simp
qed (use assms in \<open>auto simp: close_candidate_def resolve_candidate_issues_def Let_def split: option.splits\<close>)

lemma no_candidate_issue_left:
  assumes "db_issues s' = update_where (is_candidate_issue i) (\<lambda>r. r\<lparr>ri_status := ReviewIssueStatus.RESOLVED,
       ri_resolved_at := t, ri_resolved_by := a\<rparr>) is"
  shows "filter (is_candidate_issue i) (db_issues s') = []"
  unfolding assms by (induction "is") (auto simp: is_candidate_issue_def)

text \<open>Either verdict ends in \<open>close_candidate\<close>, after a merge that wrote one audit row or on the state as it was.\<close>

lemma verdict_closes:
  assumes "resolve_duplicate_candidate i confirmed actor aty survivor now s = Inr (c', s')"
  obtains t where "close_candidate i (if confirmed then DuplicateCandidateStatus.CONFIRMED_DUPLICATE
      else DuplicateCandidateStatus.CONFIRMED_DISTINCT) actor now s t = Inr (c', s')"
    "length (db_audit_log t) = length (db_audit_log s) + (if confirmed then 1 else 0)"
    "confirmed \<or> t = s"
proof -
  from assms obtain c where c: "get_by dc_id i (db_candidates s) = Some c" "aty = ActorType.HUMAN"
      "dc_status c = DuplicateCandidateStatus.PENDING"
    by (auto simp: resolve_duplicate_candidate_def require_human_Inr split: option.splits if_splits)
  show thesis
  proof (cases confirmed)
    case False
    then show thesis
      using that [of s] assms c by (simp add: resolve_duplicate_candidate_def require_human_def)
  next
    case True
    from assms obtain m t src tgt where "merge_listings src tgt actor aty MergeReasonCode.MANUAL
          (Some (JObj [(''duplicate_candidate_id'', JUuid i)])) now s = Inr (m, t)"
        "close_candidate i DuplicateCandidateStatus.CONFIRMED_DUPLICATE actor now s t = Inr (c', s')"
      using True c by (auto simp: resolve_duplicate_candidate_def require_human_def Let_def
          split: if_splits option.splits elim!: bind_pairE)
    then show thesis
      using that [of t] True by (auto elim!: merge_listings_InrD dest: perform_merge_state(5))
  qed
qed

text \<open>
  A verdict on a duplicate candidate is final: it is recorded on the candidate, closes every open
  review issue about it, refuses any second verdict, and the pair is not proposed again.  A confirmed
  duplicate writes one audit row (that of its merge); a confirmed distinct pair changes no listing
  and no link, and writes no audit row.
\<close>
theorem verdict_is_final:
  assumes "resolve_duplicate_candidate i confirmed actor aty survivor now s = Inr (c, s')"
    and "same_candidate (min x y) (max x y) c"
  shows "dc_status c = (if confirmed then DuplicateCandidateStatus.CONFIRMED_DUPLICATE
      else DuplicateCandidateStatus.CONFIRMED_DISTINCT) \<and>
    get_by dc_id i (db_candidates s') = Some c \<and> filter (is_candidate_issue i) (db_issues s') = [] \<and>
    resolve_duplicate_candidate i again actor2 ActorType.HUMAN survivor2 now2 s' = Inl MergeError \<and>
    propose_candidate x y details s' = s' \<and>
    length (db_audit_log s') = length (db_audit_log s) + (if confirmed then 1 else 0) \<and>
    (confirmed \<or> (db_links s', db_listings s') = (db_links s, db_listings s))"
proof -
  from assms(1) obtain t where t: "close_candidate i (if confirmed then DuplicateCandidateStatus.CONFIRMED_DUPLICATE
      else DuplicateCandidateStatus.CONFIRMED_DISTINCT) actor now s t = Inr (c, s')"
    "length (db_audit_log t) = length (db_audit_log s) + (if confirmed then 1 else 0)"
    "confirmed \<or> t = s"
    by (rule verdict_closes)
  note cl = close_candidate_InrD [OF t(1)]
  have "resolve_duplicate_candidate i again actor2 ActorType.HUMAN survivor2 now2 s' = Inl MergeError"
    using cl(1,2) by (simp add: resolve_duplicate_candidate_def require_human_def)
  moreover have "propose_candidate x y details s' = s'"
    using assms(2) get_by_SomeD [OF cl(2)] by (auto simp: propose_candidate_def Let_def)
  ultimately show ?thesis
    using cl(1,2,5-7) no_candidate_issue_left [OF cl(4)] t(2,3) by auto
qed

definition demo_pair :: db where
  "demo_pair = demo_three\<lparr>db_candidates := [new_candidate 25 10 11 (JObj [])],
     db_issues := [new_issue 26 10 ReviewIssueType.DUPLICATE_CANDIDATE
        ReviewIssueSeverity.WARNING (JObj [(''duplicate_candidate_id'', JUuid 25)])]\<rparr>"

theorem verdict_is_final_witness:
  "\<exists>c s'. resolve_duplicate_candidate 25 False ''op'' ActorType.HUMAN None 40 demo_pair = Inr (c, s') \<and>
     resolve_duplicate_candidate 25 True ''op'' ActorType.HUMAN None 41 s' = Inl MergeError \<and>
     propose_candidate 11 10 JNull s' = s'"
proof -
  have c: "get_by dc_id 25 (db_candidates demo_pair) = Some (new_candidate 25 10 11 (JObj []))"
    by (simp add: demo_pair_def new_candidate_def get_by_Cons)
  then obtain c s' where r: "resolve_duplicate_candidate 25 False ''op'' ActorType.HUMAN None 40 demo_pair = Inr (c, s')"
      "same_candidate 10 11 c"
    by (simp add: resolve_duplicate_candidate_def require_human_def close_candidate_def new_candidate_def
        same_candidate_def Let_def)
  then have "same_candidate (min 11 10) (max 11 10) c" by simp
  from verdict_is_final [OF r(1) this, of True "''op''" None 41 JNull] r show ?thesis by blast
qed

end
