(* ===== verification/Providers.thy ===== *)
theory Providers
  imports Observation
begin

text \<open>
  \<open>contracts/providers.py\<close>: the values that cross the provider interfaces, and the interfaces of a
  listing source, a search index, a geocoder, a router and a language model as records of
  functions.  Whatever stands behind an interface is outside the model, so a call may also raise:
  \<open>'a fallible\<close> is the exception's type name or the value.  A provider that answers differently from
  call to call threads a state \<open>'w\<close> of its own.
\<close>

type_synonym 'a fallible = "string + 'a"

text \<open>\<open>x or default\<close> on optional text: None and the empty text are falsy.\<close>

definition text_or :: "string option \<Rightarrow> string \<Rightarrow> string" where
  "text_or x d = (case x of None \<Rightarrow> d | Some t \<Rightarrow> if t = [] then d else t)"

section \<open>Geocoding and routing\<close>

record GeocodeRequest =
  gq_formatted_address :: string
  gq_locality :: "string option"
  gq_administrative_area :: "string option"
  gq_postal_code :: "string option"

record GeocodeResult =
  gr_status :: ProviderRequestStatus
  gr_latitude :: "rat option"
  gr_longitude :: "rat option"
  gr_precision :: LocationPrecision
  gr_provider_result_id :: "string option"
  gr_formatted_address :: "string option"
  gr_components :: json
  gr_error_code :: "string option"

definition new_geocode_result :: "ProviderRequestStatus \<Rightarrow> GeocodeResult" where
  "new_geocode_result status = \<lparr>gr_status = status, gr_latitude = None, gr_longitude = None,
     gr_precision = LocationPrecision.UNKNOWN, gr_provider_result_id = None,
     gr_formatted_address = None, gr_components = JObj [], gr_error_code = None\<rparr>"

record 'w Geocoder =
  gc_interface_version :: string
  gc_provider_code :: string
  gc_geocode :: "GeocodeRequest \<Rightarrow> 'w \<Rightarrow> GeocodeResult fallible \<times> 'w"

record LatLon =
  ll_latitude :: rat
  ll_longitude :: rat

record WalkingRouteResult =
  wr_status :: ProviderRequestStatus
  wr_distance_m :: "nat option"
  wr_duration_s :: "nat option"
  wr_provider_result_id :: "string option"
  wr_error_code :: "string option"

record TransitRouteLeg =
  tl_mode :: string
  tl_operator :: "string option"
  tl_route_label :: "string option"
  tl_board_stop :: "string option"
  tl_alight_stop :: "string option"
  tl_duration_s :: "nat option"
  tl_distance_m :: "nat option"

record TransitRouteResult =
  tr_status :: ProviderRequestStatus
  tr_result_status :: CommuteResultStatus
  tr_duration_s :: "nat option"
  tr_distance_m :: "nat option"
  tr_transfer_count :: "nat option"
  tr_legs :: "TransitRouteLeg list"
  tr_provider_result_id :: "string option"
  tr_error_code :: "string option"

record 'w Router =
  ro_interface_version :: string
  ro_provider_code :: string
  ro_walk_route :: "LatLon \<Rightarrow> LatLon \<Rightarrow> 'w \<Rightarrow> WalkingRouteResult fallible \<times> 'w"
  ro_transit_route :: "LatLon \<Rightarrow> LatLon \<Rightarrow> datetime \<Rightarrow> 'w \<Rightarrow> TransitRouteResult fallible \<times> 'w"

section \<open>Transit datasets\<close>

record TransitDatasetStop =
  ts_provider_stop_id :: string
  ts_parent_provider_stop_id :: "string option"
  ts_operator_code :: string
  ts_stop_name :: string
  ts_mode :: TransitMode
  ts_latitude :: rat
  ts_longitude :: rat
  ts_route_provider_ids :: "string list"

record TransitDatasetRoute =
  tq_provider_route_id :: string
  tq_operator_code :: string
  tq_route_short_name :: "string option"
  tq_route_long_name :: "string option"
  tq_mode :: TransitMode

record TransitDataset =
  td_operator_code :: string
  td_dataset_version :: string
  td_stops :: "TransitDatasetStop list"
  td_routes :: "TransitDatasetRoute list"

section \<open>Language models\<close>

record LlmTaskRequest =
  lq_task_type :: string
  lq_prompt_version :: string
  lq_output_schema_version :: string
  lq_input_refs :: json
  lq_input_payload :: json
  lq_output_schema :: "json option"
  lq_tier :: ModelTier

record LlmTaskResult =
  lr_status :: ModelExecutionStatus
  lr_output :: "json option"
  lr_confidence :: Confidence
  lr_model_id :: string
  lr_input_tokens :: "int option"
  lr_output_tokens :: "int option"
  lr_error_code :: "string option"

definition new_llm_result :: "ModelExecutionStatus \<Rightarrow> LlmTaskResult" where
  "new_llm_result status = \<lparr>lr_status = status, lr_output = None, lr_confidence = Confidence.UNKNOWN,
     lr_model_id = [], lr_input_tokens = None, lr_output_tokens = None, lr_error_code = None\<rparr>"

record 'w LlmExecutor =
  lx_interface_version :: string
  lx_provider_code :: string
  lx_execute :: "LlmTaskRequest \<Rightarrow> 'w \<Rightarrow> LlmTaskResult fallible \<times> 'w"

section \<open>Web search\<close>

record SearchQuery =
  sq_query :: string
  sq_max_results :: int

definition search_query_valid :: "SearchQuery \<Rightarrow> bool" where
  "search_query_valid q \<longleftrightarrow> 1 \<le> sq_max_results q \<and> sq_max_results q \<le> 100"

record SearchResultItem =
  si_url :: string
  si_title :: "string option"
  si_snippet :: "string option"
  si_rank :: "int option"

record SearchResponse =
  sp_status :: ProviderRequestStatus
  sp_items :: "SearchResultItem list"
  sp_provider_result_id :: "string option"
  sp_error_code :: "string option"

record 'w SearchProvider =
  sv_interface_version :: string
  sv_provider_code :: string
  sv_search :: "SearchQuery \<Rightarrow> 'w \<Rightarrow> SearchResponse fallible \<times> 'w"

section \<open>Listing sources\<close>

record SourcePreflightResult =
  sf_result :: string
  sf_reasons :: "string list"

record AcquisitionPartition =
  pt_source_code :: string
  pt_partition_key :: string
  pt_geography :: string
  pt_layout :: "string option"
  pt_query_parameters :: json
  pt_cursor_state :: "json option"

record DiscoveredItem =
  di_source_native_id :: "string option"
  di_detail_url :: string
  di_card_facts :: json

record DiscoveryPage =
  dp_items :: "DiscoveredItem list"
  dp_next_cursor :: "json option"
  dp_appears_truncated :: bool
  dp_health_markers :: json

record RawListingCapture =
  rc_final_url :: string
  rc_retrieved_at :: datetime
  rc_content_hash :: string
  rc_structured_blocks :: json
  rc_visible_content_ref :: "string option"
  rc_structural_signature :: "string option"

record 'w SourceAdapter =
  sa_interface_version :: string
  sa_source_code :: string
  sa_adapter_version :: string
  sa_preflight :: "'w \<Rightarrow> SourcePreflightResult fallible \<times> 'w"
  sa_plan_partitions :: "'w \<Rightarrow> AcquisitionPartition list fallible \<times> 'w"
  sa_discover :: "AcquisitionPartition \<Rightarrow> json option \<Rightarrow> 'w \<Rightarrow> DiscoveryPage fallible \<times> 'w"
  sa_fetch_detail :: "DiscoveredItem \<Rightarrow> 'w \<Rightarrow> RawListingCapture fallible \<times> 'w"
  sa_extract :: "RawListingCapture \<Rightarrow> 'w \<Rightarrow> ParsedSourceObservation fallible \<times> 'w"

end
