(* ===== verification/Tiering.thy ===== *)
theory Tiering
  imports Providers
begin

text \<open>
  \<open>enrichment/llm/tiering.py\<close>: the bounded policy that calls the default model, repairs once, and
  escalates once.  The executors are interfaces with a state of their own, so the repair call may
  answer differently from the first one.
\<close>

record attempt_entry =
  at_attempt :: string
  at_tier :: string
  at_rejection :: string

record TieredOutcome =
  to_result :: LlmTaskResult
  to_tier_used :: ModelTier
  to_attempts :: "attempt_entry list"
  to_needs_human_review :: bool

type_synonym validator = "LlmTaskRequest \<Rightarrow> LlmTaskResult \<Rightarrow> string option"

definition rejection_of ::
  "validator option \<Rightarrow> LlmTaskRequest \<Rightarrow> LlmTaskResult \<Rightarrow> string option" where
  "rejection_of validator request result =
     (if lr_status result \<noteq> ModelExecutionStatus.SUCCEEDED
      then Some (text_or (lr_error_code result) ''EXECUTION_FAILED'')
      else case validator of None \<Rightarrow> None | Some v \<Rightarrow> v request result)"

text \<open>\<open>terra\<close> and \<open>sol\<close> are the default and the flagship executor.  The closure \<open>attempt\<close>: one call, whose entry is appended to the attempts unless it raises.\<close>

definition attempt ::
  "'w LlmExecutor \<Rightarrow> ModelTier \<Rightarrow> string \<Rightarrow> validator option \<Rightarrow> LlmTaskRequest \<Rightarrow>
   attempt_entry list \<Rightarrow> 'w \<Rightarrow> (LlmTaskResult \<times> string option \<times> attempt_entry list) fallible \<times> 'w" where
  "attempt executor tier label validator request attempts w =
     (let tier_request = request\<lparr>lq_tier := tier\<rparr>
      in case lx_execute executor tier_request w of
           (Inl e, w') \<Rightarrow> (Inl e, w')
         | (Inr result, w') \<Rightarrow>
             (let rejection = rejection_of validator tier_request result
              in (Inr (result, rejection,
                    attempts @ [\<lparr>at_attempt = label, at_tier = ModelTier_value tier,
                                 at_rejection = text_or rejection ''ACCEPTED''\<rparr>]), w')))"

definition accepted :: "LlmTaskResult \<Rightarrow> ModelTier \<Rightarrow> attempt_entry list \<Rightarrow> TieredOutcome" where
  "accepted result tier attempts =
     \<lparr>to_result = result, to_tier_used = tier, to_attempts = attempts, to_needs_human_review = False\<rparr>"

definition terminal :: "LlmTaskResult \<Rightarrow> string option \<Rightarrow> attempt_entry list \<Rightarrow> TieredOutcome" where
  "terminal result rejection attempts =
     \<lparr>to_result =
        (if lr_status result \<noteq> ModelExecutionStatus.SUCCEEDED then result
         else (new_llm_result ModelExecutionStatus.FAILED)
           \<lparr>lr_model_id := lr_model_id result, lr_error_code := rejection\<rparr>),
      to_tier_used = ModelTier.FLAGSHIP_ESCALATION, to_attempts = attempts,
      to_needs_human_review = True\<rparr>"

text \<open>The third step, which ends the sequence either way.\<close>

definition escalate ::
  "'w LlmExecutor \<Rightarrow> validator option \<Rightarrow> LlmTaskRequest \<Rightarrow> attempt_entry list \<Rightarrow> 'w \<Rightarrow>
   TieredOutcome fallible \<times> 'w" where
  "escalate sol validator request attempts w =
     (case attempt sol ModelTier.FLAGSHIP_ESCALATION ''flagship'' validator request attempts w of
        (Inl e, w') \<Rightarrow> (Inl e, w')
      | (Inr (result, None, as), w') \<Rightarrow> (Inr (accepted result ModelTier.FLAGSHIP_ESCALATION as), w')
      | (Inr (result, Some r, as), w') \<Rightarrow> (Inr (terminal result (Some r) as), w'))"

definition execute_tiered ::
  "'w LlmExecutor \<Rightarrow> 'w LlmExecutor \<Rightarrow> validator option \<Rightarrow> LlmTaskRequest \<Rightarrow> 'w \<Rightarrow>
   TieredOutcome fallible \<times> 'w" where
  "execute_tiered terra sol validator request w =
     (case attempt terra ModelTier.DEFAULT_HOSTED ''default'' validator request [] w of
        (Inl e, w1) \<Rightarrow> (Inl e, w1)
      | (Inr (result, None, as), w1) \<Rightarrow> (Inr (accepted result ModelTier.DEFAULT_HOSTED as), w1)
      | (Inr (result, Some r, as), w1) \<Rightarrow>
          if r \<in> {''LLM_SCHEMA_FAILURE'', ''EMPTY_OUTPUT''}
          then (case attempt terra ModelTier.DEFAULT_HOSTED ''repair'' validator request as w1 of
                  (Inl e, w2) \<Rightarrow> (Inl e, w2)
                | (Inr (result2, None, as2), w2) \<Rightarrow>
                    (Inr (accepted result2 ModelTier.DEFAULT_HOSTED as2), w2)
                | (Inr (result2, Some _, as2), w2) \<Rightarrow> escalate sol validator request as2 w2)
          else escalate sol validator request as w1)"

section \<open>What a run of the policy is\<close>

text \<open>An executor that also logs every call: that it was this executor, and the tier of the request.\<close>

datatype callee = Terra | Sol

definition logged :: "callee \<Rightarrow> 'w LlmExecutor \<Rightarrow> ('w \<times> (callee \<times> ModelTier) list) LlmExecutor" where
  "logged c x = \<lparr>lx_interface_version = lx_interface_version x, lx_provider_code = lx_provider_code x,
     lx_execute = (\<lambda>request (w, calls).
       let (r, w') = lx_execute x request w in (r, w', calls @ [(c, lq_tier request)]))\<rparr>"

lemma logged_execute [simp]:
  "lx_execute (logged c x) request (w, calls) =
    (fst (lx_execute x request w), snd (lx_execute x request w), calls @ [(c, lq_tier request)])"
  by (simp add: logged_def split: prod.split)

text \<open>The call that each tier stands for: the default executor, or the flagship one.\<close>

definition call_of :: "ModelTier \<Rightarrow> callee \<times> ModelTier" where
  "call_of tier = (if tier = ModelTier.DEFAULT_HOSTED then Terra else Sol, tier)"

lemma call_of_simps [simp]:
  "call_of ModelTier.DEFAULT_HOSTED = (Terra, ModelTier.DEFAULT_HOSTED)"
  "call_of ModelTier.FLAGSHIP_ESCALATION = (Sol, ModelTier.FLAGSHIP_ESCALATION)"
  by (simp_all add: call_of_def)

text \<open>One attempt: it calls its executor once, under its tier.\<close>

lemma attempt_logged:
  obtains (raised) e w' where
      "attempt (logged c x) tier label validator request as (w, calls) = (Inl e, w', calls @ [(c, tier)])"
  | (answered) result w' as' where
      "attempt (logged c x) tier label validator request as (w, calls) =
        (Inr (result, rejection_of validator (request\<lparr>lq_tier := tier\<rparr>) result, as'), w', calls @ [(c, tier)])"
      "map at_tier as' = map at_tier as @ [ModelTier_value tier]"
proof (cases "lx_execute x (request\<lparr>lq_tier := tier\<rparr>) w")
  case (Pair r w')
  show thesis
  proof (cases r)
    case (Inl e)
    with Pair show thesis by (intro raised) (simp add: attempt_def)
  next
    case (Inr result)
    with Pair show thesis
      by (intro answered [of result "as @ [\<lparr>at_attempt = label, at_tier = ModelTier_value tier,
            at_rejection = text_or (rejection_of validator (request\<lparr>lq_tier := tier\<rparr>) result) ''ACCEPTED''\<rparr>]" w'])
        (simp_all add: attempt_def Let_def)
  qed
qed

text \<open>The outcome is right for the request when an accepted result was validated and a refused one is a failure.\<close>

definition outcome_ok :: "validator option \<Rightarrow> LlmTaskRequest \<Rightarrow> ModelTier list \<Rightarrow> TieredOutcome \<Rightarrow> bool" where
  "outcome_ok validator request tiers out \<longleftrightarrow>
     map at_tier (to_attempts out) = map ModelTier_value tiers \<and> to_tier_used out = last tiers \<and>
     (if to_needs_human_review out
      then last tiers = ModelTier.FLAGSHIP_ESCALATION \<and>
        lr_status (to_result out) \<noteq> ModelExecutionStatus.SUCCEEDED
      else lr_status (to_result out) = ModelExecutionStatus.SUCCEEDED \<and>
        rejection_of validator (request\<lparr>lq_tier := to_tier_used out\<rparr>) (to_result out) = None)"

definition result_ok :: "validator option \<Rightarrow> LlmTaskRequest \<Rightarrow> ModelTier list \<Rightarrow> TieredOutcome fallible \<Rightarrow> bool" where
  "result_ok validator request tiers r \<longleftrightarrow> (case r of Inl _ \<Rightarrow> True | Inr out \<Rightarrow> outcome_ok validator request tiers out)"

lemma rejection_None: "rejection_of v request result = None \<Longrightarrow> lr_status result = ModelExecutionStatus.SUCCEEDED"
  by (auto simp: rejection_of_def split: if_splits)

lemma accepted_ok:
  assumes "rejection_of validator (request\<lparr>lq_tier := tier\<rparr>) result = None"
    and "map at_tier as = map ModelTier_value tiers" "last tiers = tier"
  shows "result_ok validator request tiers (Inr (accepted result tier as))"
  using assms rejection_None [OF assms(1)] by (simp add: result_ok_def outcome_ok_def accepted_def)

lemma terminal_ok:
  assumes "map at_tier as = map ModelTier_value tiers" "last tiers = ModelTier.FLAGSHIP_ESCALATION"
  shows "result_ok validator request tiers (Inr (terminal result rejection as))"
  using assms by (simp add: result_ok_def outcome_ok_def terminal_def new_llm_result_def)

lemma escalate_logged:
  assumes "map at_tier as = map ModelTier_value tiers"
  shows "\<exists>r w'. escalate (logged Sol x) validator request as (w, map call_of tiers) =
      (r, w', map call_of (tiers @ [ModelTier.FLAGSHIP_ESCALATION])) \<and>
    result_ok validator request (tiers @ [ModelTier.FLAGSHIP_ESCALATION]) r"
proof (cases rule: attempt_logged [of Sol x ModelTier.FLAGSHIP_ESCALATION "''flagship''" validator request as w "map call_of tiers"])
  case (raised e w')
  then show ?thesis by (simp add: escalate_def result_ok_def)
next
  case (answered result w' as')
  let ?tiers = "tiers @ [ModelTier.FLAGSHIP_ESCALATION]"
  have at: "map at_tier as' = map ModelTier_value ?tiers" using answered(2) assms by simp
  show ?thesis
  proof (cases "rejection_of validator (request\<lparr>lq_tier := ModelTier.FLAGSHIP_ESCALATION\<rparr>) result")
    case None
    then show ?thesis using accepted_ok [OF None at] answered(1) by (simp add: escalate_def)
  next
    case (Some c)
    then show ?thesis using terminal_ok [OF at] answered(1) by (simp add: escalate_def)
  qed
qed

abbreviation "DH \<equiv> ModelTier.DEFAULT_HOSTED"
abbreviation "FE \<equiv> ModelTier.FLAGSHIP_ESCALATION"

lemma execute_tiered_logged:
  "\<exists>r w' tiers. execute_tiered (logged Terra terra) (logged Sol sol) validator request (w, []) =
       (r, w', map call_of tiers) \<and>
     tiers \<in> {[DH], [DH, DH], [DH, FE], [DH, DH, FE]} \<and> result_ok validator request tiers r"
proof (cases rule: attempt_logged [of Terra terra DH "''default''" validator request "[]" w "[]"])
  case (raised e w')
  then show ?thesis
    by (intro exI [of _ "Inl e"] exI [of _ w'] exI [of _ "[DH]"]) (simp add: execute_tiered_def result_ok_def)
next
  case (answered result w1 as1)
  have at1: "map at_tier as1 = map ModelTier_value [DH]" using answered(2) by simp
  show ?thesis
  proof (cases "rejection_of validator (request\<lparr>lq_tier := DH\<rparr>) result")
    case None
    then show ?thesis
      using accepted_ok [OF None at1] answered(1)
      by (intro exI [of _ "Inr (accepted result DH as1)"] exI [of _ w1] exI [of _ "[DH]"])
        (simp add: execute_tiered_def)
  next
    case first: (Some c)
    show ?thesis
    proof (cases "c \<in> {''LLM_SCHEMA_FAILURE'', ''EMPTY_OUTPUT''}")
      case False
      obtain r w' where "escalate (logged Sol sol) validator request as1 (w1, [(Terra, DH)]) =
          (r, w', map call_of [DH, FE])" "result_ok validator request [DH, FE] r"
        using escalate_logged [OF at1, of sol validator request w1] by auto
      then show ?thesis
        using False first answered(1)
        by (intro exI [of _ r] exI [of _ w'] exI [of _ "[DH, FE]"]) (auto simp: execute_tiered_def)
    next
      case repair: True
      show ?thesis
      proof (cases rule: attempt_logged [of Terra terra DH "''repair''" validator request as1 w1 "[(Terra, DH)]"])
        case (raised e w')
        then show ?thesis
          using repair first answered(1)
          by (intro exI [of _ "Inl e"] exI [of _ w'] exI [of _ "[DH, DH]"])
            (auto simp: execute_tiered_def result_ok_def)
      next
        case again: (answered result2 w2 as2)
        have at2: "map at_tier as2 = map ModelTier_value [DH, DH]" using again(2) at1 by simp
        show ?thesis
        proof (cases "rejection_of validator (request\<lparr>lq_tier := DH\<rparr>) result2")
          case None
          then show ?thesis
            using accepted_ok [OF None at2] repair first answered(1) again(1)
            by (intro exI [of _ "Inr (accepted result2 DH as2)"] exI [of _ w2] exI [of _ "[DH, DH]"])
              (auto simp: execute_tiered_def)
        next
          case (Some c2)
          obtain r w' where "escalate (logged Sol sol) validator request as2 (w2, [(Terra, DH), (Terra, DH)]) =
              (r, w', map call_of [DH, DH, FE])" "result_ok validator request [DH, DH, FE] r"
            using escalate_logged [OF at2, of sol validator request w2] by auto
          with Some show ?thesis
            using repair first answered(1) again(1)
            by (intro exI [of _ r] exI [of _ w'] exI [of _ "[DH, DH, FE]"]) (auto simp: execute_tiered_def)
        qed
      qed
    qed
  qed
qed

lemma execute_tiered_runs:
  obtains r w' tiers where
    "execute_tiered (logged Terra terra) (logged Sol sol) validator request (w, []) = (r, w', map call_of tiers)"
    "tiers \<in> {[DH], [DH, DH], [DH, FE], [DH, DH, FE]}" "result_ok validator request tiers r"
  using execute_tiered_logged [of terra sol validator request w] by (elim exE conjE) (rule that)

section \<open>Properties\<close>

text \<open>
  C20. The policy is bounded whatever the models answer: it calls the default executor once or twice, under
  the default tier, and then the flagship executor at most once, under the flagship tier, in this
  order; its attempts log exactly these calls, and the outcome names the tier of the last one.
\<close>
theorem tiering_is_bounded:
  "\<exists>r w' calls. execute_tiered (logged Terra terra) (logged Sol sol) validator request (w, []) = (r, w', calls) \<and>
     calls \<in> {[(Terra, ModelTier.DEFAULT_HOSTED)],
       [(Terra, ModelTier.DEFAULT_HOSTED), (Terra, ModelTier.DEFAULT_HOSTED)],
       [(Terra, ModelTier.DEFAULT_HOSTED), (Sol, ModelTier.FLAGSHIP_ESCALATION)],
       [(Terra, ModelTier.DEFAULT_HOSTED), (Terra, ModelTier.DEFAULT_HOSTED), (Sol, ModelTier.FLAGSHIP_ESCALATION)]} \<and>
     (case r of Inl _ \<Rightarrow> True | Inr out \<Rightarrow>
        map at_tier (to_attempts out) = map (\<lambda>(_, tier). ModelTier_value tier) calls \<and>
        to_tier_used out = snd (last calls))"
proof -
  obtain r w' tiers where run: "execute_tiered (logged Terra terra) (logged Sol sol) validator request (w, []) =
        (r, w', map call_of tiers)"
      "tiers \<in> {[DH], [DH, DH], [DH, FE], [DH, DH, FE]}" "result_ok validator request tiers r"
    by (rule execute_tiered_runs)
  have calls: "map call_of tiers \<in> {[(Terra, DH)], [(Terra, DH), (Terra, DH)], [(Terra, DH), (Sol, FE)],
      [(Terra, DH), (Terra, DH), (Sol, FE)]}"
    using run(2) by auto
  have "snd (last (map call_of tiers)) = last tiers" using run(2) by auto
  then have c: "case r of Inl _ \<Rightarrow> True | Inr out \<Rightarrow>
      map at_tier (to_attempts out) = map (\<lambda>(_, tier). ModelTier_value tier) (map call_of tiers) \<and>
      to_tier_used out = snd (last (map call_of tiers))"
    using run(3) unfolding result_ok_def outcome_ok_def by (cases r) (simp_all add: call_of_def comp_def)
  show ?thesis by (intro exI conjI) (rule run(1), rule calls, rule c)
qed

text \<open>
  An unvalidated answer is never passed on as a success: an outcome that does not ask for human
  review carries a SUCCEEDED result that the validator accepted under the tier it was made with,
  and one that does carries a failed result after a flagship attempt.
\<close>
theorem tiering_accepts_only_validated:
  assumes "fst (execute_tiered (logged Terra terra) (logged Sol sol) validator request (w, [])) = Inr out"
  shows "if to_needs_human_review out
    then to_tier_used out = ModelTier.FLAGSHIP_ESCALATION \<and>
      lr_status (to_result out) \<noteq> ModelExecutionStatus.SUCCEEDED
    else lr_status (to_result out) = ModelExecutionStatus.SUCCEEDED \<and>
      (case validator of None \<Rightarrow> True
       | Some v \<Rightarrow> v (request\<lparr>lq_tier := to_tier_used out\<rparr>) (to_result out) = None)"
proof -
  obtain r w' tiers where run: "execute_tiered (logged Terra terra) (logged Sol sol) validator request (w, []) =
        (r, w', map call_of tiers)"
      "tiers \<in> {[DH], [DH, DH], [DH, FE], [DH, DH, FE]}" "result_ok validator request tiers r"
    by (rule execute_tiered_runs)
  then have "outcome_ok validator request tiers out" using assms by (simp add: result_ok_def)
  then show ?thesis by (auto simp: outcome_ok_def rejection_of_def split: option.splits if_splits)
qed

text \<open>Two models of which the default answers with a given error code and the flagship succeeds.\<close>

definition failing :: "string \<Rightarrow> unit LlmExecutor" where
  "failing code = \<lparr>lx_interface_version = ''1.0.0'', lx_provider_code = ''stub'',
     lx_execute = (\<lambda>_ w. (Inr ((new_llm_result ModelExecutionStatus.FAILED)\<lparr>lr_error_code := Some code\<rparr>), w))\<rparr>"

definition answering :: "unit LlmExecutor" where
  "answering = \<lparr>lx_interface_version = ''1.0.0'', lx_provider_code = ''stub'',
     lx_execute = (\<lambda>_ w. (Inr ((new_llm_result ModelExecutionStatus.SUCCEEDED)\<lparr>lr_output := Some (JObj [])\<rparr>), w))\<rparr>"

definition demo_request :: LlmTaskRequest where
  "demo_request = \<lparr>lq_task_type = ''t'', lq_prompt_version = ''1'', lq_output_schema_version = ''1'',
     lq_input_refs = JObj [], lq_input_payload = JObj [], lq_output_schema = None, lq_tier = ModelTier.DEFAULT_HOSTED\<rparr>"

lemma demo_accepted:
  "case fst (execute_tiered (logged Terra (failing ''EMPTY_OUTPUT'')) (logged Sol answering) None demo_request ((), [])) of
     Inl _ \<Rightarrow> False | Inr out \<Rightarrow> \<not> to_needs_human_review out"
  by code_simp

theorem tiering_accepts_only_validated_witness:
  "\<exists>out. fst (execute_tiered (logged Terra (failing ''EMPTY_OUTPUT'')) (logged Sol answering) None demo_request ((), [])) = Inr out \<and>
     \<not> to_needs_human_review out \<and> lr_status (to_result out) = ModelExecutionStatus.SUCCEEDED"
proof -
  obtain out where o: "fst (execute_tiered (logged Terra (failing ''EMPTY_OUTPUT'')) (logged Sol answering) None demo_request ((), [])) = Inr out"
      "\<not> to_needs_human_review out"
    using demo_accepted by (auto split: sum.splits)
  from tiering_accepts_only_validated [OF o(1)] o show ?thesis by auto
qed

text \<open>
  A failure of the default model that is no schema failure, an outage or a rejected key for
  instance, is escalated at once: the flagship model is called after a single default attempt.
\<close>
theorem outage_escalates_at_once:
  assumes "fst (lx_execute terra (request\<lparr>lq_tier := ModelTier.DEFAULT_HOSTED\<rparr>) w) = Inr result"
    and "lr_status result \<noteq> ModelExecutionStatus.SUCCEEDED"
    and "text_or (lr_error_code result) ''EXECUTION_FAILED'' \<notin> {''LLM_SCHEMA_FAILURE'', ''EMPTY_OUTPUT''}"
  shows "snd (snd (execute_tiered (logged Terra terra) (logged Sol sol) validator request (w, []))) =
    [(Terra, ModelTier.DEFAULT_HOSTED), (Sol, ModelTier.FLAGSHIP_ESCALATION)]"
proof -
  let ?q = "request\<lparr>lq_tier := ModelTier.DEFAULT_HOSTED\<rparr>"
  obtain as w1 where first: "attempt (logged Terra terra) ModelTier.DEFAULT_HOSTED ''default'' validator request [] (w, []) =
      (Inr (result, Some (text_or (lr_error_code result) ''EXECUTION_FAILED''), as), w1, [(Terra, ModelTier.DEFAULT_HOSTED)])"
      "map at_tier as = [ModelTier_value ModelTier.DEFAULT_HOSTED]"
    using assms(1,2) by (cases "lx_execute terra ?q w") (simp add: attempt_def rejection_of_def Let_def)
  have "map at_tier as = map ModelTier_value [ModelTier.DEFAULT_HOSTED]" using first(2) by simp
  from escalate_logged [OF this, of sol validator request w1] show ?thesis
    using assms(3) first(1) by (auto simp: execute_tiered_def)
qed

theorem outage_escalates_at_once_witness:
  "snd (snd (execute_tiered (logged Terra (failing ''PROVIDER_Timeout'')) (logged Sol answering) None demo_request ((), []))) =
     [(Terra, ModelTier.DEFAULT_HOSTED), (Sol, ModelTier.FLAGSHIP_ESCALATION)]"
  by (rule outage_escalates_at_once [of _ _ _ "(new_llm_result ModelExecutionStatus.FAILED)\<lparr>lr_error_code := Some ''PROVIDER_Timeout''\<rparr>"])
    (simp_all add: failing_def new_llm_result_def text_or_def)

end
