(* ===== verification/Admission.thy ===== *)
theory Admission
  imports Samples
begin

text \<open>
  \<open>canonical/admission.py\<close>: the decision that makes a CANDIDATE or REAPPEARED listing ACTIVE or
  EXCLUDED.  The loop over the joined rows is shown to be one map over the listing table that
  applies a decision table, from which come what it admits, that it converges, and that its counts
  add up.  \<open>store_event\<close>, an insert into the event log with a fresh identifier, is shared with the
  disappearance rules.
\<close>

section \<open>Storing an event\<close>

definition store_event :: "(uuid \<Rightarrow> listing_event) \<Rightarrow> db \<Rightarrow> db" where
  "store_event mk s =
     (let e = mk (db_next s)
      in if \<exists>r \<in> set (db_events s). ev_idempotency_key r = ev_idempotency_key e then s
         else s\<lparr>db_events := db_events s @ [e], db_next := Suc (db_next s)\<rparr>)"

lemma store_event_frame [simp]:
  "manual_state (store_event mk s) = manual_state s"
  "upstream_state (store_event mk s) = upstream_state s"
  "identity_state (store_event mk s) = identity_state s"
  "fact_state (store_event mk s) = fact_state s"
  "db_links (store_event mk s) = db_links s"
  "db_listings (store_event mk s) = db_listings s"
  "db_issues (store_event mk s) = db_issues s"
  "db_overrides (store_event mk s) = db_overrides s"
  "db_source_runs (store_event mk s) = db_source_runs s"
  by (simp_all add: store_event_def Let_def frame_defs)

lemma store_event_next: "db_next s \<le> db_next (store_event mk s)"
  by (simp add: store_event_def Let_def)

section \<open>Operations\<close>

definition ADMISSIBLE_LAYOUTS :: "LayoutClass list" where
  "ADMISSIBLE_LAYOUTS = [LayoutClass.STUDIO, LayoutClass.ONE_BEDROOM, LayoutClass.TWO_BEDROOM]"

definition ACCEPTABLE_PRECISION :: "LocationPrecision list" where
  "ACCEPTABLE_PRECISION = [LocationPrecision.ROOFTOP_OR_ENTRANCE, LocationPrecision.BUILDING,
     LocationPrecision.PARCEL, LocationPrecision.INTERPOLATED_ADDRESS]"

definition BLOCKING_RESOLUTION :: "CanonicalResolutionStatus list" where
  "BLOCKING_RESOLUTION =
     [CanonicalResolutionStatus.CONFLICTING, CanonicalResolutionStatus.REVIEW_REQUIRED]"

definition ADMISSION_RULE_VERSION :: string where
  "ADMISSION_RULE_VERSION = ''admission-v1''"

record AdmissionSummary =
  as_evaluated :: nat
  as_activated :: nat
  as_excluded :: nat
  as_still_candidate :: nat
  as_reasons_held :: "(string \<times> nat) list"

definition new_admission_summary :: AdmissionSummary where
  "new_admission_summary = \<lparr>as_evaluated = 0, as_activated = 0, as_excluded = 0,
     as_still_candidate = 0, as_reasons_held = []\<rparr>"

definition admission_event ::
  "uuid \<Rightarrow> ListingEventType \<Rightarrow> datetime \<Rightarrow> string option \<Rightarrow> uuid \<Rightarrow> listing_event" where
  "admission_event listing event_type now reason i =
     \<lparr>ev_id = i, ev_canonical_listing_id = listing, ev_event_type = event_type,
      ev_event_time = now, ev_refresh_run_id = None, ev_source_observation_id = None,
      ev_before_values = None,
      ev_after_values = Some (JObj [(''rule'', JStr ADMISSION_RULE_VERSION),
        (''reason'', case reason of None \<Rightarrow> JNull | Some r \<Rightarrow> JStr r)]),
      ev_reason_codes = None,
      ev_idempotency_key = (listing, event_type, KeyText ADMISSION_RULE_VERSION)\<rparr>"

definition emit_admission ::
  "uuid \<Rightarrow> ListingEventType \<Rightarrow> datetime \<Rightarrow> string option \<Rightarrow> db \<Rightarrow> db" where
  "emit_admission listing event_type now reason = store_event (admission_event listing event_type now reason)"

definition has_active_link :: "uuid \<Rightarrow> listing_source_link list \<Rightarrow> bool" where
  "has_active_link listing ks \<longleftrightarrow>
     (\<exists>k \<in> set ks. lk_canonical_listing_id k = listing \<and> lk_link_status k = LinkStatus.ACTIVE)"

definition set_lifecycle :: "uuid \<Rightarrow> LifecycleStatus \<Rightarrow> db \<Rightarrow> db" where
  "set_lifecycle listing st = update_listing listing (\<lambda>r. r\<lparr>cl_lifecycle_status := st\<rparr>)"

definition evaluate_one :: "canonical_listing \<Rightarrow> address \<Rightarrow> datetime \<Rightarrow> db \<Rightarrow> string \<times> db" where
  "evaluate_one listing address now s =
     (if cl_layout_class listing = LayoutClass.OUT_OF_SCOPE \<or>
         ad_boundary_status address = BoundaryStatus.OUT_OF_SCOPE
      then (''EXCLUDED'',
            emit_admission (cl_id listing) ListingEventType.EXCLUDED now
              (Some (if cl_layout_class listing = LayoutClass.OUT_OF_SCOPE then ''layout_out_of_scope''
                     else ''geography_out_of_scope''))
              (set_lifecycle (cl_id listing) LifecycleStatus.EXCLUDED s))
      else if cl_layout_class listing \<notin> set ADMISSIBLE_LAYOUTS then (''layout_unresolved'', s)
      else if ad_boundary_status address \<noteq> BoundaryStatus.IN_SCOPE then (''geography_unresolved'', s)
      else if ad_location_precision address \<notin> set ACCEPTABLE_PRECISION
      then (''precision_insufficient'', s)
      else if cl_canonical_resolution_status listing \<in> set BLOCKING_RESOLUTION
      then (''identity_blocked'', s)
      else if \<not> has_active_link (cl_id listing) (db_links s) then (''no_active_source_link'', s)
      else (''ACTIVATED'',
            emit_admission (cl_id listing) ListingEventType.ACTIVATED now None
              (set_lifecycle (cl_id listing) LifecycleStatus.ACTIVE s)))"

definition awaits_admission :: "canonical_listing \<Rightarrow> bool" where
  "awaits_admission l \<longleftrightarrow>
     cl_lifecycle_status l \<in> {LifecycleStatus.CANDIDATE, LifecycleStatus.REAPPEARED}"

text \<open>The listing joined with its building and the building's address.\<close>

definition candidate_rows :: "db \<Rightarrow> (canonical_listing \<times> address) list" where
  "candidate_rows s =
     [(l, a). l \<leftarrow> filter awaits_admission (db_listings s),
              b \<leftarrow> db_buildings s, bd_id b = cl_building_id l,
              a \<leftarrow> db_addresses s, ad_id a = bd_address_id b]"

definition tally :: "string \<Rightarrow> AdmissionSummary \<Rightarrow> AdmissionSummary" where
  "tally oc summary =
     (if oc = ''ACTIVATED'' then summary\<lparr>as_activated := Suc (as_activated summary)\<rparr>
      else if oc = ''EXCLUDED'' then summary\<lparr>as_excluded := Suc (as_excluded summary)\<rparr>
      else summary\<lparr>as_still_candidate := Suc (as_still_candidate summary),
                   as_reasons_held := bump oc (as_reasons_held summary)\<rparr>)"

text \<open>The clock is read once per row: \<open>clock n\<close> is the reading of the n-th evaluation.\<close>

fun evaluate_rows ::
  "(nat \<Rightarrow> datetime) \<Rightarrow> (canonical_listing \<times> address) list \<Rightarrow> AdmissionSummary \<Rightarrow> db \<Rightarrow>
   AdmissionSummary \<times> db" where
  "evaluate_rows clock [] summary s = (summary, s)"
| "evaluate_rows clock ((listing, address) # rows) summary s =
     (let summary' = summary\<lparr>as_evaluated := Suc (as_evaluated summary)\<rparr>;
          (oc, s') = evaluate_one listing address (clock (as_evaluated summary')) s
      in evaluate_rows clock rows (tally oc summary') s')"

definition evaluate_candidates ::
  "nat \<Rightarrow> (nat \<Rightarrow> datetime) \<Rightarrow> db \<Rightarrow> AdmissionSummary \<times> db" where
  "evaluate_candidates limit clock s =
     evaluate_rows clock (take limit (candidate_rows s)) new_admission_summary s"

section \<open>The decision table\<close>

definition out_of_scope :: "canonical_listing \<Rightarrow> address \<Rightarrow> bool" where
  "out_of_scope l a \<longleftrightarrow> cl_layout_class l = LayoutClass.OUT_OF_SCOPE \<or>
     ad_boundary_status a = BoundaryStatus.OUT_OF_SCOPE"

definition admissible :: "listing_source_link list \<Rightarrow> canonical_listing \<Rightarrow> address \<Rightarrow> bool" where
  "admissible ks l a \<longleftrightarrow>
     cl_layout_class l \<in> {LayoutClass.STUDIO, LayoutClass.ONE_BEDROOM, LayoutClass.TWO_BEDROOM} \<and>
     ad_boundary_status a = BoundaryStatus.IN_SCOPE \<and>
     ad_location_precision a \<in> {LocationPrecision.ROOFTOP_OR_ENTRANCE, LocationPrecision.BUILDING,
       LocationPrecision.PARCEL, LocationPrecision.INTERPOLATED_ADDRESS} \<and>
     cl_canonical_resolution_status l \<in>
       {CanonicalResolutionStatus.RESOLVED, CanonicalResolutionStatus.PROVISIONAL} \<and>
     has_active_link (cl_id l) ks"

definition verdict :: "listing_source_link list \<Rightarrow> canonical_listing \<times> address \<Rightarrow> LifecycleStatus" where
  "verdict ks = (\<lambda>(l, a). if out_of_scope l a then LifecycleStatus.EXCLUDED
     else if admissible ks l a then LifecycleStatus.ACTIVE else cl_lifecycle_status l)"

definition decide ::
  "listing_source_link list \<Rightarrow> (canonical_listing \<times> address) list \<Rightarrow> canonical_listing \<Rightarrow> canonical_listing" where
  "decide ks rows r = (case map_of (map (\<lambda>row. (cl_id (fst row), verdict ks row)) rows) (cl_id r) of
     None \<Rightarrow> r | Some st \<Rightarrow> r\<lparr>cl_lifecycle_status := st\<rparr>)"

lemma not_blocking:
  "st \<notin> set BLOCKING_RESOLUTION \<longleftrightarrow> st \<in> {CanonicalResolutionStatus.RESOLVED, CanonicalResolutionStatus.PROVISIONAL}"
  by (cases st) (simp_all add: BLOCKING_RESOLUTION_def)

lemma admissible_iff:
  "admissible ks l a \<longleftrightarrow> cl_layout_class l \<in> set ADMISSIBLE_LAYOUTS \<and>
     ad_boundary_status a = BoundaryStatus.IN_SCOPE \<and>
     ad_location_precision a \<in> set ACCEPTABLE_PRECISION \<and>
     cl_canonical_resolution_status l \<notin> set BLOCKING_RESOLUTION \<and> has_active_link (cl_id l) ks"
  unfolding admissible_def not_blocking by (simp add: ADMISSIBLE_LAYOUTS_def ACCEPTABLE_PRECISION_def)

lemma evaluate_one_cases:
  obtains (excluded) reason where "out_of_scope l a"
      "evaluate_one l a now s = (''EXCLUDED'', emit_admission (cl_id l) ListingEventType.EXCLUDED now reason
         (set_lifecycle (cl_id l) LifecycleStatus.EXCLUDED s))"
  | (activated) "\<not> out_of_scope l a" "admissible (db_links s) l a"
      "evaluate_one l a now s = (''ACTIVATED'', emit_admission (cl_id l) ListingEventType.ACTIVATED now None
         (set_lifecycle (cl_id l) LifecycleStatus.ACTIVE s))"
  | (held) oc where "\<not> out_of_scope l a" "\<not> admissible (db_links s) l a"
      "evaluate_one l a now s = (oc, s)" "oc \<notin> {''EXCLUDED'', ''ACTIVATED''}"
proof -
  consider "out_of_scope l a" | "\<not> out_of_scope l a" "admissible (db_links s) l a"
    | "\<not> out_of_scope l a" "\<not> admissible (db_links s) l a" by blast
  then show thesis
  proof cases
    case 1
    then show thesis by (intro excluded) (auto simp: evaluate_one_def out_of_scope_def)
  next
    case 2
    then show thesis
      by (intro activated)
        (auto simp: evaluate_one_def out_of_scope_def admissible_iff)
  next
    case 3
    have "\<exists>oc. evaluate_one l a now s = (oc, s) \<and> oc \<notin> {''EXCLUDED'', ''ACTIVATED''}"
      using 3 by (simp add: evaluate_one_def out_of_scope_def admissible_iff) blast
    then show thesis using held 3 by blast
  qed
qed

lemma set_lifecycle_listings:
  "db_listings (set_lifecycle i st s) = update_where (\<lambda>r. cl_id r = i) (\<lambda>r. r\<lparr>cl_lifecycle_status := st\<rparr>) (db_listings s)"
  by (simp add: set_lifecycle_def update_listing_def)

definition admission_frame :: "db \<Rightarrow> db \<Rightarrow> bool" where
  "admission_frame s s' \<longleftrightarrow> manual_state s' = manual_state s \<and> upstream_state s' = upstream_state s \<and>
     identity_state s' = identity_state s \<and> fact_state s' = fact_state s \<and> db_issues s' = db_issues s"

lemma admission_frame_refl [simp]: "admission_frame s s"
  by (simp add: admission_frame_def)

lemma admission_frame_trans: "admission_frame s t \<Longrightarrow> admission_frame t u \<Longrightarrow> admission_frame s u"
  by (simp add: admission_frame_def)

lemma admission_frame_write:
  "admission_frame s (emit_admission i ty now reason (set_lifecycle j st s))"
  by (simp add: admission_frame_def emit_admission_def set_lifecycle_def update_listing_def frame_defs
      store_event_def Let_def)

lemma admission_frame_links: "admission_frame s s' \<Longrightarrow> db_links s' = db_links s"
  by (simp add: admission_frame_def identity_state_def)

lemma evaluate_one_effect:
  assumes "evaluate_one l a now s = (oc, s')" "l \<in> set (db_listings s)" "distinct (map cl_id (db_listings s))"
  shows "db_listings s' = update_where (\<lambda>r. cl_id r = cl_id l)
      (\<lambda>r. r\<lparr>cl_lifecycle_status := verdict (db_links s) (l, a)\<rparr>) (db_listings s)"
    "admission_frame s s'"
proof -
  have same: "r = l" if "r \<in> set (db_listings s)" "cl_id r = cl_id l" for r
    using that assms(2,3) by (auto simp: distinct_map inj_on_def)
  have "db_listings s' = update_where (\<lambda>r. cl_id r = cl_id l)
      (\<lambda>r. r\<lparr>cl_lifecycle_status := verdict (db_links s) (l, a)\<rparr>) (db_listings s) \<and> admission_frame s s'"
  proof (cases rule: evaluate_one_cases [of l a now s])
    case (excluded reason)
    then show ?thesis
      using assms(1) admission_frame_write by (auto simp: verdict_def emit_admission_def set_lifecycle_listings)
  next
    case activated
    then show ?thesis
      using assms(1) admission_frame_write by (auto simp: verdict_def emit_admission_def set_lifecycle_listings)
  next
    case (held oc')
    then have "update_where (\<lambda>r. cl_id r = cl_id l)
        (\<lambda>r. r\<lparr>cl_lifecycle_status := verdict (db_links s) (l, a)\<rparr>) (db_listings s) = db_listings s"
      by (intro update_where_id) (auto simp: verdict_def dest: same)
    with held assms(1) show ?thesis by simp
  qed
  then show "db_listings s' = update_where (\<lambda>r. cl_id r = cl_id l)
      (\<lambda>r. r\<lparr>cl_lifecycle_status := verdict (db_links s) (l, a)\<rparr>) (db_listings s)" "admission_frame s s'"
    by blast+
qed

lemma decide_Cons:
  "cl_id (fst row) \<notin> (cl_id \<circ> fst) ` set rows \<Longrightarrow> decide ks (row # rows) r =
     decide ks rows (if cl_id r = cl_id (fst row) then r\<lparr>cl_lifecycle_status := verdict ks row\<rparr> else r)"
  by (auto simp: decide_def map_of_eq_None_iff image_image split: option.splits dest!: map_of_SomeD)

text \<open>The loop is one map over the listings.\<close>

lemma evaluate_rows_map:
  assumes "evaluate_rows clock rows summary s = (summary', s')"
    and "distinct (map cl_id (db_listings s))" "distinct (map (cl_id \<circ> fst) rows)"
    and "fst ` set rows \<subseteq> set (db_listings s)"
  shows "db_listings s' = map (decide (db_links s) rows) (db_listings s) \<and> admission_frame s s'"
  using assms
proof (induction rows arbitrary: summary s)
  case Nil
  then show ?case by (simp add: decide_def)
next
  case (Cons row rows)
  obtain l a where row: "row = (l, a)" by (cases row)
  obtain oc t where one: "evaluate_one l a (clock (Suc (as_evaluated summary))) s = (oc, t)"
    by (cases rule: prod.exhaust)
  have l: "l \<in> set (db_listings s)" using Cons.prems(4) row by simp
  note eff = evaluate_one_effect [OF one l Cons.prems(2)]
  have ids: "map cl_id (db_listings t) = map cl_id (db_listings s)"
    unfolding eff(1) by (simp add: map_update_where)
  have fresh: "cl_id l \<notin> (cl_id \<circ> fst) ` set rows" using Cons.prems(3) row by simp
  have "fst ` set rows \<subseteq> set (db_listings t)"
  proof
    fix r assume r: "r \<in> fst ` set rows"
    then have "cl_id r \<noteq> cl_id l" using fresh by force
    moreover have "r \<in> set (db_listings s)" using r Cons.prems(4) by auto
    ultimately show "r \<in> set (db_listings t)" unfolding eff(1) by (intro untouched_by_update) simp_all
  qed
  then have "db_listings s' = map (decide (db_links t) rows) (db_listings t) \<and> admission_frame t s'"
    using Cons.IH [of _ t] Cons.prems(1-3) one ids by (simp add: row Let_def)
  moreover have "map (decide (db_links s) rows) (db_listings t) = map (decide (db_links s) (row # rows)) (db_listings s)"
    unfolding eff(1) update_where_def row using fresh by (simp add: decide_Cons)
  ultimately show ?case
    using eff(2) admission_frame_trans admission_frame_links by metis
qed

section \<open>The join\<close>

definition address_of :: "canonical_listing \<Rightarrow> db \<Rightarrow> address option" where
  "address_of l s = (case get_by bd_id (cl_building_id l) (db_buildings s) of
     None \<Rightarrow> None | Some b \<Rightarrow> get_by ad_id (bd_address_id b) (db_addresses s))"

definition tables_keyed :: "db \<Rightarrow> bool" where
  "tables_keyed s \<longleftrightarrow> distinct (map cl_id (db_listings s)) \<and> distinct (map bd_id (db_buildings s)) \<and>
     distinct (map ad_id (db_addresses s))"

lemma join_one:
  assumes "distinct (map f xs)"
  shows "concat (map (\<lambda>x. if f x = k then h x else []) xs) = (case get_by f k xs of None \<Rightarrow> [] | Some x \<Rightarrow> h x)"
  using assms
proof (induction xs)
  case (Cons x xs)
  show ?case
  proof (cases "f x = k")
    case True
    then have "get_by f k xs = None" using Cons.prems by (simp add: get_by_None_iff)
    with True Cons show ?thesis by (simp add: get_by_Cons)
  next
    case False
    with Cons show ?thesis by (simp add: get_by_Cons)
  qed
qed simp

lemma candidate_rows_keyed:
  assumes "tables_keyed s"
  shows "candidate_rows s =
    List.map_filter (\<lambda>l. map_option (Pair l) (address_of l s)) (filter awaits_admission (db_listings s))"
proof -
  have "concat (map (\<lambda>b. if bd_id b = cl_building_id l then
          concat (map (\<lambda>a. if ad_id a = bd_address_id b then [(l, a)] else []) (db_addresses s)) else [])
        (db_buildings s)) = (case address_of l s of None \<Rightarrow> [] | Some a \<Rightarrow> [(l, a)])" for l
    using assms unfolding tables_keyed_def
    by (simp add: join_one address_of_def split: option.split)
  then have "candidate_rows s = concat (map (\<lambda>l. case address_of l s of None \<Rightarrow> [] | Some a \<Rightarrow> [(l, a)])
      (filter awaits_admission (db_listings s)))"
    unfolding candidate_rows_def by simp
  moreover have "concat (map (\<lambda>l. case address_of l s of None \<Rightarrow> [] | Some a \<Rightarrow> [(l, a)]) ls) =
      List.map_filter (\<lambda>l. map_option (Pair l) (address_of l s)) ls" for ls
    by (induction ls) (auto simp: map_filter_simps split: option.splits)
  ultimately show ?thesis by simp
qed

lemma in_candidate_rows:
  assumes "tables_keyed s"
  shows "(l, a) \<in> set (candidate_rows s) \<longleftrightarrow>
    l \<in> set (db_listings s) \<and> awaits_admission l \<and> address_of l s = Some a"
  unfolding candidate_rows_keyed [OF assms] by (force simp: List.map_filter_def)

lemma candidate_rows_distinct:
  assumes "tables_keyed s"
  shows "distinct (map (cl_id \<circ> fst) (candidate_rows s))"
proof -
  have "distinct (map (cl_id \<circ> fst) (List.map_filter (\<lambda>l. map_option (Pair l) (address_of l s)) ls)) \<and>
      (cl_id \<circ> fst) ` set (List.map_filter (\<lambda>l. map_option (Pair l) (address_of l s)) ls) \<subseteq> cl_id ` set ls"
    if "distinct (map cl_id ls)" for ls
    using that
  proof (induction ls)
    case (Cons l ls)
    then show ?case by (cases "address_of l s") (auto simp: map_filter_simps)
  qed (simp add: map_filter_simps)
  moreover have "distinct (map cl_id (filter awaits_admission (db_listings s)))"
    using assms by (auto simp: tables_keyed_def distinct_map intro: inj_on_subset)
  ultimately show ?thesis unfolding candidate_rows_keyed [OF assms] by blast
qed

lemma rows_ready:
  assumes "tables_keyed s"
  shows "distinct (map (cl_id \<circ> fst) (take n (candidate_rows s)))"
    "fst ` set (take n (candidate_rows s)) \<subseteq> set (db_listings s)"
proof -
  show "distinct (map (cl_id \<circ> fst) (take n (candidate_rows s)))"
    using candidate_rows_distinct [OF assms] by (metis distinct_take take_map)
  have "set (take n (candidate_rows s)) \<subseteq> set (candidate_rows s)" by (rule set_take_subset)
  then show "fst ` set (take n (candidate_rows s)) \<subseteq> set (db_listings s)"
    using in_candidate_rows [OF assms] by fastforce
qed

text \<open>What the decision does to the row of a listing.\<close>

lemma decide_cases:
  assumes "distinct (map (cl_id \<circ> fst) rows)" "fst ` set rows \<subseteq> set ls" "distinct (map cl_id ls)" "r \<in> set ls"
  obtains (other) "r \<notin> fst ` set rows" "decide ks rows r = r"
  | (row) a where "(r, a) \<in> set rows" "decide ks rows r = r\<lparr>cl_lifecycle_status := verdict ks (r, a)\<rparr>"
proof -
  let ?m = "map (\<lambda>row. (cl_id (fst row), verdict ks row)) rows"
  have dist: "distinct (map fst ?m)" using assms(1) by (simp add: comp_def)
  have same: "r' = r" if "r' \<in> set ls" "cl_id r' = cl_id r" for r'
    using that assms(3,4) by (auto simp: distinct_map inj_on_def)
  show thesis
  proof (cases "map_of ?m (cl_id r)")
    case None
    then have "r \<notin> fst ` set rows" by (auto simp: map_of_eq_None_iff image_image)
    with None show thesis using other by (simp add: decide_def)
  next
    case (Some st)
    then obtain row where r: "row \<in> set rows" "cl_id (fst row) = cl_id r" "st = verdict ks row"
      by (auto dest!: map_of_SomeD)
    then have "fst row = r" using same assms(2) by auto
    then have "row = (r, snd row)" by (cases row) simp
    with r(1,3) Some show thesis using row [of "snd row"] by (simp add: decide_def)
  qed
qed

section \<open>Counting\<close>

definition counted :: "AdmissionSummary \<Rightarrow> bool" where
  "counted sm \<longleftrightarrow> as_activated sm + as_excluded sm + as_still_candidate sm = as_evaluated sm \<and>
     sum_list (map snd (as_reasons_held sm)) = as_still_candidate sm"

lemma counted_tally: "counted sm \<Longrightarrow> counted (tally oc (sm\<lparr>as_evaluated := Suc (as_evaluated sm)\<rparr>))"
  by (simp add: counted_def tally_def sum_bump)

lemma tally_evaluated [simp]: "as_evaluated (tally oc sm) = as_evaluated sm"
  by (simp add: tally_def)

lemma evaluate_rows_counts:
  "evaluate_rows clock rows sm s = (sm', s') \<Longrightarrow> counted sm \<Longrightarrow>
   counted sm' \<and> as_evaluated sm' = as_evaluated sm + length rows"
proof (induction rows arbitrary: sm s)
  case (Cons row rows)
  obtain l a where row: "row = (l, a)" by (cases row)
  obtain oc t where one: "evaluate_one l a (clock (Suc (as_evaluated sm))) s = (oc, t)" by (cases rule: prod.exhaust)
  show ?case using Cons.IH [OF _ counted_tally [OF Cons.prems(2), of oc]] Cons.prems(1) by (simp add: row one Let_def)
qed simp

text \<open>Rows that are all held change nothing.\<close>

lemma evaluate_rows_held:
  assumes "\<And>l a. (l, a) \<in> set rows \<Longrightarrow> \<not> out_of_scope l a \<and> \<not> admissible (db_links s) l a"
  shows "\<exists>sm'. evaluate_rows clock rows sm s = (sm', s) \<and> as_activated sm' = as_activated sm \<and>
    as_excluded sm' = as_excluded sm"
  using assms
proof (induction rows arbitrary: sm)
  case (Cons row rows)
  obtain l a where row: "row = (l, a)" by (cases row)
  have held: "\<not> out_of_scope l a \<and> \<not> admissible (db_links s) l a" using Cons.prems [of l a] row by simp
  obtain oc where oc: "evaluate_one l a (clock (Suc (as_evaluated sm))) s = (oc, s)" "oc \<notin> {''EXCLUDED'', ''ACTIVATED''}"
    using held by (cases rule: evaluate_one_cases [of l a "clock (Suc (as_evaluated sm))" s]) auto
  have "\<exists>sm'. evaluate_rows clock rows (tally oc (sm\<lparr>as_evaluated := Suc (as_evaluated sm)\<rparr>)) s = (sm', s) \<and>
      as_activated sm' = as_activated sm \<and> as_excluded sm' = as_excluded sm"
    using Cons.IH [of "tally oc (sm\<lparr>as_evaluated := Suc (as_evaluated sm)\<rparr>)"] Cons.prems oc(2)
    by (auto simp: tally_def)
  then show ?case using oc(1) by (simp add: row Let_def)
qed simp

interpretation admission: automatic_step "\<lambda>(limit, clock) s. Inr (evaluate_candidates limit clock s)"
proof unfold_locales
  fix i :: "nat \<times> (nat \<Rightarrow> datetime)" and s x s'
  have frame: "manual_state s' = manual_state s" if "evaluate_rows clock rows sm s = (sm', s')" for clock rows sm sm' s s'
    using that
  proof (induction rows arbitrary: sm s)
    case (Cons row rows)
    obtain l a where row: "row = (l, a)" by (cases row)
    obtain oc t where one: "evaluate_one l a (clock (Suc (as_evaluated sm))) s = (oc, t)" by (cases rule: prod.exhaust)
    have "manual_state t = manual_state s"
      using one by (cases rule: evaluate_one_cases [of l a "clock (Suc (as_evaluated sm))" s])
        (auto simp: admission_frame_write [unfolded admission_frame_def])
    then show ?case using Cons.IH [of _ t] Cons.prems by (simp add: row one Let_def)
  qed simp
  assume "(case i of (limit, clock) \<Rightarrow> \<lambda>s. Inr (evaluate_candidates limit clock s)) s = Inr (x, s')"
  then show "manual_state s' = manual_state s"
    by (cases i) (auto simp: evaluate_candidates_def intro: frame)
qed

lemma evaluate_candidates_map:
  assumes "tables_keyed s" "evaluate_candidates limit clock s = (sm, s')"
  shows "db_listings s' = map (decide (db_links s) (take limit (candidate_rows s))) (db_listings s)"
    "admission_frame s s'"
proof -
  have "distinct (map cl_id (db_listings s))" using assms(1) by (simp add: tables_keyed_def)
  from evaluate_rows_map [OF assms(2) [unfolded evaluate_candidates_def] this rows_ready [OF assms(1)]]
  show "db_listings s' = map (decide (db_links s) (take limit (candidate_rows s))) (db_listings s)"
    "admission_frame s s'" by blast+
qed

lemma decided_row_cases:
  assumes "tables_keyed s" "l \<in> set (db_listings s)"
  obtains (other) "l \<notin> fst ` set (take n (candidate_rows s))"
      "decide (db_links s) (take n (candidate_rows s)) l = l"
  | (row) a where "awaits_admission l" "address_of l s = Some a"
      "decide (db_links s) (take n (candidate_rows s)) l = l\<lparr>cl_lifecycle_status := verdict (db_links s) (l, a)\<rparr>"
proof (rule decide_cases [OF rows_ready [OF assms(1)] _ assms(2)])
  show "distinct (map cl_id (db_listings s))" using assms(1) by (simp add: tables_keyed_def)
next
  fix a assume r: "(l, a) \<in> set (take n (candidate_rows s))"
    "decide (db_links s) (take n (candidate_rows s)) l = l\<lparr>cl_lifecycle_status := verdict (db_links s) (l, a)\<rparr>"
  then have "(l, a) \<in> set (candidate_rows s)" using set_take_subset by fast
  then show thesis using row r(2) in_candidate_rows [OF assms(1)] by blast
qed (rule other)

text \<open>After a complete run every listing that still waits is one the decision table holds.\<close>

lemma leftover_held:
  assumes keyed: "tables_keyed s" and run: "evaluate_candidates limit clock s = (sm, s')"
    and all: "length (candidate_rows s) \<le> limit" and left: "(l', a) \<in> set (candidate_rows s')"
  shows "\<not> out_of_scope l' a \<and> \<not> admissible (db_links s') l' a"
proof -
  let ?d = "decide (db_links s) (take limit (candidate_rows s))"
  note ls = evaluate_candidates_map [OF keyed run]
  have tables: "db_buildings s' = db_buildings s" "db_addresses s' = db_addresses s" "db_links s' = db_links s"
    using ls(2) by (simp_all add: admission_frame_def identity_state_def)
  have addr: "address_of r s' = address_of r s" for r unfolding address_of_def tables ..
  have "cl_id (decide ks rows r) = cl_id r" for ks rows r by (simp add: decide_def split: option.split)
  then have keyed': "tables_keyed s'" using keyed by (simp add: tables_keyed_def tables ls(1) comp_def)
  have l': "l' \<in> set (db_listings s')" "awaits_admission l'" "address_of l' s' = Some a"
    using left in_candidate_rows [OF keyed'] by auto
  from l'(1) obtain l where l: "l \<in> set (db_listings s)" "l' = ?d l" by (auto simp: ls(1))
  show ?thesis
    using keyed l(1)
  proof (cases rule: decided_row_cases [where n = limit])
    case other
    then have "(l, a) \<in> set (candidate_rows s)"
      using l l' addr by (simp add: in_candidate_rows [OF keyed])
    with other(1) all show ?thesis by force
  next
    case (row b)
    have "address_of l' s = address_of l s" by (simp add: address_of_def l(2) row(3))
    then have "b = a" using row(2) l'(3) addr by simp
    then show ?thesis
      using l'(2) row(1) by (auto simp: l(2) row(3) tables verdict_def awaits_admission_def out_of_scope_def
          admissible_def split: if_splits)
  qed
qed

section \<open>Properties\<close>

text \<open>
  C16. The admission run equals one application of the decision table to the listing table: of the
  first \<open>limit\<close> candidates an out-of-scope one becomes EXCLUDED, one that passes all five checks
  becomes ACTIVE, and every other row of the table is as before; apart from the event log no other
  table changes.
\<close>
theorem admission_is_a_map:
  assumes "tables_keyed s"
  shows "db_listings (snd (evaluate_candidates limit clock s)) =
      map (decide (db_links s) (take limit (candidate_rows s))) (db_listings s) \<and>
    admission_frame s (snd (evaluate_candidates limit clock s))"
  using evaluate_candidates_map [OF assms, of limit clock] by (metis prod.collapse)

lemma demo_waiting_keyed: "tables_keyed demo_waiting"
  by (simp add: tables_keyed_def demo_defs)

theorem admission_is_a_map_witness:
  "map cl_lifecycle_status (db_listings (snd (evaluate_candidates 1000 (\<lambda>_. 60) demo_waiting))) =
     [LifecycleStatus.ACTIVE, LifecycleStatus.CANDIDATE, LifecycleStatus.EXCLUDED]"
proof -
  have "map cl_lifecycle_status (map (decide (db_links demo_waiting) (take 1000 (candidate_rows demo_waiting)))
      (db_listings demo_waiting)) = [LifecycleStatus.ACTIVE, LifecycleStatus.CANDIDATE, LifecycleStatus.EXCLUDED]"
    by code_simp
  with admission_is_a_map [OF demo_waiting_keyed, of 1000 "\<lambda>_. 60"] show ?thesis by (simp only:)
qed

text \<open>
  Nothing is admitted optimistically: every row of the listing table after a run is an old row, an
  old candidate that is out of scope and now EXCLUDED, or an old candidate that passed all five
  checks and is now ACTIVE; no run makes a listing INACTIVE or touches one that was not waiting.
\<close>
theorem admission_only_admits:
  assumes "tables_keyed s" "l' \<in> set (db_listings (snd (evaluate_candidates limit clock s)))"
  shows "l' \<in> set (db_listings s) \<or>
    (\<exists>l \<in> set (db_listings s). \<exists>a. awaits_admission l \<and> address_of l s = Some a \<and>
       (out_of_scope l a \<and> l' = l\<lparr>cl_lifecycle_status := LifecycleStatus.EXCLUDED\<rparr> \<or>
        \<not> out_of_scope l a \<and> admissible (db_links s) l a \<and>
          l' = l\<lparr>cl_lifecycle_status := LifecycleStatus.ACTIVE\<rparr>))"
proof -
  obtain sm s' where r: "evaluate_candidates limit clock s = (sm, s')" by (cases rule: prod.exhaust)
  from assms(2) obtain l where l: "l \<in> set (db_listings s)"
      "l' = decide (db_links s) (take limit (candidate_rows s)) l"
    by (auto simp: r evaluate_candidates_map [OF assms(1) r])
  show ?thesis
    using assms(1) l(1)
  proof (cases rule: decided_row_cases [where n = limit])
    case other
    then show ?thesis using l by simp
  next
    case (row a)
    then show ?thesis
      using l(1) unfolding l(2) row(3) verdict_def by (cases l) auto
  qed
qed

theorem admission_only_admits_witness:
  "\<exists>l \<in> set (db_listings demo_waiting). \<exists>a. awaits_admission l \<and> admissible (db_links demo_waiting) l a"
proof -
  let ?l = "(demo_listing 10)\<lparr>cl_lifecycle_status := LifecycleStatus.ACTIVE\<rparr>"
  have new: "?l \<notin> set (db_listings demo_waiting)" "cl_layout_class ?l \<noteq> LayoutClass.OUT_OF_SCOPE"
    by (simp_all add: demo_defs)
  have "list_ex (\<lambda>l. l = ?l) (db_listings (snd (evaluate_candidates 1000 (\<lambda>_. 60) demo_waiting)))" by code_simp
  then have "?l \<in> set (db_listings (snd (evaluate_candidates 1000 (\<lambda>_. 60) demo_waiting)))"
    by (auto simp: list_ex_iff)
  from admission_only_admits [OF demo_waiting_keyed this] new(1)
  obtain l a where "l \<in> set (db_listings demo_waiting)" "awaits_admission l"
    "?l = l\<lparr>cl_lifecycle_status := LifecycleStatus.EXCLUDED\<rparr> \<or>
     admissible (db_links demo_waiting) l a" by blast
  moreover have "?l \<noteq> l\<lparr>cl_lifecycle_status := LifecycleStatus.EXCLUDED\<rparr>" for l
  proof
    assume "?l = l\<lparr>cl_lifecycle_status := LifecycleStatus.EXCLUDED\<rparr>"
    then have "cl_lifecycle_status ?l = LifecycleStatus.EXCLUDED" by simp
    then show False by simp
  qed
  ultimately show ?thesis by blast
qed

text \<open>
  Admission converges: after a run whose limit covers all waiting listings, a further run decides
  nothing new and leaves the database as it is, event log included.
\<close>
theorem admission_converges:
  assumes "tables_keyed s" "length (candidate_rows s) \<le> limit"
  shows "\<exists>sm. evaluate_candidates again clock2 (snd (evaluate_candidates limit clock s)) =
      (sm, snd (evaluate_candidates limit clock s)) \<and> as_activated sm = 0 \<and> as_excluded sm = 0"
proof -
  obtain sm s' where r: "evaluate_candidates limit clock s = (sm, s')" by (cases rule: prod.exhaust)
  have "\<exists>sm'. evaluate_rows clock2 (take again (candidate_rows s')) new_admission_summary s' = (sm', s') \<and>
      as_activated sm' = as_activated new_admission_summary \<and> as_excluded sm' = as_excluded new_admission_summary"
    by (rule evaluate_rows_held) (use leftover_held [OF assms(1) r assms(2)] set_take_subset in fast)
  moreover have "snd (evaluate_candidates limit clock s) = s'" by (simp add: r)
  ultimately show ?thesis
    unfolding evaluate_candidates_def [of again] by (simp add: new_admission_summary_def)
qed

theorem admission_converges_witness:
  "\<exists>sm. evaluate_candidates 1000 (\<lambda>_. 70) (snd (evaluate_candidates 1000 (\<lambda>_. 60) demo_waiting)) =
     (sm, snd (evaluate_candidates 1000 (\<lambda>_. 60) demo_waiting)) \<and> as_activated sm = 0"
proof -
  have "length (candidate_rows demo_waiting) \<le> 1000" by code_simp
  from admission_converges [OF demo_waiting_keyed this, of 1000 "\<lambda>_. 70" "\<lambda>_. 60"] show ?thesis by blast
qed

text \<open>
  The counts of a run add up: as many rows are evaluated as there are waiting listings within the
  limit, each is activated, excluded or held, and the held ones are broken down by their reason.
\<close>
theorem admission_counts:
  "let sm = fst (evaluate_candidates limit clock s)
   in as_evaluated sm = min limit (length (candidate_rows s)) \<and>
      as_activated sm + as_excluded sm + as_still_candidate sm = as_evaluated sm \<and>
      sum_list (map snd (as_reasons_held sm)) = as_still_candidate sm"
proof -
  obtain sm s' where r: "evaluate_candidates limit clock s = (sm, s')" by (cases rule: prod.exhaust)
  have "counted new_admission_summary" by (simp add: counted_def new_admission_summary_def)
  from evaluate_rows_counts [OF r [unfolded evaluate_candidates_def] this]
  show ?thesis by (simp add: r counted_def new_admission_summary_def Let_def min.commute)
qed

end
