(* ===== verification/Disappearance.thy ===== *)
theory Disappearance
  imports Admission
begin

text \<open>
  \<open>canonical/disappearance.py\<close>: what the absence of a listing from a healthy source run leads to.
  Both loops are shown to be one map over their table, the link table under a decision table and
  the listing table under the eligibility test, behind the health gate and the circuit breaker.
\<close>

section \<open>Operations\<close>

definition REMOVAL_CONSECUTIVE_MISSES :: nat where
  "REMOVAL_CONSECUTIVE_MISSES = 2"

definition REMOVAL_MIN_ELAPSED :: int where
  "REMOVAL_MIN_ELAPSED = hours 36"

definition BREAKER_ABSOLUTE_MAX :: nat where
  "BREAKER_ABSOLUTE_MAX = 50"

definition DISAPPEARANCE_RULE_VERSION :: string where
  "DISAPPEARANCE_RULE_VERSION = ''disappearance-v1''"

record DisappearanceSummary =
  ds_refused_reason :: "string option"
  ds_links_marked_missing :: nat
  ds_links_removed :: nat
  ds_listings_inactivated :: nat
  ds_breaker_tripped :: bool
  ds_proposed_inactivations :: nat
  ds_details :: json

definition new_disappearance_summary :: DisappearanceSummary where
  "new_disappearance_summary = \<lparr>ds_refused_reason = None, ds_links_marked_missing = 0,
     ds_links_removed = 0, ds_listings_inactivated = 0, ds_breaker_tripped = False,
     ds_proposed_inactivations = 0, ds_details = JObj []\<rparr>"

definition disappearance_event ::
  "uuid \<Rightarrow> ListingEventType \<Rightarrow> datetime \<Rightarrow> key_suffix \<Rightarrow> uuid \<Rightarrow> listing_event" where
  "disappearance_event listing event_type now tail i =
     \<lparr>ev_id = i, ev_canonical_listing_id = listing, ev_event_type = event_type,
      ev_event_time = now, ev_refresh_run_id = None, ev_source_observation_id = None,
      ev_before_values = None,
      ev_after_values = Some (JObj [(''rule'', JStr DISAPPEARANCE_RULE_VERSION)]),
      ev_reason_codes = None, ev_idempotency_key = (listing, event_type, tail)\<rparr>"

definition emit_disappearance ::
  "uuid \<Rightarrow> ListingEventType \<Rightarrow> datetime \<Rightarrow> key_suffix \<Rightarrow> db \<Rightarrow> db" where
  "emit_disappearance listing event_type now tail = store_event (disappearance_event listing event_type now tail)"

text \<open>The links whose latest observation belongs to the run.\<close>

definition observed_in :: "source_observation list \<Rightarrow> uuid \<Rightarrow> listing_source_link \<Rightarrow> bool" where
  "observed_in os run k \<longleftrightarrow> (\<exists>r \<in> set os. so_id r = lk_latest_observation_id k \<and> so_source_run_id r = run)"

definition observed_link_ids :: "uuid \<Rightarrow> db \<Rightarrow> uuid list" where
  "observed_link_ids run s = map lk_id (filter (observed_in (db_observations s) run) (db_links s))"

definition healthy_runs_since :: "uuid \<Rightarrow> datetime \<Rightarrow> source_run list \<Rightarrow> nat" where
  "healthy_runs_since source since rs = length (filter (\<lambda>r. sr_source_id r = source \<and>
     sr_health_gate_passed r = Some True \<and> sr_started_at r > since) rs)"

definition set_link_status :: "uuid \<Rightarrow> LinkStatus \<Rightarrow> db \<Rightarrow> db" where
  "set_link_status i st s = s\<lparr>db_links := update_where (\<lambda>r. lk_id r = i) (\<lambda>r. r\<lparr>lk_link_status := st\<rparr>) (db_links s)\<rparr>"

definition process_link ::
  "source_run \<Rightarrow> uuid list \<Rightarrow> datetime \<Rightarrow> listing_source_link \<Rightarrow> DisappearanceSummary \<times> db \<Rightarrow>
   DisappearanceSummary \<times> db" where
  "process_link run observed now k = (\<lambda>(summary, s).
     if lk_id k \<in> set observed
     then (summary,
           if lk_link_status k = LinkStatus.MISSING then set_link_status (lk_id k) LinkStatus.ACTIVE s else s)
     else if healthy_runs_since (sr_source_id run) (lk_last_seen_at k) (db_source_runs s)
               \<ge> REMOVAL_CONSECUTIVE_MISSES \<and> now - lk_last_seen_at k \<ge> REMOVAL_MIN_ELAPSED
     then (summary\<lparr>ds_links_removed := Suc (ds_links_removed summary)\<rparr>,
           set_link_status (lk_id k) LinkStatus.REMOVED s)
     else if lk_link_status k = LinkStatus.ACTIVE
     then (summary\<lparr>ds_links_marked_missing := Suc (ds_links_marked_missing summary)\<rparr>,
           emit_disappearance (lk_canonical_listing_id k) ListingEventType.MISSING_STARTED now
             (KeyId (sr_id run)) (set_link_status (lk_id k) LinkStatus.MISSING s))
     else (summary, s))"

definition in_question :: "uuid \<Rightarrow> listing_source_link \<Rightarrow> bool" where
  "in_question source k \<longleftrightarrow>
     lk_source_id k = source \<and> lk_link_status k \<in> {LinkStatus.ACTIVE, LinkStatus.MISSING}"

definition supported :: "listing_source_link list \<Rightarrow> uuid \<Rightarrow> bool" where
  "supported ks listing \<longleftrightarrow> (\<exists>k \<in> set ks. lk_canonical_listing_id k = listing \<and>
     lk_link_status k \<in> {LinkStatus.ACTIVE, LinkStatus.MISSING, LinkStatus.CONFLICTING})"

definition lifecycle_pinned :: "human_override list \<Rightarrow> uuid \<Rightarrow> bool" where
  "lifecycle_pinned os listing \<longleftrightarrow> (\<exists>r \<in> set os. ho_entity_id r = listing \<and>
     ho_field_name r = ''lifecycle_status'' \<and> ho_override_status r = OverrideStatus.ACTIVE)"

definition eligible :: "listing_source_link list \<Rightarrow> human_override list \<Rightarrow> canonical_listing \<Rightarrow> bool" where
  "eligible ks os l \<longleftrightarrow>
     cl_lifecycle_status l \<in> {LifecycleStatus.ACTIVE, LifecycleStatus.CANDIDATE} \<and>
     \<not> supported ks (cl_id l) \<and> \<not> lifecycle_pinned os (cl_id l)"

definition active_count :: "canonical_listing list \<Rightarrow> nat" where
  "active_count ls = length (filter (\<lambda>l. cl_lifecycle_status l = LifecycleStatus.ACTIVE) ls)"

text \<open>\<open>int(active_count * 0.25)\<close> truncates, as \<open>div 4\<close> does.\<close>

definition inactivation_cap :: "nat \<Rightarrow> nat" where
  "inactivation_cap active = min BREAKER_ABSOLUTE_MAX (max 1 (active div 4))"

definition breaker_issue :: "uuid \<Rightarrow> canonical_listing list \<Rightarrow> nat \<Rightarrow> review_issue" where
  "breaker_issue i ls cap = new_issue i (cl_id (hd ls)) ReviewIssueType.SOURCE_FAILURE
     ReviewIssueSeverity.BLOCKING
     (JObj [(''rule'', JStr DISAPPEARANCE_RULE_VERSION),
            (''reason'', JStr ''mass_inactivation_circuit_breaker''),
            (''proposed_inactivations'', JInt (int (length ls))), (''cap'', JInt (int cap)),
            (''listing_ids'', JList (map (\<lambda>l. JUuid (cl_id l)) (take 100 ls)))])"

definition inactivate :: "datetime \<Rightarrow> canonical_listing \<Rightarrow> DisappearanceSummary \<times> db \<Rightarrow> DisappearanceSummary \<times> db" where
  "inactivate now l = (\<lambda>(summary, s).
     (summary\<lparr>ds_listings_inactivated := Suc (ds_listings_inactivated summary)\<rparr>,
      emit_disappearance (cl_id l) ListingEventType.INACTIVATED now (KeyText DISAPPEARANCE_RULE_VERSION)
        (update_listing (cl_id l)
           (\<lambda>r. r\<lparr>cl_lifecycle_status := LifecycleStatus.INACTIVE, cl_inactive_at := Some now\<rparr>) s)))"

definition inactivate_unsupported ::
  "datetime \<Rightarrow> DisappearanceSummary \<times> db \<Rightarrow> DisappearanceSummary \<times> db" where
  "inactivate_unsupported now = (\<lambda>(summary, s).
     let ls = filter (eligible (db_links s) (db_overrides s)) (db_listings s);
         summary' = summary\<lparr>ds_proposed_inactivations := length ls\<rparr>;
         active = active_count (db_listings s);
         cap = inactivation_cap active
     in if ls = [] then (summary', s)
        else if length ls > cap
        then (summary'\<lparr>ds_breaker_tripped := True,
                ds_details := JObj [(''proposed'', JInt (int (length ls))), (''cap'', JInt (int cap)),
                  (''active'', JInt (int active))]\<rparr>,
              s\<lparr>db_issues := db_issues s @ [breaker_issue (db_next s) ls cap], db_next := Suc (db_next s)\<rparr>)
        else fold (inactivate now) ls (summary', s))"

definition process_source_run :: "uuid \<Rightarrow> datetime \<Rightarrow> DisappearanceSummary tx" where
  "process_source_run i now s =
     (case get_by sr_id i (db_source_runs s) of
        None \<Rightarrow> Inl LookupError
      | Some run \<Rightarrow>
          if sr_health_gate_passed run \<noteq> Some True
          then Inr (new_disappearance_summary\<lparr>ds_refused_reason := Some ''health_gate_not_passed''\<rparr>, s)
          else Inr (inactivate_unsupported now
                 (fold (process_link run (observed_link_ids i s) now)
                    (filter (in_question (sr_source_id run)) (db_links s))
                    (new_disappearance_summary, s))))"

section \<open>Loops of point updates\<close>

text \<open>
  A loop that writes to each of a list of rows of a table, found by its key, is one map over the
  table; \<open>P\<close> is what the step preserves besides.
\<close>

lemma point_updates:
  assumes step: "\<And>x s. x \<in> set xs \<Longrightarrow> x \<in> set (tbl s) \<Longrightarrow> distinct (map key (tbl s)) \<Longrightarrow> P s \<Longrightarrow>
      tbl (step x s) = update_where (\<lambda>r. key r = key x) (f x) (tbl s) \<and> P (step x s)"
    and key: "\<And>x r. key (f x r) = key r"
    and "distinct (map key (tbl s))" "set xs \<subseteq> set (tbl s)" "distinct (map key xs)" "P s"
  shows "tbl (fold step xs s) = map (\<lambda>r. if r \<in> set xs then f r r else r) (tbl s) \<and> P (fold step xs s)"
  using assms
proof (induction xs arbitrary: s)
  case (Cons x xs)
  have x: "x \<in> set (tbl s)" "key x \<notin> key ` set xs" using Cons.prems(4,5) by auto
  have same: "r = x" if "r \<in> set (tbl s)" "key r = key x" for r
    using that x(1) Cons.prems(3) by (auto simp: distinct_map inj_on_def)
  have st: "tbl (step x s) = update_where (\<lambda>r. key r = key x) (f x) (tbl s)" "P (step x s)"
    using Cons.prems(1) [of x s] x(1) Cons.prems(3,6) by simp_all
  have ids: "map key (tbl (step x s)) = map key (tbl s)" unfolding st(1) using key by (simp add: map_update_where)
  have sub: "set xs \<subseteq> set (tbl (step x s))"
  proof
    fix r assume r: "r \<in> set xs"
    then have "key r \<noteq> key x" using x(2) by (metis imageI)
    then show "r \<in> set (tbl (step x s))"
      unfolding st(1) using r Cons.prems(4) by (intro untouched_by_update) auto
  qed
  have new: "f x x \<notin> set xs" using x(2) key [of x x] by (metis imageI)
  have "tbl (fold step xs (step x s)) = map (\<lambda>r. if r \<in> set xs then f r r else r) (tbl (step x s)) \<and>
      P (fold step xs (step x s))"
    by (rule Cons.IH) (use Cons.prems ids sub st(2) in auto)
  moreover have "map (\<lambda>r. if r \<in> set xs then f r r else r) (tbl (step x s)) =
      map (\<lambda>r. if r \<in> set (x # xs) then f r r else r) (tbl s)"
    unfolding st(1) update_where_def map_map
  proof (rule map_cong [OF refl])
    fix r assume "r \<in> set (tbl s)"
    then show "((\<lambda>r. if r \<in> set xs then f r r else r) \<circ> (\<lambda>r. if key r = key x then f x r else r)) r =
        (if r \<in> set (x # xs) then f r r else r)"
      using same [of r] new x(2) by auto
  qed
  ultimately show ?case by simp
qed simp

section \<open>The decision table for links\<close>

definition link_verdict :: "bool \<Rightarrow> nat \<Rightarrow> int \<Rightarrow> LinkStatus" where
  "link_verdict observed misses elapsed =
     (if observed then LinkStatus.ACTIVE
      else if misses \<ge> 2 \<and> elapsed \<ge> hours 36 then LinkStatus.REMOVED
      else LinkStatus.MISSING)"

definition judged :: "source_run \<Rightarrow> datetime \<Rightarrow> db \<Rightarrow> listing_source_link \<Rightarrow> LinkStatus" where
  "judged run now s k = link_verdict (observed_in (db_observations s) (sr_id run) k)
     (healthy_runs_since (sr_source_id run) (lk_last_seen_at k) (db_source_runs s)) (now - lk_last_seen_at k)"

definition judge_link :: "source_run \<Rightarrow> datetime \<Rightarrow> db \<Rightarrow> listing_source_link \<Rightarrow> listing_source_link" where
  "judge_link run now s k =
     (if in_question (sr_source_id run) k then k\<lparr>lk_link_status := judged run now s k\<rparr> else k)"

text \<open>What both loops leave alone.\<close>

definition absence_frame :: "db \<Rightarrow> db \<Rightarrow> bool" where
  "absence_frame s s' \<longleftrightarrow> manual_state s' = manual_state s \<and> upstream_state s' = upstream_state s \<and>
     fact_state s' = fact_state s \<and>
     (db_addresses s', db_buildings s', db_units s', db_candidates s') =
       (db_addresses s, db_buildings s, db_units s, db_candidates s)"

lemma absence_frame_refl [simp]: "absence_frame s s"
  by (simp add: absence_frame_def)

lemma absence_frame_trans: "absence_frame s t \<Longrightarrow> absence_frame t u \<Longrightarrow> absence_frame s u"
  by (simp add: absence_frame_def)

lemma absence_frame_links: "absence_frame s (set_link_status i st s)"
  by (simp add: absence_frame_def set_link_status_def frame_defs)

lemma absence_frame_listings: "absence_frame s (update_listing i f s)"
  by (simp add: absence_frame_def update_listing_def frame_defs)

lemma absence_frame_emit: "absence_frame s (emit_disappearance i ty now tail s)"
  by (simp add: absence_frame_def emit_disappearance_def store_event_def Let_def frame_defs)

lemma emit_disappearance_frame [simp]:
  "db_links (emit_disappearance i ty now tail s) = db_links s"
  "db_listings (emit_disappearance i ty now tail s) = db_listings s"
  "db_issues (emit_disappearance i ty now tail s) = db_issues s"
  by (simp_all add: emit_disappearance_def)

lemma observed_id_iff:
  assumes "distinct (map lk_id (db_links s))" "k \<in> set (db_links s)"
  shows "lk_id k \<in> set (observed_link_ids run s) \<longleftrightarrow> observed_in (db_observations s) run k"
  using assms by (auto simp: observed_link_ids_def distinct_map inj_on_def)

lemma process_link_effect:
  assumes "in_question (sr_source_id run) k" "k \<in> set (db_links s)" "distinct (map lk_id (db_links s))"
    and "process_link run observed now k (sm, s) = (sm', s')"
    and "lk_id k \<in> set observed \<longleftrightarrow> observed_in (db_observations s) (sr_id run) k"
  shows "db_links s' = update_where (\<lambda>r. lk_id r = lk_id k) (\<lambda>r. r\<lparr>lk_link_status := judged run now s k\<rparr>) (db_links s)"
    "absence_frame s s'" "db_listings s' = db_listings s" "db_issues s' = db_issues s"
proof -
  have same: "r = k" if "r \<in> set (db_links s)" "lk_id r = lk_id k" for r
    using that assms(2,3) by (auto simp: distinct_map inj_on_def)
  let ?w = "\<lambda>st. update_where (\<lambda>r. lk_id r = lk_id k) (\<lambda>r. r\<lparr>lk_link_status := st\<rparr>) (db_links s)"
  have skip: "?w (lk_link_status k) = db_links s"
    by (intro update_where_id) (auto dest: same)
  have st: "lk_link_status k = LinkStatus.ACTIVE \<or> lk_link_status k = LinkStatus.MISSING"
    using assms(1) by (simp add: in_question_def)
  have "db_links s' = ?w (judged run now s k) \<and> absence_frame s s' \<and> db_listings s' = db_listings s \<and>
      db_issues s' = db_issues s"
    using st
  proof
    assume "lk_link_status k = LinkStatus.ACTIVE"
    then show ?thesis
      using assms(4,5) skip absence_frame_trans [OF absence_frame_links absence_frame_emit] absence_frame_links
      by (auto simp: process_link_def judged_def link_verdict_def REMOVAL_CONSECUTIVE_MISSES_def
          REMOVAL_MIN_ELAPSED_def set_link_status_def split: if_splits)
  next
    assume "lk_link_status k = LinkStatus.MISSING"
    then show ?thesis
      using assms(4,5) skip absence_frame_links
      by (auto simp: process_link_def judged_def link_verdict_def REMOVAL_CONSECUTIVE_MISSES_def
          REMOVAL_MIN_ELAPSED_def set_link_status_def split: if_splits)
  qed
  then show "db_links s' = ?w (judged run now s k)"
    "absence_frame s s'" "db_listings s' = db_listings s" "db_issues s' = db_issues s" by blast+
qed

definition link_phase :: "source_run \<Rightarrow> datetime \<Rightarrow> db \<Rightarrow> DisappearanceSummary \<times> db" where
  "link_phase run now s = fold (process_link run (observed_link_ids (sr_id run) s) now)
     (filter (in_question (sr_source_id run)) (db_links s)) (new_disappearance_summary, s)"

lemma judged_cong:
  assumes "absence_frame s s'"
  shows "judged run now s' = judged run now s"
proof -
  have "db_observations s' = db_observations s" "db_source_runs s' = db_source_runs s"
    using assms by (simp_all add: absence_frame_def upstream_state_def)
  then show ?thesis by (simp add: judged_def [abs_def])
qed

lemma link_phase_map:
  assumes "distinct (map lk_id (db_links s))" "link_phase run now s = (sm, s')"
  shows "db_links s' = map (judge_link run now s) (db_links s)"
    "absence_frame s s'" "db_listings s' = db_listings s" "db_issues s' = db_issues s"
proof -
  let ?xs = "filter (in_question (sr_source_id run)) (db_links s)"
  let ?P = "\<lambda>(_ :: DisappearanceSummary, t). absence_frame s t \<and> db_listings t = db_listings s \<and> db_issues t = db_issues s"
  let ?f = "\<lambda>k r. r\<lparr>lk_link_status := judged run now s k\<rparr>"
  have "(\<lambda>st. db_links (snd st)) (link_phase run now s) =
      map (\<lambda>r. if r \<in> set ?xs then ?f r r else r) (db_links (snd (new_disappearance_summary, s))) \<and>
      ?P (link_phase run now s)"
    unfolding link_phase_def
  proof (rule point_updates [where key = lk_id and P = ?P and tbl = "\<lambda>st. db_links (snd st)" and f = ?f])
    fix k st
    assume k: "k \<in> set ?xs" "k \<in> set (db_links (snd st))" "distinct (map lk_id (db_links (snd st)))" "?P st"
    obtain a t where st: "st = (a, t)" by (cases st)
    obtain b u where u: "process_link run (observed_link_ids (sr_id run) s) now k (a, t) = (b, u)"
      by (cases rule: prod.exhaust)
    have frame: "absence_frame s t" using k(4) st by simp
    then have "db_observations t = db_observations s" by (simp add: absence_frame_def upstream_state_def)
    then have ob: "lk_id k \<in> set (observed_link_ids (sr_id run) s) \<longleftrightarrow> observed_in (db_observations t) (sr_id run) k"
      using observed_id_iff [OF assms(1), of k] k(1) by simp
    note eff = process_link_effect [OF _ _ _ u ob]
    have q: "in_question (sr_source_id run) k" "k \<in> set (db_links t)" "distinct (map lk_id (db_links t))"
      using k st by simp_all
    from eff [OF q] show "db_links (snd (process_link run (observed_link_ids (sr_id run) s) now k st)) =
        update_where (\<lambda>r. lk_id r = lk_id k) (?f k) (db_links (snd st)) \<and>
        ?P (process_link run (observed_link_ids (sr_id run) s) now k st)"
      using k(4) absence_frame_trans [OF frame] by (simp add: st u judged_cong [OF frame])
  next
    have "distinct (map lk_id ?xs)" using assms(1) by (auto simp: distinct_map intro: inj_on_subset)
    then show "distinct (map lk_id ?xs)" .
  qed (use assms(1) in auto)
  then show "db_links s' = map (judge_link run now s) (db_links s)"
    "absence_frame s s'" "db_listings s' = db_listings s" "db_issues s' = db_issues s"
    using assms(2) by (auto simp: judge_link_def)
qed

lemma process_source_run_passed:
  assumes "get_by sr_id i (db_source_runs s) = Some run" "sr_health_gate_passed run = Some True"
  shows "process_source_run i now s = Inr (inactivate_unsupported now (link_phase run now s))"
  using assms get_by_SomeD [OF assms(1)] by (simp add: process_source_run_def link_phase_def)

section \<open>Inactivation\<close>

definition inactivated :: "datetime \<Rightarrow> canonical_listing \<Rightarrow> canonical_listing" where
  "inactivated now l = l\<lparr>cl_lifecycle_status := LifecycleStatus.INACTIVE, cl_inactive_at := Some now\<rparr>"

lemma inactivate_count:
  "ds_listings_inactivated (fst (fold (inactivate now) ls st)) = ds_listings_inactivated (fst st) + length ls"
  by (induction ls arbitrary: st) (auto simp: inactivate_def split: prod.splits)

lemma inactivate_keeps_tripped:
  "ds_breaker_tripped (fst (fold (inactivate now) ls st)) = ds_breaker_tripped (fst st) \<and>
   ds_proposed_inactivations (fst (fold (inactivate now) ls st)) = ds_proposed_inactivations (fst st)"
  by (induction ls arbitrary: st) (auto simp: inactivate_def split: prod.splits)

lemma inactivate_all:
  assumes "distinct (map cl_id (db_listings s))" "fold (inactivate now) (filter Q (db_listings s)) (sm, s) = (sm', s')"
  shows "db_listings s' = map (\<lambda>l. if Q l then inactivated now l else l) (db_listings s)"
    "absence_frame s s'" "db_links s' = db_links s" "db_issues s' = db_issues s"
proof -
  let ?P = "\<lambda>(_ :: DisappearanceSummary, t). absence_frame s t \<and> db_links t = db_links s \<and> db_issues t = db_issues s"
  have "(\<lambda>st. db_listings (snd st)) (fold (inactivate now) (filter Q (db_listings s)) (sm, s)) =
      map (\<lambda>r. if r \<in> set (filter Q (db_listings s)) then (\<lambda>_. inactivated now) r r else r) (db_listings (snd (sm, s))) \<and>
      ?P (fold (inactivate now) (filter Q (db_listings s)) (sm, s))"
  proof (rule point_updates [where key = cl_id and P = ?P and tbl = "\<lambda>st. db_listings (snd st)"
        and f = "\<lambda>_. inactivated now"])
    fix l st
    assume l: "?P st"
    obtain a t where st: "st = (a, t)" by (cases st)
    have "absence_frame t (emit_disappearance i ty now tail (update_listing j f t))" for i ty tail j f
      by (rule absence_frame_trans [OF absence_frame_listings absence_frame_emit])
    then show "db_listings (snd (inactivate now l st)) =
        update_where (\<lambda>r. cl_id r = cl_id l) (inactivated now) (db_listings (snd st)) \<and> ?P (inactivate now l st)"
      using l absence_frame_trans [of s t]
      by (simp add: st inactivate_def inactivated_def [abs_def] update_listing_def)
  next
    have "distinct (map cl_id (filter Q (db_listings s)))"
      using assms(1) by (auto simp: distinct_map intro: inj_on_subset)
    then show "distinct (map cl_id (filter Q (db_listings s)))" .
  qed (use assms(1) in \<open>auto simp: inactivated_def\<close>)
  then show "db_listings s' = map (\<lambda>l. if Q l then inactivated now l else l) (db_listings s)"
    "absence_frame s s'" "db_links s' = db_links s" "db_issues s' = db_issues s"
    using assms(2) by auto
qed

lemma breaker_frame: "absence_frame s (s\<lparr>db_issues := is, db_next := n\<rparr>)"
  by (simp add: absence_frame_def frame_defs)

text \<open>The three ends of the inactivation phase.\<close>

lemma inactivate_unsupported_cases:
  assumes "distinct (map cl_id (db_listings s))" "inactivate_unsupported now (sm, s) = (sm', s')"
    and ls: "ls = filter (eligible (db_links s) (db_overrides s)) (db_listings s)"
    and cap: "cap = inactivation_cap (active_count (db_listings s))"
  obtains (tripped) "length ls > cap" "ds_breaker_tripped sm'" "db_listings s' = db_listings s"
      "db_links s' = db_links s" "absence_frame s s'" "db_issues s' = db_issues s @ [breaker_issue (db_next s) ls cap]"
      "ds_listings_inactivated sm' = ds_listings_inactivated sm"
  | (applied) "length ls \<le> cap" "ds_breaker_tripped sm' = ds_breaker_tripped sm"
      "db_listings s' = map (\<lambda>l. if eligible (db_links s) (db_overrides s) l then inactivated now l else l) (db_listings s)"
      "db_links s' = db_links s" "absence_frame s s'" "db_issues s' = db_issues s"
      "ds_listings_inactivated sm' = ds_listings_inactivated sm + length ls"
proof -
  have run: "inactivate_unsupported now (sm, s) = (let summary' = sm\<lparr>ds_proposed_inactivations := length ls\<rparr>
      in if ls = [] then (summary', s)
         else if length ls > cap
         then (summary'\<lparr>ds_breaker_tripped := True,
                ds_details := JObj [(''proposed'', JInt (int (length ls))), (''cap'', JInt (int cap)),
                  (''active'', JInt (int (active_count (db_listings s))))]\<rparr>,
              s\<lparr>db_issues := db_issues s @ [breaker_issue (db_next s) ls cap], db_next := Suc (db_next s)\<rparr>)
         else fold (inactivate now) ls (summary', s))"
    by (simp add: inactivate_unsupported_def Let_def ls cap)
  note run = run [unfolded assms(2)]
  consider "ls = []" | "length ls > cap" "ls \<noteq> []" | "length ls \<le> cap" "ls \<noteq> []" by linarith
  then show thesis
  proof cases
    case 1
    then have "map (\<lambda>l. if eligible (db_links s) (db_overrides s) l then inactivated now l else l) (db_listings s) = db_listings s"
      using ls by (intro map_idI) (auto simp: filter_empty_conv)
    with 1 run show thesis by (intro applied) (simp_all add: Let_def)
  next
    case 2
    then show thesis using run by (intro tripped) (simp_all add: Let_def breaker_frame)
  next
    case 3
    then have f: "fold (inactivate now) (filter (eligible (db_links s) (db_overrides s)) (db_listings s))
        (sm\<lparr>ds_proposed_inactivations := length ls\<rparr>, s) = (sm', s')"
      using run by (simp add: Let_def ls)
    have "ds_listings_inactivated sm' = ds_listings_inactivated sm + length ls" "ds_breaker_tripped sm' = ds_breaker_tripped sm"
      using inactivate_count [of now ls "(sm\<lparr>ds_proposed_inactivations := length ls\<rparr>, s)"]
        inactivate_keeps_tripped [of now ls "(sm\<lparr>ds_proposed_inactivations := length ls\<rparr>, s)"] f
      by (simp_all add: ls [symmetric])
    with 3 inactivate_all [OF assms(1) f] show thesis by (intro applied)
  qed
qed

text \<open>A processed run: either refused without a trace, or the two phases one after the other.\<close>

lemma process_source_run_cases:
  assumes "process_source_run i now s = Inr (sm, s')"
  obtains (refused) "s' = s" "ds_refused_reason sm = Some ''health_gate_not_passed''"
      "ds_listings_inactivated sm = 0" "\<not> ds_breaker_tripped sm"
      "map_option sr_health_gate_passed (get_by sr_id i (db_source_runs s)) \<noteq> Some (Some True)"
  | (passed) run sm1 t where "get_by sr_id i (db_source_runs s) = Some run" "sr_health_gate_passed run = Some True"
      "link_phase run now s = (sm1, t)" "inactivate_unsupported now (sm1, t) = (sm, s')"
proof (cases "get_by sr_id i (db_source_runs s)")
  case None
  then show thesis using assms by (simp add: process_source_run_def)
next
  case (Some run)
  show thesis
  proof (cases "sr_health_gate_passed run = Some True")
    case True
    obtain sm1 t where lp: "link_phase run now s = (sm1, t)" by (cases rule: prod.exhaust)
    then show thesis
      using passed [OF Some True lp] process_source_run_passed [OF Some True, of now] assms by simp
  next
    case False
    then show thesis
      using assms Some by (intro refused) (auto simp: process_source_run_def new_disappearance_summary_def)
  qed
qed

lemma link_phase_untouched_counts:
  assumes "link_phase run now s = (sm, s')"
  shows "ds_listings_inactivated sm = 0" "\<not> ds_breaker_tripped sm"
proof -
  have "ds_listings_inactivated (fst (fold (process_link run observed now) ks st)) = ds_listings_inactivated (fst st) \<and>
      ds_breaker_tripped (fst (fold (process_link run observed now) ks st)) = ds_breaker_tripped (fst st)" for ks observed st
    by (induction ks arbitrary: st) (auto simp: process_link_def split: prod.splits)
  from this [of "observed_link_ids (sr_id run) s" "filter (in_question (sr_source_id run)) (db_links s)"
      "(new_disappearance_summary, s)"] assms
  show "ds_listings_inactivated sm = 0" "\<not> ds_breaker_tripped sm"
    by (simp_all add: link_phase_def new_disappearance_summary_def)
qed

definition inactive_count :: "canonical_listing list \<Rightarrow> nat" where
  "inactive_count ls = length (filter (\<lambda>l. cl_lifecycle_status l = LifecycleStatus.INACTIVE) ls)"

text \<open>Both phases together: the links follow the table, and the listings either all stay or all eligible ones go.\<close>

lemma processed:
  assumes "distinct (map lk_id (db_links s))" "distinct (map cl_id (db_listings s))"
    and "link_phase run now s = (sm1, t)" "inactivate_unsupported now (sm1, t) = (sm, s')"
  obtains (tripped) "db_links s' = map (judge_link run now s) (db_links s)" "absence_frame s s'"
      "db_listings s' = db_listings s" "ds_breaker_tripped sm" "ds_listings_inactivated sm = 0"
      "\<exists>r. db_issues s' = db_issues s @ [r] \<and> ri_severity r = ReviewIssueSeverity.BLOCKING"
      "length (filter (eligible (db_links s') (db_overrides s)) (db_listings s)) > inactivation_cap (active_count (db_listings s))"
  | (applied) "db_links s' = map (judge_link run now s) (db_links s)" "absence_frame s s'"
      "db_listings s' = map (\<lambda>l. if eligible (db_links s') (db_overrides s) l then inactivated now l else l) (db_listings s)"
      "\<not> ds_breaker_tripped sm" "db_issues s' = db_issues s"
      "ds_listings_inactivated sm = length (filter (eligible (db_links s') (db_overrides s)) (db_listings s))"
      "length (filter (eligible (db_links s') (db_overrides s)) (db_listings s)) \<le> inactivation_cap (active_count (db_listings s))"
proof -
  note lp = link_phase_map [OF assms(1,3)] and counts = link_phase_untouched_counts [OF assms(3)]
  have ov: "db_overrides t = db_overrides s" using lp(2) by (simp add: absence_frame_def manual_state_def)
  have dist: "distinct (map cl_id (db_listings t))" using assms(2) lp(3) by simp
  show thesis
  proof (cases rule: inactivate_unsupported_cases [OF dist assms(4) refl refl, case_names tripped applied])
    case tripped
    then show thesis
      using lp counts ov absence_frame_trans [OF lp(2)] by (intro that(1)) (simp_all add: breaker_issue_def new_issue_def)
  next
    case applied
    then show thesis
      using lp counts ov absence_frame_trans [OF lp(2)] by (intro that(2)) simp_all
  qed
qed

lemma inactive_count_map:
  "(\<And>l. l \<in> set ls \<Longrightarrow> Q l \<Longrightarrow> cl_lifecycle_status l \<noteq> LifecycleStatus.INACTIVE) \<Longrightarrow>
   length (filter (\<lambda>l. cl_lifecycle_status l = LifecycleStatus.INACTIVE) (map (\<lambda>l. if Q l then inactivated now l else l) ls)) =
   length (filter (\<lambda>l. cl_lifecycle_status l = LifecycleStatus.INACTIVE) ls) + length (filter Q ls)"
  by (induction ls) (auto simp: inactivated_def)

interpretation disappearance: automatic_step "\<lambda>(i, now). process_source_run i now"
proof unfold_locales
  fix i :: "uuid \<times> datetime" and s x s'
  have links: "manual_state (snd (fold (process_link run observed now) ks st)) = manual_state (snd st)" for run observed now ks st
    by (induction ks arbitrary: st)
      (auto simp: process_link_def emit_disappearance_def set_link_status_def frame_defs store_event_def Let_def split: prod.splits)
  have listings: "manual_state (snd (fold (inactivate now) ls st)) = manual_state (snd st)" for now ls st
    by (induction ls arbitrary: st)
      (auto simp: inactivate_def emit_disappearance_def update_listing_def frame_defs store_event_def Let_def split: prod.splits)
  have phase: "manual_state (snd (inactivate_unsupported now st)) = manual_state (snd st)" for now st
    by (cases st) (simp add: inactivate_unsupported_def Let_def listings, simp add: manual_state_def)
  assume "(case i of (i, now) \<Rightarrow> process_source_run i now) s = Inr (x, s')"
  then obtain j now where "process_source_run j now s = Inr (x, s')" by (cases i) simp
  then show "manual_state s' = manual_state s"
  proof (cases rule: process_source_run_cases)
    case (passed run sm1 t)
    from links [of run "observed_link_ids (sr_id run) s" now "filter (in_question (sr_source_id run)) (db_links s)"
        "(new_disappearance_summary, s)"] passed(3)
    have "manual_state t = manual_state s" by (simp add: link_phase_def)
    with phase [of now "(sm1, t)"] passed(4) show ?thesis by simp
  qed simp
qed

section \<open>Properties\<close>

text \<open>
  C17. The link loop of a processed run is the decision table applied to the link table: a link of the
  run's source that is ACTIVE or MISSING becomes ACTIVE when its latest observation is of this run,
  else REMOVED after at least two gate-passed runs and 36 hours since it was last seen, else MISSING;
  every other link stays as it is.  A run that is not known to be healthy changes nothing at all.
\<close>
theorem links_follow_the_table:
  assumes "distinct (map lk_id (db_links s))" "distinct (map cl_id (db_listings s))"
    and "get_by sr_id i (db_source_runs s) = Some run"
  shows "\<exists>sm s'. process_source_run i now s = Inr (sm, s') \<and>
    (if sr_health_gate_passed run = Some True
     then db_links s' = map (\<lambda>k.
       if lk_source_id k = sr_source_id run \<and> lk_link_status k \<in> {LinkStatus.ACTIVE, LinkStatus.MISSING}
       then k\<lparr>lk_link_status := link_verdict (observed_in (db_observations s) i k)
         (healthy_runs_since (sr_source_id run) (lk_last_seen_at k) (db_source_runs s)) (now - lk_last_seen_at k)\<rparr>
       else k) (db_links s)
     else s' = s \<and> ds_refused_reason sm = Some ''health_gate_not_passed'')"
proof (cases "sr_health_gate_passed run = Some True")
  case True
  obtain sm1 t where lp: "link_phase run now s = (sm1, t)" by (cases rule: prod.exhaust)
  obtain sm s' where iu: "inactivate_unsupported now (sm1, t) = (sm, s')" by (cases rule: prod.exhaust)
  have "db_links s' = map (judge_link run now s) (db_links s)"
    using processed [OF assms(1,2) lp iu] by blast
  moreover have "sr_id run = i" using get_by_SomeD [OF assms(3)] by simp
  ultimately have "db_links s' = map (\<lambda>k.
       if lk_source_id k = sr_source_id run \<and> lk_link_status k \<in> {LinkStatus.ACTIVE, LinkStatus.MISSING}
       then k\<lparr>lk_link_status := link_verdict (observed_in (db_observations s) i k)
         (healthy_runs_since (sr_source_id run) (lk_last_seen_at k) (db_source_runs s)) (now - lk_last_seen_at k)\<rparr>
       else k) (db_links s)"
    unfolding judge_link_def judged_def in_question_def by (simp only: mem_Collect_eq)
  then show ?thesis
    unfolding if_P [OF True] using process_source_run_passed [OF assms(3) True, of now] lp iu by simp
next
  case False
  then show ?thesis using assms(3) by (simp add: process_source_run_def)
qed

text \<open>
  Source 50 has two healthy runs, 60 and 61, after its listings 10 and 11 were last seen, and run 62
  that observed listing 12 only; 63 is a run of unknown health.
\<close>

definition demo_run :: "uuid \<Rightarrow> bool option \<Rightarrow> datetime \<Rightarrow> source_run" where
  "demo_run i health started = \<lparr>sr_id = i, sr_refresh_run_id = 70, sr_source_id = 50, sr_started_at = started,
     sr_completed_at = None, sr_status = SourceRunStatus.HEALTHY, sr_health_gate_passed = health,
     sr_expected_scope = None, sr_counts = None, sr_error_summary = None, sr_adapter_version = ''v1''\<rparr>"

definition demo_absent :: db where
  "demo_absent = demo_three\<lparr>
     db_links := [demo_link 20 10, (demo_link 21 11)\<lparr>lk_discovery_method := DiscoveryMethod.SEARCH_INDEX\<rparr>, demo_link 22 12],
     db_source_runs := [demo_run 60 (Some True) 20, demo_run 62 (Some True) 40, demo_run 63 None 50],
     db_observations := [(demo_row 22 50 ''n'' 40 ''h'' 300000)\<lparr>so_source_run_id := 62\<rparr>]\<rparr>"

lemma demo_absent_keys: "distinct (map lk_id (db_links demo_absent))" "distinct (map cl_id (db_listings demo_absent))"
  by (simp_all add: demo_absent_def demo_defs)

lemma demo_absent_run: "get_by sr_id 62 (db_source_runs demo_absent) = Some (demo_run 62 (Some True) 40)"
    "sr_health_gate_passed (demo_run 62 (Some True) 40) = Some True"
  by (simp_all add: demo_absent_def demo_run_def get_by_Cons)

lemma demo_absent_processed:
  "\<exists>sm s'. process_source_run 62 (hours 40) demo_absent = Inr (sm, s') \<and> ds_breaker_tripped sm"
proof -
  have "(case process_source_run 62 (hours 40) demo_absent of Inl _ \<Rightarrow> False | Inr (sm, s') \<Rightarrow> ds_breaker_tripped sm)"
    by code_simp
  then show ?thesis by (auto split: sum.splits prod.splits)
qed

theorem links_follow_the_table_witness:
  "\<exists>sm s'. process_source_run 62 (hours 40) demo_absent = Inr (sm, s') \<and>
     map lk_link_status (db_links s') = [LinkStatus.REMOVED, LinkStatus.REMOVED, LinkStatus.ACTIVE]"
proof -
  have d: "map lk_link_status (map (\<lambda>k.
       if lk_source_id k = sr_source_id (demo_run 62 (Some True) 40) \<and> lk_link_status k \<in> {LinkStatus.ACTIVE, LinkStatus.MISSING}
       then k\<lparr>lk_link_status := link_verdict (observed_in (db_observations demo_absent) 62 k)
         (healthy_runs_since (sr_source_id (demo_run 62 (Some True) 40)) (lk_last_seen_at k) (db_source_runs demo_absent))
         (hours 40 - lk_last_seen_at k)\<rparr>
       else k) (db_links demo_absent)) = [LinkStatus.REMOVED, LinkStatus.REMOVED, LinkStatus.ACTIVE]"
    by code_simp
  from links_follow_the_table [OF demo_absent_keys demo_absent_run(1), of "hours 40", unfolded if_P [OF demo_absent_run(2)]]
  obtain sm s' where r: "process_source_run 62 (hours 40) demo_absent = Inr (sm, s')"
    "db_links s' = map (\<lambda>k.
       if lk_source_id k = sr_source_id (demo_run 62 (Some True) 40) \<and> lk_link_status k \<in> {LinkStatus.ACTIVE, LinkStatus.MISSING}
       then k\<lparr>lk_link_status := link_verdict (observed_in (db_observations demo_absent) 62 k)
         (healthy_runs_since (sr_source_id (demo_run 62 (Some True) 40)) (lk_last_seen_at k) (db_source_runs demo_absent))
         (hours 40 - lk_last_seen_at k)\<rparr>
       else k) (db_links demo_absent)" by blast
  show ?thesis using r(1) d [folded r(2)] by (intro exI [of _ sm] exI [of _ s'] conjI)
qed

text \<open>
  C18. One run inactivates a bounded number of listings, all the eligible ones or none.  The cap is 50
  or a quarter of the active listings, whichever is less, but never below one.  The breaker trips
  exactly when the run passed the health gate and more listings are eligible than the cap: then no
  listing is changed, none is counted and one BLOCKING review issue is added.  Otherwise a passed run
  inactivates every eligible listing and no other, counts them and adds no issue; a run that did not
  pass the gate changes nothing.
\<close>
theorem inactivation_is_bounded:
  assumes "distinct (map lk_id (db_links s))" "distinct (map cl_id (db_listings s))"
    and "process_source_run i now s = Inr (sm, s')"
  shows "let going = filter (eligible (db_links s') (db_overrides s)) (db_listings s);
      cap = min 50 (max 1 (active_count (db_listings s) div 4));
      passed = (map_option sr_health_gate_passed (get_by sr_id i (db_source_runs s)) = Some (Some True))
    in inactive_count (db_listings s') = inactive_count (db_listings s) + ds_listings_inactivated sm \<and>
      ds_listings_inactivated sm \<le> cap \<and>
      (ds_breaker_tripped sm \<longleftrightarrow> passed \<and> cap < length going) \<and>
      (if ds_breaker_tripped sm
       then db_listings s' = db_listings s \<and> ds_listings_inactivated sm = 0 \<and>
         (\<exists>r. db_issues s' = db_issues s @ [r] \<and> ri_severity r = ReviewIssueSeverity.BLOCKING)
       else if passed
       then db_issues s' = db_issues s \<and> ds_listings_inactivated sm = length going \<and>
         db_listings s' = map (\<lambda>l. if l \<in> set going then inactivated now l else l) (db_listings s)
       else s' = s)"
  using assms(3)
proof (cases rule: process_source_run_cases)
  case refused
  then show ?thesis by (auto simp: Let_def)
next
  case (passed run sm1 t)
  show ?thesis
  proof (cases rule: processed [OF assms(1,2) passed(3,4), case_names tripped applied])
    case tripped
    then show ?thesis using passed(1,2) by (simp add: Let_def inactivation_cap_def BREAKER_ABSOLUTE_MAX_def)
  next
    case applied
    have rows: "db_listings s' = map (\<lambda>l. if l \<in> set (filter (eligible (db_links s') (db_overrides s)) (db_listings s))
        then inactivated now l else l) (db_listings s)"
      unfolding applied(3) by (intro map_cong [OF refl]) auto
    have "inactive_count (db_listings s') = inactive_count (db_listings s) +
        length (filter (eligible (db_links s') (db_overrides s)) (db_listings s))"
      unfolding applied(3) inactive_count_def by (rule inactive_count_map) (auto simp: eligible_def)
    moreover have cap: "length (filter (eligible (db_links s') (db_overrides s)) (db_listings s)) \<le>
        min 50 (max 1 (active_count (db_listings s) div 4))"
      using applied(7) unfolding inactivation_cap_def BREAKER_ABSOLUTE_MAX_def .
    moreover have "\<not> min 50 (max 1 (active_count (db_listings s) div 4)) <
        length (filter (eligible (db_links s') (db_overrides s)) (db_listings s))"
      using cap by (simp only: not_less)
    ultimately show ?thesis
      using rows applied(4-6) passed(1,2) unfolding Let_def by simp
  qed
qed

theorem inactivation_is_bounded_witness:
  "\<exists>sm s'. process_source_run 62 (hours 40) demo_absent = Inr (sm, s') \<and> db_listings s' = db_listings demo_absent \<and>
     (\<exists>r. db_issues s' = db_issues demo_absent @ [r] \<and> ri_severity r = ReviewIssueSeverity.BLOCKING)"
proof -
  obtain sm s' where r: "process_source_run 62 (hours 40) demo_absent = Inr (sm, s')" "ds_breaker_tripped sm"
    using demo_absent_processed by blast
  from inactivation_is_bounded [OF demo_absent_keys r(1)] r show ?thesis by (auto simp: Let_def)
qed

text \<open>
  C19. Only unsupported listings go: every row of the listing table after a run is an old row or an
  ACTIVE or CANDIDATE listing that no link supports any more and whose lifecycle no person has
  pinned, now INACTIVE since this run; nothing is inactivated unless the run passed the health gate,
  and manual state, facts, addresses, buildings and units are untouched.
\<close>
theorem only_unsupported_go:
  assumes "distinct (map lk_id (db_links s))" "distinct (map cl_id (db_listings s))"
    and "process_source_run i now s = Inr (sm, s')" "l' \<in> set (db_listings s')"
  shows "absence_frame s s' \<and> (l' \<in> set (db_listings s) \<or>
    (\<exists>l \<in> set (db_listings s). l' = inactivated now l \<and>
       cl_lifecycle_status l \<in> {LifecycleStatus.ACTIVE, LifecycleStatus.CANDIDATE} \<and>
       \<not> supported (db_links s') (cl_id l) \<and> \<not> lifecycle_pinned (db_overrides s) (cl_id l) \<and>
       map_option sr_health_gate_passed (get_by sr_id i (db_source_runs s)) = Some (Some True)))"
  using assms(3)
proof (cases rule: process_source_run_cases)
  case refused
  then show ?thesis using assms(4) by simp
next
  case (passed run sm1 t)
  show ?thesis
  proof (cases rule: processed [OF assms(1,2) passed(3,4), case_names tripped applied])
    case tripped
    then show ?thesis using assms(4) by simp
  next
    case applied
    from assms(4) obtain l where l: "l \<in> set (db_listings s)"
        "l' = (if eligible (db_links s') (db_overrides s) l then inactivated now l else l)"
      by (auto simp: applied(3))
    then show ?thesis
      using applied(2) passed(1,2) by (cases "eligible (db_links s') (db_overrides s) l") (auto simp: eligible_def)
  qed
qed

text \<open>One listing gone and one still there: the cap of a small inventory lets one go.\<close>

definition demo_gone :: db where
  "demo_gone = demo_absent\<lparr>db_listings := [demo_listing 10, demo_listing 12],
     db_links := [demo_link 20 10, demo_link 22 12]\<rparr>"

lemma demo_gone_processed:
  "\<exists>sm s'. process_source_run 62 (hours 40) demo_gone = Inr (sm, s') \<and>
     list_ex (\<lambda>l. l = inactivated (hours 40) (demo_listing 10)) (db_listings s')"
proof -
  have "(case process_source_run 62 (hours 40) demo_gone of Inl _ \<Rightarrow> False
     | Inr (sm, s') \<Rightarrow> list_ex (\<lambda>l. l = inactivated (hours 40) (demo_listing 10)) (db_listings s'))" by code_simp
  then show ?thesis by (auto split: sum.splits prod.splits)
qed

theorem only_unsupported_go_witness:
  "\<exists>sm s'. process_source_run 62 (hours 40) demo_gone = Inr (sm, s') \<and> absence_frame demo_gone s' \<and>
     inactivated (hours 40) (demo_listing 10) \<in> set (db_listings s') \<and> \<not> supported (db_links s') 10"
proof -
  let ?l' = "inactivated (hours 40) (demo_listing 10)"
  obtain sm s' where r: "process_source_run 62 (hours 40) demo_gone = Inr (sm, s')" "?l' \<in> set (db_listings s')"
    using demo_gone_processed by (auto simp: list_ex_iff)
  have keys: "distinct (map lk_id (db_links demo_gone))" "distinct (map cl_id (db_listings demo_gone))"
    by (simp_all add: demo_gone_def demo_absent_def demo_defs)
  have new: "cl_lifecycle_status l \<noteq> cl_lifecycle_status ?l'" if "l \<in> set (db_listings demo_gone)" for l
    using that by (auto simp: demo_gone_def demo_absent_def demo_defs inactivated_def)
  then have "?l' \<notin> set (db_listings demo_gone)" by blast
  with only_unsupported_go [OF keys r] obtain l where l: "absence_frame demo_gone s'" "?l' = inactivated (hours 40) l"
      "\<not> supported (db_links s') (cl_id l)" by blast
  have "cl_id l = 10"
    using arg_cong [OF l(2), of cl_id] by (simp add: demo_listing_def new_listing_def inactivated_def)
  with l(1,3) r show ?thesis by (intro exI [of _ sm] exI [of _ s'] conjI) simp_all
qed

text \<open>
  Links that were found through a search index are not exempt: when a healthy run of the link's
  source has not observed an ACTIVE or MISSING link found by SEARCH_INDEX, it is MISSING or REMOVED
  afterwards like any other.
\<close>
theorem search_links_disappear:
  assumes "distinct (map lk_id (db_links s))" "distinct (map cl_id (db_listings s))"
    and "get_by sr_id i (db_source_runs s) = Some run" "sr_health_gate_passed run = Some True"
    and "k \<in> set (db_links s)" "lk_source_id k = sr_source_id run" "lk_discovery_method k = DiscoveryMethod.SEARCH_INDEX"
    and "lk_link_status k \<in> {LinkStatus.ACTIVE, LinkStatus.MISSING}" "\<not> observed_in (db_observations s) i k"
  shows "\<exists>sm s' k'. process_source_run i now s = Inr (sm, s') \<and> get_by lk_id (lk_id k) (db_links s') = Some k' \<and>
    lk_link_status k' \<in> {LinkStatus.MISSING, LinkStatus.REMOVED}"
proof -
  obtain sm1 t where lp: "link_phase run now s = (sm1, t)" by (cases rule: prod.exhaust)
  obtain sm s' where iu: "inactivate_unsupported now (sm1, t) = (sm, s')" by (cases rule: prod.exhaust)
  have links: "db_links s' = map (judge_link run now s) (db_links s)"
    using processed [OF assms(1,2) lp iu] by blast
  have "sr_id run = i" using get_by_SomeD [OF assms(3)] by simp
  then have judged: "lk_link_status (judge_link run now s k) \<in> {LinkStatus.MISSING, LinkStatus.REMOVED}"
    using assms(6,8,9) by (simp add: judge_link_def judged_def in_question_def link_verdict_def)
  have id: "lk_id (judge_link run now s r) = lk_id r" for r by (simp add: judge_link_def)
  then have "distinct (map lk_id (db_links s'))" using assms(1) by (simp add: links comp_def)
  then have "get_by lk_id (lk_id k) (db_links s') = Some (judge_link run now s k)"
    using assms(5) id by (subst get_by_Some_iff) (auto simp: links)
  then show ?thesis
    using process_source_run_passed [OF assms(3,4), of now] lp iu judged by simp
qed

theorem search_links_disappear_witness:
  "\<exists>sm s' k'. process_source_run 62 (hours 40) demo_absent = Inr (sm, s') \<and> get_by lk_id 21 (db_links s') = Some k' \<and>
     lk_link_status k' \<in> {LinkStatus.MISSING, LinkStatus.REMOVED}"
proof -
  let ?k = "(demo_link 21 11)\<lparr>lk_discovery_method := DiscoveryMethod.SEARCH_INDEX\<rparr>"
  have k: "?k \<in> set (db_links demo_absent)" "lk_source_id ?k = sr_source_id (demo_run 62 (Some True) 40)"
      "lk_discovery_method ?k = DiscoveryMethod.SEARCH_INDEX"
      "lk_link_status ?k \<in> {LinkStatus.ACTIVE, LinkStatus.MISSING}" "lk_id ?k = 21"
    by (simp_all add: demo_absent_def demo_run_def demo_defs)
  have "\<not> observed_in (db_observations demo_absent) 62 ?k" by code_simp
  from search_links_disappear [OF demo_absent_keys demo_absent_run k(1-4) this, of "hours 40"] show ?thesis
    by (simp only: k(5))
qed

end
