(* ===== verification/PyJson.thy ===== *)
theory PyJson
  imports Prelude Fingerprints
begin

text \<open>
  Python's view of a decoded JSON value: truth, attribute and item access, unpacking, iteration and
  the conversions that Pydantic applies to a field, each with the exception it raises on a value of
  another shape.  A JSON object stands for a \<open>dict\<close>, so its keys are distinct.
\<close>

fun json_truthy :: "json \<Rightarrow> bool" where
  "json_truthy JNull = False"
| "json_truthy (JBool b) = b"
| "json_truthy (JInt n) = (n \<noteq> 0)"
| "json_truthy (JNum x) = (x \<noteq> 0)"
| "json_truthy (JStr t) = (t \<noteq> [])"
| "json_truthy (JUuid i) = True"
| "json_truthy (JList js) = (js \<noteq> [])"
| "json_truthy (JObj kvs) = (kvs \<noteq> [])"

text \<open>\<open>x or d\<close>\<close>

definition json_or :: "json \<Rightarrow> json \<Rightarrow> json" where
  "json_or x d = (if json_truthy x then x else d)"

text \<open>\<open>d.get(k)\<close>: only a \<open>dict\<close> has the method.\<close>

fun py_get :: "string \<Rightarrow> json \<Rightarrow> json result" where
  "py_get k (JObj kvs) = Inr (case map_of kvs k of None \<Rightarrow> JNull | Some v \<Rightarrow> v)"
| "py_get k _ = Inl AttributeError"

text \<open>\<open>d.get(k, d)\<close>\<close>

fun py_get_default :: "string \<Rightarrow> json \<Rightarrow> json \<Rightarrow> json result" where
  "py_get_default k d (JObj kvs) = Inr (case map_of kvs k of None \<Rightarrow> d | Some v \<Rightarrow> v)"
| "py_get_default k d _ = Inl AttributeError"

text \<open>\<open>d[k]\<close> with a text key.\<close>

fun py_item :: "string \<Rightarrow> json \<Rightarrow> json result" where
  "py_item k (JObj kvs) = (case map_of kvs k of None \<Rightarrow> Inl KeyError | Some v \<Rightarrow> Inr v)"
| "py_item k _ = Inl TypeError"

text \<open>\<open>xs[0]\<close>\<close>

fun py_first :: "json \<Rightarrow> json result" where
  "py_first (JList (x # xs)) = Inr x"
| "py_first (JList []) = Inl LookupError"
| "py_first (JStr (c # cs)) = Inr (JStr [c])"
| "py_first (JStr []) = Inl LookupError"
| "py_first (JObj kvs) = Inl KeyError"
| "py_first _ = Inl TypeError"

text \<open>Iteration, over the keys in the case of an object.\<close>

fun py_iter :: "json \<Rightarrow> json list result" where
  "py_iter (JList xs) = Inr xs"
| "py_iter (JStr cs) = Inr (map (\<lambda>c. JStr [c]) cs)"
| "py_iter (JObj kvs) = Inr (map (\<lambda>(k, v). JStr k) kvs)"
| "py_iter _ = Inl TypeError"

text \<open>\<open>a, b = v\<close>\<close>

definition py_pair :: "json \<Rightarrow> (json \<times> json) result" where
  "py_pair v = bind_result (py_iter v) (\<lambda>xs. case xs of [a, b] \<Rightarrow> Inr (a, b) | _ \<Rightarrow> Inl ValueError)"

text \<open>A list comprehension whose element may raise.\<close>

fun collect :: "('a \<Rightarrow> 'b result) \<Rightarrow> 'a list \<Rightarrow> 'b list result" where
  "collect f [] = Inr []"
| "collect f (x # xs) = bind_result (f x) (\<lambda>y. bind_result (collect f xs) (\<lambda>ys. Inr (y # ys)))"

section \<open>Decimal text\<close>

text \<open>
  \<open>float(text)\<close> and \<open>int(text)\<close> on decimal notation: surrounding space, a sign, digits, a fraction and
  an exponent.  The value is exact, where Python rounds it to the nearest double; the special forms
  \<open>inf\<close>, \<open>nan\<close> and underscores between digits count as no number.
\<close>

definition digit :: "char \<Rightarrow> bool" where
  "digit c \<longleftrightarrow> c \<in> set ''0123456789''"

definition digit_value :: "char \<Rightarrow> int" where
  "digit_value c = of_char c - 48"

definition digits_value :: "string \<Rightarrow> int" where
  "digits_value ds = foldl (\<lambda>n c. 10 * n + digit_value c) 0 ds"

fun split_sign :: "string \<Rightarrow> int \<times> string" where
  "split_sign (c # cs) = (if c = CHR ''-'' then (- 1, cs) else if c = CHR ''+'' then (1, cs) else (1, c # cs))"
| "split_sign [] = (1, [])"

definition int_of_text :: "string \<Rightarrow> int option" where
  "int_of_text t = (let (sign, ds) = split_sign (py_strip t)
     in if ds \<noteq> [] \<and> list_all digit ds then Some (sign * digits_value ds) else None)"

text \<open>The power of ten of a number text: \<open>e\<close> or \<open>E\<close>, a sign, digits; or nothing.\<close>

definition exponent_of :: "string \<Rightarrow> int option" where
  "exponent_of t = (case t of [] \<Rightarrow> Some 0
     | c # cs \<Rightarrow> (if c \<in> set ''eE'' \<and> \<not> (cs \<noteq> [] \<and> py_space (hd cs)) \<and> \<not> (cs \<noteq> [] \<and> py_space (last cs))
                 then int_of_text cs else None))"

definition power_of_ten :: "int \<Rightarrow> rat" where
  "power_of_ten e = (if 0 \<le> e then 10 ^ nat e else 1 / 10 ^ nat (- e))"

definition float_of_text :: "string \<Rightarrow> rat option" where
  "float_of_text t = (let (sign, u) = split_sign (py_strip t);
       whole = takeWhile digit u; rest = dropWhile digit u;
       frac = (case rest of c # cs \<Rightarrow> if c = CHR ''.'' then takeWhile digit cs else [] | [] \<Rightarrow> []);
       tail = (case rest of c # cs \<Rightarrow> if c = CHR ''.'' then dropWhile digit cs else rest | [] \<Rightarrow> [])
     in if whole = [] \<and> frac = [] then None
        else map_option (\<lambda>e. of_int sign * (of_int (digits_value (whole @ frac)) / 10 ^ length frac)
                             * power_of_ten e) (exponent_of tail))"

section \<open>Conversions of a field\<close>

text \<open>\<open>float | None\<close>, \<open>str | None\<close> and \<open>int(x)\<close>, which truncates towards zero.\<close>

fun field_float :: "json \<Rightarrow> rat option result" where
  "field_float JNull = Inr None"
| "field_float (JBool b) = Inr (Some (if b then 1 else 0))"
| "field_float (JInt n) = Inr (Some (of_int n))"
| "field_float (JNum x) = Inr (Some x)"
| "field_float (JStr t) = (case float_of_text t of None \<Rightarrow> Inl ValidationError | Some x \<Rightarrow> Inr (Some x))"
| "field_float _ = Inl ValidationError"

fun field_text :: "json \<Rightarrow> string option result" where
  "field_text JNull = Inr None"
| "field_text (JStr t) = Inr (Some t)"
| "field_text _ = Inl ValidationError"

definition truncate_rat :: "rat \<Rightarrow> int" where
  "truncate_rat x = (if 0 \<le> x then \<lfloor>x\<rfloor> else \<lceil>x\<rceil>)"

fun py_int :: "json \<Rightarrow> int result" where
  "py_int (JBool b) = Inr (if b then 1 else 0)"
| "py_int (JInt n) = Inr n"
| "py_int (JNum x) = Inr (truncate_rat x)"
| "py_int (JStr t) = (case int_of_text t of None \<Rightarrow> Inl ValueError | Some n \<Rightarrow> Inr n)"
| "py_int _ = Inl TypeError"

lemma py_get_InrD: "py_get k d = Inr v \<Longrightarrow> \<exists>kvs. d = JObj kvs"
  by (cases d) auto

end
