(* ===== verification/Acquisition.thy ===== *)
theory Acquisition
  imports JobQueue NormalizationLaws Providers PyJson
begin

text \<open>
  The acquisition side: \<open>db/repositories/observations.py\<close> and \<open>runs.py\<close> (idempotent observation rows,
  refresh and source runs) and \<open>acquisition/runner.py\<close>, which runs one adapter inside one refresh
  run and works off the NORMALIZE jobs it has queued.  The adapter is an interface record; the hash
  of an observation without a content hash is a parameter.
\<close>

section \<open>Identifiers as text\<close>

text \<open>
  \<open>str(uuid)\<close> and \<open>uuid.UUID(text)\<close>: 32 lower-case hexadecimal digits in five groups.  Reading drops
  the dashes and accepts upper case; the other spellings that Python's reader accepts (braces, a
  \<open>urn:uuid:\<close> prefix, a sign or underscores) are refused here, and no identifier of the program is
  ever written that way.
\<close>

definition HEX :: string where
  "HEX = ''0123456789abcdef''"

fun hex_digits :: "nat \<Rightarrow> nat \<Rightarrow> string" where
  "hex_digits 0 n = []"
| "hex_digits (Suc k) n = hex_digits k (n div 16) @ [HEX ! (n mod 16)]"

definition uuid_text :: "uuid \<Rightarrow> string" where
  "uuid_text i = (let h = hex_digits 32 i
     in take 8 h @ ''-'' @ take 4 (drop 8 h) @ ''-'' @ take 4 (drop 12 h) @ ''-'' @
        take 4 (drop 16 h) @ ''-'' @ drop 20 h)"

definition hex_value :: "char \<Rightarrow> nat option" where
  "hex_value c = (let n = of_char c :: nat
     in if 48 \<le> n \<and> n \<le> 57 then Some (n - 48)
        else if 97 \<le> n \<and> n \<le> 102 then Some (n - 87)
        else if 65 \<le> n \<and> n \<le> 70 then Some (n - 55) else None)"

fun read_hex :: "nat \<Rightarrow> string \<Rightarrow> nat option" where
  "read_hex acc [] = Some acc"
| "read_hex acc (c # cs) = (case hex_value c of None \<Rightarrow> None | Some v \<Rightarrow> read_hex (16 * acc + v) cs)"

definition uuid_of_text :: "string \<Rightarrow> uuid result" where
  "uuid_of_text t = (let h = filter (\<lambda>c. c \<noteq> CHR ''-'') t
     in if length h \<noteq> 32 then Inl ValueError
        else case read_hex 0 h of None \<Rightarrow> Inl ValueError | Some i \<Rightarrow> Inr i)"

section \<open>Observation rows\<close>

definition new_source_observation ::
  "uuid \<Rightarrow> ParsedSourceObservation \<Rightarrow> uuid \<Rightarrow> uuid \<Rightarrow> string \<Rightarrow> ParseStatus \<Rightarrow> string option \<Rightarrow> source_observation" where
  "new_source_observation i observation source run content_hash parse_status raw_payload_ref =
     \<lparr>so_id = i, so_source_id = source, so_source_run_id = run,
      so_source_native_id = po_source_native_id observation,
      so_source_url = po_source_url observation, so_observed_at = po_observed_at observation,
      so_retrieved_at = po_retrieved_at observation, so_content_hash = content_hash,
      so_raw_payload_ref = raw_payload_ref, so_parsed_payload = observation,
      so_parse_status = parse_status, so_validation_issues = None,
      so_contact_redaction_status = eb_redaction_status (po_description observation),
      so_adapter_version = xb_adapter_version (po_extraction observation),
      so_schema_version = po_schema_version observation\<rparr>"

text \<open>The two partial unique indexes: by native identifier when there is one, by URL otherwise.\<close>

definition observation_key :: "source_observation \<Rightarrow> uuid \<times> (string + string) \<times> string \<times> datetime" where
  "observation_key r = (so_source_id r,
     (case so_source_native_id r of Some n \<Rightarrow> Inl n | None \<Rightarrow> Inr (so_source_url r)),
     so_content_hash r, so_observed_at r)"

definition insert_idempotent ::
  "ParsedSourceObservation \<Rightarrow> uuid \<Rightarrow> uuid \<Rightarrow> string \<Rightarrow> ParseStatus \<Rightarrow> string option \<Rightarrow> db \<Rightarrow> uuid option \<times> db" where
  "insert_idempotent observation source run content_hash parse_status raw_payload_ref s =
     (let row = new_source_observation (db_next s) observation source run content_hash parse_status raw_payload_ref
      in if \<exists>r \<in> set (db_observations s). observation_key r = observation_key row then (None, s)
         else (Some (so_id row), s\<lparr>db_observations := db_observations s @ [row], db_next := Suc (db_next s)\<rparr>))"

text \<open>The latest observation of an identity; of several with the same time any may come first, here the first stored.\<close>

definition latest_for_identity :: "uuid \<Rightarrow> string \<Rightarrow> db \<Rightarrow> source_observation option" where
  "latest_for_identity source native s =
     (case sort_key (\<lambda>r. - so_observed_at r)
             (filter (\<lambda>r. so_source_id r = source \<and> so_source_native_id r = Some native) (db_observations s)) of
        [] \<Rightarrow> None | r # _ \<Rightarrow> Some r)"

definition count_between :: "uuid \<Rightarrow> datetime \<Rightarrow> datetime \<Rightarrow> db \<Rightarrow> nat" where
  "count_between source start stop s = length (filter (\<lambda>r. so_source_id r = source \<and>
     start \<le> so_observed_at r \<and> so_observed_at r < stop) (db_observations s))"

section \<open>Run rows\<close>

definition new_refresh_run ::
  "uuid \<Rightarrow> string \<Rightarrow> RefreshTriggerType \<Rightarrow> datetime \<Rightarrow> string \<Rightarrow> datetime option \<Rightarrow> refresh_run" where
  "new_refresh_run i key trigger started version scheduled =
     \<lparr>rr_id = i, rr_trigger_type = trigger, rr_logical_run_key = key, rr_scheduled_for = scheduled,
      rr_started_at = started, rr_completed_at = None, rr_status = RefreshRunStatus.PENDING,
      rr_pipeline_version = version, rr_summary_counts = None, rr_error_summary = None\<rparr>"

definition create_or_join ::
  "string \<Rightarrow> RefreshTriggerType \<Rightarrow> datetime \<Rightarrow> string \<Rightarrow> datetime option \<Rightarrow> (uuid \<times> bool) tx" where
  "create_or_join key trigger started version scheduled s =
     (if \<exists>r \<in> set (db_refresh_runs s). rr_logical_run_key r = key
      then bind_result (scalar_one (filter (\<lambda>r. rr_logical_run_key r = key) (db_refresh_runs s)))
             (\<lambda>r. Inr ((rr_id r, False), s))
      else Inr ((db_next s, True),
             s\<lparr>db_refresh_runs := db_refresh_runs s @ [new_refresh_run (db_next s) key trigger started version scheduled],
               db_next := Suc (db_next s)\<rparr>))"

definition set_status ::
  "uuid \<Rightarrow> RefreshRunStatus \<Rightarrow> datetime option \<Rightarrow> json option \<Rightarrow> unit tx" where
  "set_status i status completed counts s =
     (if get_by rr_id i (db_refresh_runs s) = None then Inl LookupError
      else Inr ((), s\<lparr>db_refresh_runs := update_where (\<lambda>r. rr_id r = i)
        (\<lambda>r. r\<lparr>rr_status := status,
              rr_completed_at := (case completed of None \<Rightarrow> rr_completed_at r | Some t \<Rightarrow> Some t),
              rr_summary_counts := (case counts of None \<Rightarrow> rr_summary_counts r | Some c \<Rightarrow> Some c)\<rparr>)
        (db_refresh_runs s)\<rparr>))"

definition new_source_run :: "uuid \<Rightarrow> uuid \<Rightarrow> uuid \<Rightarrow> datetime \<Rightarrow> string \<Rightarrow> source_run" where
  "new_source_run i refresh_run source started version =
     \<lparr>sr_id = i, sr_refresh_run_id = refresh_run, sr_source_id = source, sr_started_at = started,
      sr_completed_at = None, sr_status = SourceRunStatus.PENDING, sr_health_gate_passed = None,
      sr_expected_scope = None, sr_counts = None, sr_error_summary = None, sr_adapter_version = version\<rparr>"

definition create_source_run :: "uuid \<Rightarrow> uuid \<Rightarrow> datetime \<Rightarrow> string \<Rightarrow> db \<Rightarrow> uuid \<times> db" where
  "create_source_run refresh_run source started version s =
     (db_next s, s\<lparr>db_source_runs := db_source_runs s @ [new_source_run (db_next s) refresh_run source started version],
       db_next := Suc (db_next s)\<rparr>)"

section \<open>The runner\<close>

definition PIPELINE_VERSION :: string where
  "PIPELINE_VERSION = ''0.2.0''"

definition NORMALIZE_DEPENDENCY_VERSION :: string where
  "NORMALIZE_DEPENDENCY_VERSION = ''phase3-skeleton-1''"

record SourceRunSummary =
  sm_source_run_id :: uuid
  sm_status :: SourceRunStatus
  sm_health_gate_passed :: bool
  sm_discovered :: nat
  sm_persisted_new :: nat
  sm_duplicates_skipped :: nat
  sm_partitions_completed :: nat
  sm_partitions_failed :: nat
  sm_normalize_jobs_enqueued :: nat
  sm_errors :: "string list"

definition new_run_summary :: "uuid \<Rightarrow> SourceRunSummary" where
  "new_run_summary i = \<lparr>sm_source_run_id = i, sm_status = SourceRunStatus.RUNNING,
     sm_health_gate_passed = False, sm_discovered = 0, sm_persisted_new = 0,
     sm_duplicates_skipped = 0, sm_partitions_completed = 0, sm_partitions_failed = 0,
     sm_normalize_jobs_enqueued = 0, sm_errors = []\<rparr>"

text \<open>The first transaction: join or create the refresh run and the run of the source in it.\<close>

definition join_source_run :: "uuid \<Rightarrow> uuid \<Rightarrow> string \<Rightarrow> datetime \<Rightarrow> (uuid \<times> uuid \<times> uuid) tx" where
  "join_source_run refresh_run source version now s =
     bind_result (scalar_one_or_none (filter
         (\<lambda>r. sr_refresh_run_id r = refresh_run \<and> sr_source_id r = source) (db_source_runs s)))
       (\<lambda>existing. case existing of
          Some r \<Rightarrow> Inr ((refresh_run, sr_id r, source), s)
        | None \<Rightarrow>
            (let (i, s') = create_source_run refresh_run source now version s
             in Inr ((refresh_run, i, source), s')))"

definition start_source_run ::
  "string \<Rightarrow> string \<Rightarrow> string \<Rightarrow> RefreshTriggerType \<Rightarrow> datetime \<Rightarrow> (uuid \<times> uuid \<times> uuid) tx" where
  "start_source_run code version key trigger now s =
     bind_result (scalar_one_or_none (filter (\<lambda>r. sc_source_code r = code) (db_sources s))) (\<lambda>found.
     case found of
       None \<Rightarrow> Inl LookupError
     | Some source \<Rightarrow>
         bind_result (create_or_join key trigger now PIPELINE_VERSION None s) (\<lambda>((refresh_run, _), s1).
         join_source_run refresh_run (sc_id source) version now s1))"

text \<open>
  The loop state of a run: the summary, the identities seen, the database, and the adapter's state.
\<close>

type_synonym 'w run_state = "SourceRunSummary \<times> string list \<times> db \<times> 'w"

record run_context =
  rx_refresh_run_id :: uuid
  rx_source_run_id :: uuid
  rx_source_id :: uuid
  rx_now :: datetime

definition persist_observation ::
  "run_context \<Rightarrow> ParsedSourceObservation \<Rightarrow> string \<Rightarrow> SourceRunSummary \<Rightarrow> db \<Rightarrow> SourceRunSummary \<times> db" where
  "persist_observation ctx observation content_hash summary s =
     (case insert_idempotent observation (rx_source_id ctx) (rx_source_run_id ctx) content_hash
             (vb_parse_status (po_validation observation)) None s of
        (None, s1) \<Rightarrow> (summary\<lparr>sm_duplicates_skipped := Suc (sm_duplicates_skipped summary)\<rparr>, s1)
      | (Some i, s1) \<Rightarrow>
          (case enqueue JobType.NORMALIZE (uuid_text i) NORMALIZE_DEPENDENCY_VERSION None
                  (Some (rx_refresh_run_id ctx)) 10 3 None (rx_now ctx) s1 of
             (job_id, s2) \<Rightarrow>
               (summary\<lparr>sm_persisted_new := Suc (sm_persisted_new summary),
                  sm_normalize_jobs_enqueued := sm_normalize_jobs_enqueued summary + (if job_id = None then 0 else 1)\<rparr>,
                s2)))"

definition run_item ::
  "'w SourceAdapter \<Rightarrow> (ParsedSourceObservation \<Rightarrow> string) \<Rightarrow> run_context \<Rightarrow> DiscoveredItem \<Rightarrow>
   'w run_state \<Rightarrow> unit fallible \<times> 'w run_state" where
  "run_item adapter digest ctx item = (\<lambda>(summary, seen, s, w).
     let identity = text_or (di_source_native_id item) (di_detail_url item)
     in if identity \<in> set seen
        then (Inr (), summary\<lparr>sm_duplicates_skipped := Suc (sm_duplicates_skipped summary)\<rparr>, seen, s, w)
        else case sa_fetch_detail adapter item w of
               (Inl e, w1) \<Rightarrow> (Inl e, summary, identity # seen, s, w1)
             | (Inr capture, w1) \<Rightarrow>
                 (case sa_extract adapter capture w1 of
                    (Inl e, w2) \<Rightarrow> (Inl e, summary, identity # seen, s, w2)
                  | (Inr observation, w2) \<Rightarrow>
                      (let content_hash = (if rc_content_hash capture = [] then digest observation
                                           else rc_content_hash capture);
                           (summary', s') = persist_observation ctx observation content_hash summary s
                       in (Inr (), summary', identity # seen, s', w2))))"

fun run_items ::
  "'w SourceAdapter \<Rightarrow> (ParsedSourceObservation \<Rightarrow> string) \<Rightarrow> run_context \<Rightarrow> DiscoveredItem list \<Rightarrow>
   'w run_state \<Rightarrow> unit fallible \<times> 'w run_state" where
  "run_items adapter digest ctx [] st = (Inr (), st)"
| "run_items adapter digest ctx (item # items) st =
     (case run_item adapter digest ctx item st of
        (Inl e, st') \<Rightarrow> (Inl e, st')
      | (Inr _, st') \<Rightarrow> run_items adapter digest ctx items st')"

definition is_checkpoint :: "uuid \<Rightarrow> string \<Rightarrow> adapter_checkpoint \<Rightarrow> bool" where
  "is_checkpoint run key r \<longleftrightarrow> ck_source_run_id r = run \<and> ck_partition_key r = key"

definition save_checkpoint :: "uuid \<Rightarrow> string \<Rightarrow> nat \<Rightarrow> db \<Rightarrow> db result" where
  "save_checkpoint run key discovered s =
     bind_result (scalar_one_or_none (filter (is_checkpoint run key) (db_checkpoints s))) (\<lambda>found.
     case found of
       None \<Rightarrow> Inr (s\<lparr>db_checkpoints := db_checkpoints s @
                   [\<lparr>ck_id = db_next s, ck_source_run_id = run, ck_partition_key = key, ck_cursor_state = None,
                     ck_completed = True, ck_items_discovered = Some discovered\<rparr>], db_next := Suc (db_next s)\<rparr>)
     | Some c \<Rightarrow> Inr (s\<lparr>db_checkpoints := update_where (\<lambda>r. ck_id r = ck_id c)
                   (\<lambda>r. r\<lparr>ck_completed := True, ck_items_discovered := Some discovered\<rparr>) (db_checkpoints s)\<rparr>))"

definition page_degraded :: "DiscoveryPage \<Rightarrow> bool" where
  "page_degraded page \<longleftrightarrow> dp_appears_truncated page \<or>
     (case json_get ''search_error'' (dp_health_markers page) of None \<Rightarrow> False | Some v \<Rightarrow> json_truthy v)"

definition run_partition ::
  "'w SourceAdapter \<Rightarrow> (ParsedSourceObservation \<Rightarrow> string) \<Rightarrow> run_context \<Rightarrow> AcquisitionPartition \<Rightarrow>
   'w run_state \<Rightarrow> bool fallible \<times> 'w run_state" where
  "run_partition adapter digest ctx part = (\<lambda>(summary, seen, s, w).
     case scalar_one_or_none (filter (is_checkpoint (rx_source_run_id ctx) (pt_partition_key part))
            (db_checkpoints s)) of
       Inl e \<Rightarrow> (Inl (error_name e), summary, seen, s, w)
     | Inr found \<Rightarrow>
         if (case found of None \<Rightarrow> False | Some c \<Rightarrow> ck_completed c)
         then (Inr False, summary, seen, s, w)
         else case sa_discover adapter part None w of
                (Inl e, w1) \<Rightarrow> (Inl e, summary, seen, s, w1)
              | (Inr page, w1) \<Rightarrow>
                  (case run_items adapter digest ctx (dp_items page)
                          (summary\<lparr>sm_discovered := sm_discovered summary + length (dp_items page)\<rparr>, seen, s, w1) of
                     (Inl e, st) \<Rightarrow> (Inl e, st)
                   | (Inr _, summary2, seen2, s2, w2) \<Rightarrow>
                       (case save_checkpoint (rx_source_run_id ctx) (pt_partition_key part)
                               (length (dp_items page)) s2 of
                          Inl e \<Rightarrow> (Inl (error_name e), summary2, seen2, s2, w2)
                        | Inr s3 \<Rightarrow> (Inr (page_degraded page), summary2, seen2, s3, w2))))"

text \<open>The partition loop; a failure is counted and the next partition goes on.\<close>

fun run_partitions ::
  "'w SourceAdapter \<Rightarrow> (ParsedSourceObservation \<Rightarrow> string) \<Rightarrow> run_context \<Rightarrow> AcquisitionPartition list \<Rightarrow>
   bool \<Rightarrow> 'w run_state \<Rightarrow> bool \<times> 'w run_state" where
  "run_partitions adapter digest ctx [] degraded st = (degraded, st)"
| "run_partitions adapter digest ctx (p # ps) degraded st =
     (case run_partition adapter digest ctx p st of
        (Inr d, summary, st') \<Rightarrow> run_partitions adapter digest ctx ps (degraded \<or> d)
          (summary\<lparr>sm_partitions_completed := Suc (sm_partitions_completed summary)\<rparr>, st')
      | (Inl e, summary, st') \<Rightarrow> run_partitions adapter digest ctx ps degraded
          (summary\<lparr>sm_partitions_failed := Suc (sm_partitions_failed summary),
             sm_errors := sm_errors summary @ [pt_partition_key p @ '': '' @ e]\<rparr>, st'))"

definition finalize_run :: "uuid \<Rightarrow> SourceRunSummary \<Rightarrow> DiscoveryMethod \<Rightarrow> datetime \<Rightarrow> db \<Rightarrow> db result" where
  "finalize_run i summary discovery_method now s =
     (if get_by sr_id i (db_source_runs s) = None then Inl AssertionError
      else Inr (s\<lparr>db_source_runs := update_where (\<lambda>r. sr_id r = i)
        (\<lambda>r. r\<lparr>sr_status := sm_status summary, sr_completed_at := Some now,
              sr_health_gate_passed := Some (sm_health_gate_passed summary),
              sr_counts := Some (JObj
                [(''discovered'', JInt (int (sm_discovered summary))),
                 (''persisted_new'', JInt (int (sm_persisted_new summary))),
                 (''duplicates_skipped'', JInt (int (sm_duplicates_skipped summary))),
                 (''partitions_completed'', JInt (int (sm_partitions_completed summary))),
                 (''partitions_failed'', JInt (int (sm_partitions_failed summary))),
                 (''normalize_jobs_enqueued'', JInt (int (sm_normalize_jobs_enqueued summary))),
                 (''discovery_method'', JStr (DiscoveryMethod_value discovery_method))]),
              sr_error_summary := (if sm_errors summary = [] then sr_error_summary r
                 else Some (JObj [(''errors'', JList (map JStr (take 50 (sm_errors summary))))]))\<rparr>)
        (db_source_runs s)\<rparr>))"

definition run_status :: "bool \<Rightarrow> SourceRunSummary \<Rightarrow> SourceRunStatus" where
  "run_status degraded summary =
     (if sm_partitions_failed summary \<noteq> 0 \<and> sm_partitions_completed summary = 0 then SourceRunStatus.FAILED
      else if sm_partitions_failed summary \<noteq> 0 \<or> degraded then SourceRunStatus.DEGRADED
      else SourceRunStatus.HEALTHY)"

definition conclude ::
  "bool \<Rightarrow> DiscoveryMethod \<Rightarrow> SourceRunSummary \<Rightarrow> SourceRunSummary" where
  "conclude degraded discovery_method summary =
     summary\<lparr>sm_status := run_status degraded summary,
             sm_health_gate_passed := (run_status degraded summary = SourceRunStatus.HEALTHY \<and>
               discovery_method \<noteq> DiscoveryMethod.SEARCH_INDEX)\<rparr>"

text \<open>The end of a run: the summary is written back and returned.\<close>

definition finish_run ::
  "uuid \<Rightarrow> SourceRunSummary \<Rightarrow> DiscoveryMethod \<Rightarrow> datetime \<Rightarrow> db \<Rightarrow> 'w \<Rightarrow> SourceRunSummary fallible \<times> db \<times> 'w" where
  "finish_run i summary discovery_method now s w =
     (case finalize_run i summary discovery_method now s of
        Inl e \<Rightarrow> (Inl (error_name e), s, w)
      | Inr s' \<Rightarrow> (Inr summary, s', w))"

definition run_source ::
  "'w SourceAdapter \<Rightarrow> (ParsedSourceObservation \<Rightarrow> string) \<Rightarrow> string \<Rightarrow> RefreshTriggerType \<Rightarrow>
   DiscoveryMethod \<Rightarrow> datetime \<Rightarrow> db \<Rightarrow> 'w \<Rightarrow> SourceRunSummary fallible \<times> db \<times> 'w" where
  "run_source adapter digest key trigger discovery_method now s w =
     (case start_source_run (sa_source_code adapter) (sa_adapter_version adapter) key trigger now s of
        Inl e \<Rightarrow> (Inl (error_name e), s, w)
      | Inr ((refresh_run, run, source), s1) \<Rightarrow>
          (let ctx = \<lparr>rx_refresh_run_id = refresh_run, rx_source_run_id = run, rx_source_id = source, rx_now = now\<rparr>;
               summary = new_run_summary run
           in case sa_preflight adapter w of
                (Inl e, w1) \<Rightarrow> (Inl e, s1, w1)
              | (Inr preflight, w1) \<Rightarrow>
                  if sf_result preflight = ''BLOCKED''
                  then finish_run run (summary\<lparr>sm_status := SourceRunStatus.BLOCKED,
                         sm_errors := sf_reasons preflight\<rparr>) discovery_method now s1 w1
                  else case sa_plan_partitions adapter w1 of
                         (Inl e, w2) \<Rightarrow> (Inl e, s1, w2)
                       | (Inr partitions, w2) \<Rightarrow>
                           (case run_partitions adapter digest ctx partitions
                                   (sf_result preflight = ''DEGRADED'') (summary, [], s1, w2) of
                              (degraded, summary', _, s2, w3) \<Rightarrow>
                                finish_run run (conclude degraded discovery_method summary') discovery_method now s2 w3)))"

section \<open>The worker loop\<close>

text \<open>
  \<open>drain_normalize_jobs\<close> with \<open>n\<close> jobs to go after \<open>processed\<close>.  The clock is read when a job is claimed
  and when it is completed.  Each job is claimed in one transaction and worked in another, which is
  rolled back before a failure is recorded.
\<close>

definition work_job ::
  "uuid \<Rightarrow> uuid \<Rightarrow> uuid \<Rightarrow> DiscoveryMethod \<Rightarrow> datetime \<Rightarrow> unit tx" where
  "work_job job lease observation discovery_method now s =
     (case bind_result (process_observation observation discovery_method now s)
             (\<lambda>(_, s1). complete job lease JobStatus.SUCCEEDED None None 60 now s1) of
        Inr (_, s2) \<Rightarrow> Inr ((), s2)
      | Inl e \<Rightarrow> bind_result
          (complete job lease JobStatus.FAILED_RETRYABLE (Some (error_name e)) None 60 now s)
          (\<lambda>(_, s2). Inr ((), s2)))"

fun drain_normalize_jobs ::
  "string \<Rightarrow> DiscoveryMethod \<Rightarrow> (nat \<Rightarrow> datetime) \<Rightarrow> nat \<Rightarrow> nat \<Rightarrow> db \<Rightarrow> nat result \<times> db" where
  "drain_normalize_jobs worker discovery_method clock 0 processed s = (Inr processed, s)"
| "drain_normalize_jobs worker discovery_method clock (Suc n) processed s =
     (case claim worker 300 1 (clock (2 * processed)) s of
        Inl e \<Rightarrow> (Inl e, s)
      | Inr (claimed, s1) \<Rightarrow>
          (case filter (\<lambda>j. jb_job_type j = JobType.NORMALIZE) claimed of
             [] \<Rightarrow> (Inr processed, s1)
           | j # _ \<Rightarrow>
               (case (jb_lease_token j, uuid_of_text (jb_input_hash j)) of
                  (None, _) \<Rightarrow> (Inl AssertionError, s)
                | (Some _, Inl e) \<Rightarrow> (Inl e, s)
                | (Some lease, Inr observation) \<Rightarrow>
                    (case work_job (jb_id j) lease observation discovery_method (clock (2 * processed + 1)) s1 of
                       Inl e \<Rightarrow> (Inl e, s1)
                     | Inr (_, s2) \<Rightarrow>
                         drain_normalize_jobs worker discovery_method clock n (Suc processed) s2))))"

end
