(* ===== verification/AcquisitionLaws.thy ===== *)
theory AcquisitionLaws
  imports Acquisition
begin

text \<open>
  What holds of a source run: identifiers survive their text form, inserts are idempotent, the
  counters of a run add up whatever the adapter does, and when the health gate opens.
\<close>

section \<open>Identifiers as text\<close>

lemma length_hex_digits [simp]: "length (hex_digits k n) = k"
  by (induction k n rule: hex_digits.induct) simp_all

lemma hex_value_HEX: "v < 16 \<Longrightarrow> hex_value (HEX ! v) = Some v"
proof -
  have "list_all (\<lambda>v. hex_value (HEX ! v) = Some v) [0..<16]" by code_simp
  then show "v < 16 \<Longrightarrow> hex_value (HEX ! v) = Some v" by (simp add: list_all_iff)
qed

lemma HEX_no_dash: "v < 16 \<Longrightarrow> CHR ''-'' \<noteq> HEX ! v"
proof -
  have "hex_value CHR ''-'' = None" by code_simp
  then show "v < 16 \<Longrightarrow> CHR ''-'' \<noteq> HEX ! v" using hex_value_HEX [of v] by force
qed

lemma hex_digits_no_dash: "CHR ''-'' \<notin> set (hex_digits k n)"
  by (induction k n rule: hex_digits.induct) (simp_all add: HEX_no_dash)

lemma read_hex_append:
  "read_hex acc (xs @ ys) = (case read_hex acc xs of None \<Rightarrow> None | Some v \<Rightarrow> read_hex v ys)"
  by (induction acc xs rule: read_hex.induct) (simp_all split: option.split)

lemma mod_hex: "(n::nat) mod 16 ^ Suc k = 16 * (n div 16 mod 16 ^ k) + n mod 16"
  using mod_mult2_eq [of n 16 "16 ^ k"] by simp

lemma read_hex_digits: "read_hex acc (hex_digits k n) = Some (16 ^ k * acc + n mod 16 ^ k)"
proof (induction k arbitrary: acc n)
  case 0
  show ?case by simp
next
  case (Suc k)
  have "n mod 16 < 16" by simp
  then show ?case
    by (simp add: read_hex_append Suc.IH hex_value_HEX mod_hex algebra_simps del: power_Suc) (simp add: algebra_simps)
qed

lemma uuid_text_digits: "filter (\<lambda>c. c \<noteq> CHR ''-'') (uuid_text i) = hex_digits 32 i"
proof -
  let ?h = "hex_digits 32 i"
  have keep: "filter (\<lambda>c. c \<noteq> CHR ''-'') xs = xs" if "set xs \<subseteq> set ?h" for xs
    using that hex_digits_no_dash [of 32 i] by (intro filter_True) auto
  have sub: "set (take m (drop n ?h)) \<subseteq> set ?h" "set (drop n ?h) \<subseteq> set ?h" "set (take m ?h) \<subseteq> set ?h" for m n
    using set_take_subset set_drop_subset by fast+
  have "take 8 ?h @ take 4 (drop 8 ?h) @ take 4 (drop 12 ?h) @ take 4 (drop 16 ?h) @ drop 20 ?h = ?h"
    using take_add [of 8 4 ?h] take_add [of 12 4 ?h] take_add [of 16 4 ?h] append_take_drop_id [of 20 ?h]
    by (simp del: append_take_drop_id take_append drop_append hex_digits.simps)
  then show ?thesis
    by (simp add: uuid_text_def Let_def keep [OF sub(1)] keep [OF sub(2)] keep [OF sub(3)])
qed

section \<open>Idempotent rows\<close>

lemma observation_key_new:
  "observation_key (new_source_observation i obs src run h ps ref) = observation_key (new_source_observation 0 obs src run h ps ref)"
  unfolding observation_key_def new_source_observation_def by (cases "po_source_native_id obs") simp_all

interpretation observation_insert: idempotent_insert db_observations
    "\<lambda>(obs, src, run, h, ps, ref) s. case insert_idempotent obs src run h ps ref s of (r, s') \<Rightarrow> (r \<noteq> None, s')"
    "\<lambda>(obs, src, run, h, ps, ref) s. new_source_observation (db_next s) obs src run h ps ref"
    "\<lambda>(obs, src, run, h, ps, ref) r. observation_key r = observation_key (new_source_observation 0 obs src run h ps ref)"
proof unfold_locales
  fix s :: db and i :: "ParsedSourceObservation \<times> uuid \<times> uuid \<times> string \<times> ParseStatus \<times> string option"
  obtain obs src run h ps ref where i: "i = (obs, src, run, h, ps, ref)" by (cases i)
  note key = observation_key_new [of "db_next s" obs src run h ps ref]
  show "(\<lambda>(obs, src, run, h, ps, ref) s. case insert_idempotent obs src run h ps ref s of (r, s') \<Rightarrow> (r \<noteq> None, s')) i s =
      (False, s)"
    if "\<exists>r \<in> set (db_observations s). (\<lambda>(obs, src, run, h, ps, ref) r.
        observation_key r = observation_key (new_source_observation 0 obs src run h ps ref)) i r"
    using that by (simp add: i insert_idempotent_def Let_def key)
  let ?r = "(\<lambda>(obs, src, run, h, ps, ref) s. case insert_idempotent obs src run h ps ref s of (r, s') \<Rightarrow> (r \<noteq> None, s')) i s"
  show "fst ?r \<and> db_observations (snd ?r) = db_observations s @
      [(\<lambda>(obs, src, run, h, ps, ref) s. new_source_observation (db_next s) obs src run h ps ref) i s]"
    if "\<forall>r \<in> set (db_observations s). \<not> (\<lambda>(obs, src, run, h, ps, ref) r.
        observation_key r = observation_key (new_source_observation 0 obs src run h ps ref)) i r"
    using that by (simp add: i insert_idempotent_def Let_def key)
  show "(\<lambda>(obs, src, run, h, ps, ref) r.
        observation_key r = observation_key (new_source_observation 0 obs src run h ps ref)) i
      ((\<lambda>(obs, src, run, h, ps, ref) s. new_source_observation (db_next s) obs src run h ps ref) i s)"
    by (simp add: i key)
qed

interpretation run_join: idempotent_insert db_refresh_runs
    "\<lambda>(key, trigger, t, v, sched) s. case create_or_join key trigger t v sched s of
       Inl _ \<Rightarrow> (False, s) | Inr ((_, created), s') \<Rightarrow> (created, s')"
    "\<lambda>(key, trigger, t, v, sched) s. new_refresh_run (db_next s) key trigger t v sched"
    "\<lambda>(key, trigger, t, v, sched) r. rr_logical_run_key r = key"
proof unfold_locales
  fix s :: db and i :: "string \<times> RefreshTriggerType \<times> datetime \<times> string \<times> datetime option"
  obtain key trigger t v sched where i: "i = (key, trigger, t, v, sched)" by (cases i)
  assume "\<exists>r \<in> set (db_refresh_runs s). (\<lambda>(key, trigger, t, v, sched) r. rr_logical_run_key r = key) i r"
  then have hit: "\<exists>r \<in> set (db_refresh_runs s). rr_logical_run_key r = key" by (simp add: i)
  then show "(\<lambda>(key, trigger, t, v, sched) s. case create_or_join key trigger t v sched s of
       Inl _ \<Rightarrow> (False, s) | Inr ((_, created), s') \<Rightarrow> (created, s')) i s = (False, s)"
    by (cases "scalar_one (filter (\<lambda>r. rr_logical_run_key r = key) (db_refresh_runs s))")
      (simp_all add: i create_or_join_def)
qed (auto simp: create_or_join_def new_refresh_run_def split: prod.splits)

section \<open>What a run may change\<close>

text \<open>
  Acquisition adds observations, jobs and checkpoints and keeps its own run rows; the canonical
  tables, their history and everything manual stay.
\<close>

definition acq_frame :: "db \<Rightarrow> db \<Rightarrow> bool" where
  "acq_frame s s' \<longleftrightarrow> manual_state s' = manual_state s \<and> identity_state s' = identity_state s \<and>
     fact_state s' = fact_state s \<and> db_listings s' = db_listings s \<and> db_events s' = db_events s \<and>
     db_issues s' = db_issues s \<and> db_sources s' = db_sources s \<and>
     enriched_state s' = enriched_state s \<and> db_next s \<le> db_next s' \<and>
     (\<exists>new. db_observations s' = db_observations s @ new) \<and> (\<exists>new. db_jobs s' = db_jobs s @ new)"

definition runs_kept :: "db \<Rightarrow> db \<Rightarrow> bool" where
  "runs_kept s s' \<longleftrightarrow> acq_frame s s' \<and> db_source_runs s' = db_source_runs s \<and> db_refresh_runs s' = db_refresh_runs s"

lemma acq_frame_refl [simp]: "acq_frame s s"
  by (simp add: acq_frame_def)

lemma acq_frame_trans: "acq_frame s t \<Longrightarrow> acq_frame t u \<Longrightarrow> acq_frame s u"
  by (auto simp: acq_frame_def)

lemma runs_kept_refl [simp]: "runs_kept s s"
  by (simp add: runs_kept_def)

lemma runs_kept_trans: "runs_kept s t \<Longrightarrow> runs_kept t u \<Longrightarrow> runs_kept s u"
  using acq_frame_trans by (simp add: runs_kept_def) blast

lemma insert_idempotent_kept: "insert_idempotent obs src run h ps ref s = (r, s') \<Longrightarrow> runs_kept s s'"
  by (auto simp: insert_idempotent_def Let_def runs_kept_def acq_frame_def frame_defs split: if_splits)

lemma enqueue_kept: "enqueue ty h v l r p m n now s = (j, s') \<Longrightarrow> runs_kept s s'"
  by (auto simp: enqueue_def Let_def runs_kept_def acq_frame_def frame_defs split: if_splits)

lemma save_checkpoint_kept: "save_checkpoint run key n s = Inr s' \<Longrightarrow> runs_kept s s'"
  by (auto simp: save_checkpoint_def bind_result_Inr_iff runs_kept_def acq_frame_def frame_defs split: option.splits)

text \<open>The counters: every discovered item is new, a duplicate, or lost with its partition.\<close>

definition room :: "nat \<Rightarrow> SourceRunSummary \<Rightarrow> bool" where
  "room n sm \<longleftrightarrow> sm_persisted_new sm + sm_duplicates_skipped sm + n \<le> sm_discovered sm \<and>
     sm_normalize_jobs_enqueued sm \<le> sm_persisted_new sm"

definition same_partitions :: "SourceRunSummary \<Rightarrow> SourceRunSummary \<Rightarrow> bool" where
  "same_partitions sm sm' \<longleftrightarrow> sm_source_run_id sm' = sm_source_run_id sm \<and>
     sm_partitions_completed sm' = sm_partitions_completed sm \<and>
     sm_partitions_failed sm' = sm_partitions_failed sm \<and> sm_errors sm' = sm_errors sm"

lemma persist_observation_effect:
  assumes "persist_observation ctx obs h sm s = (sm', s')"
  shows "runs_kept s s'" "room (Suc n) sm \<Longrightarrow> room n sm'" "same_partitions sm sm'"
proof -
  obtain r s1 where ins: "insert_idempotent obs (rx_source_id ctx) (rx_source_run_id ctx) h
      (vb_parse_status (po_validation obs)) None s = (r, s1)" by (cases rule: prod.exhaust)
  note k1 = insert_idempotent_kept [OF ins]
  have "runs_kept s s' \<and> (room (Suc n) sm \<longrightarrow> room n sm') \<and> same_partitions sm sm'" for n
  proof (cases r)
    case None
    then show ?thesis using assms ins k1 by (auto simp: persist_observation_def room_def same_partitions_def)
  next
    case (Some i)
    obtain j s2 where enq: "enqueue JobType.NORMALIZE (uuid_text i) NORMALIZE_DEPENDENCY_VERSION None
        (Some (rx_refresh_run_id ctx)) 10 3 None (rx_now ctx) s1 = (j, s2)" by (cases rule: prod.exhaust)
    then show ?thesis
      using assms ins Some runs_kept_trans [OF k1 enqueue_kept [OF enq]]
      by (auto simp: persist_observation_def room_def same_partitions_def)
  qed
  then show "runs_kept s s'" "room (Suc n) sm \<Longrightarrow> room n sm'" "same_partitions sm sm'" by blast+
qed

definition item_step :: "nat \<Rightarrow> nat \<Rightarrow> 'w run_state \<Rightarrow> 'w run_state \<Rightarrow> bool" where
  "item_step m n st st' \<longleftrightarrow> (case (st, st') of ((sm, _, s, _), (sm', _, s', _)) \<Rightarrow>
     runs_kept s s' \<and> same_partitions sm sm' \<and> (room m sm \<longrightarrow> room n sm'))"

lemma item_step_trans: "item_step l m st st' \<Longrightarrow> item_step m n st' st'' \<Longrightarrow> item_step l n st st''"
  using runs_kept_trans by (force simp: item_step_def same_partitions_def split: prod.splits)

lemma room_mono: "room m sm \<Longrightarrow> n \<le> m \<Longrightarrow> room n sm"
  by (simp add: room_def)

lemma run_item_step:
  assumes "run_item adapter digest ctx item st = (r, st')"
  shows "item_step (Suc n) n st st'"
proof -
  obtain sm seen s w where st: "st = (sm, seen, s, w)" by (cases st)
  let ?id = "text_or (di_source_native_id item) (di_detail_url item)"
  have skip: "item_step (Suc n) n (sm, seen, s, w) (sm, seen', s, w')" for seen' w'
    by (simp add: item_step_def same_partitions_def room_def)
  show ?thesis
  proof (cases "?id \<in> set seen")
    case True
    then show ?thesis using assms
      by (auto simp: run_item_def Let_def st item_step_def same_partitions_def room_def)
  next
    case False
    obtain f w1 where f: "sa_fetch_detail adapter item w = (f, w1)" by (cases rule: prod.exhaust)
    show ?thesis
    proof (cases f)
      case (Inl e)
      then show ?thesis using assms False f skip by (auto simp: run_item_def Let_def st)
    next
      case capture: (Inr capture)
      obtain x w2 where x: "sa_extract adapter capture w1 = (x, w2)" by (cases rule: prod.exhaust)
      show ?thesis
      proof (cases x)
        case (Inl e)
        then show ?thesis using assms False f capture x skip by (auto simp: run_item_def Let_def st)
      next
        case (Inr obs)
        let ?h = "if rc_content_hash capture = [] then digest obs else rc_content_hash capture"
        obtain sm' s' where p: "persist_observation ctx obs ?h sm s = (sm', s')" by (cases rule: prod.exhaust)
        have "st' = (sm', ?id # seen, s', w2)"
          using assms False f capture x Inr p by (simp add: run_item_def Let_def st del: if_split)
        then show ?thesis using persist_observation_effect [OF p] by (simp add: item_step_def st)
      qed
    qed
  qed
qed

lemma item_step_mono: "item_step m n st st' \<Longrightarrow> l \<le> n \<Longrightarrow> item_step m l st st'"
  using room_mono by (force simp: item_step_def split: prod.splits)

lemma run_items_step:
  "run_items adapter digest ctx items st = (r, st') \<Longrightarrow> item_step (length items) 0 st st'"
proof (induction items arbitrary: st)
  case Nil
  then show ?case by (auto simp: item_step_def same_partitions_def split: prod.splits)
next
  case (Cons item items)
  obtain r1 st1 where one: "run_item adapter digest ctx item st = (r1, st1)" by (cases rule: prod.exhaust)
  note step = run_item_step [OF one, of "length items"]
  show ?case
  proof (cases r1)
    case (Inl e)
    then show ?thesis using Cons.prems one item_step_mono [OF step] by simp
  next
    case (Inr u)
    then show ?thesis using Cons one item_step_trans [OF step] by simp
  qed
qed

lemma run_partition_step:
  assumes "run_partition adapter digest ctx part st = (r, st')"
  shows "item_step 0 0 st st'"
proof -
  obtain sm seen s w where st: "st = (sm, seen, s, w)" by (cases st)
  have stay: "item_step 0 0 (sm, seen, s, w) (sm, seen, s, w')" for w'
    by (simp add: item_step_def same_partitions_def)
  let ?cp = "scalar_one_or_none (filter (is_checkpoint (rx_source_run_id ctx) (pt_partition_key part)) (db_checkpoints s))"
  show ?thesis
  proof (cases "\<exists>e. ?cp = Inl e \<or> (\<exists>c. ?cp = Inr (Some c) \<and> ck_completed c)")
    case True
    then show ?thesis using assms stay by (auto simp: run_partition_def st)
  next
    case False
    then obtain found where found: "?cp = Inr found" "\<not> (case found of None \<Rightarrow> False | Some c \<Rightarrow> ck_completed c)"
      by (cases ?cp) (auto split: option.splits)
    obtain d w1 where d: "sa_discover adapter part None w = (d, w1)" by (cases rule: prod.exhaust)
    show ?thesis
    proof (cases d)
      case (Inl e)
      then show ?thesis using assms found d stay by (auto simp: run_partition_def st)
    next
      case (Inr page)
      let ?sm = "sm\<lparr>sm_discovered := sm_discovered sm + length (dp_items page)\<rparr>"
      obtain q sm2 seen2 s2 w2 where items: "run_items adapter digest ctx (dp_items page) (?sm, seen, s, w1) = (q, sm2, seen2, s2, w2)"
        by (cases rule: prod_cases5)
      have "item_step (length (dp_items page)) 0 (?sm, seen, s, w1) (sm2, seen2, s2, w2)"
        by (rule run_items_step [OF items])
      then have step: "runs_kept s s2" "same_partitions sm sm2" "room 0 sm \<longrightarrow> room 0 sm2"
        by (auto simp: item_step_def same_partitions_def room_def)
      show ?thesis
      proof (cases q)
        case q: (Inl e)
        then show ?thesis using assms found d Inr items step by (auto simp: run_partition_def st item_step_def)
      next
        case q: (Inr u)
        show ?thesis
        proof (cases "save_checkpoint (rx_source_run_id ctx) (pt_partition_key part) (length (dp_items page)) s2")
          case (Inl e)
          then show ?thesis using assms found d Inr items q step by (auto simp: run_partition_def st item_step_def)
        next
          case (Inr s3)
          then show ?thesis
            using assms found d \<open>d = Inr page\<close> items q step runs_kept_trans [OF step(1) save_checkpoint_kept [OF Inr]]
            by (auto simp: run_partition_def st item_step_def)
        qed
      qed
    qed
  qed
qed

lemma run_partitions_step:
  assumes "run_partitions adapter digest ctx ps degraded (sm, seen, s, w) = (degraded', sm', seen', s', w')"
  shows "runs_kept s s' \<and> sm_source_run_id sm' = sm_source_run_id sm \<and>
    sm_partitions_completed sm' + sm_partitions_failed sm' =
      sm_partitions_completed sm + sm_partitions_failed sm + length ps \<and>
    (length (sm_errors sm) = sm_partitions_failed sm \<longrightarrow> length (sm_errors sm') = sm_partitions_failed sm') \<and>
    (room 0 sm \<longrightarrow> room 0 sm') \<and> (degraded \<longrightarrow> degraded')"
  using assms
proof (induction ps arbitrary: degraded sm seen s w)
  case (Cons p ps)
  obtain r sm1 seen1 s1 w1 where one: "run_partition adapter digest ctx p (sm, seen, s, w) = (r, sm1, seen1, s1, w1)"
    by (cases rule: prod_cases5)
  have step: "runs_kept s s1" "same_partitions sm sm1" "room 0 sm \<longrightarrow> room 0 sm1"
    using run_partition_step [OF one] by (simp_all add: item_step_def)
  show ?case
  proof (cases r)
    case (Inl e)
    from Cons.IH [of degraded _ seen1 s1 w1] Cons.prems one Inl
    show ?thesis using step runs_kept_trans [OF step(1)] by (auto simp: same_partitions_def room_def)
  next
    case (Inr d)
    from Cons.IH [of "degraded \<or> d" _ seen1 s1 w1] Cons.prems one Inr
    show ?thesis using step runs_kept_trans [OF step(1)] by (auto simp: same_partitions_def room_def)
  qed
qed simp

lemma create_or_join_effect:
  assumes "create_or_join key trigger now v sched s = Inr (x, t)"
  shows "acq_frame s t \<and> db_source_runs t = db_source_runs s \<and> db_checkpoints t = db_checkpoints s \<and>
    db_observations t = db_observations s \<and> db_jobs t = db_jobs s"
  using assms by (auto simp: create_or_join_def bind_result_Inr_iff acq_frame_def frame_defs split: if_splits)

lemma join_source_run_effect:
  assumes "join_source_run refresh_run source version now s = Inr ((rr, run, src), t)"
  shows "acq_frame s t \<and> get_by sr_id run (db_source_runs t) \<noteq> None \<and> db_checkpoints t = db_checkpoints s \<and>
    db_observations t = db_observations s \<and> db_jobs t = db_jobs s"
proof -
  from assms obtain found where found: "scalar_one_or_none (filter
      (\<lambda>r. sr_refresh_run_id r = refresh_run \<and> sr_source_id r = source) (db_source_runs s)) = Inr found"
    by (auto simp: join_source_run_def bind_result_Inr_iff)
  show ?thesis
  proof (cases found)
    case None
    then show ?thesis
      using assms found by (auto simp: join_source_run_def create_source_run_def new_source_run_def
          acq_frame_def frame_defs get_by_None_iff)
  next
    case (Some r)
    then show ?thesis
      using assms found scalar_one_or_none_filter_Some [OF found [unfolded Some]]
      by (auto simp: join_source_run_def get_by_None_iff)
  qed
qed

lemma start_source_run_effect:
  assumes "start_source_run code version key trigger now s = Inr ((refresh_run, run, source), s1)"
  shows "acq_frame s s1" "get_by sr_id run (db_source_runs s1) \<noteq> None" "db_checkpoints s1 = db_checkpoints s"
    "db_observations s1 = db_observations s" "db_jobs s1 = db_jobs s"
proof -
  obtain found where found: "scalar_one_or_none (filter (\<lambda>r. sc_source_code r = code) (db_sources s)) = Inr found"
    using assms by (auto simp: start_source_run_def bind_result_Inr_iff)
  obtain src where src: "found = Some src" using assms found by (cases found) (auto simp: start_source_run_def)
  obtain rr created t where t: "create_or_join key trigger now PIPELINE_VERSION None s = Inr ((rr, created), t)"
    using assms found src by (cases "create_or_join key trigger now PIPELINE_VERSION None s")
      (auto simp: start_source_run_def split: prod.splits)
  then have "join_source_run rr (sc_id src) version now t = Inr ((refresh_run, run, source), s1)"
    using assms found src by (simp add: start_source_run_def)
  from join_source_run_effect [OF this] create_or_join_effect [OF t]
  show "acq_frame s s1" "get_by sr_id run (db_source_runs s1) \<noteq> None" "db_checkpoints s1 = db_checkpoints s"
    "db_observations s1 = db_observations s" "db_jobs s1 = db_jobs s"
    using acq_frame_trans by auto
qed

definition gate_of :: "uuid \<Rightarrow> db \<Rightarrow> (SourceRunStatus \<times> bool option) option" where
  "gate_of i s = map_option (\<lambda>r. (sr_status r, sr_health_gate_passed r)) (get_by sr_id i (db_source_runs s))"

lemma finish_run_effect:
  assumes "get_by sr_id i (db_source_runs s) \<noteq> None"
  shows "\<exists>s'. finish_run i summary dm now s w = (Inr summary, s', w) \<and> acq_frame s s' \<and>
    db_observations s' = db_observations s \<and> db_jobs s' = db_jobs s \<and> db_checkpoints s' = db_checkpoints s \<and>
    gate_of i s' = Some (sm_status summary, Some (sm_health_gate_passed summary))"
proof -
  obtain r where r: "get_by sr_id i (db_source_runs s) = Some r" using assms by auto
  have "get_by sr_id i (update_where (\<lambda>r. sr_id r = i) f (db_source_runs s)) = Some (f r)"
    if "\<And>x. sr_id (f x) = sr_id x" for f
    using that r get_by_SomeD [OF r] by (subst get_by_update_where) auto
  then show ?thesis
    using r by (simp add: finish_run_def finalize_run_def gate_of_def acq_frame_def frame_defs)
qed

text \<open>Also a run that raises has changed nothing else.\<close>

lemma finish_run_frame: "finish_run i summary dm now s w = (r, s', w') \<Longrightarrow> acq_frame s s'"
  by (auto simp: finish_run_def finalize_run_def acq_frame_def frame_defs split: if_splits)

lemma run_source_frame:
  assumes "run_source adapter digest key trigger dm now s w = (r, s', w')"
  shows "acq_frame s s'"
proof (cases "start_source_run (sa_source_code adapter) (sa_adapter_version adapter) key trigger now s")
  case (Inl e)
  then show ?thesis using assms by (simp add: run_source_def)
next
  case (Inr x)
  obtain rr run src s1 where start: "start_source_run (sa_source_code adapter) (sa_adapter_version adapter) key trigger now s =
      Inr ((rr, run, src), s1)" using Inr by (cases x) auto
  note st = start_source_run_effect [OF start]
  obtain p w1 where p: "sa_preflight adapter w = (p, w1)" by (cases rule: prod.exhaust)
  show ?thesis
  proof (cases p)
    case (Inl e)
    then show ?thesis using assms start p st(1) by (simp add: run_source_def Let_def)
  next
    case preflight: (Inr pf)
    show ?thesis
    proof (cases "sf_result pf = ''BLOCKED''")
      case True
      then have "acq_frame s1 s'" using assms start p preflight finish_run_frame by (simp add: run_source_def Let_def)
      with st(1) show ?thesis by (rule acq_frame_trans)
    next
      case False
      obtain q w2 where q: "sa_plan_partitions adapter w1 = (q, w2)" by (cases rule: prod.exhaust)
      show ?thesis
      proof (cases q)
        case (Inl e)
        then show ?thesis using assms start p preflight False q st(1) by (simp add: run_source_def Let_def)
      next
        case plan: (Inr ps)
        let ?ctx = "\<lparr>rx_refresh_run_id = rr, rx_source_run_id = run, rx_source_id = src, rx_now = now\<rparr>"
        obtain deg sm seen s2 w3 where loop: "run_partitions adapter digest ?ctx ps (sf_result pf = ''DEGRADED'')
            (new_run_summary run, [], s1, w2) = (deg, sm, seen, s2, w3)" by (cases rule: prod_cases5)
        have "acq_frame s1 s2" using run_partitions_step [OF loop] by (simp add: runs_kept_def)
        moreover have "acq_frame s2 s'"
          using assms start p preflight False q plan loop finish_run_frame by (simp add: run_source_def Let_def)
        ultimately show ?thesis using st(1) acq_frame_trans by blast
      qed
    qed
  qed
qed

lemma run_source_gate:
  assumes "run_source adapter digest key trigger dm now s w = (Inr summary, s', w')"
  shows "gate_of (sm_source_run_id summary) s' = Some (sm_status summary, Some (sm_health_gate_passed summary)) \<and>
    (if sm_health_gate_passed summary
     then sm_status summary = SourceRunStatus.HEALTHY \<and> sm_partitions_failed summary = 0 \<and>
       dm \<noteq> DiscoveryMethod.SEARCH_INDEX
     else sm_status summary \<noteq> SourceRunStatus.HEALTHY \<or> dm = DiscoveryMethod.SEARCH_INDEX) \<and>
    sm_persisted_new summary + sm_duplicates_skipped summary \<le> sm_discovered summary \<and>
    sm_normalize_jobs_enqueued summary \<le> sm_persisted_new summary \<and> acq_frame s s'"
proof -
  obtain rr run src s1 where start: "start_source_run (sa_source_code adapter) (sa_adapter_version adapter) key trigger now s =
      Inr ((rr, run, src), s1)"
    using assms by (cases "start_source_run (sa_source_code adapter) (sa_adapter_version adapter) key trigger now s")
      (auto simp: run_source_def)
  note st = start_source_run_effect [OF start]
  obtain pf w1 where pf: "sa_preflight adapter w = (Inr pf, w1)"
    using assms start by (cases "sa_preflight adapter w"; cases "fst (sa_preflight adapter w)") (auto simp: run_source_def Let_def)
  have fresh: "room 0 (new_run_summary run)" "sm_source_run_id (new_run_summary run) = run"
    by (simp_all add: room_def new_run_summary_def)
  show ?thesis
  proof (cases "sf_result pf = ''BLOCKED''")
    case True
    let ?sm = "(new_run_summary run)\<lparr>sm_status := SourceRunStatus.BLOCKED, sm_errors := sf_reasons pf\<rparr>"
    have "finish_run run ?sm dm now s1 w1 = (Inr summary, s', w')"
      using assms start pf True by (simp add: run_source_def Let_def)
    with finish_run_effect [OF st(2), of ?sm dm now w1] have "summary = ?sm" "acq_frame s1 s'"
        "gate_of run s' = Some (sm_status ?sm, Some (sm_health_gate_passed ?sm))" by auto
    then show ?thesis using acq_frame_trans [OF st(1)] by (simp add: new_run_summary_def)
  next
    case False
    obtain ps w2 where ps: "sa_plan_partitions adapter w1 = (Inr ps, w2)"
      using assms start pf False by (cases "sa_plan_partitions adapter w1"; cases "fst (sa_plan_partitions adapter w1)")
        (auto simp: run_source_def Let_def)
    let ?ctx = "\<lparr>rx_refresh_run_id = rr, rx_source_run_id = run, rx_source_id = src, rx_now = now\<rparr>"
    obtain deg sm seen s2 w3 where loop: "run_partitions adapter digest ?ctx ps (sf_result pf = ''DEGRADED'')
        (new_run_summary run, [], s1, w2) = (deg, sm, seen, s2, w3)" by (cases rule: prod_cases5)
    note step = run_partitions_step [OF loop]
    then have row: "get_by sr_id run (db_source_runs s2) \<noteq> None" "acq_frame s1 s2" "room 0 sm" "sm_source_run_id sm = run"
      using st(2) fresh by (simp_all add: runs_kept_def)
    have "finish_run run (conclude deg dm sm) dm now s2 w3 = (Inr summary, s', w')"
      using assms start pf False ps loop by (simp add: run_source_def Let_def)
    with finish_run_effect [OF row(1), of "conclude deg dm sm" dm now w3] have "summary = conclude deg dm sm" "acq_frame s2 s'"
        "gate_of run s' = Some (sm_status summary, Some (sm_health_gate_passed summary))" by auto
    then show ?thesis
      using acq_frame_trans [OF acq_frame_trans [OF st(1) row(2)]] row(3,4)
      by (auto simp: conclude_def run_status_def room_def)
  qed
qed

section \<open>Properties\<close>

text \<open>
  The text of an identifier reads back as the identifier, for every 128-bit identifier.
\<close>
theorem uuid_text_roundtrip:
  assumes "i < 2 ^ 128"
  shows "uuid_of_text (uuid_text i) = Inr i"
proof -
  have "(16::nat) ^ 32 = 2 ^ 128" by simp
  then show ?thesis
    using assms read_hex_digits [of 0 32 i] by (simp add: uuid_of_text_def uuid_text_digits Let_def)
qed

theorem uuid_text_roundtrip_witness: "uuid_of_text (uuid_text 48879) = Inr 48879"
  by (rule uuid_text_roundtrip) simp

text \<open>
  C21. When a run of a source returns, its row carries the returned status and gate.  The gate is open
  only for a HEALTHY run without a failed partition whose discovery was not by a search index; the
  counters add up, and the run has changed no listing, link, fact, event or manual state.
\<close>
theorem gate_needs_a_clean_direct_run:
  assumes "run_source adapter digest key trigger dm now s w = (Inr summary, s', w')"
  shows "gate_of (sm_source_run_id summary) s' = Some (sm_status summary, Some (sm_health_gate_passed summary)) \<and>
    (if sm_health_gate_passed summary
     then sm_status summary = SourceRunStatus.HEALTHY \<and> sm_partitions_failed summary = 0 \<and>
       dm \<noteq> DiscoveryMethod.SEARCH_INDEX
     else sm_status summary \<noteq> SourceRunStatus.HEALTHY \<or> dm = DiscoveryMethod.SEARCH_INDEX) \<and>
    sm_persisted_new summary + sm_duplicates_skipped summary \<le> sm_discovered summary \<and>
    sm_normalize_jobs_enqueued summary \<le> sm_persisted_new summary \<and> acq_frame s s'"
  by (rule run_source_gate [OF assms])

text \<open>A source with one partition, whose only page looks truncated.\<close>

definition demo_item :: DiscoveredItem where
  "demo_item = \<lparr>di_source_native_id = Some ''n1'', di_detail_url = ''u1'', di_card_facts = JObj []\<rparr>"

definition demo_page :: DiscoveryPage where
  "demo_page = \<lparr>dp_items = [demo_item, demo_item], dp_next_cursor = None, dp_appears_truncated = True,
     dp_health_markers = JObj []\<rparr>"

definition demo_part :: AcquisitionPartition where
  "demo_part = \<lparr>pt_source_code = ''ac'', pt_partition_key = ''p'', pt_geography = ''g'', pt_layout = None,
     pt_query_parameters = JObj [], pt_cursor_state = None\<rparr>"

definition demo_adapter :: "unit SourceAdapter" where
  "demo_adapter = \<lparr>sa_interface_version = ''1'', sa_source_code = ''ac'', sa_adapter_version = ''v1'',
     sa_preflight = (\<lambda>w. (Inr \<lparr>sf_result = ''READY'', sf_reasons = []\<rparr>, w)),
     sa_plan_partitions = (\<lambda>w. (Inr [demo_part], w)),
     sa_discover = (\<lambda>_ _ w. (Inr demo_page, w)),
     sa_fetch_detail = (\<lambda>_ w. (Inr \<lparr>rc_final_url = ''u1'', rc_retrieved_at = 11, rc_content_hash = ''h'',
        rc_structured_blocks = JObj [], rc_visible_content_ref = None, rc_structural_signature = None\<rparr>, w)),
     sa_extract = (\<lambda>_ w. (Inr demo_payload, w))\<rparr>"

definition demo_registered :: db where
  "demo_registered = empty_db\<lparr>db_sources := [\<lparr>sc_id = 50, sc_source_code = ''ac'', sc_display_name = ''A'',
     sc_source_type = SourceType.LISTING, sc_base_domain = None, sc_access_method = AccessMethod.API,
     sc_approval_status = SourceApprovalStatus.APPROVED, sc_enabled = True, sc_policy_version = ''1'',
     sc_configuration = None\<rparr>], db_next := 100\<rparr>"

definition demo_run_source :: "db \<Rightarrow> SourceRunSummary fallible \<times> db \<times> unit" where
  "demo_run_source s = run_source demo_adapter (\<lambda>_. ''d'') ''k'' RefreshTriggerType.MANUAL DiscoveryMethod.DIRECT 20 s ()"

definition demo_degraded :: db where
  "demo_degraded = fst (snd (demo_run_source demo_registered))"

lemma demo_acquired_run:
  "case demo_run_source demo_registered of (Inl _, _) \<Rightarrow> False
   | (Inr sm, s, _) \<Rightarrow> sm_status sm = SourceRunStatus.DEGRADED \<and> sm_persisted_new sm = 1 \<and> sm_duplicates_skipped sm = 1 \<and>
       gate_of (sm_source_run_id sm) s = Some (SourceRunStatus.DEGRADED, Some False)"
  by code_simp

theorem gate_needs_a_clean_direct_run_witness:
  "\<exists>sm s' w'. demo_run_source demo_registered = (Inr sm, s', w') \<and> acq_frame demo_registered s' \<and>
     sm_status sm = SourceRunStatus.DEGRADED \<and> \<not> sm_health_gate_passed sm"
proof -
  obtain r s' w' where r: "demo_run_source demo_registered = (r, s', w')" by (cases rule: prod_cases3)
  obtain sm where sm: "r = Inr sm" "sm_status sm = SourceRunStatus.DEGRADED"
    using demo_acquired_run r by (cases r) simp_all
  have "run_source demo_adapter (\<lambda>_. ''d'') ''k'' RefreshTriggerType.MANUAL DiscoveryMethod.DIRECT 20 demo_registered () =
      (Inr sm, s', w')" using r sm(1) by (simp add: demo_run_source_def)
  from gate_needs_a_clean_direct_run [OF this] sm(2) have "acq_frame demo_registered s'" "\<not> sm_health_gate_passed sm"
    by (auto split: if_splits)
  with r sm show ?thesis by blast
qed

subsection \<open>Replaying a run\<close>

definition all_checkpointed :: "uuid \<Rightarrow> AcquisitionPartition list \<Rightarrow> db \<Rightarrow> bool" where
  "all_checkpointed run ps s \<longleftrightarrow> list_all (\<lambda>p.
     case scalar_one_or_none (filter (is_checkpoint run (pt_partition_key p)) (db_checkpoints s)) of
       Inr (Some c) \<Rightarrow> ck_completed c | _ \<Rightarrow> False) ps"

lemma run_partitions_replayed:
  assumes "all_checkpointed (rx_source_run_id ctx) ps s"
  shows "run_partitions adapter digest ctx ps degraded (sm, seen, s, w) =
    (degraded, sm\<lparr>sm_partitions_completed := sm_partitions_completed sm + length ps\<rparr>, seen, s, w)"
  using assms
proof (induction ps arbitrary: sm)
  case (Cons p ps)
  obtain c where "scalar_one_or_none (filter (is_checkpoint (rx_source_run_id ctx) (pt_partition_key p)) (db_checkpoints s)) = Inr (Some c)"
      "ck_completed c"
    using Cons.prems unfolding all_checkpointed_def
    by (cases "scalar_one_or_none (filter (is_checkpoint (rx_source_run_id ctx) (pt_partition_key p)) (db_checkpoints s))")
      (auto split: option.splits)
  then have "run_partition adapter digest ctx p (sm, seen, s, w) = (Inr False, sm, seen, s, w)"
    by (simp add: run_partition_def)
  with Cons show ?case by (simp add: all_checkpointed_def)
qed simp

text \<open>
  Replaying a run whose partitions are all checkpointed opens the health gate: the replay
  discovers nothing, stores nothing and asks the adapter for no page, yet it ends HEALTHY with the
  gate passed, whatever status the run had before.
\<close>
theorem replay_passes_the_gate:
  assumes "start_source_run (sa_source_code adapter) (sa_adapter_version adapter) key trigger now s =
      Inr ((refresh_run, run, source), s1)"
    and "sa_preflight adapter w = (Inr preflight, w1)" "sf_result preflight = ''READY''"
    and "sa_plan_partitions adapter w1 = (Inr partitions, w2)"
    and "all_checkpointed run partitions s" "dm \<noteq> DiscoveryMethod.SEARCH_INDEX"
  shows "\<exists>sm s'. run_source adapter digest key trigger dm now s w = (Inr sm, s', w2) \<and>
    sm_discovered sm = 0 \<and> sm_status sm = SourceRunStatus.HEALTHY \<and> sm_health_gate_passed sm \<and>
    gate_of run s' = Some (SourceRunStatus.HEALTHY, Some True) \<and>
    (db_observations s', db_jobs s', db_checkpoints s') = (db_observations s, db_jobs s, db_checkpoints s)"
proof -
  note st = start_source_run_effect [OF assms(1)]
  let ?ctx = "\<lparr>rx_refresh_run_id = refresh_run, rx_source_run_id = run, rx_source_id = source, rx_now = now\<rparr>"
  let ?sm = "(new_run_summary run)\<lparr>sm_partitions_completed := length partitions\<rparr>"
  have "all_checkpointed (rx_source_run_id ?ctx) partitions s1"
    using assms(5) st(3) by (simp add: all_checkpointed_def)
  from run_partitions_replayed [OF this, of adapter digest "sf_result preflight = ''DEGRADED''" "new_run_summary run" "[]" w2]
  have loop: "run_partitions adapter digest ?ctx partitions (sf_result preflight = ''DEGRADED'')
      (new_run_summary run, [], s1, w2) = (False, ?sm, [], s1, w2)"
    using assms(3) by (simp add: new_run_summary_def)
  have "run_source adapter digest key trigger dm now s w = finish_run run (conclude False dm ?sm) dm now s1 w2"
    using assms(1-4) loop by (simp add: run_source_def Let_def)
  then show ?thesis
    using finish_run_effect [OF st(2), of "conclude False dm ?sm" dm now w2] st(3-5) assms(6)
    by (auto simp: conclude_def run_status_def new_run_summary_def)
qed

theorem replay_passes_the_gate_witness:
  "\<exists>run sm s'. demo_run_source demo_degraded = (Inr sm, s', ()) \<and>
     gate_of run demo_degraded = Some (SourceRunStatus.DEGRADED, Some False) \<and>
     gate_of run s' = Some (SourceRunStatus.HEALTHY, Some True)"
proof -
  have "case start_source_run ''ac'' ''v1'' ''k'' RefreshTriggerType.MANUAL 20 demo_degraded of Inl _ \<Rightarrow> False
    | Inr ((refresh_run, run, source), s1) \<Rightarrow> all_checkpointed run [demo_part] demo_degraded \<and>
        gate_of run demo_degraded = Some (SourceRunStatus.DEGRADED, Some False)" by code_simp
  then obtain refresh_run run source s1 where start:
      "start_source_run ''ac'' ''v1'' ''k'' RefreshTriggerType.MANUAL 20 demo_degraded = Inr ((refresh_run, run, source), s1)"
      "all_checkpointed run [demo_part] demo_degraded" "gate_of run demo_degraded = Some (SourceRunStatus.DEGRADED, Some False)"
    by (auto split: sum.splits prod.splits)
  have adapter: "sa_source_code demo_adapter = ''ac''" "sa_adapter_version demo_adapter = ''v1''"
      "sa_preflight demo_adapter () = (Inr \<lparr>sf_result = ''READY'', sf_reasons = []\<rparr>, ())"
      "sa_plan_partitions demo_adapter () = (Inr [demo_part], ())"
    by (simp_all add: demo_adapter_def)
  from replay_passes_the_gate [of demo_adapter "''k''" RefreshTriggerType.MANUAL 20 demo_degraded refresh_run run source s1 "()"
      "\<lparr>sf_result = ''READY'', sf_reasons = []\<rparr>" "()" "[demo_part]" "()" DiscoveryMethod.DIRECT "\<lambda>_. ''d''"]
  show ?thesis using start adapter by (auto simp: demo_run_source_def)
qed

end
