(* ===== verification/Worker.thy ===== *)
theory Worker
  imports Acquisition
begin

text \<open>
  The worker loop \<open>drain_normalize_jobs\<close> on a well-formed database: the queue and the canonical
  tables keep their invariants together, the loop never raises and stops within its job limit; and
  what happens to a job of another type that comes first.
\<close>

section \<open>The two invariants do not disturb each other\<close>

lemma process_next:
  assumes "canonical_inv s" "process_observation i dm now s = Inr (out, s')"
  shows "db_next s \<le> db_next s'"
  using assms(2)
proof (cases rule: process_cases)
  case (known row link)
  have "known_step s s'"
    using update_existing_step [OF _ _ known(3)] find_link_SomeD [OF known(2)] assms(1)
    unfolding canonical_inv_def by blast
  then show ?thesis by (simp add: known_step_def)
next
  case (new row)
  from new(3) show ?thesis
  proof (cases rule: create_canonical_cases)
    case (attached b t l im ic)
    then show ?thesis using attach_state [OF attached(4)] by (simp add: chain_step_def)
  next
    case (created b t u)
    from created(3) show ?thesis
    proof (cases rule: create_listing_cases)
      case (1 listing t2 evs)
      have "db_next t2 \<le> db_next s'" using generate_duplicates(1) [OF 1(3)] by (simp add: candidate_step_def)
      moreover have "db_next (with_listing listing (first_link (row) dm t) t) \<le> db_next t2"
        using 1(2) by (simp add: history_step_def)
      ultimately show ?thesis using created(1) by (simp add: chain_step_def with_listing_def)
    qed
  qed
qed simp

lemma queue_inv_process:
  assumes "queue_inv s" "canonical_inv s" "process_observation i dm now s = Inr (out, s')"
  shows "queue_inv s'" "db_jobs s' = db_jobs s"
proof -
  have "upstream_state s' = upstream_state s"
    using process_progress [OF _ assms(3)] assms(2) by (simp add: canonical_inv_def canonical_progress_def)
  then have "db_jobs s' = db_jobs s" "db_attempts s' = db_attempts s" by (simp_all add: upstream_state_def)
  moreover have "db_next s \<le> db_next s'" by (rule process_next [OF assms(2,3)])
  ultimately show "queue_inv s'" "db_jobs s' = db_jobs s"
    using assms(1) unfolding queue_inv_def by (auto intro: less_le_trans)
qed

text \<open>What claiming and completing write: jobs, attempts, fresh tokens.\<close>

definition queue_write :: "db \<Rightarrow> db \<Rightarrow> bool" where
  "queue_write s s' \<longleftrightarrow> manual_state s' = manual_state s \<and> identity_state s' = identity_state s \<and>
     fact_state s' = fact_state s \<and> db_listings s' = db_listings s \<and> db_events s' = db_events s \<and>
     db_issues s' = db_issues s \<and> db_observations s' = db_observations s \<and>
     enriched_state s' = enriched_state s \<and> db_next s \<le> db_next s'"

lemma queue_write_refl: "queue_write s s"
  by (simp add: queue_write_def)

lemma queue_write_trans: "queue_write s t \<Longrightarrow> queue_write t u \<Longrightarrow> queue_write s u"
  by (simp add: queue_write_def)

lemma queue_write_canonical: "queue_write s s' \<Longrightarrow> canonical_inv s \<Longrightarrow> canonical_inv s'"
  unfolding queue_write_def canonical_inv_def chain_inv_def link_inv_def match_keys_def facts_inv_def keys_unique_def frame_defs
  by (auto intro: less_le_trans)

lemma queue_write_manual: "queue_write s s' \<Longrightarrow> manual_state s' = manual_state s"
  by (simp add: queue_write_def)

lemma claim_one_write: "claim_one w now ls i s = Inr (j, s') \<Longrightarrow> queue_write s s'"
  by (auto simp: claim_one_def queue_write_def Let_def frame_defs split: option.splits if_splits)

lemma claim_all_write: "claim_all w now ls is s = Inr (js, s') \<Longrightarrow> queue_write s s'"
proof (induction "is" arbitrary: s js)
  case (Cons i "is")
  from Cons.prems obtain j t js' where "claim_one w now ls i s = Inr (j, t)" "claim_all w now ls is t = Inr (js', s')"
    by (auto elim!: bind_pairE)
  then show ?case using queue_write_trans [OF claim_one_write] Cons.IH by blast
qed (simp add: queue_write_refl)

lemma complete_write: "complete i token st ec ed rd now s = Inr (b, s') \<Longrightarrow> queue_write s s'"
  by (erule complete_InrD) (simp add: queue_write_refl, simp add: queue_write_def frame_defs)

lemma complete_total:
  assumes "queue_inv s" "st \<in> set COMPLETION_STATUSES"
  shows "\<exists>b s'. complete i token st ec ed rd now s = Inr (b, s')"
proof -
  have jobs: "\<exists>x. scalar_one_or_none (filter (\<lambda>r. jb_id r = i \<and> jb_lease_token r = Some token) (db_jobs s)) = Inr x"
    using assms(1) by (intro scalar_one_or_none_filter [where g = jb_id]) (auto simp: queue_inv_def)
  have attempts: "\<exists>x. scalar_one_or_none (filter (\<lambda>a. ja_job_id a = i \<and> ja_attempt_number a = n) (db_attempts s)) = Inr x" for n
    using assms(1) by (intro scalar_one_or_none_filter [where g = "\<lambda>a. (ja_job_id a, ja_attempt_number a)"])
      (auto simp: queue_inv_def attempts_ok_def)
  from jobs obtain found where f: "scalar_one_or_none (filter (\<lambda>r. jb_id r = i \<and> jb_lease_token r = Some token) (db_jobs s)) = Inr found"
    by blast
  show ?thesis
  proof (cases found)
    case None
    then have "complete i token st ec ed rd now s = Inr (False, s)" using f assms(2) by (simp add: complete_def)
    then show ?thesis by blast
  next
    case (Some j)
    from attempts [of "jb_attempt_count (finish_job st ec ed rd now j)"] show ?thesis
      using f assms(2) Some by (auto simp: complete_def Let_def)
  qed
qed

section \<open>Readable jobs\<close>

definition readable :: "job \<Rightarrow> bool" where
  "readable j \<longleftrightarrow> jb_job_type j \<noteq> JobType.NORMALIZE \<or> (\<exists>i. uuid_of_text (jb_input_hash j) = Inr i)"

definition worker_inv :: "db \<Rightarrow> bool" where
  "worker_inv s \<longleftrightarrow> canonical_inv s \<and> queue_inv s \<and> list_all readable (db_jobs s)"

lemma readable_lease [simp]: "readable (lease_job w t now ls j) = readable j"
  by (simp add: readable_def lease_job_def)

lemma readable_finish [simp]: "readable (finish_job st ec ed rd now j) = readable j"
  by (simp add: readable_def finish_job_def Let_def)

lemma claim_worker_inv:
  assumes "worker_inv s" "claim w ls n now s = Inr (js, s')"
  shows "worker_inv s'" "list_all readable js" "\<forall>j \<in> set js. jb_lease_token j \<noteq> None"
proof -
  have inv: "canonical_inv s" "queue_inv s" "list_all readable (db_jobs s)" using assms(1) by (simp_all add: worker_inv_def)
  have post: "claim_post w now ls (claim_candidates now n s) s js s'" by (rule claim_InrD [OF inv(2) assms(2)])
  have "queue_write s s'" using assms(2) by (simp add: claim_def claim_all_write)
  then have can: "canonical_inv s'" using inv(1) by (rule queue_write_canonical)
  have leased: "\<forall>j \<in> set js. leased_in w now ls s j \<and> j \<in> set (db_jobs s')" "queue_inv s'"
      "map jb_id js = claim_candidates now n s"
      "\<forall>r. jb_id r \<notin> set (claim_candidates now n s) \<longrightarrow> (r \<in> set (db_jobs s') \<longleftrightarrow> r \<in> set (db_jobs s))"
    using post unfolding claim_post_def by blast+
  show js: "list_all readable js" "\<forall>j \<in> set js. jb_lease_token j \<noteq> None"
    using leased(1) inv(3) by (auto simp: list_all_iff leased_in_def lease_job_def readable_def)
  have "readable r" if r: "r \<in> set (db_jobs s')" for r
  proof (cases "jb_id r \<in> set (claim_candidates now n s)")
    case False
    then show ?thesis using r leased(4) inv(3) by (simp add: list_all_iff)
  next
    case True
    then obtain j where j: "j \<in> set js" "jb_id j = jb_id r" using leased(3) by (metis imageE list.set_map)
    then have "j = r" using r leased(1,2) by (auto simp: queue_inv_def distinct_map inj_on_def)
    with j(1) js(1) show ?thesis by (simp add: list_all_iff)
  qed
  with can leased(2) show "worker_inv s'" by (simp add: worker_inv_def list_all_iff)
qed

lemma complete_worker_inv:
  assumes "worker_inv s" "complete i token st ec ed rd now s = Inr (b, s')"
  shows "worker_inv s'"
proof -
  have inv: "canonical_inv s" "queue_inv s" "list_all readable (db_jobs s)" using assms(1) by (simp_all add: worker_inv_def)
  have "list_all readable (db_jobs s')"
    using assms(2)
  proof (cases rule: complete_InrD)
    case stale
    then show ?thesis using inv(3) by simp
  next
    case (finished j)
    then show ?thesis using inv(3) by (auto simp: list_all_iff set_update_where)
  qed
  then show ?thesis
    using queue_write_canonical [OF complete_write [OF assms(2)] inv(1)] queue_inv_complete [OF inv(2) assms(2)]
    by (simp add: worker_inv_def)
qed

lemma work_job_ok:
  assumes "worker_inv s"
  shows "\<exists>s'. work_job j lease obs dm now s = Inr ((), s') \<and> worker_inv s' \<and> manual_state s' = manual_state s"
proof -
  have final: "JobStatus.SUCCEEDED \<in> set COMPLETION_STATUSES" "JobStatus.FAILED_RETRYABLE \<in> set COMPLETION_STATUSES"
    by (simp_all add: COMPLETION_STATUSES_def)
  have failed: "\<exists>s'. bind_result (complete j lease JobStatus.FAILED_RETRYABLE c None 60 now s) (\<lambda>(_, s2). Inr ((), s2)) = Inr ((), s') \<and>
      worker_inv s' \<and> manual_state s' = manual_state s" for c
  proof -
    obtain b s' where c: "complete j lease JobStatus.FAILED_RETRYABLE c None 60 now s = Inr (b, s')"
      using complete_total [OF _ final(2)] assms unfolding worker_inv_def by blast
    then show ?thesis using complete_worker_inv [OF assms c] queue_write_manual [OF complete_write [OF c]] by simp
  qed
  show ?thesis
  proof (cases "process_observation obs dm now s")
    case (Inl e)
    then show ?thesis using failed by (simp add: work_job_def)
  next
    case (Inr p)
    obtain out s1 where p: "p = (out, s1)" by (cases p)
    then have run: "process_observation obs dm now s = Inr (out, s1)" using Inr by simp
    have inv: "canonical_inv s" "queue_inv s" "list_all readable (db_jobs s)" using assms by (simp_all add: worker_inv_def)
    have w1: "worker_inv s1"
      using process_inv [OF inv(1) run] queue_inv_process [OF inv(2,1) run] inv(3) by (simp add: worker_inv_def)
    then obtain b s2 where c: "complete j lease JobStatus.SUCCEEDED None None 60 now s1 = Inr (b, s2)"
      using complete_total [OF _ final(1)] unfolding worker_inv_def by blast
    have "manual_state s2 = manual_state s"
      using queue_write_manual [OF complete_write [OF c]] process_keeps_manual [OF run] by simp
    with c complete_worker_inv [OF w1 c] run show ?thesis by (simp add: work_job_def)
  qed
qed

lemma drain_ok:
  assumes "worker_inv s"
  shows "\<exists>m s'. drain_normalize_jobs w dm clock n p s = (Inr m, s') \<and> p \<le> m \<and> m \<le> p + n \<and>
    worker_inv s' \<and> manual_state s' = manual_state s"
  using assms
proof (induction n arbitrary: p s)
  case 0
  then show ?case by simp
next
  case (Suc n)
  have "queue_inv s" using Suc.prems by (simp add: worker_inv_def)
  then obtain claimed s1 where c: "claim w 300 1 (clock (2 * p)) s = Inr (claimed, s1)" using claim_ok by blast
  note cl = claim_worker_inv [OF Suc.prems c]
  have man: "manual_state s1 = manual_state s"
    using c by (intro queue_write_manual claim_all_write) (simp add: claim_def)
  show ?case
  proof (cases "filter (\<lambda>j. jb_job_type j = JobType.NORMALIZE) claimed")
    case Nil
    then show ?thesis using c cl(1) man by simp
  next
    case (Cons j js)
    then have j: "j \<in> set claimed" "jb_job_type j = JobType.NORMALIZE" by (auto simp: filter_eq_Cons_iff)
    then have "readable j" using cl(2) by (simp add: list_all_iff)
    then obtain i where i: "uuid_of_text (jb_input_hash j) = Inr i" using j(2) by (auto simp: readable_def)
    obtain lease where lease: "jb_lease_token j = Some lease" using cl(3) j(1) by blast
    note li = lease i
    from work_job_ok [OF cl(1), of "jb_id j" lease i dm "clock (2 * p + 1)"]
    obtain s2 where s2: "work_job (jb_id j) lease i dm (clock (2 * p + 1)) s1 = Inr ((), s2)" "worker_inv s2"
        "manual_state s2 = manual_state s1" by blast
    from Suc.IH [OF s2(2), of "Suc p"] show ?thesis
      using c Cons li s2(1,3) man by auto
  qed
qed

section \<open>Properties\<close>

text \<open>
  C22. The worker loop is total: on a database whose canonical tables and queue are well-formed and
  whose NORMALIZE jobs name an observation, it returns whatever the normalization of a job raises,
  after at most its limit of jobs, keeps both invariants, and leaves all manual state alone.
\<close>
theorem drain_total:
  assumes "worker_inv s"
  shows "\<exists>n s'. drain_normalize_jobs worker dm clock max_jobs 0 s = (Inr n, s') \<and> n \<le> max_jobs \<and>
    canonical_inv s' \<and> queue_inv s' \<and> manual_state s' = manual_state s"
  using drain_ok [OF assms, of worker dm clock max_jobs 0] by (auto simp: worker_inv_def)

text \<open>Two observations waiting for normalization, and a queue whose best job is of another type.\<close>

definition demo_backlog :: db where
  "demo_backlog = snd (enqueue JobType.NORMALIZE (uuid_text 2) NORMALIZE_DEPENDENCY_VERSION None None 10 3 None 0
     (snd (enqueue JobType.NORMALIZE (uuid_text 1) NORMALIZE_DEPENDENCY_VERSION None None 10 3 None 0 demo_stored)))"

definition demo_foreign :: db where
  "demo_foreign = snd (enqueue JobType.GEOCODE ''x'' ''1'' None None 20 3 None 0 demo_backlog)"

lemma enqueue_write: "enqueue ty h v l r p m n now s = (x, s') \<Longrightarrow> queue_write s s'"
  by (auto simp: enqueue_def Let_def queue_write_def frame_defs split: if_splits)

lemma worker_inv_enqueue:
  assumes "worker_inv s" "ty \<noteq> JobType.NORMALIZE \<or> (\<exists>i. uuid_of_text h = Inr i)"
  shows "worker_inv (snd (enqueue ty h v l r p m n now s))"
proof -
  obtain x s' where e: "enqueue ty h v l r p m n now s = (x, s')" by (cases rule: prod.exhaust)
  have inv: "canonical_inv s" "queue_inv s" "list_all readable (db_jobs s)" using assms(1) by (simp_all add: worker_inv_def)
  have "list_all readable (db_jobs s')"
    using e inv(3) assms(2) by (auto simp: enqueue_def Let_def readable_def new_job_def split: if_splits)
  then show ?thesis
    using e queue_write_canonical [OF enqueue_write [OF e] inv(1)] queue_inv_enqueue [OF inv(2), of ty h v l r p m n now]
    by (simp add: worker_inv_def)
qed

lemma demo_stored_worker: "worker_inv demo_stored"
proof -
  have "queue_inv demo_stored"
    by (simp add: demo_stored_def empty_db_def queue_inv_def tokens_unique_def identities_unique_def attempts_ok_def)
  then show ?thesis using demo_stored_inv by (simp add: worker_inv_def demo_stored_def empty_db_def)
qed

lemma demo_backlog_worker: "worker_inv demo_backlog" "worker_inv demo_foreign"
proof -
  have "\<exists>i. uuid_of_text (uuid_text 1) = Inr i" "\<exists>i. uuid_of_text (uuid_text 2) = Inr i"
    by (intro exI; code_simp)+
  then show "worker_inv demo_backlog" unfolding demo_backlog_def using demo_stored_worker
    by (intro worker_inv_enqueue) simp_all
  then show "worker_inv demo_foreign" unfolding demo_foreign_def by (intro worker_inv_enqueue) simp_all
qed

theorem drain_total_witness:
  "\<exists>n s'. drain_normalize_jobs ''w'' DiscoveryMethod.DIRECT (\<lambda>_. 30) 5 0 demo_backlog = (Inr n, s') \<and> n \<le> 5 \<and>
     canonical_inv s' \<and> queue_inv s'"
  using drain_total [OF demo_backlog_worker(1), of "''w''" DiscoveryMethod.DIRECT "\<lambda>_. 30" 5] by auto

text \<open>
  The worker takes whatever job comes first: when the best claimable job is not a NORMALIZE job,
  the loop stops at once with nothing processed, and that job is left RUNNING under the worker's
  lease with one attempt used up, although nobody works on it.
\<close>
theorem drain_strands_foreign_job:
  assumes "queue_inv s" "claim_candidates (clock 0) 1 s = [i]" "get_by jb_id i (db_jobs s) = Some j0"
    and "jb_job_type j0 \<noteq> JobType.NORMALIZE"
  shows "\<exists>s' j. drain_normalize_jobs worker dm clock (Suc n) 0 s = (Inr 0, s') \<and> get_by jb_id i (db_jobs s') = Some j \<and>
    jb_status j = JobStatus.RUNNING \<and> jb_leased_by j = Some worker \<and> jb_attempt_count j = jb_attempt_count j0 + 1"
proof -
  obtain js s1 where c: "claim worker 300 1 (clock 0) s = Inr (js, s1)" using claim_ok [OF assms(1)] by blast
  have post: "claim_post worker (clock 0) 300 [i] s js s1" using claim_InrD [OF assms(1) c] assms(2) by simp
  then have "map jb_id js = [i]" by (simp add: claim_post_def)
  then obtain j where j: "js = [j]" "jb_id j = i" by (cases js) auto
  with post have "leased_in worker (clock 0) 300 s j" "j \<in> set (db_jobs s1)" "queue_inv s1"
    by (simp_all add: claim_post_def)
  then obtain k t where k: "k \<in> set (db_jobs s)" "j = lease_job worker t (clock 0) 300 k"
    by (auto simp: leased_in_def)
  have "jb_id k = i" using j(2) k(2) by (simp add: lease_job_def)
  moreover have "j0 \<in> set (db_jobs s)" "jb_id j0 = i" using get_by_SomeD [OF assms(3)] by simp_all
  ultimately have "k = j0" using k(1) assms(1) by (auto simp: queue_inv_def distinct_map inj_on_def)
  have "get_by jb_id i (db_jobs s1) = Some j"
    using \<open>j \<in> set (db_jobs s1)\<close> \<open>queue_inv s1\<close> j(2) by (subst get_by_Some_iff) (auto simp: queue_inv_def)
  moreover have "jb_job_type j \<noteq> JobType.NORMALIZE" using assms(4) k(2) \<open>k = j0\<close> by (simp add: lease_job_def)
  then have "drain_normalize_jobs worker dm clock (Suc n) 0 s = (Inr 0, s1)" using c j(1) by simp
  ultimately show ?thesis using k(2) \<open>k = j0\<close> by (simp add: lease_job_def)
qed

theorem drain_strands_foreign_job_witness:
  "\<exists>s' j. drain_normalize_jobs ''w'' DiscoveryMethod.DIRECT (\<lambda>_. 30) 1000 0 demo_foreign = (Inr 0, s') \<and>
     get_by jb_id 102 (db_jobs s') = Some j \<and> jb_status j = JobStatus.RUNNING"
proof -
  have demo: "claim_candidates 30 1 demo_foreign = [102]" by code_simp
  have "(case get_by jb_id 102 (db_jobs demo_foreign) of None \<Rightarrow> False | Some j \<Rightarrow> jb_job_type j = JobType.GEOCODE)"
    by code_simp
  then obtain j0 where j0: "get_by jb_id 102 (db_jobs demo_foreign) = Some j0" "jb_job_type j0 \<noteq> JobType.NORMALIZE"
    by (auto split: option.splits)
  have "queue_inv demo_foreign" using demo_backlog_worker(2) by (simp add: worker_inv_def)
  from drain_strands_foreign_job [OF this, of "\<lambda>_. 30", OF demo j0, of "''w''" DiscoveryMethod.DIRECT 999]
  show ?thesis by auto
qed

end
