(* ===== verification/Refresh.thy ===== *)
theory Refresh
  imports Disappearance AcquisitionLaws Worker
begin

text \<open>
  The refresh as a whole: source runs, the normalization worker, admission and disappearance in any
  order and number are the steps of one transition relation, whose runs keep the invariant of the
  canonical tables, everything manual, and the lifecycle of every settled listing.
\<close>

section \<open>Settled listings\<close>

text \<open>A listing that neither waits for admission nor is active.\<close>

definition settled :: "LifecycleStatus \<Rightarrow> bool" where
  "settled st \<longleftrightarrow> st \<notin> {LifecycleStatus.CANDIDATE, LifecycleStatus.ACTIVE, LifecycleStatus.REAPPEARED}"

text \<open>
  A step that leaves everything manual alone, keeps the invariant of the canonical tables, and moves no
  listing whose lifecycle satisfies \<open>P\<close>.
\<close>

definition calm :: "(LifecycleStatus \<Rightarrow> bool) \<Rightarrow> db \<Rightarrow> db \<Rightarrow> bool" where
  "calm P s s' \<longleftrightarrow> manual_state s' = manual_state s \<and> (canonical_inv s \<longrightarrow> canonical_inv s') \<and>
     (canonical_inv s \<longrightarrow> (\<forall>i st. column cl_lifecycle_status i s = Some st \<and> P st \<longrightarrow>
        column cl_lifecycle_status i s' = Some st))"

lemma calm_refl [simp]: "calm P s s"
  by (simp add: calm_def)

lemma calm_trans: "calm P s t \<Longrightarrow> calm P t u \<Longrightarrow> calm P s u"
  unfolding calm_def by auto

lemma link_inv_cong:
  assumes "map cl_id (db_listings s') = map cl_id (db_listings s)" "map lk_id (db_links s') = map lk_id (db_links s)"
    and "map lk_canonical_listing_id (db_links s') = map lk_canonical_listing_id (db_links s)"
    and "map native_key (filter has_native (db_links s')) = map native_key (filter has_native (db_links s))"
    and "db_next s \<le> db_next s'" "link_inv s"
  shows "link_inv s'"
  using assms(5,6) unfolding link_inv_def assms(1-4) by (auto intro: order_less_le_trans)

lemma calm_same_tables:
  assumes "manual_state s' = manual_state s" "identity_state s' = identity_state s" "fact_state s' = fact_state s"
    and "db_listings s' = db_listings s" "db_events s' = db_events s" "db_next s \<le> db_next s'"
  shows "calm P s s'"
proof -
  have tables: "db_addresses s' = db_addresses s" "db_buildings s' = db_buildings s" "db_units s' = db_units s"
      "db_links s' = db_links s" "db_assertions s' = db_assertions s" "db_resolutions s' = db_resolutions s"
      "db_overrides s' = db_overrides s"
    using assms(1-3) by (simp_all add: frame_defs)
  have "canonical_inv s'" if inv: "canonical_inv s"
  proof -
    have "link_inv s'"
      by (rule link_inv_cong [of s' s]) (use inv assms(4,6) tables(4) in \<open>simp_all add: canonical_inv_def\<close>)
    then show ?thesis
      using inv by (simp add: canonical_inv_def chain_inv_def match_keys_def facts_inv_def keys_unique_def tables assms(5))
  qed
  then show ?thesis using assms(1) column_same [OF assms(4), of cl_lifecycle_status] by (simp add: calm_def)
qed

lemma calm_acquisition: "acq_frame s s' \<Longrightarrow> calm P s s'"
  by (rule calm_same_tables) (simp_all add: acq_frame_def)

lemma calm_queue_write: "queue_write s s' \<Longrightarrow> calm P s s'"
  by (rule calm_same_tables) (simp_all add: queue_write_def)

section \<open>Normalization and the worker\<close>

lemma evolves_lifecycle: "evolves l l' \<Longrightarrow> cl_id l' = cl_id l \<and> cl_lifecycle_status l' = cl_lifecycle_status l"
  by (auto simp: evolves_def dest: frozen_fields(1,4))

lemma get_by_evolved:
  assumes "list_all2 evolves ls ls'" "get_by cl_id i ls = Some l"
  shows "\<exists>l'. get_by cl_id i (ls' @ new) = Some l' \<and> cl_lifecycle_status l' = cl_lifecycle_status l"
  using assms by (induction rule: list_all2_induct) (auto simp: get_by_Cons dest: evolves_lifecycle split: if_splits)

lemma calm_process:
  assumes "process_observation i dm now s = Inr (out, s')"
  shows "calm P s s'"
proof -
  have life: "column cl_lifecycle_status j s' = Some st"
    if inv: "canonical_inv s" and col: "column cl_lifecycle_status j s = Some st" for j st
  proof -
    have "link_inv s" using inv by (simp add: canonical_inv_def)
    from process_progress [OF this assms] obtain ls new where
        ls: "db_listings s' = ls @ new" "list_all2 evolves (db_listings s) ls"
      unfolding canonical_progress_def by blast
    obtain l where "get_by cl_id j (db_listings s) = Some l" "cl_lifecycle_status l = st"
      using col by (auto simp: column_def)
    with get_by_evolved [OF ls(2), of j l new] show ?thesis by (auto simp: column_def ls(1))
  qed
  then show ?thesis
    unfolding calm_def using process_keeps_manual [OF assms] process_inv [OF _ assms] by auto
qed

text \<open>
  A relation between states that the queue and normalization respect is respected by the whole worker
  loop, however it ends.
\<close>

locale worker_relation =
  fixes R :: "db \<Rightarrow> db \<Rightarrow> bool"
  assumes reflR: "R s s"
    and transR: "R s t \<Longrightarrow> R t u \<Longrightarrow> R s u"
    and queues: "queue_write s s' \<Longrightarrow> R s s'"
    and normalizes: "process_observation i dm now s = Inr (out, s') \<Longrightarrow> R s s'"
begin

lemma work:
  assumes "work_job j lease obs dm now s = Inr (u, s')"
  shows "R s s'"
proof (cases "bind_result (process_observation obs dm now s) (\<lambda>(_, s1). complete j lease JobStatus.SUCCEEDED None None 60 now s1)")
  case (Inl e)
  then obtain b where "complete j lease JobStatus.FAILED_RETRYABLE (Some (error_name e)) None 60 now s = Inr (b, s')"
    using assms by (auto simp: work_job_def elim!: bind_pairE)
  then show ?thesis by (intro queues complete_write)
next
  case (Inr x)
  then have "s' = snd x" using assms by (cases x) (simp add: work_job_def)
  with Inr obtain out s1 b where "process_observation obs dm now s = Inr (out, s1)"
      "complete j lease JobStatus.SUCCEEDED None None 60 now s1 = Inr (b, s')"
    by (cases x) (auto elim!: bind_pairE)
  then show ?thesis using transR [OF normalizes queues [OF complete_write]] by blast
qed

lemma drain:
  "drain_normalize_jobs w dm clock n p s = (r, s') \<Longrightarrow> R s s'"
proof (induction n arbitrary: p s)
  case (Suc n)
  show ?case
  proof (cases "claim w 300 1 (clock (2 * p)) s")
    case (Inl e)
    then show ?thesis using Suc.prems by (simp add: reflR)
  next
    case (Inr x)
    obtain claimed s1 where c: "claim w 300 1 (clock (2 * p)) s = Inr (claimed, s1)" using Inr by (cases x) simp
    have one: "R s s1" using c by (intro queues claim_all_write) (simp add: claim_def)
    show ?thesis
    proof (cases "filter (\<lambda>j. jb_job_type j = JobType.NORMALIZE) claimed")
      case Nil
      then show ?thesis using Suc.prems c one by simp
    next
      case (Cons j js)
      show ?thesis
      proof (cases "\<exists>lease i. jb_lease_token j = Some lease \<and> uuid_of_text (jb_input_hash j) = Inr i")
        case False
        then have "s' = s" using Suc.prems c Cons
          by (cases "jb_lease_token j"; cases "uuid_of_text (jb_input_hash j)") auto
        then show ?thesis by (simp add: reflR)
      next
        case True
        then obtain lease i where li: "jb_lease_token j = Some lease" "uuid_of_text (jb_input_hash j) = Inr i" by blast
        show ?thesis
        proof (cases "work_job (jb_id j) lease i dm (clock (2 * p + 1)) s1")
          case (Inl e)
          then show ?thesis using Suc.prems c Cons li one by simp
        next
          case (Inr y)
          obtain s2 where s2: "work_job (jb_id j) lease i dm (clock (2 * p + 1)) s1 = Inr ((), s2)"
            using Inr by (cases y) auto
          then have "R s2 s'" using Suc.prems c Cons li Suc.IH [of "Suc p" s2] by simp
          then show ?thesis using one work [OF s2] transR by blast
        qed
      qed
    qed
  qed
qed (simp add: reflR)

end

interpretation calm_worker: worker_relation "calm P" for P
  by unfold_locales (simp, erule (1) calm_trans, erule calm_queue_write, erule calm_process)

section \<open>Admission and disappearance\<close>

text \<open>Steps that write lifecycles, link states and events only, by the identifiers of rows.\<close>

definition history_frame :: "db \<Rightarrow> db \<Rightarrow> bool" where
  "history_frame s s' \<longleftrightarrow> manual_state s' = manual_state s \<and> fact_state s' = fact_state s \<and>
     (db_addresses s', db_buildings s', db_units s') = (db_addresses s, db_buildings s, db_units s) \<and>
     map cl_id (db_listings s') = map cl_id (db_listings s) \<and>
     map (\<lambda>k. k\<lparr>lk_link_status := LinkStatus.ACTIVE\<rparr>) (db_links s') =
       map (\<lambda>k. k\<lparr>lk_link_status := LinkStatus.ACTIVE\<rparr>) (db_links s) \<and>
     db_next s \<le> db_next s' \<and> (keys_unique s \<longrightarrow> keys_unique s')"

lemma history_frame_trans: "history_frame s t \<Longrightarrow> history_frame t u \<Longrightarrow> history_frame s u"
  by (simp add: history_frame_def)

lemma history_frame_refl [simp]: "history_frame s s"
  by (simp add: history_frame_def)

lemma store_event_history: "history_frame s (store_event mk s)"
proof -
  have "keys_unique s \<Longrightarrow> keys_unique (store_event mk s)"
    by (auto simp: keys_unique_def store_event_def Let_def)
  then show ?thesis
    using store_event_frame [of mk s] store_event_next [of s mk] by (simp add: history_frame_def identity_state_def)
qed

lemma map_neutral:
  assumes "map (\<lambda>k. k\<lparr>lk_link_status := LinkStatus.ACTIVE\<rparr>) ks' = map (\<lambda>k. k\<lparr>lk_link_status := LinkStatus.ACTIVE\<rparr>) ks"
  shows "map lk_id ks' = map lk_id ks" "map lk_canonical_listing_id ks' = map lk_canonical_listing_id ks"
    "map native_key (filter has_native ks') = map native_key (filter has_native ks)"
proof -
  have f: "map f ks' = map f ks" if "\<And>k. f (k\<lparr>lk_link_status := LinkStatus.ACTIVE\<rparr>) = f k" for f :: "listing_source_link \<Rightarrow> 'z"
    using arg_cong [OF assms, of "map f"] that by (simp add: comp_def)
  show "map lk_id ks' = map lk_id ks" "map lk_canonical_listing_id ks' = map lk_canonical_listing_id ks"
    by (simp_all add: f)
  have "map native_key ks' = map native_key ks" by (rule f) (simp add: native_key_def)
  moreover have "map native_key (filter has_native xs) = filter (\<lambda>(_, n). n \<noteq> None) (map native_key xs)" for xs
    by (induction xs) (auto simp: native_key_def has_native_def)
  ultimately show "map native_key (filter has_native ks') = map native_key (filter has_native ks)" by simp
qed

lemma history_frame_canonical:
  assumes "history_frame s s'" "canonical_inv s"
  shows "canonical_inv s'"
proof -
  have tables: "db_addresses s' = db_addresses s" "db_buildings s' = db_buildings s" "db_units s' = db_units s"
      "db_assertions s' = db_assertions s" "db_resolutions s' = db_resolutions s" "db_overrides s' = db_overrides s"
      "map cl_id (db_listings s') = map cl_id (db_listings s)" "db_next s \<le> db_next s'"
    using assms(1) by (simp_all add: history_frame_def frame_defs)
  have links: "map (\<lambda>k. k\<lparr>lk_link_status := LinkStatus.ACTIVE\<rparr>) (db_links s') =
      map (\<lambda>k. k\<lparr>lk_link_status := LinkStatus.ACTIVE\<rparr>) (db_links s)"
    using assms(1) by (simp add: history_frame_def)
  have "link_inv s'"
    by (rule link_inv_cong [OF tables(7) map_neutral(1,2,3) [OF links] tables(8)]) (use assms(2) in \<open>simp add: canonical_inv_def\<close>)
  then show ?thesis
    using assms by (simp add: canonical_inv_def history_frame_def chain_inv_def match_keys_def facts_inv_def tables(1-6))
qed

lemma set_lifecycle_history: "history_frame s (set_lifecycle i st s)"
  by (simp add: history_frame_def set_lifecycle_def update_listing_def frame_defs keys_unique_def map_update_where)

lemma inactivation_history: "history_frame s (update_listing i (\<lambda>r. r\<lparr>cl_lifecycle_status := st, cl_inactive_at := t\<rparr>) s)"
  by (simp add: history_frame_def update_listing_def frame_defs keys_unique_def map_update_where)

lemma set_link_history: "history_frame s (set_link_status i st s)"
  by (simp add: history_frame_def set_link_status_def frame_defs keys_unique_def update_where_def)

lemma evaluate_one_history:
  "evaluate_one l a now s = (oc, s') \<Longrightarrow> history_frame s s'"
  by (cases rule: evaluate_one_cases [of l a now s])
    (auto simp: emit_admission_def intro: history_frame_trans [OF set_lifecycle_history store_event_history])

lemma evaluate_one_others:
  assumes "evaluate_one l a now s = (oc, s')" "i \<noteq> cl_id l"
  shows "column g i s' = column g i s"
proof -
  have c: "column g i (emit_admission j ty now reason (set_lifecycle (cl_id l) st s)) = column g i s" for j ty reason st
    using assms(2) column_update_listing [of "\<lambda>r. r\<lparr>cl_lifecycle_status := st\<rparr>" "cl_id l" i g s]
    by (simp add: column_def emit_admission_def set_lifecycle_def)
  show ?thesis
    using assms(1) c by (cases rule: evaluate_one_cases [of l a now s]) auto
qed

lemma evaluate_rows_calm:
  assumes "evaluate_rows clock rows sm s = (sm', s')"
  shows "history_frame s s' \<and> (\<forall>i. i \<notin> (cl_id \<circ> fst) ` set rows \<longrightarrow> column g i s' = column g i s)"
  using assms
proof (induction rows arbitrary: sm s)
  case (Cons row rows)
  obtain l a where row: "row = (l, a)" by (cases row)
  obtain oc t where one: "evaluate_one l a (clock (Suc (as_evaluated sm))) s = (oc, t)" by (cases rule: prod.exhaust)
  have "history_frame t s' \<and> (\<forall>i. i \<notin> (cl_id \<circ> fst) ` set rows \<longrightarrow> column g i s' = column g i t)"
    using Cons.IH [of _ t] Cons.prems by (simp add: row one Let_def)
  moreover have "column g i t = column g i s" if "i \<noteq> cl_id l" for i
    by (rule evaluate_one_others [OF one that])
  ultimately show ?case
    using history_frame_trans [OF evaluate_one_history [OF one]] by (simp add: row)
qed simp

lemma calm_history:
  assumes "history_frame s s'"
    and "\<And>i st. canonical_inv s \<Longrightarrow> column cl_lifecycle_status i s = Some st \<Longrightarrow> P st \<Longrightarrow>
      column cl_lifecycle_status i s' = Some st"
  shows "calm P s s'"
  using assms history_frame_canonical [OF assms(1)] unfolding calm_def by (simp add: history_frame_def)

lemma calm_admission:
  assumes "evaluate_candidates limit clock s = (sm, s')"
    and "\<And>st. P st \<Longrightarrow> st \<notin> {LifecycleStatus.CANDIDATE, LifecycleStatus.REAPPEARED}"
  shows "calm P s s'"
proof (rule calm_history)
  note rows = evaluate_rows_calm [OF assms(1) [unfolded evaluate_candidates_def], of cl_lifecycle_status]
  show "history_frame s s'" using rows by blast
  fix i st assume inv: "canonical_inv s" and st: "column cl_lifecycle_status i s = Some st" "P st"
  have "awaits_admission l \<and> l \<in> set (db_listings s)" if "(l, a) \<in> set (candidate_rows s)" for l a
    using that by (auto simp: candidate_rows_def)
  then have "i \<notin> (cl_id \<circ> fst) ` set (candidate_rows s)"
  proof -
    have "i \<noteq> cl_id l" if l: "awaits_admission l" "l \<in> set (db_listings s)" for l
    proof
      assume i: "i = cl_id l"
      have "distinct (map cl_id (db_listings s))" using inv by (simp add: canonical_inv_def link_inv_def)
      then have "get_by cl_id i (db_listings s) = Some l" using l(2) i by (simp add: get_by_Some_iff)
      with st l(1) assms(2) [of st] show False by (auto simp: column_def awaits_admission_def)
    qed
    then show ?thesis using \<open>\<And>l a. (l, a) \<in> set (candidate_rows s) \<Longrightarrow> awaits_admission l \<and> l \<in> set (db_listings s)\<close> by force
  qed
  then have "i \<notin> (cl_id \<circ> fst) ` set (take limit (candidate_rows s))" using set_take_subset by fastforce
  with rows st(1) show "column cl_lifecycle_status i s' = Some st" by simp
qed

lemma process_link_history:
  "history_frame (snd st) (snd (process_link run observed now k st))"
proof -
  obtain sm s where st: "st = (sm, s)" by (cases st)
  have "history_frame s (emit_disappearance i ty now tail (set_link_status j x s))" for i ty tail j x
    unfolding emit_disappearance_def by (rule history_frame_trans [OF set_link_history store_event_history])
  then show ?thesis by (simp add: st process_link_def set_link_history)
qed

lemma inactivate_history: "history_frame (snd st) (snd (inactivate now l st))"
proof -
  obtain sm s where st: "st = (sm, s)" by (cases st)
  show ?thesis
    unfolding st inactivate_def emit_disappearance_def
    by (simp add: history_frame_trans [OF inactivation_history store_event_history])
qed

lemma fold_history:
  assumes "\<And>x st. history_frame (snd st) (snd (step x st))"
  shows "history_frame (snd st) (snd (fold step xs st))"
proof (induction xs arbitrary: st)
  case (Cons x xs)
  show ?case using history_frame_trans [OF assms [of st x] Cons.IH [of "step x st"]] by simp
qed simp

lemma breaker_history: "history_frame s (s\<lparr>db_issues := is, db_next := Suc (db_next s)\<rparr>)"
  by (simp add: history_frame_def frame_defs keys_unique_def)

lemma process_source_run_history:
  assumes "process_source_run i now s = Inr (sm, s')"
  shows "history_frame s s'"
  using assms
proof (cases rule: process_source_run_cases)
  case (passed run sm1 t)
  have "history_frame s t"
    using fold_history [of "process_link run (observed_link_ids (sr_id run) s) now" "(new_disappearance_summary, s)",
        OF process_link_history] passed(3) unfolding link_phase_def by (metis snd_conv)
  moreover have "history_frame t s'"
    using passed(4) fold_history [of "inactivate now", OF inactivate_history] breaker_history
    by (auto simp: inactivate_unsupported_def Let_def split: if_splits) (metis snd_conv)
  ultimately show ?thesis by (rule history_frame_trans)
qed simp

lemma calm_disappearance:
  assumes "process_source_run i now s = Inr (sm, s')"
  shows "calm settled s s'"
proof (rule calm_history [OF process_source_run_history [OF assms]])
  fix j st assume inv: "canonical_inv s" and st: "column cl_lifecycle_status j s = Some st" "settled st"
  have keys: "distinct (map lk_id (db_links s))" "distinct (map cl_id (db_listings s))"
    using inv by (simp_all add: canonical_inv_def link_inv_def)
  obtain l where l: "get_by cl_id j (db_listings s) = Some l" "cl_lifecycle_status l = st"
    using st(1) by (auto simp: column_def)
  have "get_by cl_id j (map (\<lambda>l. if eligible ks os l then inactivated now l else l) (db_listings s)) =
      map_option (\<lambda>l. if eligible ks os l then inactivated now l else l) (get_by cl_id j (db_listings s))" for ks os
    using get_by_update_where [of "db_listings s" "eligible ks os" cl_id "inactivated now" j]
    by (simp add: update_where_def inactivated_def)
  moreover have "\<not> eligible ks os l" for ks os using st(2) l(2) by (auto simp: eligible_def settled_def)
  ultimately have moved: "get_by cl_id j (map (\<lambda>l. if eligible ks os l then inactivated now l else l) (db_listings s)) = Some l" for ks os
    using l(1) by simp
  show "column cl_lifecycle_status j s' = Some st"
    using assms
  proof (cases rule: process_source_run_cases)
    case refused
    then show ?thesis using st(1) by simp
  next
    case (passed run sm1 t)
    show ?thesis
    proof (cases rule: processed [OF keys passed(3,4), case_names tripped applied])
      case tripped
      then show ?thesis using st(1) by (simp add: column_def)
    next
      case applied
      then show ?thesis using moved l(2) by (simp add: column_def)
    qed
  qed
qed

section \<open>The refresh as a transition relation\<close>

text \<open>
  One step is one call of a service by the scheduler or a worker; a call that raises commits what it
  had committed.  Adapters are arbitrary; their own state is a JSON value.
\<close>

inductive refresh_step :: "db \<Rightarrow> db \<Rightarrow> bool" where
  acquire: "run_source (adapter :: json SourceAdapter) digest key trigger dm now s w = (r, s', w') \<Longrightarrow> refresh_step s s'"
| work: "drain_normalize_jobs worker dm clock n p s = (m, s') \<Longrightarrow> refresh_step s s'"
| admit: "evaluate_candidates limit clock s = (sm, s') \<Longrightarrow> refresh_step s s'"
| retire: "process_source_run i now s = Inr (dsm, s') \<Longrightarrow> refresh_step s s'"
| recover: "recover_expired_leases now s = (k, s') \<Longrightarrow> refresh_step s s'"

inductive refresh_run_star :: "db \<Rightarrow> db \<Rightarrow> bool" where
  stop: "refresh_run_star s s"
| more: "refresh_step s t \<Longrightarrow> refresh_run_star t u \<Longrightarrow> refresh_run_star s u"

inductive_cases refresh_stepE: "refresh_step s s'"

lemma calm_recover: "recover_expired_leases now s = (k, s') \<Longrightarrow> calm P s s'"
  by (rule calm_same_tables) (auto simp: recover_expired_leases_def frame_defs)

lemma settled_not_waiting: "settled st \<Longrightarrow> st \<notin> {LifecycleStatus.CANDIDATE, LifecycleStatus.REAPPEARED}"
  by (auto simp: settled_def)

lemma calm_step: "refresh_step s s' \<Longrightarrow> calm settled s s'"
  by (induction rule: refresh_step.induct)
    (erule run_source_frame [THEN calm_acquisition] calm_worker.drain calm_admission [OF _ settled_not_waiting]
      calm_disappearance calm_recover; assumption?)+

lemma calm_run: "refresh_run_star s s' \<Longrightarrow> calm settled s s'"
  by (induction rule: refresh_run_star.induct) (auto intro: calm_trans calm_step)

section \<open>Properties\<close>

text \<open>
  C23. No refresh overrules people or revives what is settled: after any sequence of source runs,
  worker loops, admissions, disappearance runs and lease recoveries the canonical tables are still
  well-formed, all manual state is as it was, and a listing that was INACTIVE, EXCLUDED, MERGED, in
  review or MISSING has the same lifecycle as before; in particular nothing makes an INACTIVE listing
  reappear.
\<close>
theorem refresh_keeps_what_is_settled:
  assumes "refresh_run_star s s'" "canonical_inv s"
    and "column cl_lifecycle_status i s = Some st"
    and "st \<in> {LifecycleStatus.INACTIVE, LifecycleStatus.EXCLUDED, LifecycleStatus.MERGED,
      LifecycleStatus.REVIEW_REQUIRED, LifecycleStatus.MISSING}"
  shows "canonical_inv s' \<and> manual_state s' = manual_state s \<and> column cl_lifecycle_status i s' = Some st"
proof -
  have "settled st" using assms(4) by (auto simp: settled_def)
  with calm_run [OF assms(1)] assms(2,3) show ?thesis unfolding calm_def by blast
qed

text \<open>An INACTIVE listing whose source link is ACTIVE again, in a building in scope.\<close>

definition demo_returned :: db where
  "demo_returned = demo_waiting\<lparr>db_listings := [inactivated 5 (demo_listing 10), demo_listing 11]\<rparr>"

lemma demo_returned_inv: "canonical_inv demo_returned"
proof -
  have "match_keys demo_returned = [[char_of (3::nat)], [char_of (4::nat)]]" by code_simp
  then have "chain_inv demo_returned"
    by (simp add: chain_inv_def demo_returned_def demo_defs)
  moreover have "link_inv demo_returned"
    by (simp add: link_inv_def demo_returned_def inactivated_def demo_defs native_key_def has_native_def)
  ultimately show ?thesis
    by (simp add: canonical_inv_def facts_inv_def one_current_def one_active_def keys_unique_def demo_returned_def demo_defs)
qed

theorem refresh_keeps_what_is_settled_witness:
  "column cl_lifecycle_status 10 (snd (evaluate_candidates 1000 (\<lambda>_. 60) demo_returned)) = Some LifecycleStatus.INACTIVE"
proof -
  let ?r = "evaluate_candidates 1000 (\<lambda>_. 60) demo_returned"
  have "refresh_step demo_returned (snd ?r)"
    by (rule refresh_step.admit [of 1000 "\<lambda>_. 60" _ "fst ?r"]) simp
  then have star: "refresh_run_star demo_returned (snd ?r)" using refresh_run_star.more refresh_run_star.stop by blast
  have "column cl_lifecycle_status 10 demo_returned = Some LifecycleStatus.INACTIVE"
    by (simp add: column_def demo_returned_def inactivated_def demo_defs get_by_Cons)
  from refresh_keeps_what_is_settled [OF star demo_returned_inv this] show ?thesis by simp
qed

text \<open>
  A run that discovers through a search index can inactivate nothing: the disappearance service
  refuses its source run and leaves the database as it is.
\<close>
theorem search_runs_retire_nothing:
  assumes "run_source adapter digest key trigger DiscoveryMethod.SEARCH_INDEX now s w = (Inr summary, s', w')"
  shows "\<exists>d. process_source_run (sm_source_run_id summary) later s' = Inr (d, s') \<and>
    ds_refused_reason d = Some ''health_gate_not_passed''"
proof -
  have "gate_of (sm_source_run_id summary) s' = Some (sm_status summary, Some False)"
    using run_source_gate [OF assms] by (cases "sm_health_gate_passed summary") simp_all
  then obtain run where "get_by sr_id (sm_source_run_id summary) (db_source_runs s') = Some run"
      "sr_health_gate_passed run = Some False"
    by (auto simp: gate_of_def)
  then show ?thesis by (simp add: process_source_run_def new_disappearance_summary_def)
qed

theorem search_runs_retire_nothing_witness:
  "\<exists>sm s' d. run_source demo_adapter (\<lambda>_. ''d'') ''k'' RefreshTriggerType.MANUAL DiscoveryMethod.SEARCH_INDEX 20 demo_registered () =
     (Inr sm, s', ()) \<and> process_source_run (sm_source_run_id sm) 30 s' = Inr (d, s')"
proof -
  have "(case run_source demo_adapter (\<lambda>_. ''d'') ''k'' RefreshTriggerType.MANUAL DiscoveryMethod.SEARCH_INDEX 20 demo_registered () of
     (Inl _, _) \<Rightarrow> False | (Inr _, _) \<Rightarrow> True)" by code_simp
  then obtain sm s' where r: "run_source demo_adapter (\<lambda>_. ''d'') ''k'' RefreshTriggerType.MANUAL DiscoveryMethod.SEARCH_INDEX 20
      demo_registered () = (Inr sm, s', ())"
    by (auto split: prod.splits sum.splits)
  from search_runs_retire_nothing [OF r, of 30] r show ?thesis by blast
qed

end
