(* ===== verification/Location.thy ===== *)
theory Location
  imports Schema Providers PyJson
begin

text \<open>
  Location resolution: the two geocoders of \<open>enrichment/location/geocoders.py\<close> over an injected
  fetcher, \<open>GeocodeService\<close> of \<open>service.py\<close>, which gives coordinates to the addresses that lack
  them, and the boundary registry of \<open>boundaries.py\<close> with the scope decision.  PostGIS is outside the
  program: \<open>covers\<close> stands for \<open>ST_Covers(geometry, point)\<close>, \<open>intersects\<close> for
  \<open>ST_Intersects(geometry, point)\<close>, and \<open>sha256\<close> for the hash.  One clock reading serves a run.
\<close>

section \<open>Geocoders\<close>

text \<open>A fetcher gives the decoded body, or raises; every exception of a fetch is caught by type name.\<close>

type_synonym 'w fetcher = "string \<Rightarrow> 'w \<Rightarrow> json fallible \<times> 'w"

definition transport_failure :: "string \<Rightarrow> GeocodeResult" where
  "transport_failure name = (new_geocode_result ProviderRequestStatus.FAILED)
     \<lparr>gr_error_code := Some (''TRANSPORT_'' @ name)\<rparr>"

definition no_match :: GeocodeResult where
  "no_match = (new_geocode_result ProviderRequestStatus.FAILED)\<lparr>gr_error_code := Some ''NO_MATCH''\<rparr>"

definition geosearch_precision :: "json \<Rightarrow> json \<Rightarrow> LocationPrecision" where
  "geosearch_precision accuracy match_type =
     (if accuracy = JStr ''point'' \<and> match_type = JStr ''exact'' then LocationPrecision.ROOFTOP_OR_ENTRANCE
      else if accuracy = JStr ''point'' then LocationPrecision.BUILDING
      else if match_type = JStr ''interpolated'' then LocationPrecision.INTERPOLATED_ADDRESS
      else LocationPrecision.NEIGHBORHOOD)"

text \<open>The body of \<open>NycGeosearchGeocoder.geocode\<close> once the fetch has answered.\<close>

definition geosearch_feature :: "json \<Rightarrow> GeocodeResult result" where
  "geosearch_feature feature =
     bind_result (bind_result (py_item ''geometry'' feature) (py_item ''coordinates'')) (\<lambda>coords.
     bind_result (py_pair coords) (\<lambda>(lon, lat).
     bind_result (py_get_default ''properties'' (JObj []) feature) (\<lambda>properties.
     bind_result (py_get ''accuracy'' properties) (\<lambda>accuracy.
     bind_result (py_get ''match_type'' properties) (\<lambda>match_type.
     bind_result (py_get ''id'' properties) (\<lambda>ident.
     bind_result (py_get ''label'' properties) (\<lambda>label.
     bind_result (py_get ''borough'' properties) (\<lambda>borough.
     bind_result (py_get ''postalcode'' properties) (\<lambda>postal.
     bind_result (field_float lat) (\<lambda>latitude.
     bind_result (field_float lon) (\<lambda>longitude.
     bind_result (field_text ident) (\<lambda>result_id.
     bind_result (field_text label) (\<lambda>formatted.
     Inr \<lparr>gr_status = ProviderRequestStatus.SUCCEEDED, gr_latitude = latitude,
          gr_longitude = longitude, gr_precision = geosearch_precision accuracy match_type,
          gr_provider_result_id = result_id, gr_formatted_address = formatted,
          gr_components = JObj [(''borough'', borough), (''postalcode'', postal),
            (''accuracy'', accuracy), (''match_type'', match_type)],
          gr_error_code = None\<rparr>)))))))))))))"

definition geosearch_answer :: "json \<Rightarrow> GeocodeResult result" where
  "geosearch_answer body =
     bind_result (py_get ''features'' body) (\<lambda>found.
       if json_truthy found then bind_result (py_first found) geosearch_feature else Inr no_match)"

definition census_match :: "json \<Rightarrow> GeocodeResult result" where
  "census_match found =
     bind_result (py_item ''coordinates'' found) (\<lambda>coords.
     bind_result (py_item ''y'' coords) (\<lambda>y.
     bind_result (py_item ''x'' coords) (\<lambda>x.
     bind_result (py_get ''matchedAddress'' found) (\<lambda>matched.
     bind_result (bind_result (py_get ''tigerLine'' found)
       (\<lambda>tiger. py_get ''tigerLineId'' (json_or tiger (JObj [])))) (\<lambda>line.
     bind_result (field_float y) (\<lambda>latitude.
     bind_result (field_float x) (\<lambda>longitude.
     bind_result (field_text matched) (\<lambda>formatted.
     Inr \<lparr>gr_status = ProviderRequestStatus.SUCCEEDED, gr_latitude = latitude,
          gr_longitude = longitude, gr_precision = LocationPrecision.INTERPOLATED_ADDRESS,
          gr_provider_result_id = None, gr_formatted_address = formatted,
          gr_components = JObj [(''tigerLineId'', line)], gr_error_code = None\<rparr>))))))))"

definition census_answer :: "json \<Rightarrow> GeocodeResult result" where
  "census_answer body =
     bind_result (bind_result (py_get ''result'' body)
       (\<lambda>r. py_get ''addressMatches'' (json_or r (JObj [])))) (\<lambda>found.
       if json_truthy found then bind_result (py_first found) census_match else Inr no_match)"

text \<open>\<open>urllib.parse.urlencode\<close> on text values.\<close>

definition HEX_UPPER :: string where
  "HEX_UPPER = ''0123456789ABCDEF''"

definition url_safe :: "char \<Rightarrow> bool" where
  "url_safe c \<longleftrightarrow> word_char c \<or> c \<in> set ''.-~''"

definition quote_char :: "char \<Rightarrow> string" where
  "quote_char c = (if url_safe c then [c] else if c = CHR '' '' then ''+''
     else [CHR ''%'', HEX_UPPER ! (of_char c div 16), HEX_UPPER ! (of_char c mod 16)])"

definition quote_plus :: "string \<Rightarrow> string" where
  "quote_plus t = concat (map quote_char t)"

fun urlencode :: "(string \<times> string) list \<Rightarrow> string" where
  "urlencode [] = []"
| "urlencode [(k, v)] = quote_plus k @ ''='' @ quote_plus v"
| "urlencode ((k, v) # kvs) = quote_plus k @ ''='' @ quote_plus v @ ''&'' @ urlencode kvs"

definition geosearch_url :: "GeocodeRequest \<Rightarrow> string" where
  "geosearch_url request = ''https://geosearch.planninglabs.nyc/v2/search?'' @
     urlencode [(''text'', gq_formatted_address request), (''size'', ''1'')]"

definition census_url :: "GeocodeRequest \<Rightarrow> string" where
  "census_url request = ''https://geocoding.geo.census.gov/geocoder/locations/onelineaddress?'' @
     urlencode [(''address'', gq_formatted_address request), (''benchmark'', ''Public_AR_Current''),
       (''format'', ''json'')]"

text \<open>
  A geocoder from an endpoint (the URL of a request) and an answer reader.  Only the fetch is
  guarded; a body of an unexpected shape raises.
\<close>

definition geocode_with ::
  "(GeocodeRequest \<Rightarrow> string) \<Rightarrow> (json \<Rightarrow> GeocodeResult result) \<Rightarrow> 'w fetcher \<Rightarrow>
   GeocodeRequest \<Rightarrow> 'w \<Rightarrow> GeocodeResult fallible \<times> 'w" where
  "geocode_with url answer fetch request w =
     (case fetch (url request) w of
        (Inl name, w') \<Rightarrow> (Inr (transport_failure name), w')
      | (Inr body, w') \<Rightarrow> (case answer body of
          Inl e \<Rightarrow> (Inl (error_name e), w') | Inr result \<Rightarrow> (Inr result, w')))"

definition NycGeosearchGeocoder :: "'w fetcher \<Rightarrow> 'w Geocoder" where
  "NycGeosearchGeocoder fetch = \<lparr>gc_interface_version = ''1.0.0'', gc_provider_code = ''nyc_geosearch'',
     gc_geocode = geocode_with geosearch_url geosearch_answer fetch\<rparr>"

definition CensusGeocoder :: "'w fetcher \<Rightarrow> 'w Geocoder" where
  "CensusGeocoder fetch = \<lparr>gc_interface_version = ''1.0.0'', gc_provider_code = ''census_geocoder'',
     gc_geocode = geocode_with census_url census_answer fetch\<rparr>"

section \<open>The geocoding service\<close>

definition NJ_LOCALITIES :: "string list" where
  "NJ_LOCALITIES = [''Jersey City'', ''Hoboken'', ''Fort Lee'']"

definition LOCALITY_REGION_CODES :: "(string \<times> string) list" where
  "LOCALITY_REGION_CODES = [(''Jersey City'', ''NJ_JERSEY_CITY''), (''Hoboken'', ''NJ_HOBOKEN''),
     (''Fort Lee'', ''NJ_FORT_LEE''), (''Manhattan'', ''NYC_MANHATTAN''),
     (''Brooklyn'', ''NYC_BROOKLYN''), (''Queens'', ''NYC_QUEENS''), (''Bronx'', ''NYC_BRONX''),
     (''Staten Island'', ''NYC_STATEN_ISLAND'')]"

record GeocodeRunSummary =
  gs_attempted :: nat
  gs_geocoded :: nat
  gs_failed :: nat
  gs_skipped_unresolved :: nat
  gs_by_provider :: "(string \<times> nat) list"

definition new_geocode_summary :: GeocodeRunSummary where
  "new_geocode_summary = \<lparr>gs_attempted = 0, gs_geocoded = 0, gs_failed = 0,
     gs_skipped_unresolved = 0, gs_by_provider = []\<rparr>"

text \<open>The service's cache of provider codes, and the source row made for a provider seen first.\<close>

type_synonym source_ids = "(string \<times> uuid) list"

definition new_geocoder_source :: "uuid \<Rightarrow> string \<Rightarrow> source_row" where
  "new_geocoder_source i provider_code =
     \<lparr>sc_id = i, sc_source_code = provider_code, sc_display_name = provider_code,
      sc_source_type = SourceType.GEOCODER, sc_base_domain = None,
      sc_access_method = AccessMethod.API, sc_approval_status = SourceApprovalStatus.APPROVED,
      sc_enabled = True, sc_policy_version = ''free-open-1'', sc_configuration = None\<rparr>"

definition source_id_of :: "string \<Rightarrow> source_ids \<Rightarrow> db \<Rightarrow> (uuid \<times> source_ids \<times> db) result" where
  "source_id_of provider_code ids s =
     (case map_of ids provider_code of
        Some i \<Rightarrow> Inr (i, ids, s)
      | None \<Rightarrow>
          bind_result
            (scalar_one_or_none (filter (\<lambda>r. sc_source_code r = provider_code) (db_sources s)))
            (\<lambda>found. Inr (case found of
               Some r \<Rightarrow> (sc_id r, (provider_code, sc_id r) # ids, s)
             | None \<Rightarrow> (db_next s, (provider_code, db_next s) # ids,
                 s\<lparr>db_sources := db_sources s @ [new_geocoder_source (db_next s) provider_code],
                   db_next := Suc (db_next s)\<rparr>))))"

definition within_locality_boundary ::
  "(json \<Rightarrow> point \<Rightarrow> bool) \<Rightarrow> string \<Rightarrow> point \<Rightarrow> db \<Rightarrow> bool" where
  "within_locality_boundary covers locality pt s =
     (case map_of LOCALITY_REGION_CODES locality of
        None \<Rightarrow> True
      | Some region \<Rightarrow>
          (case filter (\<lambda>b. gb_region_code b = region) (db_boundaries s) of
             [] \<Rightarrow> True
           | b # _ \<Rightarrow> covers (gb_geometry b) pt))"

definition request_key :: "provider_request \<Rightarrow> uuid \<times> ProviderRequestType \<times> string" where
  "request_key r = (pr_source_id r, pr_request_type r, pr_request_hash r)"

definition new_geocode_request ::
  "uuid \<Rightarrow> uuid \<Rightarrow> string \<Rightarrow> string \<Rightarrow> GeocodeResult \<Rightarrow> datetime \<Rightarrow> provider_request" where
  "new_geocode_request i source digest query result now =
     \<lparr>pr_id = i, pr_source_id = source, pr_request_type = ProviderRequestType.GEOCODE,
      pr_request_hash = digest, pr_request_parameters = JObj [(''text'', JStr query)],
      pr_provider_result_id = gr_provider_result_id result, pr_response_ref = None,
      pr_status = gr_status result, pr_requested_at = now, pr_completed_at = Some now,
      pr_expires_at = None, pr_error_code = gr_error_code result\<rparr>"

definition record_request ::
  "(string \<Rightarrow> string) \<Rightarrow> string \<Rightarrow> string \<Rightarrow> GeocodeResult \<Rightarrow> datetime \<Rightarrow> source_ids \<Rightarrow> db \<Rightarrow>
   (source_ids \<times> db) result" where
  "record_request sha256 provider_code query result now ids s =
     bind_result (source_id_of provider_code ids s) (\<lambda>(source, ids', s').
       (let row = new_geocode_request (db_next s') source (sha256 query) query result now
        in Inr (ids',
             if \<exists>r \<in> set (db_provider_requests s'). request_key r = request_key row then s'
             else s'\<lparr>db_provider_requests := db_provider_requests s' @ [row],
                     db_next := Suc (db_next s')\<rparr>)))"

definition set_address :: "uuid \<Rightarrow> (address \<Rightarrow> address) \<Rightarrow> db \<Rightarrow> db" where
  "set_address i f s = s\<lparr>db_addresses := update_where (\<lambda>a. ad_id a = i) f (db_addresses s)\<rparr>"

text \<open>
  The assignments of a success.  \<open>address.borough\<close> takes the borough of the components when it is
  truthy; a value that is no text does not fit the column.
\<close>

definition borough_of :: "json \<Rightarrow> string option result" where
  "borough_of components =
     bind_result (py_get ''borough'' components) (\<lambda>b.
       if \<not> json_truthy b then Inr None
       else (case b of JStr t \<Rightarrow> Inr (Some t) | _ \<Rightarrow> Inl (ExternalError ''ProgrammingError'')))"

definition place_address ::
  "point \<Rightarrow> GeocodeResult \<Rightarrow> uuid \<Rightarrow> datetime \<Rightarrow> string \<Rightarrow> string option \<Rightarrow> address \<Rightarrow> address" where
  "place_address pt result source now digest borough a =
     a\<lparr>ad_location_point := Some pt, ad_location_precision := gr_precision result,
       ad_geocoder_source_id := Some source, ad_geocoder_result_id := gr_provider_result_id result,
       ad_geocoded_at := Some now, ad_geocode_input_hash := Some digest,
       ad_geocode_status := GeocodeStatus.VALID,
       ad_borough := (case borough of None \<Rightarrow> ad_borough a | Some b \<Rightarrow> Some b)\<rparr>"

text \<open>The point of a usable answer: a success with both coordinates, inside the claimed locality.\<close>

definition usable_point ::
  "(json \<Rightarrow> point \<Rightarrow> bool) \<Rightarrow> string \<Rightarrow> GeocodeResult \<Rightarrow> db \<Rightarrow> point option" where
  "usable_point covers locality result s =
     (if gr_status result \<noteq> ProviderRequestStatus.SUCCEEDED then None
      else (case (gr_longitude result, gr_latitude result) of
              (Some lon, Some lat) \<Rightarrow>
                (if within_locality_boundary covers locality (lon, lat) s then Some (lon, lat) else None)
            | _ \<Rightarrow> None))"

text \<open>The loop over the geocoders; \<open>st\<close> is the providers' state, the cache and the database.\<close>

type_synonym 'w geo_state = "'w \<times> source_ids \<times> db"

definition admin_area_of :: "address \<Rightarrow> string" where
  "admin_area_of a = (if ad_locality a \<in> set NJ_LOCALITIES then ''NJ'' else ad_administrative_area a)"

definition query_of :: "string \<Rightarrow> address \<Rightarrow> string" where
  "query_of line a = line @ '', '' @ ad_locality a @ '', '' @ admin_area_of a"

definition request_of :: "string \<Rightarrow> address \<Rightarrow> GeocodeRequest" where
  "request_of line a = \<lparr>gq_formatted_address = query_of line a, gq_locality = Some (ad_locality a),
     gq_administrative_area = Some (admin_area_of a), gq_postal_code = None\<rparr>"

fun try_geocoders ::
  "(json \<Rightarrow> point \<Rightarrow> bool) \<Rightarrow> (string \<Rightarrow> string) \<Rightarrow> datetime \<Rightarrow> string \<Rightarrow> address \<Rightarrow>
   'w Geocoder list \<Rightarrow> 'w geo_state \<Rightarrow> (bool \<times> 'w geo_state) result" where
  "try_geocoders covers sha256 now line a [] (w, ids, s) =
     Inr (False, w, ids, set_address (ad_id a) (\<lambda>r. r\<lparr>ad_geocode_status := GeocodeStatus.FAILED\<rparr>) s)"
| "try_geocoders covers sha256 now line a (g # gs) (w, ids, s) =
     (if ad_locality a \<in> set NJ_LOCALITIES \<and> gc_provider_code g = ''nyc_geosearch''
      then try_geocoders covers sha256 now line a gs (w, ids, s)
      else (case gc_geocode g (request_of line a) w of
              (Inl name, w1) \<Rightarrow> Inl (ExternalError name)
            | (Inr result, w1) \<Rightarrow>
                bind_result (record_request sha256 (gc_provider_code g) (query_of line a) result now ids s)
                  (\<lambda>(ids1, s1).
                  case usable_point covers (ad_locality a) result s1 of
                    None \<Rightarrow> try_geocoders covers sha256 now line a gs (w1, ids1, s1)
                  | Some pt \<Rightarrow>
                      bind_result (source_id_of (gc_provider_code g) ids1 s1) (\<lambda>(source, ids2, s2).
                      bind_result (borough_of (gr_components result)) (\<lambda>borough.
                      Inr (True, w1, ids2, set_address (ad_id a)
                        (place_address pt result source now (sha256 (query_of line a)) borough) s2))))))"

definition geocode_address ::
  "(json \<Rightarrow> point \<Rightarrow> bool) \<Rightarrow> (string \<Rightarrow> string) \<Rightarrow> datetime \<Rightarrow> 'w Geocoder list \<Rightarrow> address \<Rightarrow>
   'w geo_state \<Rightarrow> (bool \<times> 'w geo_state) result" where
  "geocode_address covers sha256 now gs a st =
     (case ad_line_1 a of
        None \<Rightarrow> Inr (False, st)
      | Some line \<Rightarrow> (if line = [] then Inr (False, st)
                      else try_geocoders covers sha256 now line a gs st))"

section \<open>Geocoding what is pending\<close>

definition awaits_geocoding :: "address \<Rightarrow> bool" where
  "awaits_geocoding a \<longleftrightarrow> ad_location_point a = None \<and> ad_geocode_status a \<noteq> GeocodeStatus.FAILED"

definition placeholder_address :: "address \<Rightarrow> bool" where
  "placeholder_address a \<longleftrightarrow> (case ad_line_1 a of None \<Rightarrow> True | Some t \<Rightarrow> t = []) \<or>
     starts_with (ad_formatted_address a) ''[address unresolved]''"

text \<open>The provider code that a success is counted under.\<close>

definition provider_of :: "uuid \<Rightarrow> db \<Rightarrow> string" where
  "provider_of i s =
     (case get_by ad_id i (db_addresses s) of
        None \<Rightarrow> ''unknown''
      | Some a \<Rightarrow> (case ad_geocoder_source_id a of
          None \<Rightarrow> ''unknown''
        | Some source \<Rightarrow> (case get_by sc_id source (db_sources s) of
            None \<Rightarrow> ''unknown'' | Some r \<Rightarrow> sc_source_code r)))"

fun geocode_rows ::
  "(json \<Rightarrow> point \<Rightarrow> bool) \<Rightarrow> (string \<Rightarrow> string) \<Rightarrow> datetime \<Rightarrow> 'w Geocoder list \<Rightarrow> address list \<Rightarrow>
   GeocodeRunSummary \<Rightarrow> 'w geo_state \<Rightarrow> (GeocodeRunSummary \<times> 'w geo_state) result" where
  "geocode_rows covers sha256 now gs [] m st = Inr (m, st)"
| "geocode_rows covers sha256 now gs (a # as) m st =
     (if placeholder_address a
      then geocode_rows covers sha256 now gs as
             (m\<lparr>gs_skipped_unresolved := Suc (gs_skipped_unresolved m)\<rparr>) st
      else bind_result (geocode_address covers sha256 now gs a st) (\<lambda>(ok, st1).
             (let m1 = m\<lparr>gs_attempted := Suc (gs_attempted m)\<rparr>
              in geocode_rows covers sha256 now gs as
                   (if ok then m1\<lparr>gs_geocoded := Suc (gs_geocoded m1),
                                 gs_by_provider := bump (provider_of (ad_id a) (snd (snd st1)))
                                   (gs_by_provider m1)\<rparr>
                    else m1\<lparr>gs_failed := Suc (gs_failed m1)\<rparr>) st1)))"

definition geocode_pending ::
  "(json \<Rightarrow> point \<Rightarrow> bool) \<Rightarrow> (string \<Rightarrow> string) \<Rightarrow> datetime \<Rightarrow> 'w Geocoder list \<Rightarrow> nat \<Rightarrow>
   'w \<Rightarrow> db \<Rightarrow> (GeocodeRunSummary \<times> 'w geo_state) result" where
  "geocode_pending covers sha256 now gs limit w s =
     geocode_rows covers sha256 now gs (take limit (filter awaits_geocoding (db_addresses s)))
       new_geocode_summary (w, [], s)"

section \<open>The boundary registry\<close>

definition upsert_boundary ::
  "string \<Rightarrow> string \<Rightarrow> string \<Rightarrow> json \<Rightarrow> string \<Rightarrow> bool tx" where
  "upsert_boundary region display region_group geometry version s =
     bind_result (scalar_one_or_none (filter (\<lambda>b. gb_region_code b = region) (db_boundaries s)))
       (\<lambda>found. Inr (case found of
          Some b \<Rightarrow> (False, s)
        | None \<Rightarrow> (True, s\<lparr>db_boundaries := db_boundaries s @
             [\<lparr>gb_id = db_next s, gb_region_code = region, gb_display_name = display,
               gb_region_group = region_group, gb_geometry = geometry, gb_dataset_version = version\<rparr>],
             db_next := Suc (db_next s)\<rparr>)))"

definition py_upper :: "string \<Rightarrow> string" where
  "py_upper t = map upper_char t"

text \<open>\<open>f"NYC_{name.upper().replace(' ', '_')}"\<close>\<close>

definition borough_code :: "string \<Rightarrow> string" where
  "borough_code name = ''NYC_'' @ map (\<lambda>c. if c = CHR '' '' then CHR ''_'' else c) (py_upper name)"

definition load_borough :: "string \<Rightarrow> json \<Rightarrow> bool tx" where
  "load_borough version feature s =
     bind_result (py_item ''properties'' feature) (\<lambda>properties.
     bind_result (py_get ''BoroName'' properties) (\<lambda>name1.
     bind_result (if json_truthy name1 then Inr name1
                  else bind_result (py_item ''properties'' feature) (py_get ''boro_name'')) (\<lambda>name.
     if \<not> json_truthy name then Inr (False, s)
     else (case name of
             JStr t \<Rightarrow> bind_result (py_item ''geometry'' feature) (\<lambda>geometry.
               upsert_boundary (borough_code t) (t @ '' (NYC)'') ''NYC'' geometry version s)
           | _ \<Rightarrow> Inl AttributeError))))"

definition NJ_PLACES :: "(string \<times> string) list" where
  "NJ_PLACES = [(''Jersey City'', ''NJ_JERSEY_CITY''), (''Hoboken'', ''NJ_HOBOKEN''),
     (''Fort Lee'', ''NJ_FORT_LEE'')]"

definition load_place :: "string \<Rightarrow> json \<Rightarrow> bool tx" where
  "load_place version feature s =
     bind_result (bind_result (py_item ''properties'' feature) (py_get ''BASENAME'')) (\<lambda>name.
     (case name of
        JStr t \<Rightarrow> (case map_of NJ_PLACES t of
            None \<Rightarrow> Inr (False, s)
          | Some code \<Rightarrow> bind_result (py_item ''geometry'' feature) (\<lambda>geometry.
              upsert_boundary code (t @ '', NJ'') ''NJ'' geometry version s))
      | JList _ \<Rightarrow> Inl TypeError
      | JObj _ \<Rightarrow> Inl TypeError
      | _ \<Rightarrow> Inr (False, s)))"

fun load_features :: "(json \<Rightarrow> bool tx) \<Rightarrow> json list \<Rightarrow> nat tx" where
  "load_features load [] s = Inr (0, s)"
| "load_features load (f # fs) s =
     bind_result (load f s) (\<lambda>(added, s1).
     bind_result (load_features load fs s1) (\<lambda>(n, s2). Inr ((if added then Suc n else n), s2)))"

text \<open>Both loaders, on the body that the download answered.\<close>

definition load_nyc_boroughs :: "string \<Rightarrow> json \<Rightarrow> nat tx" where
  "load_nyc_boroughs version body s =
     bind_result (bind_result (py_get_default ''features'' (JList []) body) py_iter)
       (\<lambda>features. load_features (load_borough version) features s)"

definition load_nj_places :: "string \<Rightarrow> json \<Rightarrow> nat tx" where
  "load_nj_places version body s =
     bind_result (bind_result (py_get_default ''features'' (JList []) body) py_iter)
       (\<lambda>features. load_features (load_place version) features s)"

section \<open>The scope decision\<close>

record ScopeRunSummary =
  vs_evaluated :: nat
  vs_in_scope :: nat
  vs_out_of_scope :: nat
  vs_by_region :: "(string \<times> nat) list"

definition new_scope_summary :: ScopeRunSummary where
  "new_scope_summary = \<lparr>vs_evaluated = 0, vs_in_scope = 0, vs_out_of_scope = 0, vs_by_region = []\<rparr>"

text \<open>The rows of the left join: one per boundary that an unresolved located address meets, or one without.\<close>

definition unresolved_point :: "address \<Rightarrow> point option" where
  "unresolved_point a = (if ad_boundary_status a = BoundaryStatus.UNRESOLVED
     then ad_location_point a else None)"

definition regions_at :: "(json \<Rightarrow> point \<Rightarrow> bool) \<Rightarrow> point \<Rightarrow> geographic_boundary list \<Rightarrow> string list" where
  "regions_at intersects pt bs = map gb_region_code (filter (\<lambda>b. intersects (gb_geometry b) pt) bs)"

definition scope_rows ::
  "(json \<Rightarrow> point \<Rightarrow> bool) \<Rightarrow> db \<Rightarrow> (uuid \<times> string option) list" where
  "scope_rows intersects s = concat (map (\<lambda>a.
     case unresolved_point a of
       None \<Rightarrow> []
     | Some pt \<Rightarrow> (case regions_at intersects pt (db_boundaries s) of
         [] \<Rightarrow> [(ad_id a, None)]
       | rs \<Rightarrow> map (\<lambda>r. (ad_id a, Some r)) rs)) (db_addresses s))"

definition set_boundary_status :: "uuid \<Rightarrow> BoundaryStatus \<Rightarrow> db \<Rightarrow> db" where
  "set_boundary_status i st = set_address i (\<lambda>a. a\<lparr>ad_boundary_status := st\<rparr>)"

fun decide_scope :: "(uuid \<times> string option) list \<Rightarrow> ScopeRunSummary \<Rightarrow> db \<Rightarrow> ScopeRunSummary \<times> db" where
  "decide_scope [] m s = (m, s)"
| "decide_scope ((i, region) # rows) m s =
     (let m1 = m\<lparr>vs_evaluated := Suc (vs_evaluated m)\<rparr>
      in case region of
           Some r \<Rightarrow>
             (if r = [] then decide_scope rows (m1\<lparr>vs_out_of_scope := Suc (vs_out_of_scope m)\<rparr>)
                (set_boundary_status i BoundaryStatus.OUT_OF_SCOPE s)
              else decide_scope rows (m1\<lparr>vs_in_scope := Suc (vs_in_scope m),
                     vs_by_region := bump r (vs_by_region m)\<rparr>)
                (set_boundary_status i BoundaryStatus.IN_SCOPE s))
         | None \<Rightarrow> decide_scope rows (m1\<lparr>vs_out_of_scope := Suc (vs_out_of_scope m)\<rparr>)
                (set_boundary_status i BoundaryStatus.OUT_OF_SCOPE s))"

definition validate_boundaries ::
  "(json \<Rightarrow> point \<Rightarrow> bool) \<Rightarrow> nat \<Rightarrow> db \<Rightarrow> ScopeRunSummary \<times> db" where
  "validate_boundaries intersects limit s =
     (if db_boundaries s = [] then (new_scope_summary, s)
      else decide_scope (take limit (scope_rows intersects s)) new_scope_summary s)"

end
