(* ===== verification/LocationLaws.thy ===== *)
theory LocationLaws
  imports Location Samples
begin

text \<open>
  What location resolution guarantees: coordinates come from an accepted answer of a configured
  geocoder or not at all, a failed address is never tried again, and the scope decision is the
  polygon test of every unresolved located address and nothing else.
\<close>

section \<open>What geocoding writes\<close>

text \<open>Everything but the addresses, the source registry and the request log stays as it is.\<close>

definition geo_frame :: "db \<Rightarrow> db \<Rightarrow> bool" where
  "geo_frame s s' \<longleftrightarrow> db_next s \<le> db_next s' \<and>
     (\<exists>as ss rs n. s' = s\<lparr>db_addresses := as, db_sources := ss, db_provider_requests := rs, db_next := n\<rparr>)"

lemma geo_frame_refl [simp]: "geo_frame s s"
  unfolding geo_frame_def
  by (intro conjI exI [of _ "db_addresses s"] exI [of _ "db_sources s"]
      exI [of _ "db_provider_requests s"] exI [of _ "db_next s"]) simp_all

lemma geo_frame_trans: "geo_frame s t \<Longrightarrow> geo_frame t u \<Longrightarrow> geo_frame s u"
  unfolding geo_frame_def by (elim conjE exE) force

lemma geo_frame_set_address [simp]: "geo_frame s (set_address i f s)"
  unfolding geo_frame_def set_address_def
  by (intro conjI exI [of _ "update_where (\<lambda>a. ad_id a = i) f (db_addresses s)"]
      exI [of _ "db_sources s"] exI [of _ "db_provider_requests s"] exI [of _ "db_next s"]) simp_all

lemma geo_frame_boundaries: "geo_frame s s' \<Longrightarrow> db_boundaries s' = db_boundaries s"
  by (auto simp: geo_frame_def)

lemma source_id_frame:
  assumes "source_id_of p ids s = Inr (i, ids', s')"
  shows "geo_frame s s' \<and> db_addresses s' = db_addresses s"
proof (cases "map_of ids p")
  case (Some j)
  with assms show ?thesis by (simp add: source_id_of_def)
next
  case None
  with assms obtain found where
      "scalar_one_or_none (filter (\<lambda>r. sc_source_code r = p) (db_sources s)) = Inr found"
    by (auto simp: source_id_of_def bind_result_Inr_iff)
  with None assms have "s' = s \<or> s' = s\<lparr>db_sources := db_sources s @ [new_geocoder_source (db_next s) p],
      db_next := Suc (db_next s)\<rparr>"
    by (auto simp: source_id_of_def split: option.splits)
  then show ?thesis
  proof
    assume s': "s' = s\<lparr>db_sources := db_sources s @ [new_geocoder_source (db_next s) p],
      db_next := Suc (db_next s)\<rparr>"
    show ?thesis unfolding s' geo_frame_def
      by (intro conjI exI [of _ "db_addresses s"]
          exI [of _ "db_sources s @ [new_geocoder_source (db_next s) p]"]
          exI [of _ "db_provider_requests s"] exI [of _ "Suc (db_next s)"]) simp_all
  qed simp
qed

lemma record_request_frame:
  assumes "record_request sha p q r now ids s = Inr (ids', s')"
  shows "geo_frame s s' \<and> db_addresses s' = db_addresses s"
proof -
  obtain source ids1 s1 where src: "source_id_of p ids s = Inr (source, ids1, s1)"
    using assms by (auto simp: record_request_def bind_result_Inr_iff)
  let ?row = "new_geocode_request (db_next s1) source (sha q) q r now"
  have "s' = s1 \<or> s' = s1\<lparr>db_provider_requests := db_provider_requests s1 @ [?row],
      db_next := Suc (db_next s1)\<rparr>"
    using assms src by (auto simp: record_request_def Let_def split: if_splits)
  then have "geo_frame s1 s' \<and> db_addresses s' = db_addresses s1"
  proof
    assume s': "s' = s1\<lparr>db_provider_requests := db_provider_requests s1 @ [?row],
      db_next := Suc (db_next s1)\<rparr>"
    show ?thesis unfolding s' geo_frame_def
      by (intro conjI exI [of _ "db_addresses s1"] exI [of _ "db_sources s1"]
          exI [of _ "db_provider_requests s1 @ [?row]"] exI [of _ "Suc (db_next s1)"]) simp_all
  qed simp
  with source_id_frame [OF src] show ?thesis by (auto intro: geo_frame_trans)
qed

section \<open>Where coordinates come from\<close>

text \<open>
  An accepted answer: a geocoder of the list was asked for this address and answered with success
  and both coordinates, which lie in the polygon of the claimed locality when one is registered; the
  NYC geocoder is never asked about New Jersey.
\<close>

definition accepted_answer ::
  "(json \<Rightarrow> point \<Rightarrow> bool) \<Rightarrow> 'w Geocoder list \<Rightarrow> db \<Rightarrow> string \<Rightarrow> address \<Rightarrow> GeocodeResult \<Rightarrow> point \<Rightarrow> bool" where
  "accepted_answer covers gs s line a r pt \<longleftrightarrow>
     (\<exists>g \<in> set gs. (\<exists>w w'. gc_geocode g (request_of line a) w = (Inr r, w')) \<and>
        (ad_locality a \<in> set NJ_LOCALITIES \<longrightarrow> gc_provider_code g \<noteq> ''nyc_geosearch'')) \<and>
     gr_status r = ProviderRequestStatus.SUCCEEDED \<and>
     gr_longitude r = Some (fst pt) \<and> gr_latitude r = Some (snd pt) \<and>
     within_locality_boundary covers (ad_locality a) pt s"

definition geo_located ::
  "(json \<Rightarrow> point \<Rightarrow> bool) \<Rightarrow> 'w Geocoder list \<Rightarrow> db \<Rightarrow> address \<Rightarrow> address \<Rightarrow> bool" where
  "geo_located covers gs s a a' \<longleftrightarrow> (\<exists>line r pt source now digest borough.
     ad_line_1 a = Some line \<and> line \<noteq> [] \<and> accepted_answer covers gs s line a r pt \<and>
     a' = place_address pt r source now digest borough a)"

definition geocoded ::
  "(json \<Rightarrow> point \<Rightarrow> bool) \<Rightarrow> 'w Geocoder list \<Rightarrow> db \<Rightarrow> address \<Rightarrow> address \<Rightarrow> bool" where
  "geocoded covers gs s a a' \<longleftrightarrow>
     a' = a\<lparr>ad_geocode_status := GeocodeStatus.FAILED\<rparr> \<or> geo_located covers gs s a a'"

lemma accepted_mono:
  "accepted_answer covers gs s line a r pt \<Longrightarrow> accepted_answer covers (g # gs) s line a r pt"
  unfolding accepted_answer_def by auto

lemma geo_located_mono: "geo_located covers gs s a a' \<Longrightarrow> geo_located covers (g # gs) s a a'"
  unfolding geo_located_def using accepted_mono by blast

lemma within_cong:
  "db_boundaries s' = db_boundaries s \<Longrightarrow>
   within_locality_boundary covers l pt s' = within_locality_boundary covers l pt s"
  by (cases "map_of LOCALITY_REGION_CODES l") (simp_all add: within_locality_boundary_def)

lemma geo_located_cong:
  assumes "db_boundaries s' = db_boundaries s"
  shows "geo_located covers gs s' a a' = geo_located covers gs s a a'"
  unfolding geo_located_def accepted_answer_def using within_cong [OF assms] by simp

lemma usable_pointD:
  "usable_point covers l r s = Some pt \<Longrightarrow> gr_status r = ProviderRequestStatus.SUCCEEDED \<and>
     gr_longitude r = Some (fst pt) \<and> gr_latitude r = Some (snd pt) \<and>
     within_locality_boundary covers l pt s"
  by (auto simp: usable_point_def split: if_splits option.splits)

lemma set_address_addresses:
  "db_addresses (set_address i f s) = update_where (\<lambda>a. ad_id a = i) f (db_addresses s)"
  by (simp add: set_address_def)

lemma try_geocoders_effect:
  assumes "try_geocoders covers sha now line a gs (w, ids, s) = Inr (ok, w', ids', s')"
    and "ad_line_1 a = Some line" "line \<noteq> []"
  shows "geo_frame s s' \<and> (\<exists>f. db_addresses s' = update_where (\<lambda>r. ad_id r = ad_id a) f (db_addresses s) \<and>
    geocoded covers gs s a (f a) \<and> (\<not> ok \<longrightarrow> f a = a\<lparr>ad_geocode_status := GeocodeStatus.FAILED\<rparr>))"
  using assms(1)
proof (induction gs arbitrary: w ids s)
  case Nil
  then show ?case
    by (auto simp: set_address_addresses geocoded_def
        intro!: exI [of _ "\<lambda>r. r\<lparr>ad_geocode_status := GeocodeStatus.FAILED\<rparr>"])
next
  case (Cons g gs)
  show ?case
  proof (cases "ad_locality a \<in> set NJ_LOCALITIES \<and> gc_provider_code g = ''nyc_geosearch''")
    case True
    then have "try_geocoders covers sha now line a gs (w, ids, s) = Inr (ok, w', ids', s')"
      using Cons.prems by simp
    from Cons.IH [OF this] show ?thesis by (auto simp: geocoded_def dest: geo_located_mono)
  next
    case False
    obtain result w1 where ans: "gc_geocode g (request_of line a) w = (Inr result, w1)"
      using Cons.prems False
      by (cases "gc_geocode g (request_of line a) w"; cases "fst (gc_geocode g (request_of line a) w)")
        auto
    then obtain ids1 s1 where rec: "record_request sha (gc_provider_code g) (query_of line a) result now ids s =
        Inr (ids1, s1)"
      using Cons.prems False by (auto simp: bind_result_Inr_iff)
    have f1: "geo_frame s s1" "db_addresses s1 = db_addresses s"
      using record_request_frame [OF rec] by auto
    have bs1: "db_boundaries s1 = db_boundaries s" by (rule geo_frame_boundaries [OF f1(1)])
    show ?thesis
    proof (cases "usable_point covers (ad_locality a) result s1")
      case None
      then have "try_geocoders covers sha now line a gs (w1, ids1, s1) = Inr (ok, w', ids', s')"
        using Cons.prems False ans rec by simp
      from Cons.IH [OF this] obtain f where IH: "geo_frame s1 s'"
          "db_addresses s' = update_where (\<lambda>r. ad_id r = ad_id a) f (db_addresses s1)"
          "geocoded covers gs s1 a (f a)" "\<not> ok \<longrightarrow> f a = a\<lparr>ad_geocode_status := GeocodeStatus.FAILED\<rparr>"
        by blast
      have "geocoded covers (g # gs) s a (f a)"
        using IH(3) geo_located_cong [OF bs1, of covers gs a "f a"] by (auto simp: geocoded_def dest: geo_located_mono)
      with IH f1 show ?thesis by (auto intro: geo_frame_trans)
    next
      case (Some pt)
      from Cons.prems False ans rec Some obtain source ids2 s2 borough where
          src: "source_id_of (gc_provider_code g) ids1 s1 = Inr (source, ids2, s2)"
        and ok: "ok" and s': "s' = set_address (ad_id a)
            (place_address pt result source now (sha (query_of line a)) borough) s2"
        by (auto simp: bind_result_Inr_iff)
      have f2: "geo_frame s1 s2" "db_addresses s2 = db_addresses s1"
        using source_id_frame [OF src] by auto
      have "accepted_answer covers (g # gs) s line a result pt"
        unfolding accepted_answer_def
        using usable_pointD [OF Some] ans False within_cong [OF bs1, of covers] by auto
      then have "geo_located covers (g # gs) s a
          (place_address pt result source now (sha (query_of line a)) borough a)"
        unfolding geo_located_def using assms(2,3) by blast
      moreover have "geo_frame s s'"
        unfolding s' using f1 f2 geo_frame_trans geo_frame_set_address by blast
      ultimately show ?thesis
        using ok f1 f2 unfolding s' set_address_addresses
        by (auto simp: geocoded_def
            intro!: exI [of _ "place_address pt result source now (sha (query_of line a)) borough"])
    qed
  qed
qed

lemma geocode_address_effect:
  assumes "geocode_address covers sha now gs a (w, ids, s) = Inr (ok, w', ids', s')"
    and "a \<in> set (db_addresses s)" "distinct (map ad_id (db_addresses s))" "\<not> placeholder_address a"
  shows "geo_frame s s' \<and>
    list_all2 (\<lambda>x x'. x' = x \<or> x = a \<and> geocoded covers gs s a x') (db_addresses s) (db_addresses s')"
proof -
  obtain line where line: "ad_line_1 a = Some line" "line \<noteq> []"
    using assms(4) by (auto simp: placeholder_address_def split: option.splits)
  then have "try_geocoders covers sha now line a gs (w, ids, s) = Inr (ok, w', ids', s')"
    using assms(1) by (simp add: geocode_address_def)
  from try_geocoders_effect [OF this line] obtain f where fr: "geo_frame s s'"
    and f: "db_addresses s' = update_where (\<lambda>r. ad_id r = ad_id a) f (db_addresses s)"
      "geocoded covers gs s a (f a)" by blast
  have same: "x = a" if "x \<in> set (db_addresses s)" "ad_id x = ad_id a" for x
    using that assms(2,3) by (auto simp: distinct_map inj_on_def)
  have "list_all2 (\<lambda>x x'. x' = x \<or> x = a \<and> geocoded covers gs s a x') (db_addresses s)
      (map (\<lambda>r. if ad_id r = ad_id a then f r else r) (db_addresses s))"
    unfolding list.rel_map using same f(2) by (intro list.rel_refl_strong) auto
  with fr f show ?thesis by (simp add: update_where_def)
qed

lemma geocoded_id: "geocoded covers gs s a a' \<Longrightarrow> ad_id a' = ad_id a"
  by (auto simp: geocoded_def geo_located_def place_address_def)

lemma geocode_rows_effect:
  assumes "geocode_rows covers sha now gs as m (w, ids, s) = Inr (m', w', ids', s')"
    and "set as \<subseteq> set (db_addresses s)" "distinct (map ad_id as)" "distinct (map ad_id (db_addresses s))"
  shows "geo_frame s s' \<and> list_all2 (\<lambda>x x'. x' = x \<or>
      x \<in> set as \<and> \<not> placeholder_address x \<and> geocoded covers gs s x x') (db_addresses s) (db_addresses s')"
  using assms
proof (induction "as" arbitrary: m w ids s)
  case Nil
  then show ?case by (simp add: list.rel_refl)
next
  case (Cons a as)
  show ?case
  proof (cases "placeholder_address a")
    case True
    then have "geocode_rows covers sha now gs as
        (m\<lparr>gs_skipped_unresolved := Suc (gs_skipped_unresolved m)\<rparr>) (w, ids, s) = Inr (m', w', ids', s')"
      using Cons.prems(1) by simp
    from Cons.IH [OF this] Cons.prems(2-4) have "geo_frame s s'" "list_all2 (\<lambda>x x'. x' = x \<or>
        x \<in> set as \<and> \<not> placeholder_address x \<and> geocoded covers gs s x x') (db_addresses s) (db_addresses s')"
      by auto
    then show ?thesis by (auto elim: list_all2_mono)
  next
    case False
    from Cons.prems(1) False obtain ok w1 ids1 s1 m1 where
        one: "geocode_address covers sha now gs a (w, ids, s) = Inr (ok, w1, ids1, s1)"
      and rest: "geocode_rows covers sha now gs as m1 (w1, ids1, s1) = Inr (m', w', ids', s')"
      by (auto simp: bind_result_Inr_iff Let_def)
    have fr: "geo_frame s s1"
      and step: "list_all2 (\<lambda>x x'. x' = x \<or> x = a \<and> geocoded covers gs s a x')
        (db_addresses s) (db_addresses s1)"
      using geocode_address_effect [OF one] Cons.prems False by auto
    have bs: "db_boundaries s1 = db_boundaries s" by (rule geo_frame_boundaries [OF fr])
    have ids: "map ad_id (db_addresses s1) = map ad_id (db_addresses s)"
    proof -
      have "list_all2 (\<lambda>x x'. ad_id x = ad_id x') (db_addresses s) (db_addresses s1)"
        using step by (rule list_all2_mono) (auto dest: geocoded_id)
      then have "map ad_id (db_addresses s) = map ad_id (db_addresses s1)"
        by (simp add: list_all2_conv_all_nth list_eq_iff_nth_eq)
      then show ?thesis by simp
    qed
    have keep: "x \<in> set (db_addresses s1)" if "x \<in> set as" for x
    proof -
      have "x \<in> set (db_addresses s)" "x \<noteq> a" using that Cons.prems(2,3) by auto
      then obtain k where "k < length (db_addresses s)" "db_addresses s ! k = x" by (auto simp: in_set_conv_nth)
      with step \<open>x \<noteq> a\<close> show ?thesis
        by (auto simp: list_all2_conv_all_nth in_set_conv_nth)
    qed
    have IH: "geo_frame s1 s'" "list_all2 (\<lambda>x x'. x' = x \<or>
        x \<in> set as \<and> \<not> placeholder_address x \<and> geocoded covers gs s1 x x') (db_addresses s1) (db_addresses s')"
      using Cons.IH [OF rest] keep ids Cons.prems(3,4) by auto
    have "list_all2 (\<lambda>x x'. x' = x \<or> x \<in> set (a # as) \<and> \<not> placeholder_address x \<and> geocoded covers gs s x x')
        (db_addresses s) (db_addresses s')"
    proof (rule list_all2_trans [OF _ step IH(2)])
      fix x y z
      assume xy: "y = x \<or> x = a \<and> geocoded covers gs s a y"
        and yz: "z = y \<or> y \<in> set as \<and> \<not> placeholder_address y \<and> geocoded covers gs s1 y z"
      have cong: "geocoded covers gs s1 y z = geocoded covers gs s y z"
        using geo_located_cong [OF bs, of covers gs y z] by (simp add: geocoded_def)
      show "z = x \<or> x \<in> set (a # as) \<and> \<not> placeholder_address x \<and> geocoded covers gs s x z"
      proof (cases "y = x")
        case True
        with yz cong show ?thesis by auto
      next
        case False
        with xy have x: "x = a" "geocoded covers gs s a y" by auto
        then have "ad_id y = ad_id a" by (auto dest: geocoded_id)
        then have "y \<notin> set as"
          using Cons.prems(3) by (metis distinct.simps(2) image_eqI list.set_map list.simps(9))
        with yz x \<open>\<not> placeholder_address a\<close> show ?thesis by auto
      qed
    qed
    with fr IH(1) show ?thesis by (auto intro: geo_frame_trans)
  qed
qed

lemma list_all2_rightD:
  assumes "list_all2 R xs ys" "y \<in> set ys"
  shows "\<exists>x \<in> set xs. R x y"
  using assms by (induction rule: list_all2_induct) auto

lemma list_all2_leftD:
  assumes "list_all2 R xs ys" "x \<in> set xs"
  shows "\<exists>y \<in> set ys. R x y"
  using assms by (induction rule: list_all2_induct) auto

lemma geocode_pending_effect:
  assumes "geocode_pending covers sha now gs limit w s = Inr (m, w', ids, s')"
    and "distinct (map ad_id (db_addresses s))"
  shows "geo_frame s s' \<and> list_all2 (\<lambda>x x'. x' = x \<or>
      awaits_geocoding x \<and> \<not> placeholder_address x \<and> geocoded covers gs s x x') (db_addresses s) (db_addresses s')"
proof -
  let ?as = "take limit (filter awaits_geocoding (db_addresses s))"
  have waits: "x \<in> set (db_addresses s) \<and> awaits_geocoding x" if "x \<in> set ?as" for x
    using in_set_takeD [OF that] by simp
  have "distinct (map ad_id ?as)"
    using assms(2) by (simp add: take_map [symmetric] distinct_map_filter)
  moreover have "set ?as \<subseteq> set (db_addresses s)" using waits by blast
  ultimately have eff: "geo_frame s s' \<and> list_all2 (\<lambda>x x'. x' = x \<or>
      x \<in> set ?as \<and> \<not> placeholder_address x \<and> geocoded covers gs s x x') (db_addresses s) (db_addresses s')"
    by (intro geocode_rows_effect [OF assms(1) [unfolded geocode_pending_def] _ _ assms(2)])
  then have "list_all2 (\<lambda>x x'. x' = x \<or> awaits_geocoding x \<and> \<not> placeholder_address x \<and>
      geocoded covers gs s x x') (db_addresses s) (db_addresses s')"
    by (elim conjE list_all2_mono) (use waits in blast)
  with eff show ?thesis by simp
qed

section \<open>The scope decision\<close>

text \<open>The specification: the polygon test of an unresolved located address.\<close>

definition decided_scope ::
  "(json \<Rightarrow> point \<Rightarrow> bool) \<Rightarrow> geographic_boundary list \<Rightarrow> address \<Rightarrow> address" where
  "decided_scope intersects bs a = (case unresolved_point a of
     None \<Rightarrow> a
   | Some pt \<Rightarrow> a\<lparr>ad_boundary_status :=
       (if \<exists>b \<in> set bs. intersects (gb_geometry b) pt then BoundaryStatus.IN_SCOPE
        else BoundaryStatus.OUT_OF_SCOPE)\<rparr>)"

definition verdict :: "string option \<Rightarrow> BoundaryStatus" where
  "verdict region = (case region of
     None \<Rightarrow> BoundaryStatus.OUT_OF_SCOPE
   | Some r \<Rightarrow> if r = [] then BoundaryStatus.OUT_OF_SCOPE else BoundaryStatus.IN_SCOPE)"

lemma decide_scope_Cons:
  "\<exists>m'. decide_scope ((i, region) # rows) m s = decide_scope rows m' (set_boundary_status i (verdict region) s)"
  by (auto simp: verdict_def Let_def split: option.splits)

text \<open>When all rows of an address agree, the loop writes their verdict on every address it meets.\<close>

lemma decide_scope_addresses:
  assumes "\<And>i region. (i, region) \<in> set rows \<Longrightarrow> verdict region = v i"
  shows "\<exists>m'. decide_scope rows m s = (m', s\<lparr>db_addresses := map (\<lambda>a.
    if ad_id a \<in> fst ` set rows then a\<lparr>ad_boundary_status := v (ad_id a)\<rparr> else a) (db_addresses s)\<rparr>)"
  using assms
proof (induction rows arbitrary: m s)
  case (Cons row rows)
  obtain i region where row: "row = (i, region)" by fastforce
  obtain m1 where one: "decide_scope (row # rows) m s =
      decide_scope rows m1 (set_boundary_status i (verdict region) s)"
    using decide_scope_Cons row by blast
  let ?s = "set_boundary_status i (verdict region) s"
  from Cons.IH [of m1 ?s] Cons.prems obtain m' where IH: "decide_scope rows m1 ?s =
      (m', ?s\<lparr>db_addresses := map (\<lambda>a. if ad_id a \<in> fst ` set rows
        then a\<lparr>ad_boundary_status := v (ad_id a)\<rparr> else a) (db_addresses ?s)\<rparr>)"
    by fastforce
  have "verdict region = v i" using Cons.prems row by auto
  then have "map (\<lambda>a. if ad_id a \<in> fst ` set rows then a\<lparr>ad_boundary_status := v (ad_id a)\<rparr> else a)
      (db_addresses ?s) = map (\<lambda>a. if ad_id a \<in> fst ` set (row # rows)
        then a\<lparr>ad_boundary_status := v (ad_id a)\<rparr> else a) (db_addresses s)"
    by (auto simp: set_boundary_status_def set_address_addresses update_where_def row)
  moreover have "?s\<lparr>db_addresses := xs\<rparr> = s\<lparr>db_addresses := xs\<rparr>" for xs
    by (simp add: set_boundary_status_def set_address_def)
  ultimately show ?case using one IH by simp
qed simp

definition codes_named :: "geographic_boundary list \<Rightarrow> bool" where
  "codes_named bs \<longleftrightarrow> (\<forall>b \<in> set bs. gb_region_code b \<noteq> [])"

text \<open>A row of the join speaks about a unresolved located address and carries its polygon test.\<close>

lemma scope_rows_sound:
  assumes "(i, region) \<in> set (scope_rows intersects s)" "codes_named (db_boundaries s)"
  obtains a pt where "a \<in> set (db_addresses s)" "ad_id a = i" "unresolved_point a = Some pt"
    "verdict region = (if \<exists>b \<in> set (db_boundaries s). intersects (gb_geometry b) pt
       then BoundaryStatus.IN_SCOPE else BoundaryStatus.OUT_OF_SCOPE)"
proof -
  from assms(1) obtain a pt where a: "a \<in> set (db_addresses s)" "unresolved_point a = Some pt"
    and row: "(i, region) \<in> set (case regions_at intersects pt (db_boundaries s) of
       [] \<Rightarrow> [(ad_id a, None)] | r # rs \<Rightarrow> map (\<lambda>r. (ad_id a, Some r)) (r # rs))"
  proof -
    from assms(1) obtain a where a: "a \<in> set (db_addresses s)" "(i, region) \<in> set (case unresolved_point a of
        None \<Rightarrow> [] | Some pt \<Rightarrow> (case regions_at intersects pt (db_boundaries s) of
          [] \<Rightarrow> [(ad_id a, None)] | r # rs \<Rightarrow> map (\<lambda>r. (ad_id a, Some r)) (r # rs)))"
      by (auto simp: scope_rows_def)
    then show thesis using that by (cases "unresolved_point a") auto
  qed
  show thesis
  proof (cases "regions_at intersects pt (db_boundaries s)")
    case Nil
    with row a show thesis
      by (intro that [of a pt]) (auto simp: regions_at_def verdict_def filter_empty_conv)
  next
    case (Cons r rs)
    with row obtain code where code: "code \<in> set (regions_at intersects pt (db_boundaries s))"
        "i = ad_id a" "region = Some code" by auto
    with assms(2) have "code \<noteq> []" "\<exists>b \<in> set (db_boundaries s). intersects (gb_geometry b) pt"
      by (auto simp: regions_at_def codes_named_def)
    with code a show thesis by (intro that [of a pt]) (auto simp: verdict_def)
  qed
qed

lemma scope_rows_complete:
  assumes "a \<in> set (db_addresses s)" "unresolved_point a \<noteq> None"
  shows "ad_id a \<in> fst ` set (scope_rows intersects s)"
proof -
  obtain pt where pt: "unresolved_point a = Some pt" using assms(2) by auto
  have "\<exists>region. (ad_id a, region) \<in> set (case regions_at intersects pt (db_boundaries s) of
      [] \<Rightarrow> [(ad_id a, None)] | r # rs \<Rightarrow> map (\<lambda>r. (ad_id a, Some r)) (r # rs))"
    by (auto split: list.splits)
  then obtain region where "(ad_id a, region) \<in> set (case unresolved_point a of
      None \<Rightarrow> [] | Some pt \<Rightarrow> (case regions_at intersects pt (db_boundaries s) of
        [] \<Rightarrow> [(ad_id a, None)] | r # rs \<Rightarrow> map (\<lambda>r. (ad_id a, Some r)) (r # rs)))"
    using pt by auto
  then have "(ad_id a, region) \<in> set (scope_rows intersects s)"
    unfolding scope_rows_def set_concat set_map using assms(1) by blast
  then show ?thesis by force
qed

lemma same_address:
  "distinct (map ad_id xs) \<Longrightarrow> a \<in> set xs \<Longrightarrow> b \<in> set xs \<Longrightarrow> ad_id a = ad_id b \<Longrightarrow> a = b"
  by (auto simp: distinct_map inj_on_def)

lemma validate_boundaries_effect:
  assumes "validate_boundaries intersects limit s = (m, s')"
    and "distinct (map ad_id (db_addresses s))" "codes_named (db_boundaries s)" "db_boundaries s \<noteq> []"
  shows "s' = s\<lparr>db_addresses := map (\<lambda>a.
    if ad_id a \<in> fst ` set (take limit (scope_rows intersects s))
    then decided_scope intersects (db_boundaries s) a else a) (db_addresses s)\<rparr>"
proof -
  let ?rows = "take limit (scope_rows intersects s)"
  define v where "v i = (case get_by ad_id i (db_addresses s) of None \<Rightarrow> BoundaryStatus.UNRESOLVED
    | Some a \<Rightarrow> ad_boundary_status (decided_scope intersects (db_boundaries s) a))" for i
  have v: "v (ad_id a) = ad_boundary_status (decided_scope intersects (db_boundaries s) a)"
    if "a \<in> set (db_addresses s)" for a
    using get_by_Some_iff [OF assms(2), of "ad_id a" a] that by (simp add: v_def)
  have agree: "verdict region = v i" if "(i, region) \<in> set ?rows" for i region
  proof -
    have "(i, region) \<in> set (scope_rows intersects s)" using that by (rule in_set_takeD)
    then obtain a pt where "a \<in> set (db_addresses s)" "ad_id a = i" "unresolved_point a = Some pt"
        "verdict region = (if \<exists>b \<in> set (db_boundaries s). intersects (gb_geometry b) pt
         then BoundaryStatus.IN_SCOPE else BoundaryStatus.OUT_OF_SCOPE)"
      by (rule scope_rows_sound [OF _ assms(3)])
    with v [of a] show ?thesis by (simp add: decided_scope_def)
  qed
  have "a\<lparr>ad_boundary_status := v (ad_id a)\<rparr> = decided_scope intersects (db_boundaries s) a"
    if "a \<in> set (db_addresses s)" for a
    unfolding v [OF that] by (simp add: decided_scope_def split: option.split)
  then have "map (\<lambda>a. if ad_id a \<in> fst ` set ?rows then a\<lparr>ad_boundary_status := v (ad_id a)\<rparr> else a)
      (db_addresses s) = map (\<lambda>a. if ad_id a \<in> fst ` set ?rows
        then decided_scope intersects (db_boundaries s) a else a) (db_addresses s)"
    by simp
  with decide_scope_addresses [of ?rows v new_scope_summary s] agree assms(1,4) show ?thesis
    by (auto simp: validate_boundaries_def)
qed

section \<open>Only polygons put an address in scope\<close>

definition scope_inv :: "(json \<Rightarrow> point \<Rightarrow> bool) \<Rightarrow> db \<Rightarrow> bool" where
  "scope_inv intersects s \<longleftrightarrow> (\<forall>a \<in> set (db_addresses s).
     ad_boundary_status a = BoundaryStatus.IN_SCOPE \<longrightarrow>
     (\<exists>pt. ad_location_point a = Some pt \<and>
        (\<exists>b \<in> set (db_boundaries s). intersects (gb_geometry b) pt)))"

lemma scope_inv_decided:
  assumes "unresolved_point a \<noteq> None"
    and "ad_boundary_status (decided_scope intersects bs a) = BoundaryStatus.IN_SCOPE"
  shows "\<exists>pt. ad_location_point (decided_scope intersects bs a) = Some pt \<and>
    (\<exists>b \<in> set bs. intersects (gb_geometry b) pt)"
  using assms by (auto simp: decided_scope_def unresolved_point_def split: if_splits option.splits)

lemma scope_inv_validate:
  assumes "scope_inv intersects s" "validate_boundaries intersects limit s = (m, s')"
    and "distinct (map ad_id (db_addresses s))" "codes_named (db_boundaries s)"
  shows "scope_inv intersects s'"
proof (cases "db_boundaries s = []")
  case True
  with assms show ?thesis by (simp add: validate_boundaries_def)
next
  case False
  note s' = validate_boundaries_effect [OF assms(2,3,4) False]
  show ?thesis
    unfolding scope_inv_def
  proof (intro ballI impI)
    fix a' assume a': "a' \<in> set (db_addresses s')" "ad_boundary_status a' = BoundaryStatus.IN_SCOPE"
    then obtain a where a: "a \<in> set (db_addresses s)"
        "a' = a \<or> unresolved_point a \<noteq> None \<and> a' = decided_scope intersects (db_boundaries s) a"
      unfolding s' by (auto simp: decided_scope_def split: if_splits option.splits)
    have bs: "db_boundaries s' = db_boundaries s" by (simp add: s')
    from a(2) show "\<exists>pt. ad_location_point a' = Some pt \<and>
        (\<exists>b \<in> set (db_boundaries s'). intersects (gb_geometry b) pt)"
      unfolding bs using assms(1) a(1) a'(2) scope_inv_decided by (auto simp: scope_inv_def)
  qed
qed

text \<open>Rows that are kept, or written without touching a point in use, keep the invariant.\<close>

lemma scope_inv_rows:
  assumes "scope_inv intersects s" "set (db_boundaries s) \<subseteq> set (db_boundaries s')"
    and "\<And>a'. a' \<in> set (db_addresses s') \<Longrightarrow> ad_boundary_status a' = BoundaryStatus.IN_SCOPE \<Longrightarrow>
      \<exists>a \<in> set (db_addresses s). ad_boundary_status a = BoundaryStatus.IN_SCOPE \<and>
        ad_location_point a' = ad_location_point a"
  shows "scope_inv intersects s'"
  unfolding scope_inv_def
proof (intro ballI impI)
  fix a' assume "a' \<in> set (db_addresses s')" "ad_boundary_status a' = BoundaryStatus.IN_SCOPE"
  then obtain a where "a \<in> set (db_addresses s)" "ad_boundary_status a = BoundaryStatus.IN_SCOPE"
      "ad_location_point a' = ad_location_point a"
    using assms(3) by blast
  with assms(1,2) show "\<exists>pt. ad_location_point a' = Some pt \<and>
      (\<exists>b \<in> set (db_boundaries s'). intersects (gb_geometry b) pt)"
    unfolding scope_inv_def by (metis subsetD)
qed

lemma scope_inv_geocode:
  assumes "scope_inv intersects s" "geocode_pending covers sha now gs limit w s = Inr (m, w', ids, s')"
    and "distinct (map ad_id (db_addresses s))"
  shows "scope_inv intersects s'"
proof (rule scope_inv_rows [OF assms(1)])
  note eff = geocode_pending_effect [OF assms(2,3)]
  then have "db_boundaries s' = db_boundaries s" by (simp add: geo_frame_boundaries)
  then show "set (db_boundaries s) \<subseteq> set (db_boundaries s')" by simp
  fix a' assume a': "a' \<in> set (db_addresses s')" "ad_boundary_status a' = BoundaryStatus.IN_SCOPE"
  have "\<exists>a \<in> set (db_addresses s). a' = a \<or>
      awaits_geocoding a \<and> \<not> placeholder_address a \<and> geocoded covers gs s a a'"
    by (rule list_all2_rightD [OF conjunct2 [OF eff] a'(1)])
  then obtain a where a: "a \<in> set (db_addresses s)"
      "a' = a \<or> awaits_geocoding a \<and> geocoded covers gs s a a'" by auto
  have "ad_boundary_status a' = ad_boundary_status a" if "geocoded covers gs s a a'"
    using that by (auto simp: geocoded_def geo_located_def place_address_def)
  moreover have "ad_boundary_status a \<noteq> BoundaryStatus.IN_SCOPE" if "awaits_geocoding a"
    using assms(1) a(1) that by (auto simp: scope_inv_def awaits_geocoding_def)
  ultimately show "\<exists>a \<in> set (db_addresses s). ad_boundary_status a = BoundaryStatus.IN_SCOPE \<and>
      ad_location_point a' = ad_location_point a"
    using a a'(2) by auto
qed

lemma upsert_boundary_cases:
  assumes "upsert_boundary region display region_group geometry version s = Inr (added, s')"
  shows "s' = s \<and> \<not> added \<or> added \<and> (\<forall>b \<in> set (db_boundaries s). gb_region_code b \<noteq> region) \<and>
    s' = s\<lparr>db_boundaries := db_boundaries s @
      [\<lparr>gb_id = db_next s, gb_region_code = region, gb_display_name = display, gb_region_group = region_group,
        gb_geometry = geometry, gb_dataset_version = version\<rparr>], db_next := Suc (db_next s)\<rparr>"
proof -
  obtain found where "scalar_one_or_none (filter (\<lambda>b. gb_region_code b = region) (db_boundaries s)) = Inr found"
    using assms by (auto simp: upsert_boundary_def bind_result_Inr_iff)
  with assms show ?thesis
    by (cases found) (auto simp: upsert_boundary_def scalar_one_or_none_filter_None)
qed

section \<open>Properties\<close>

text \<open>
  C24. Coordinates are never invented: after a geocoding run every address is the row it was, or it
  waited for geocoding with a real street line, and then it is either marked FAILED and otherwise
  unchanged or placed at the point of an accepted answer; beside the addresses only the source
  registry and the request log may have changed.
\<close>
theorem coordinates_never_invented:
  assumes "geocode_pending covers sha now gs limit w s = Inr (m, w', ids, s')"
    and "distinct (map ad_id (db_addresses s))"
  shows "geo_frame s s' \<and> list_all2 (\<lambda>a a'. a' = a \<or>
      awaits_geocoding a \<and> \<not> placeholder_address a \<and>
      (a' = a\<lparr>ad_geocode_status := GeocodeStatus.FAILED\<rparr> \<or> geo_located covers gs s a a'))
    (db_addresses s) (db_addresses s')"
  using geocode_pending_effect [OF assms] by (simp add: geocoded_def)

text \<open>A geocoder that answers one fixed place, and one whose transport is down.\<close>

definition demo_feature :: json where
  "demo_feature = JObj [(''geometry'', JObj [(''coordinates'', JList [JInt (- 74), JInt 40])]),
     (''properties'', JObj [(''accuracy'', JStr ''point''), (''match_type'', JStr ''exact''),
        (''borough'', JStr ''Queens'')])]"

definition demo_geocoder :: "unit Geocoder" where
  "demo_geocoder = NycGeosearchGeocoder (\<lambda>url w. (Inr (JObj [(''features'', JList [demo_feature])]), w))"

definition down_geocoder :: "unit Geocoder" where
  "down_geocoder = CensusGeocoder (\<lambda>url w. (Inl ''TimeoutError'', w))"

definition demo_places :: db where
  "demo_places = empty_db\<lparr>db_addresses := [
     new_address 3 (Some ''1 Main St'') ''New York'' ''1 Main St'' ''1 main st'',
     new_address 4 None ''New York'' ''[address unresolved] x'' ''x''], db_next := 5\<rparr>"

lemma demo_places_distinct: "distinct (map ad_id (db_addresses demo_places))"
  by code_simp

lemma demo_geocoded:
  "case geocode_pending (\<lambda>b pt. True) (\<lambda>t. t) 9 [down_geocoder, demo_geocoder] 10 () demo_places of
     Inl e \<Rightarrow> False
   | Inr (m, w, ids, s) \<Rightarrow> gs_geocoded m = 1 \<and> gs_skipped_unresolved m = 1 \<and>
       map ad_location_point (db_addresses s) = [Some (- 74, 40), None] \<and>
       map pr_error_code (db_provider_requests s) = [Some ''TRANSPORT_TimeoutError'', None]"
  by code_simp

theorem coordinates_never_invented_witness:
  "\<exists>m w ids s. geocode_pending (\<lambda>b pt. True) (\<lambda>t. t) 9 [down_geocoder, demo_geocoder] 10 () demo_places =
      Inr (m, w, ids, s) \<and> map ad_location_point (db_addresses s) = [Some (- 74, 40), None] \<and>
      geo_frame demo_places s"
proof -
  obtain m w ids s where run: "geocode_pending (\<lambda>b pt. True) (\<lambda>t. t) 9 [down_geocoder, demo_geocoder]
      10 () demo_places = Inr (m, w, ids, s)"
      "map ad_location_point (db_addresses s) = [Some (- 74, 40), None]"
    using demo_geocoded by (auto split: sum.splits prod.splits)
  have "geo_frame demo_places s"
    using coordinates_never_invented [OF run(1) demo_places_distinct] by (rule conjunct1)
  with run show ?thesis by (intro exI conjI)
qed

text \<open>One geocoding run of any size at any time, and what it leaves alone.\<close>

definition geocode_step ::
  "(json \<Rightarrow> point \<Rightarrow> bool) \<Rightarrow> (string \<Rightarrow> string) \<Rightarrow> 'w Geocoder list \<Rightarrow> db \<Rightarrow> db \<Rightarrow> bool" where
  "geocode_step covers sha gs s s' \<longleftrightarrow>
     (\<exists>now limit w m w' ids. geocode_pending covers sha now gs limit w s = Inr (m, w', ids, s'))"

lemma geocode_step_keeps:
  assumes "geocode_step covers sha gs s s'" "distinct (map ad_id (db_addresses s))"
  shows "distinct (map ad_id (db_addresses s'))"
    and "a \<in> set (db_addresses s) \<Longrightarrow> \<not> awaits_geocoding a \<Longrightarrow> a \<in> set (db_addresses s')"
proof -
  obtain now limit w m w' ids where
      "geocode_pending covers sha now gs limit w s = Inr (m, w', ids, s')"
    using assms(1) unfolding geocode_step_def by blast
  note eff = conjunct2 [OF geocode_pending_effect [OF this assms(2)]]
  have "list_all2 (\<lambda>x x'. ad_id x = ad_id x') (db_addresses s) (db_addresses s')"
    using eff by (rule list_all2_mono) (auto dest: geocoded_id)
  then have "map ad_id (db_addresses s) = map ad_id (db_addresses s')"
    by (simp add: list_all2_conv_all_nth list_eq_iff_nth_eq)
  with assms(2) show "distinct (map ad_id (db_addresses s'))" by simp
  show "a \<in> set (db_addresses s')" if "a \<in> set (db_addresses s)" "\<not> awaits_geocoding a"
    using list_all2_leftD [OF eff that(1)] that(2) by auto
qed

lemma geocode_steps_keep:
  assumes "(geocode_step covers sha gs)\<^sup>*\<^sup>* s t" "distinct (map ad_id (db_addresses s))"
    and "a \<in> set (db_addresses s)" "\<not> awaits_geocoding a"
  shows "a \<in> set (db_addresses t)"
proof -
  have "distinct (map ad_id (db_addresses t)) \<and> a \<in> set (db_addresses t)"
    using assms by (induction rule: rtranclp_induct) (auto dest: geocode_step_keeps)
  then show ?thesis ..
qed

lemma outage_fails:
  assumes "\<forall>g \<in> set gs. \<forall>r w. \<exists>name w'. gc_geocode g r w = (Inr (transport_failure name), w')"
    and "try_geocoders covers sha now line a gs (w, ids, s) = Inr (ok, w', ids', s')"
  shows "\<not> ok"
  using assms
proof (induction gs arbitrary: w ids s)
  case (Cons g gs)
  obtain name w1 where ans: "gc_geocode g (request_of line a) w = (Inr (transport_failure name), w1)"
    using Cons.prems(1) by (meson list.set_intros(1))
  have "usable_point covers l (transport_failure name) s = None" for l s
    by (simp add: usable_point_def transport_failure_def new_geocode_result_def)
  with ans Cons.prems(2) obtain w2 ids2 s2 where
      "try_geocoders covers sha now line a gs (w2, ids2, s2) = Inr (ok, w', ids', s')"
    by (auto simp: bind_result_Inr_iff split: if_splits)
  with Cons.IH Cons.prems(1) show ?case by (meson list.set_intros(2))
qed simp

text \<open>
  A failure to reach the geocoders is final: while all of them are down, geocoding an address with a
  street line returns False and marks it FAILED, and whatever geocoders later runs use, the row stays
  as it is in every one of them, without a point.
\<close>
theorem outage_is_final:
  assumes "\<forall>g \<in> set gs. \<forall>r w. \<exists>name w'. gc_geocode g r w = (Inr (transport_failure name), w')"
    and "geocode_address covers sha now gs a (w, ids, s) = Inr (ok, w', ids', s')"
    and "a \<in> set (db_addresses s)" "distinct (map ad_id (db_addresses s))" "\<not> placeholder_address a"
    and "(geocode_step covers sha gs')\<^sup>*\<^sup>* s' t"
  shows "\<not> ok \<and> a\<lparr>ad_geocode_status := GeocodeStatus.FAILED\<rparr> \<in> set (db_addresses t)"
proof -
  obtain line where line: "ad_line_1 a = Some line" "line \<noteq> []"
    using assms(5) by (auto simp: placeholder_address_def split: option.splits)
  then have run: "try_geocoders covers sha now line a gs (w, ids, s) = Inr (ok, w', ids', s')"
    using assms(2) by (simp add: geocode_address_def)
  have ok: "\<not> ok" by (rule outage_fails [OF assms(1) run])
  from try_geocoders_effect [OF run line] ok obtain f where
      f: "db_addresses s' = update_where (\<lambda>r. ad_id r = ad_id a) f (db_addresses s)"
        "f a = a\<lparr>ad_geocode_status := GeocodeStatus.FAILED\<rparr>"
    by blast
  have same: "r = a" if "r \<in> set (db_addresses s)" "ad_id r = ad_id a" for r
    using that assms(3,4) by (auto simp: distinct_map inj_on_def)
  then have "map ad_id (db_addresses s') = map ad_id (db_addresses s)"
    unfolding f(1) by (intro map_update_where) (use f(2) in fastforce)
  moreover have "f a \<in> set (db_addresses s')"
    unfolding f(1) set_update_where using assms(3) by auto
  ultimately have "f a \<in> set (db_addresses t)"
    by (intro geocode_steps_keep [OF assms(6)]) (use assms(4) f(2) in \<open>simp_all add: awaits_geocoding_def\<close>)
  with ok f(2) show ?thesis by simp
qed

definition demo_place :: address where
  "demo_place = new_address 3 (Some ''1 Main St'') ''New York'' ''1 Main St'' ''1 main st''"

definition demo_outage :: "(bool \<times> unit geo_state) result" where
  "demo_outage = geocode_address (\<lambda>b pt. True) (\<lambda>t. t) 9 [down_geocoder] demo_place ((), [], demo_places)"

lemma demo_outage_returns: "\<exists>ok w ids s. demo_outage = Inr (ok, w, ids, s)"
proof -
  have "case demo_outage of Inl e \<Rightarrow> False | Inr _ \<Rightarrow> True" by code_simp
  then show ?thesis by (auto split: sum.splits)
qed

lemma down_is_down:
  "\<forall>g \<in> set [down_geocoder]. \<forall>r w. \<exists>name w'. gc_geocode g r w = (Inr (transport_failure name), w')"
  by (auto simp: down_geocoder_def CensusGeocoder_def geocode_with_def)

theorem outage_is_final_witness:
  "\<exists>ok w ids s. demo_outage = Inr (ok, w, ids, s) \<and> \<not> ok \<and>
     demo_place\<lparr>ad_geocode_status := GeocodeStatus.FAILED\<rparr> \<in> set (db_addresses s)"
proof -
  obtain ok w ids s where run: "demo_outage = Inr (ok, w, ids, s)" using demo_outage_returns by blast
  have "demo_place \<in> set (db_addresses demo_places)" by (simp add: demo_places_def demo_place_def)
  moreover have "\<not> placeholder_address demo_place" by code_simp
  ultimately show ?thesis
    using outage_is_final [OF down_is_down run [unfolded demo_outage_def] _ demo_places_distinct _
        rtranclp.rtrancl_refl] run by blast
qed

text \<open>
  C25. The scope decision is the polygon test: when its query, which reads at most \<open>limit\<close> rows (1000 in the
  code), reaches all rows of the join and every boundary has a non-empty region code, a run leaves the database
  as it is while no boundary is registered, and otherwise maps every unresolved located address to
  IN_SCOPE exactly when some registered polygon meets its point and to OUT_OF_SCOPE when none does,
  changing nothing else.
\<close>
theorem scope_decision:
  assumes "validate_boundaries intersects limit s = (m, s')"
    and "distinct (map ad_id (db_addresses s))" "codes_named (db_boundaries s)"
    and "length (scope_rows intersects s) \<le> limit"
  shows "s' = (if db_boundaries s = [] then s
    else s\<lparr>db_addresses := map (decided_scope intersects (db_boundaries s)) (db_addresses s)\<rparr>)"
proof (cases "db_boundaries s = []")
  case True
  with assms(1) show ?thesis by (simp add: validate_boundaries_def)
next
  case False
  have "(if ad_id a \<in> fst ` set (take limit (scope_rows intersects s))
      then decided_scope intersects (db_boundaries s) a else a) = decided_scope intersects (db_boundaries s) a"
    if "a \<in> set (db_addresses s)" for a
  proof (cases "unresolved_point a")
    case None
    then show ?thesis by (simp add: decided_scope_def)
  next
    case (Some pt)
    with scope_rows_complete [OF that] assms(4) show ?thesis by simp
  qed
  with validate_boundaries_effect [OF assms(1-3) False] False show ?thesis by simp
qed

definition demo_located :: db where
  "demo_located = demo_places\<lparr>
     db_addresses := [demo_place\<lparr>ad_location_point := Some (- 74, 40)\<rparr>,
       (demo_place\<lparr>ad_location_point := Some (- 90, 40)\<rparr>)\<lparr>ad_id := 6\<rparr>],
     db_boundaries := [\<lparr>gb_id = 8, gb_region_code = ''NYC_QUEENS'', gb_display_name = ''Queens (NYC)'',
       gb_region_group = ''NYC'', gb_geometry = JInt (- 80), gb_dataset_version = ''1''\<rparr>]\<rparr>"

definition east_of :: "json \<Rightarrow> point \<Rightarrow> bool" where
  "east_of b pt = (case b of JInt n \<Rightarrow> of_int n \<le> fst pt | _ \<Rightarrow> False)"

lemma demo_located_ok: "distinct (map ad_id (db_addresses demo_located))"
    "codes_named (db_boundaries demo_located)" "length (scope_rows east_of demo_located) \<le> 2"
  by code_simp+

theorem scope_decision_witness:
  "map ad_boundary_status (db_addresses (snd (validate_boundaries east_of 2 demo_located))) =
     [BoundaryStatus.IN_SCOPE, BoundaryStatus.OUT_OF_SCOPE]"
proof -
  obtain m s where run: "validate_boundaries east_of 2 demo_located = (m, s)" by fastforce
  have "map ad_boundary_status (map (decided_scope east_of (db_boundaries demo_located))
      (db_addresses demo_located)) = [BoundaryStatus.IN_SCOPE, BoundaryStatus.OUT_OF_SCOPE]"
    "db_boundaries demo_located \<noteq> []"
    by code_simp+
  with scope_decision [OF run demo_located_ok] run show ?thesis by simp
qed

end
