(* ===== verification/Transit.thy ===== *)
theory Transit
  imports Schema Providers PyJson
begin

text \<open>
  Transit enrichment: the GTFS loader (\<open>enrichment/transit/gtfs_loader.py\<close>), the candidate stops
  near a listing (\<open>nearby.py\<close>), the usefulness rule (\<open>usefulness.py\<close>) and the routed walk to the
  nearest candidate (\<open>walking.py\<close>).  \<open>meters\<close> stands for PostGIS's distance of two points;
  \<open>ST_DWithin\<close> is by its documentation the comparison of that distance with the radius.  The rows of
  a GTFS table are those \<open>csv.DictReader\<close> yields.  One clock reading serves a run.
\<close>

section \<open>Numbers as text\<close>

function dec_text :: "int \<Rightarrow> string" where
  "dec_text n = (if n < 10 then [char_of (48 + n)] else dec_text (n div 10) @ [char_of (48 + n mod 10)])"

  by pat_completeness auto

termination
  by (relation "measure nat") auto

declare dec_text.simps [simp del]

definition round_half_even :: "rat \<Rightarrow> int" where
  "round_half_even x = (let f = \<lfloor>x\<rfloor>; d = x - of_int f
     in if d < 1 / 2 then f else if 1 / 2 < d then f + 1 else if even f then f else f + 1)"

text \<open>\<open>f"{x:.kf}"\<close>\<close>

definition fixed_text :: "nat \<Rightarrow> rat \<Rightarrow> string" where
  "fixed_text k x = (let q = round_half_even (\<bar>x\<bar> * 10 ^ k); frac = dec_text (q mod 10 ^ k)
     in (if x < 0 then ''-'' else []) @ dec_text (q div 10 ^ k) @ ''.'' @
        replicate (k - length frac) (CHR ''0'') @ frac)"

section \<open>GTFS datasets\<close>

type_synonym csv_row = "(string \<times> string) list"

definition ROUTE_TYPE_TO_MODE :: "(string \<times> TransitMode) list" where
  "ROUTE_TYPE_TO_MODE = [(''0'', TransitMode.OTHER), (''1'', TransitMode.SUBWAY),
     (''2'', TransitMode.RAIL), (''3'', TransitMode.BUS), (''4'', TransitMode.FERRY)]"

text \<open>\<open>(row.get(k) or "").strip()\<close>, and the same \<open>or None\<close>.\<close>

definition csv_text :: "string \<Rightarrow> csv_row \<Rightarrow> string" where
  "csv_text k row = (case map_of row k of None \<Rightarrow> [] | Some t \<Rightarrow> py_strip t)"

definition csv_optional :: "string \<Rightarrow> csv_row \<Rightarrow> string option" where
  "csv_optional k row = (let t = csv_text k row in if t = [] then None else Some t)"

text \<open>\<open>row[k].strip()\<close>\<close>

definition csv_required :: "string \<Rightarrow> csv_row \<Rightarrow> string result" where
  "csv_required k row = (case map_of row k of None \<Rightarrow> Inl KeyError | Some t \<Rightarrow> Inr (py_strip t))"

definition parse_route :: "string \<Rightarrow> TransitMode option \<Rightarrow> csv_row \<Rightarrow> TransitDatasetRoute result" where
  "parse_route operator_code override row =
     (let mode = (case override of Some m \<Rightarrow> m | None \<Rightarrow>
            (case map_of ROUTE_TYPE_TO_MODE (csv_text ''route_type'' row) of
               None \<Rightarrow> TransitMode.OTHER | Some m \<Rightarrow> m))
      in bind_result (csv_required ''route_id'' row) (\<lambda>i.
         Inr \<lparr>tq_provider_route_id = i, tq_operator_code = operator_code,
              tq_route_short_name = csv_optional ''route_short_name'' row,
              tq_route_long_name = csv_optional ''route_long_name'' row, tq_mode = mode\<rparr>))"

text \<open>A stop without coordinates is skipped.\<close>

definition parse_stop :: "string \<Rightarrow> TransitMode \<Rightarrow> csv_row \<Rightarrow> TransitDatasetStop option result" where
  "parse_stop operator_code mode row =
     (let lat = csv_text ''stop_lat'' row; lon = csv_text ''stop_lon'' row
      in if lat = [] \<or> lon = [] then Inr None
         else bind_result (csv_required ''stop_id'' row) (\<lambda>i.
              case (float_of_text lat, float_of_text lon) of
                (Some y, Some x) \<Rightarrow> Inr (Some
                  \<lparr>ts_provider_stop_id = i,
                   ts_parent_provider_stop_id = csv_optional ''parent_station'' row,
                   ts_operator_code = operator_code,
                   ts_stop_name = (let name = csv_text ''stop_name'' row in if name = [] then i else name),
                   ts_mode = mode, ts_latitude = y, ts_longitude = x, ts_route_provider_ids = []\<rparr>)
              | _ \<Rightarrow> Inl ValueError))"

definition parse_gtfs ::
  "string \<Rightarrow> string \<Rightarrow> TransitMode option \<Rightarrow> csv_row list \<Rightarrow> csv_row list \<Rightarrow> TransitDataset result" where
  "parse_gtfs operator_code version override route_rows stop_rows =
     bind_result (collect (parse_route operator_code override) route_rows) (\<lambda>routes.
     (let mode = (case override of Some m \<Rightarrow> m | None \<Rightarrow>
            (case routes of [] \<Rightarrow> TransitMode.OTHER | r # _ \<Rightarrow> tq_mode r))
      in bind_result (collect (parse_stop operator_code mode) stop_rows) (\<lambda>stops.
         Inr \<lparr>td_operator_code = operator_code, td_dataset_version = version,
              td_stops = List.map_filter (\<lambda>x. x) stops, td_routes = routes\<rparr>)))"

section \<open>Ingesting a dataset\<close>

definition route_key :: "transit_route \<Rightarrow> uuid \<times> string \<times> string" where
  "route_key r = (rte_provider_source_id r, rte_provider_route_id r, rte_dataset_version r)"

definition stop_key :: "transit_stop \<Rightarrow> uuid \<times> string \<times> string" where
  "stop_key r = (sto_provider_source_id r, sto_provider_stop_id r, sto_dataset_version r)"

definition new_route :: "uuid \<Rightarrow> uuid \<Rightarrow> string \<Rightarrow> TransitDatasetRoute \<Rightarrow> transit_route" where
  "new_route i source version r =
     \<lparr>rte_id = i, rte_provider_source_id = source, rte_provider_route_id = tq_provider_route_id r,
      rte_operator_code = tq_operator_code r, rte_route_short_name = tq_route_short_name r,
      rte_route_long_name = tq_route_long_name r, rte_mode = tq_mode r, rte_dataset_version = version\<rparr>"

definition new_stop :: "uuid \<Rightarrow> uuid \<Rightarrow> string \<Rightarrow> TransitDatasetStop \<Rightarrow> transit_stop" where
  "new_stop i source version p =
     \<lparr>sto_id = i, sto_provider_source_id = source, sto_provider_stop_id = ts_provider_stop_id p,
      sto_parent_stop_id = None, sto_operator_code = ts_operator_code p,
      sto_stop_name = ts_stop_name p, sto_mode = ts_mode p,
      sto_location_point = (ts_longitude p, ts_latitude p),
      sto_active_status = TransitStopActiveStatus.ACTIVE, sto_dataset_version = version\<rparr>"

text \<open>\<open>INSERT ... ON CONFLICT DO NOTHING RETURNING id\<close> of one route and of one stop.\<close>

definition insert_route :: "uuid \<times> string \<times> TransitDatasetRoute \<Rightarrow> db \<Rightarrow> bool \<times> db" where
  "insert_route i s = (case i of (source, version, r) \<Rightarrow>
     (let row = new_route (db_next s) source version r
      in if \<exists>x \<in> set (db_routes s). route_key x = route_key row then (False, s)
         else (True, s\<lparr>db_routes := db_routes s @ [row], db_next := Suc (db_next s)\<rparr>)))"

definition insert_stop :: "uuid \<times> string \<times> TransitDatasetStop \<Rightarrow> db \<Rightarrow> bool \<times> db" where
  "insert_stop i s = (case i of (source, version, p) \<Rightarrow>
     (let row = new_stop (db_next s) source version p
      in if \<exists>x \<in> set (db_stops s). stop_key x = stop_key row then (False, s)
         else (True, s\<lparr>db_stops := db_stops s @ [row], db_next := Suc (db_next s)\<rparr>)))"

fun insert_each :: "('i \<Rightarrow> db \<Rightarrow> bool \<times> db) \<Rightarrow> 'i list \<Rightarrow> db \<Rightarrow> nat \<times> db" where
  "insert_each ins [] s = (0, s)"
| "insert_each ins (i # is) s =
     (let (new, s1) = ins i s; (n, s2) = insert_each ins is s1 in ((if new then Suc n else n), s2))"

text \<open>\<open>id_by_provider\<close>, and the second pass that resolves parent stations.\<close>

definition id_by_provider :: "uuid \<Rightarrow> string \<Rightarrow> db \<Rightarrow> string \<Rightarrow> uuid option" where
  "id_by_provider source version s = map_of (rev (map (\<lambda>r. (sto_provider_stop_id r, sto_id r))
     (filter (\<lambda>r. sto_provider_source_id r = source \<and> sto_dataset_version r = version) (db_stops s))))"

definition link_parent ::
  "(string \<Rightarrow> uuid option) \<Rightarrow> TransitDatasetStop \<Rightarrow> db \<Rightarrow> bool \<times> db" where
  "link_parent ids p s =
     (case ts_parent_provider_stop_id p of
        None \<Rightarrow> (False, s)
      | Some parent_key \<Rightarrow>
          if parent_key = [] then (False, s)
          else (case (ids (ts_provider_stop_id p), ids parent_key) of
                  (Some child, Some parent) \<Rightarrow>
                    (case get_by sto_id child (db_stops s) of
                       None \<Rightarrow> (False, s)
                     | Some row \<Rightarrow>
                         if sto_parent_stop_id row = None
                         then (True, s\<lparr>db_stops := update_where (\<lambda>r. sto_id r = child)
                                (\<lambda>r. r\<lparr>sto_parent_stop_id := Some parent\<rparr>) (db_stops s)\<rparr>)
                         else (False, s))
                | _ \<Rightarrow> (False, s)))"

record IngestCounts =
  ic_stops_inserted :: nat
  ic_routes_inserted :: nat
  ic_parents_linked :: nat

definition ingest_dataset :: "TransitDataset \<Rightarrow> uuid \<Rightarrow> db \<Rightarrow> IngestCounts \<times> db" where
  "ingest_dataset dataset source s =
     (let version = td_dataset_version dataset;
          (routes, s1) = insert_each insert_route (map (\<lambda>r. (source, version, r)) (td_routes dataset)) s;
          (stops, s2) = insert_each insert_stop (map (\<lambda>p. (source, version, p)) (td_stops dataset)) s1;
          (linked, s3) = insert_each (link_parent (id_by_provider source version s2)) (td_stops dataset) s2
      in (\<lparr>ic_stops_inserted = stops, ic_routes_inserted = routes, ic_parents_linked = linked\<rparr>, s3))"

section \<open>Stops near a listing\<close>

definition CANDIDATE_RADII_M :: "(TransitMode \<times> rat) list" where
  "CANDIDATE_RADII_M = [(TransitMode.SUBWAY, 1600), (TransitMode.PATH, 2000)]"

definition MAX_CANDIDATES_PER_MODE :: nat where
  "MAX_CANDIDATES_PER_MODE = 5"

record NearbyRunSummary =
  nb_listings_processed :: nat
  nb_listings_skipped_no_point :: nat
  nb_access_rows_created :: nat
  nb_by_mode :: "(string \<times> nat) list"

definition new_nearby_summary :: NearbyRunSummary where
  "new_nearby_summary = \<lparr>nb_listings_processed = 0, nb_listings_skipped_no_point = 0,
     nb_access_rows_created = 0, nb_by_mode = []\<rparr>"

text \<open>The located address of a listing, through its building.\<close>

definition listing_address :: "uuid \<Rightarrow> db \<Rightarrow> address option" where
  "listing_address i s = Option.bind (get_by cl_id i (db_listings s)) (\<lambda>l.
     Option.bind (get_by bd_id (cl_building_id l) (db_buildings s)) (\<lambda>b.
     get_by ad_id (bd_address_id b) (db_addresses s)))"

definition listing_origin :: "uuid \<Rightarrow> db \<Rightarrow> (point \<times> LocationPrecision) option" where
  "listing_origin i s = Option.bind (listing_address i s) (\<lambda>a.
     map_option (\<lambda>pt. (pt, ad_location_precision a)) (ad_location_point a))"

definition origin_text :: "point \<times> LocationPrecision \<Rightarrow> string" where
  "origin_text origin = (case origin of ((lon, lat), precision) \<Rightarrow>
     fixed_text 6 lon @ '','' @ fixed_text 6 lat @ '','' @ LocationPrecision_value precision @ '',radii-v1'')"

text \<open>Station complexes of a mode in service within the radius, nearest first.\<close>

definition reachable_complex ::
  "(point \<Rightarrow> point \<Rightarrow> rat) \<Rightarrow> point \<Rightarrow> TransitMode \<Rightarrow> rat \<Rightarrow> transit_stop \<Rightarrow> bool" where
  "reachable_complex meters origin mode radius p \<longleftrightarrow> sto_mode p = mode \<and> sto_parent_stop_id p = None \<and>
     sto_active_status p = TransitStopActiveStatus.ACTIVE \<and> meters (sto_location_point p) origin \<le> radius"

definition nearest_stops ::
  "(point \<Rightarrow> point \<Rightarrow> rat) \<Rightarrow> point \<Rightarrow> TransitMode \<Rightarrow> rat \<Rightarrow> db \<Rightarrow> transit_stop list" where
  "nearest_stops meters origin mode radius s = take MAX_CANDIDATES_PER_MODE
     (sort_key (\<lambda>p. meters (sto_location_point p) origin)
       (filter (reachable_complex meters origin mode radius) (db_stops s)))"

definition new_access ::
  "uuid \<Rightarrow> uuid \<Rightarrow> transit_stop \<Rightarrow> TransitMode \<Rightarrow> int \<Rightarrow> nat \<Rightarrow> string \<Rightarrow> datetime \<Rightarrow> transit_access" where
  "new_access i listing p mode distance rank hash now =
     \<lparr>acc_id = i, acc_canonical_listing_id = listing, acc_transit_stop_id = sto_id p, acc_mode = mode,
      acc_straight_line_distance_m = Some distance, acc_walking_distance_m = None,
      acc_walking_duration_s = None, acc_route_provider_request_id = None,
      acc_proximity_rank = Some rank, acc_usefulness_status = UsefulnessStatus.CANDIDATE,
      acc_usefulness_reasons = None, acc_meaningful_connections = None,
      acc_validation_status = TransitValidationStatus.PENDING, acc_validation_reasons = None,
      acc_input_location_hash = hash, acc_dataset_version = sto_dataset_version p,
      acc_calculated_at = now, acc_expires_at = None\<rparr>"

fun add_ranked ::
  "(point \<Rightarrow> point \<Rightarrow> rat) \<Rightarrow> uuid \<Rightarrow> point \<Rightarrow> TransitMode \<Rightarrow> string \<Rightarrow> datetime \<Rightarrow> nat \<Rightarrow>
   transit_stop list \<Rightarrow> db \<Rightarrow> db" where
  "add_ranked meters listing origin mode hash now rank [] s = s"
| "add_ranked meters listing origin mode hash now rank (p # ps) s =
     add_ranked meters listing origin mode hash now (Suc rank) ps
       (s\<lparr>db_access := db_access s @ [new_access (db_next s) listing p mode
             (truncate_rat (meters (sto_location_point p) origin)) rank hash now],
          db_next := Suc (db_next s)\<rparr>)"

fun add_modes ::
  "(point \<Rightarrow> point \<Rightarrow> rat) \<Rightarrow> uuid \<Rightarrow> point \<Rightarrow> string \<Rightarrow> datetime \<Rightarrow> (TransitMode \<times> rat) list \<Rightarrow>
   db \<Rightarrow> nat \<times> db" where
  "add_modes meters listing origin hash now [] s = (0, s)"
| "add_modes meters listing origin hash now ((mode, radius) # modes) s =
     (let stops = nearest_stops meters origin mode radius s;
          (n, s') = add_modes meters listing origin hash now modes
                      (add_ranked meters listing origin mode hash now 1 stops s)
      in (length stops + n, s'))"

definition access_of :: "uuid \<Rightarrow> db \<Rightarrow> transit_access list" where
  "access_of listing s = filter (\<lambda>r. acc_canonical_listing_id r = listing) (db_access s)"

definition drop_access :: "uuid \<Rightarrow> db \<Rightarrow> db" where
  "drop_access listing s =
     s\<lparr>db_access := filter (\<lambda>r. acc_canonical_listing_id r \<noteq> listing) (db_access s)\<rparr>"

definition enrich_listing ::
  "(point \<Rightarrow> point \<Rightarrow> rat) \<Rightarrow> (string \<Rightarrow> string) \<Rightarrow> uuid \<Rightarrow> datetime \<Rightarrow> db \<Rightarrow> nat \<times> db" where
  "enrich_listing meters sha256 listing now s =
     (case listing_origin listing s of
        None \<Rightarrow> (0, s)
      | Some origin \<Rightarrow>
          (let hash = sha256 (origin_text origin)
           in case access_of listing s of
                [] \<Rightarrow> add_modes meters listing (fst origin) hash now CANDIDATE_RADII_M s
              | r # _ \<Rightarrow>
                  if acc_input_location_hash r = hash then (0, s)
                  else add_modes meters listing (fst origin) hash now CANDIDATE_RADII_M
                         (drop_access listing s)))"

fun enrich_each ::
  "(point \<Rightarrow> point \<Rightarrow> rat) \<Rightarrow> (string \<Rightarrow> string) \<Rightarrow> datetime \<Rightarrow> uuid list \<Rightarrow> NearbyRunSummary \<Rightarrow> db \<Rightarrow>
   NearbyRunSummary \<times> db" where
  "enrich_each meters sha256 now [] m s = (m, s)"
| "enrich_each meters sha256 now (i # is) m s =
     (let (created, s') = enrich_listing meters sha256 i now s
      in enrich_each meters sha256 now is
           (m\<lparr>nb_listings_processed := Suc (nb_listings_processed m),
             nb_access_rows_created := nb_access_rows_created m + created\<rparr>) s')"

definition enrich_all_geocoded ::
  "(point \<Rightarrow> point \<Rightarrow> rat) \<Rightarrow> (string \<Rightarrow> string) \<Rightarrow> datetime \<Rightarrow> nat \<Rightarrow> db \<Rightarrow> NearbyRunSummary \<times> db" where
  "enrich_all_geocoded meters sha256 now limit s =
     enrich_each meters sha256 now
       (take limit (filter (\<lambda>i. listing_origin i s \<noteq> None) (map cl_id (db_listings s))))
       new_nearby_summary s"

section \<open>Usefulness\<close>

definition USEFULNESS_RULE_VERSION :: string where
  "USEFULNESS_RULE_VERSION = ''usefulness-straightline-v1''"

definition USEFUL_STRAIGHT_LINE_M :: int where
  "USEFUL_STRAIGHT_LINE_M = 800"

definition MODE_REASON :: "(TransitMode \<times> string) list" where
  "MODE_REASON = [(TransitMode.SUBWAY, ''DIRECT_SUBWAY_ACCESS''), (TransitMode.PATH, ''DIRECT_PATH_ACCESS'')]"

record UsefulnessSummary =
  us_evaluated :: nat
  us_useful :: nat
  us_candidate :: nat

definition new_usefulness_summary :: UsefulnessSummary where
  "new_usefulness_summary = \<lparr>us_evaluated = 0, us_useful = 0, us_candidate = 0\<rparr>"

definition usefulness_reasons :: "string \<Rightarrow> json" where
  "usefulness_reasons reason = JObj [(''rule'', JStr USEFULNESS_RULE_VERSION),
     (''reasons'', JList [JStr reason]), (''distance_basis'', JStr ''straight_line_only'')]"

definition useful_reason :: "transit_access \<Rightarrow> string option" where
  "useful_reason r = (case acc_straight_line_distance_m r of
     None \<Rightarrow> None
   | Some d \<Rightarrow> if d \<le> USEFUL_STRAIGHT_LINE_M then map_of MODE_REASON (acc_mode r) else None)"

definition classify_one :: "transit_access \<Rightarrow> transit_access" where
  "classify_one r = (case useful_reason r of
     Some reason \<Rightarrow> r\<lparr>acc_usefulness_status := UsefulnessStatus.USEFUL,
       acc_usefulness_reasons := Some (usefulness_reasons reason)\<rparr>
   | None \<Rightarrow> r\<lparr>acc_usefulness_reasons := Some (usefulness_reasons ''SERVICE_UNVERIFIED'')\<rparr>)"

fun classify_rows :: "transit_access list \<Rightarrow> UsefulnessSummary \<Rightarrow> db \<Rightarrow> UsefulnessSummary \<times> db" where
  "classify_rows [] m s = (m, s)"
| "classify_rows (r # rs) m s =
     classify_rows rs
       (if useful_reason r \<noteq> None
        then m\<lparr>us_evaluated := Suc (us_evaluated m), us_useful := Suc (us_useful m)\<rparr>
        else m\<lparr>us_evaluated := Suc (us_evaluated m), us_candidate := Suc (us_candidate m)\<rparr>)
       (s\<lparr>db_access := update_where (\<lambda>x. acc_id x = acc_id r) classify_one (db_access s)\<rparr>)"

definition classify_usefulness :: "nat \<Rightarrow> db \<Rightarrow> UsefulnessSummary \<times> db" where
  "classify_usefulness limit s =
     classify_rows
       (take limit (filter (\<lambda>r. acc_usefulness_status r = UsefulnessStatus.CANDIDATE) (db_access s)))
       new_usefulness_summary s"

section \<open>Walking\<close>

definition WALK_SPEED_MIN_MPS :: rat where
  "WALK_SPEED_MIN_MPS = 1 / 2"

definition WALK_SPEED_MAX_MPS :: rat where
  "WALK_SPEED_MAX_MPS = 22 / 10"

definition GEOMETRY_TOLERANCE_M :: int where
  "GEOMETRY_TOLERANCE_M = 30"

text \<open>
  \<open>OsrmFootRouter.walk_route\<close>: the URL writes the coordinates with \<open>repr\<close> (\<open>show\<close>), a failed fetch
  or an answer without route gives None, and only a malformed route raises.
\<close>

definition osrm_url :: "(rat \<Rightarrow> string) \<Rightarrow> point \<Rightarrow> point \<Rightarrow> string" where
  "osrm_url show origin dest = ''https://routing.openstreetmap.de/routed-foot/route/v1/foot/'' @
     show (fst origin) @ '','' @ show (snd origin) @ '';'' @ show (fst dest) @ '','' @ show (snd dest) @
     ''?overview=false&alternatives=false''"

definition osrm_answer :: "json \<Rightarrow> (int \<times> int) option result" where
  "osrm_answer body =
     bind_result (py_get ''routes'' body) (\<lambda>routes.
     bind_result (py_get ''code'' body) (\<lambda>code.
       if code \<noteq> JStr ''Ok'' \<or> \<not> json_truthy routes then Inr None
       else bind_result (py_first routes) (\<lambda>route.
            bind_result (bind_result (py_item ''distance'' route) py_int) (\<lambda>d.
            bind_result (bind_result (py_item ''duration'' route) py_int) (\<lambda>t. Inr (Some (d, t)))))))"

type_synonym 'w walk_route = "point \<Rightarrow> point \<Rightarrow> 'w \<Rightarrow> (int \<times> int) option result \<times> 'w"

definition osrm_walk_route ::
  "(rat \<Rightarrow> string) \<Rightarrow> (string \<Rightarrow> 'w \<Rightarrow> json fallible \<times> 'w) \<Rightarrow> 'w walk_route" where
  "osrm_walk_route show fetch origin dest w =
     (case fetch (osrm_url show origin dest) w of
        (Inl name, w') \<Rightarrow> (Inr None, w')
      | (Inr body, w') \<Rightarrow> (osrm_answer body, w'))"

record WalkingRunSummary =
  wk_attempted :: nat
  wk_routed :: nat
  wk_warnings :: nat
  wk_failed :: nat

definition new_walking_summary :: WalkingRunSummary where
  "new_walking_summary = \<lparr>wk_attempted = 0, wk_routed = 0, wk_warnings = 0, wk_failed = 0\<rparr>"

text \<open>Why a routed walk is doubtful, given the straight line; None when it is plausible.\<close>

definition walk_issue :: "int \<Rightarrow> int \<Rightarrow> int \<Rightarrow> string option" where
  "walk_issue straight d t =
     (if d + GEOMETRY_TOLERANCE_M < straight then Some ''routed_shorter_than_straight_line''
      else if 0 < t
      then (let speed = of_int d / of_int t
            in if WALK_SPEED_MIN_MPS \<le> speed \<and> speed \<le> WALK_SPEED_MAX_MPS then None
               else Some (''implausible_speed_'' @ fixed_text 2 speed @ ''mps''))
      else None)"

definition walk_reasons :: "string \<Rightarrow> string option \<Rightarrow> json" where
  "walk_reasons router issue = JObj ((''router'', JStr router) #
     (case issue of None \<Rightarrow> [] | Some t \<Rightarrow> [(''issue'', JStr t)]))"

definition record_walk :: "string \<Rightarrow> int \<Rightarrow> int \<Rightarrow> transit_access \<Rightarrow> transit_access" where
  "record_walk router d t r =
     (let issue = walk_issue (case acc_straight_line_distance_m r of None \<Rightarrow> 0 | Some m \<Rightarrow> m) d t
      in r\<lparr>acc_walking_distance_m := Some d, acc_walking_duration_s := Some t,
           acc_validation_status := (if issue = None then TransitValidationStatus.PASSED
             else TransitValidationStatus.WARNING),
           acc_validation_reasons := Some (walk_reasons router issue)\<rparr>)"

text \<open>The joined rows: rank-one candidates without a walk, with both end points.\<close>

definition walk_ends :: "transit_access \<Rightarrow> db \<Rightarrow> (point \<times> point) option" where
  "walk_ends r s = (case (listing_origin (acc_canonical_listing_id r) s,
        get_by sto_id (acc_transit_stop_id r) (db_stops s)) of
     (Some (origin, _), Some p) \<Rightarrow> Some (origin, sto_location_point p)
   | _ \<Rightarrow> None)"

definition needs_walk :: "db \<Rightarrow> transit_access \<Rightarrow> bool" where
  "needs_walk s r \<longleftrightarrow> acc_proximity_rank r = Some 1 \<and> acc_walking_distance_m r = None \<and> walk_ends r s \<noteq> None"

fun walk_rows ::
  "string \<Rightarrow> 'w walk_route \<Rightarrow> transit_access list \<Rightarrow> WalkingRunSummary \<Rightarrow> 'w \<Rightarrow> db \<Rightarrow>
   (WalkingRunSummary \<times> 'w \<times> db) result" where
  "walk_rows router route [] m w s = Inr (m, w, s)"
| "walk_rows router route (r # rs) m w s =
     (case walk_ends r s of
        None \<Rightarrow> walk_rows router route rs m w s
      | Some (origin, dest) \<Rightarrow>
          (let m1 = m\<lparr>wk_attempted := Suc (wk_attempted m)\<rparr>
           in case route origin dest w of
                (Inl e, w1) \<Rightarrow> Inl e
              | (Inr None, w1) \<Rightarrow> walk_rows router route rs (m1\<lparr>wk_failed := Suc (wk_failed m)\<rparr>) w1 s
              | (Inr (Some (d, t)), w1) \<Rightarrow>
                  if d < 0 \<or> t < 0 then Inl IntegrityError
                  else walk_rows router route rs
                    (m1\<lparr>wk_warnings := (if acc_validation_status (record_walk router d t r) =
                           TransitValidationStatus.WARNING then Suc (wk_warnings m) else wk_warnings m),
                        wk_routed := Suc (wk_routed m)\<rparr>) w1
                    (s\<lparr>db_access := update_where (\<lambda>x. acc_id x = acc_id r) (record_walk router d t)
                        (db_access s)\<rparr>)))"

definition enrich_primary_candidates ::
  "string \<Rightarrow> 'w walk_route \<Rightarrow> nat \<Rightarrow> 'w \<Rightarrow> db \<Rightarrow> (WalkingRunSummary \<times> 'w \<times> db) result" where
  "enrich_primary_candidates router route limit w s =
     walk_rows router route (take limit (filter (needs_walk s) (db_access s))) new_walking_summary w s"

end
