(* ===== verification/TransitLaws.thy ===== *)
theory TransitLaws
  imports Transit Samples
begin

text \<open>
  What transit enrichment guarantees: ingesting a GTFS dataset twice is ingesting it once, the
  candidates of a listing are the nearest complexes and are reused while the origin stays, the
  usefulness rule is applied row by row, and a walk is only ever written from a routed answer.
\<close>

section \<open>GTFS\<close>

text \<open>Both inserts keep the contract of an idempotent insert, with the unique key as the index.\<close>

interpretation route_insert: idempotent_insert db_routes insert_route
  "\<lambda>(source, version, r) s. new_route (db_next s) source version r"
  "\<lambda>(source, version, r) x. route_key x = (source, tq_provider_route_id r, version)"
  by unfold_locales (auto simp: insert_route_def new_route_def route_key_def Let_def)

interpretation stop_insert: idempotent_insert db_stops insert_stop
  "\<lambda>(source, version, p) s. new_stop (db_next s) source version p"
  "\<lambda>(source, version, p) x. stop_key x = (source, ts_provider_stop_id p, version)"
  by unfold_locales (auto simp: insert_stop_def new_stop_def stop_key_def Let_def)

text \<open>Inserting a list only grows the table, and a second pass finds every key.\<close>

lemma insert_each_grows:
  assumes "\<And>i s r. r \<in> set (tbl s) \<Longrightarrow> r \<in> set (tbl (snd (ins i s)))" "r \<in> set (tbl s)"
  shows "r \<in> set (tbl (snd (insert_each ins is s)))"
  using assms(2)
proof (induction "is" arbitrary: s)
  case (Cons i "is")
  have "r \<in> set (tbl (snd (ins i s)))" by (rule assms(1) [OF Cons.prems])
  from Cons.IH [OF this] show ?case by (simp add: split_beta)
qed simp

lemma insert_each_none:
  assumes "\<And>i. i \<in> set is \<Longrightarrow> ins i s = (False, s)"
  shows "insert_each ins is s = (0, s)"
  using assms by (induction "is") simp_all

lemma insert_each_again:
  assumes ins: "idempotent_insert tbl ins row clash" and i: "i \<in> set is"
  shows "\<exists>r \<in> set (tbl (snd (insert_each ins is s))). clash i r"
  using i
proof (induction "is" arbitrary: s)
  case (Cons j "is")
  show ?case
  proof (cases "i \<in> set is")
    case True
    from Cons.IH [OF this, of "snd (ins j s)"] show ?thesis by (simp add: split_beta)
  next
    case False
    with Cons.prems have "i = j" by simp
    obtain r where r: "r \<in> set (tbl (snd (ins i s)))" "clash i r"
      using idempotent_insert.ins_stored [OF ins] by blast
    have "r \<in> set (tbl (snd (insert_each ins is (snd (ins i s)))))"
      by (rule insert_each_grows [where tbl = tbl, OF _ r(1)])
        (rule idempotent_insert.ins_keeps_row [OF ins])
    with r(2) \<open>i = j\<close> show ?thesis by (auto simp: split_beta)
  qed
qed simp

lemma insert_stop_frame:
  "snd (insert_stop i s) = s\<lparr>db_stops := db_stops (snd (insert_stop i s)), db_next := db_next (snd (insert_stop i s))\<rparr>"
  by (cases i) (simp add: insert_stop_def Let_def)

lemma insert_stops_frame:
  "\<exists>rs n. snd (insert_each insert_stop is s) = s\<lparr>db_stops := rs, db_next := n\<rparr>"
proof (induction "is" arbitrary: s)
  case Nil
  show ?case by (intro exI [of _ "db_stops s"] exI [of _ "db_next s"]) simp
next
  case (Cons i "is")
  let ?s = "snd (insert_stop i s)"
  obtain rs n where "snd (insert_each insert_stop is ?s) = ?s\<lparr>db_stops := rs, db_next := n\<rparr>"
    using Cons.IH by blast
  also have "\<dots> = s\<lparr>db_stops := rs, db_next := n\<rparr>"
    by (subst insert_stop_frame) simp
  finally show ?case by (auto simp: split_beta)
qed

section \<open>Parent stations\<close>

text \<open>Linking keeps the keys and identifiers of all stops.\<close>

definition stop_label :: "transit_stop \<Rightarrow> (uuid \<times> string \<times> string) \<times> uuid" where
  "stop_label r = (stop_key r, sto_id r)"

lemma link_parent_cases:
  "link_parent ids p s = (False, s) \<or>
   (\<exists>child parent. link_parent ids p s = (True, s\<lparr>db_stops := update_where (\<lambda>r. sto_id r = child)
      (\<lambda>r. r\<lparr>sto_parent_stop_id := Some parent\<rparr>) (db_stops s)\<rparr>))"
  by (auto simp: link_parent_def split: option.split)

lemma link_parent_labels:
  "\<exists>ps. snd (link_parent ids p s) = s\<lparr>db_stops := ps\<rparr> \<and> map stop_label ps = map stop_label (db_stops s)"
  using link_parent_cases [of ids p s]
proof (elim disjE exE)
  fix child parent
  assume "link_parent ids p s = (True, s\<lparr>db_stops := update_where (\<lambda>r. sto_id r = child)
      (\<lambda>r. r\<lparr>sto_parent_stop_id := Some parent\<rparr>) (db_stops s)\<rparr>)"
  then show ?thesis
    by (auto intro!: exI map_update_where simp: stop_label_def stop_key_def)
qed (auto intro!: exI [of _ "db_stops s"])

lemma link_parents_labels:
  "\<exists>qs. snd (insert_each (link_parent ids) ps s) = s\<lparr>db_stops := qs\<rparr> \<and>
     map stop_label qs = map stop_label (db_stops s)"
proof (induction ps arbitrary: s)
  case Nil
  show ?case by (intro exI [of _ "db_stops s"]) simp
next
  case (Cons p ps)
  obtain qs where "snd (link_parent ids p s) = s\<lparr>db_stops := qs\<rparr>"
      "map stop_label qs = map stop_label (db_stops s)"
    using link_parent_labels by blast
  with Cons.IH [of "snd (link_parent ids p s)"] show ?case by (auto simp: split_beta)
qed

lemma id_by_provider_labels:
  assumes "map stop_label (db_stops s') = map stop_label (db_stops s)"
  shows "id_by_provider source version s' = id_by_provider source version s"
proof -
  have eq: "map (\<lambda>r. (sto_provider_stop_id r, sto_id r))
      (filter (\<lambda>r. sto_provider_source_id r = source \<and> sto_dataset_version r = version) rs) =
    map (\<lambda>l. (fst (snd (fst l)), snd l))
      (filter (\<lambda>l. fst (fst l) = source \<and> snd (snd (fst l)) = version) (map stop_label rs))" for rs
    by (induction rs) (auto simp: stop_label_def stop_key_def)
  show ?thesis unfolding id_by_provider_def eq assms ..
qed

text \<open>A stop that needs no link now needs none later, and linking it settles it.\<close>

lemma link_parent_stays:
  assumes "link_parent ids p s = (False, s)"
  shows "link_parent ids p (snd (link_parent ids q s)) = (False, snd (link_parent ids q s))"
  using link_parent_cases [of ids q s]
proof (elim disjE exE)
  fix child parent
  let ?s = "s\<lparr>db_stops := update_where (\<lambda>r. sto_id r = child)
      (\<lambda>r. r\<lparr>sto_parent_stop_id := Some parent\<rparr>) (db_stops s)\<rparr>"
  assume q: "link_parent ids q s = (True, ?s)"
  have get: "get_by sto_id c (update_where (\<lambda>r. sto_id r = child)
      (\<lambda>r. r\<lparr>sto_parent_stop_id := Some parent\<rparr>) (db_stops s)) = map_option (\<lambda>r. if sto_id r = child
      then r\<lparr>sto_parent_stop_id := Some parent\<rparr> else r) (get_by sto_id c (db_stops s))" for c
    by (simp add: get_by_update_where)
  have "link_parent ids p ?s = (False, ?s)"
  proof (cases "ts_parent_provider_stop_id p")
    case (Some key)
    show ?thesis
    proof (cases "key = [] \<or> ids (ts_provider_stop_id p) = None \<or> ids key = None")
      case False
      then obtain c d where "ids (ts_provider_stop_id p) = Some c" "ids key = Some d" "key \<noteq> []" by auto
      with assms Some show ?thesis
        by (cases "get_by sto_id c (db_stops s)") (auto simp: link_parent_def get split: if_splits)
    qed (use Some in \<open>auto simp: link_parent_def split: option.split\<close>)
  qed (simp add: link_parent_def)
  with q show ?thesis by simp
qed (use assms in simp)

lemma link_parent_settles:
  "link_parent ids p (snd (link_parent ids p s)) = (False, snd (link_parent ids p s))"
proof (cases "fst (link_parent ids p s)")
  case False
  then have "link_parent ids p s = (False, s)" using link_parent_cases [of ids p s] by auto
  then show ?thesis by simp
next
  case True
  then obtain key child parent row where p: "ts_parent_provider_stop_id p = Some key" "key \<noteq> []"
      "ids (ts_provider_stop_id p) = Some child" "ids key = Some parent"
      "get_by sto_id child (db_stops s) = Some row" "sto_parent_stop_id row = None"
    by (auto simp: link_parent_def split: option.splits if_splits)
  have "sto_id row = child" using get_by_SomeD [OF p(5)] by simp
  with p show ?thesis by (simp add: link_parent_def get_by_update_where)
qed

lemma link_parents_settle:
  assumes "p \<in> set ps \<or> link_parent ids p s = (False, s)"
  shows "link_parent ids p (snd (insert_each (link_parent ids) ps s)) =
    (False, snd (insert_each (link_parent ids) ps s))"
  using assms
proof (induction ps arbitrary: s)
  case (Cons q ps)
  let ?s = "snd (link_parent ids q s)"
  have "p \<in> set ps \<or> link_parent ids p ?s = (False, ?s)"
    using Cons.prems link_parent_settles [of ids p s] link_parent_stays [of ids p s q] by auto
  from Cons.IH [OF this] show ?case by (simp add: split_beta)
qed simp

lemma ingest_again:
  assumes "ingest_dataset d source s = (c, s')"
  shows "ingest_dataset d source s' =
    (\<lparr>ic_stops_inserted = 0, ic_routes_inserted = 0, ic_parents_linked = 0\<rparr>, s')"
proof -
  let ?v = "td_dataset_version d"
  let ?rs = "map (\<lambda>r. (source, ?v, r)) (td_routes d)"
  let ?ps = "map (\<lambda>p. (source, ?v, p)) (td_stops d)"
  define s1 where "s1 = snd (insert_each insert_route ?rs s)"
  define s2 where "s2 = snd (insert_each insert_stop ?ps s1)"
  define ids where "ids = id_by_provider source ?v s2"
  have s': "s' = snd (insert_each (link_parent ids) (td_stops d) s2)"
    using assms by (auto simp: ingest_dataset_def Let_def split_beta s1_def s2_def ids_def)
  obtain qs where qs: "s' = s2\<lparr>db_stops := qs\<rparr>" "map stop_label qs = map stop_label (db_stops s2)"
    using link_parents_labels s' by blast
  obtain ss n where s2: "s2 = s1\<lparr>db_stops := ss, db_next := n\<rparr>"
    using insert_stops_frame s2_def by blast
  have "insert_route i s' = (False, s')" if "i \<in> set ?rs" for i
  proof (rule route_insert.ins_clash)
    show "\<exists>x \<in> set (db_routes s'). (case i of (source, version, r) \<Rightarrow>
        \<lambda>x. route_key x = (source, tq_provider_route_id r, version)) x"
      using insert_each_again [OF route_insert.idempotent_insert_axioms that, of s]
      by (simp add: qs(1) s2 s1_def [symmetric])
  qed
  then have r: "insert_each insert_route ?rs s' = (0, s')" by (rule insert_each_none)
  have "insert_stop i s' = (False, s')" if "i \<in> set ?ps" for i
  proof (rule stop_insert.ins_clash)
    from that obtain p where i: "i = (source, td_dataset_version d, p)" by force
    have "i \<in> set ?ps" by fact
    from insert_each_again [OF stop_insert.idempotent_insert_axioms this, of s1] i obtain x where x: "x \<in> set (db_stops s2)" "stop_key x = (source, ts_provider_stop_id p, ?v)"
      by (auto simp: s2_def [symmetric])
    have "stop_label x \<in> set (map stop_label qs)" using qs(2) x(1) by simp
    then obtain y where "y \<in> set qs" "stop_label y = stop_label x" by auto
    with x(2) i show "\<exists>x \<in> set (db_stops s'). (case i of (source, version, p) \<Rightarrow>
        \<lambda>x. stop_key x = (source, ts_provider_stop_id p, version)) x"
      by (auto simp: qs(1) stop_label_def)
  qed
  then have p: "insert_each insert_stop ?ps s' = (0, s')" by (rule insert_each_none)
  have "id_by_provider source ?v s' = ids"
    unfolding ids_def using qs by (intro id_by_provider_labels) simp
  moreover have "insert_each (link_parent ids) (td_stops d) s' = (0, s')"
    by (rule insert_each_none) (use link_parents_settle s' in blast)
  ultimately show ?thesis by (simp add: ingest_dataset_def r p)
qed

section \<open>Candidates near a listing\<close>

text \<open>Adding candidates touches nothing but the access table and the identifier supply.\<close>

lemma add_ranked_state:
  "add_ranked meters i origin mode hash now k ps s =
     s\<lparr>db_access := db_access s @ map (\<lambda>(j, p). new_access (db_next s + j) i p mode
          (truncate_rat (meters (sto_location_point p) origin)) (k + j) hash now) (enumerate 0 ps),
       db_next := db_next s + length ps\<rparr>"
proof (induction ps arbitrary: k s)
  case (Cons p ps)
  have shift: "enumerate (Suc 0) ps = map (\<lambda>(j, q). (Suc j, q)) (enumerate 0 ps)"
    by (simp add: enumerate_Suc_eq apfst_def map_prod_def)
  show ?case
    by (simp add: Cons.IH shift comp_def case_prod_beta)
qed simp

definition rows_of_mode ::
  "(point \<Rightarrow> point \<Rightarrow> rat) \<Rightarrow> uuid \<Rightarrow> point \<Rightarrow> string \<Rightarrow> datetime \<Rightarrow> nat \<Rightarrow> TransitMode \<Rightarrow>
   transit_stop list \<Rightarrow> transit_access list" where
  "rows_of_mode meters i origin hash now n mode ps = map (\<lambda>(j, p). new_access (n + j) i p mode
     (truncate_rat (meters (sto_location_point p) origin)) (1 + j) hash now) (enumerate 0 ps)"

lemma rows_of_mode_length [simp]: "length (rows_of_mode meters i origin hash now n mode ps) = length ps"
  by (simp add: rows_of_mode_def)

lemma rows_of_mode_Nil [simp]: "rows_of_mode meters i origin hash now n mode ps = [] \<longleftrightarrow> ps = []"
  by (simp flip: length_0_conv)

fun rows_of_modes ::
  "(point \<Rightarrow> point \<Rightarrow> rat) \<Rightarrow> uuid \<Rightarrow> point \<Rightarrow> string \<Rightarrow> datetime \<Rightarrow> nat \<Rightarrow> (TransitMode \<times> rat) list \<Rightarrow>
   db \<Rightarrow> transit_access list" where
  "rows_of_modes meters i origin hash now n [] s = []"
| "rows_of_modes meters i origin hash now n ((mode, radius) # modes) s =
     (let ps = nearest_stops meters origin mode radius s
      in rows_of_mode meters i origin hash now n mode ps @
         rows_of_modes meters i origin hash now (n + length ps) modes s)"

lemma rows_of_modes_cong:
  assumes "db_stops s' = db_stops s"
  shows "rows_of_modes meters i origin hash now n modes s' = rows_of_modes meters i origin hash now n modes s"
  by (induction modes arbitrary: n) (auto simp: Let_def nearest_stops_def assms)

lemma add_modes_state:
  "add_modes meters i origin hash now modes s =
     (length (rows_of_modes meters i origin hash now (db_next s) modes s),
      s\<lparr>db_access := db_access s @ rows_of_modes meters i origin hash now (db_next s) modes s,
        db_next := db_next s + length (rows_of_modes meters i origin hash now (db_next s) modes s)\<rparr>)"
proof (induction modes arbitrary: s)
  case (Cons m modes)
  obtain mode radius where m: "m = (mode, radius)" by (cases m)
  define ps where "ps = nearest_stops meters origin mode radius s"
  define here where "here = rows_of_mode meters i origin hash now (db_next s) mode ps"
  define s1 where "s1 = s\<lparr>db_access := db_access s @ here, db_next := db_next s + length here\<rparr>"
  define rest where "rest = rows_of_modes meters i origin hash now (db_next s + length here) modes s"
  have len: "length here = length ps" by (simp add: here_def)
  have one: "add_ranked meters i origin mode hash now 1 ps s = s1"
    by (simp add: add_ranked_state s1_def here_def rows_of_mode_def)
  have "rows_of_modes meters i origin hash now (db_next s1) modes s1 = rest"
    using rows_of_modes_cong [of s1 s] by (simp add: rest_def s1_def)
  then have two: "add_modes meters i origin hash now modes s1 = (length rest,
      s1\<lparr>db_access := db_access s1 @ rest, db_next := db_next s1 + length rest\<rparr>)"
    using Cons.IH [of s1] by simp
  have rows: "rows_of_modes meters i origin hash now (db_next s) (m # modes) s = here @ rest"
    by (simp add: m Let_def rest_def here_def ps_def)
  have "add_modes meters i origin hash now (m # modes) s = (length ps + length rest,
      s1\<lparr>db_access := db_access s1 @ rest, db_next := db_next s1 + length rest\<rparr>)"
    using one two by (simp add: m Let_def ps_def)
  then show ?case unfolding rows by (simp add: s1_def len)
qed simp

lemma rows_of_modes_hash:
  "r \<in> set (rows_of_modes meters i origin hash now n modes s) \<Longrightarrow>
     acc_canonical_listing_id r = i \<and> acc_input_location_hash r = hash"
  by (induction modes arbitrary: n)
    (auto simp: Let_def rows_of_mode_def new_access_def in_set_enumerate_eq)

text \<open>What \<open>enrich_listing\<close> does when the origin is new or has moved.\<close>

definition access_hash :: "uuid \<Rightarrow> db \<Rightarrow> string option" where
  "access_hash i s = (case access_of i s of [] \<Rightarrow> None | r # _ \<Rightarrow> Some (acc_input_location_hash r))"

lemma drop_access_absent: "access_of i s = [] \<Longrightarrow> drop_access i s = s"
  by (auto simp: access_of_def drop_access_def filter_empty_conv intro!: db.equality filter_True)

lemma enrich_listing_state:
  assumes "listing_origin i s = Some origin" "access_hash i s \<noteq> Some (sha (origin_text origin))"
  shows "enrich_listing meters sha i now s =
    add_modes meters i (fst origin) (sha (origin_text origin)) now CANDIDATE_RADII_M (drop_access i s)"
proof (cases "access_of i s")
  case Nil
  with assms show ?thesis by (simp add: enrich_listing_def Let_def drop_access_absent)
next
  case (Cons r rs)
  with assms show ?thesis by (simp add: enrich_listing_def Let_def access_hash_def)
qed

lemma enrich_listing_reused:
  assumes "listing_origin i s = Some origin" "access_hash i s = Some (sha (origin_text origin))"
  shows "enrich_listing meters sha i now s = (0, s)"
  using assms by (auto simp: enrich_listing_def Let_def access_hash_def split: list.splits)

lemma listing_origin_cong:
  assumes "db_listings s' = db_listings s" "db_buildings s' = db_buildings s" "db_addresses s' = db_addresses s"
  shows "listing_origin i s' = listing_origin i s"
  by (simp add: listing_origin_def listing_address_def assms)

lemma access_of_added:
  assumes "\<And>r. r \<in> set rows \<Longrightarrow> acc_canonical_listing_id r = i"
  shows "access_of i (drop_access i s\<lparr>db_access := db_access (drop_access i s) @ rows, db_next := n\<rparr>) = rows"
proof -
  have "filter (\<lambda>r. acc_canonical_listing_id r = i) rows = rows" using assms by simp
  then show ?thesis by (simp add: access_of_def drop_access_def)
qed

text \<open>The rows of a listing after an effective run.\<close>

lemma enrich_listing_rows:
  assumes "listing_origin i s = Some origin" "access_hash i s \<noteq> Some (sha (origin_text origin))"
    and "enrich_listing meters sha i now s = (n, s')"
  shows "access_of i s' = rows_of_modes meters i (fst origin) (sha (origin_text origin)) now
      (db_next s) CANDIDATE_RADII_M s"
    "n = length (access_of i s')"
    "\<exists>rows m. s' = (drop_access i s)\<lparr>db_access := rows, db_next := m\<rparr>"
proof -
  let ?rows = "rows_of_modes meters i (fst origin) (sha (origin_text origin)) now
      (db_next s) CANDIDATE_RADII_M s"
  have cong: "rows_of_modes meters i (fst origin) (sha (origin_text origin)) now
      (db_next (drop_access i s)) CANDIDATE_RADII_M (drop_access i s) = ?rows"
    using rows_of_modes_cong [of "drop_access i s" s] by (simp add: drop_access_def)
  have eq: "n = length ?rows" "s' = (drop_access i s)\<lparr>db_access := db_access (drop_access i s) @ ?rows,
      db_next := db_next (drop_access i s) + length ?rows\<rparr>"
    using assms(3) unfolding enrich_listing_state [where sha = sha, OF assms(1,2)] add_modes_state cong by auto
  show rows: "access_of i s' = ?rows"
    unfolding eq(2) by (rule access_of_added) (use rows_of_modes_hash in blast)
  show "n = length (access_of i s')" by (simp only: rows eq(1))
  show "\<exists>rows m. s' = (drop_access i s)\<lparr>db_access := rows, db_next := m\<rparr>" using eq(2) by blast
qed

lemma nearest_stopsD:
  assumes "p \<in> set (nearest_stops meters origin mode radius s)"
  shows "p \<in> set (db_stops s)" "reachable_complex meters origin mode radius p"
  using assms by (auto simp: nearest_stops_def dest!: in_set_takeD)

lemma length_nearest_stops: "length (nearest_stops meters origin mode radius s) \<le> MAX_CANDIDATES_PER_MODE"
  by (simp add: nearest_stops_def)

lemma in_rows_of_modeE:
  assumes "r \<in> set (rows_of_mode meters i origin hash now n mode ps)"
  obtains j where "j < length ps" "r = new_access (n + j) i (ps ! j) mode
     (truncate_rat (meters (sto_location_point (ps ! j)) origin)) (Suc j) hash now"
  using assms by (auto simp: rows_of_mode_def in_set_enumerate_eq)

lemma rows_of_mode_mode: "filter (\<lambda>r. acc_mode r = m) (rows_of_mode meters i origin hash now n mode ps) =
    (if m = mode then rows_of_mode meters i origin hash now n mode ps else [])"
  by (auto simp: rows_of_mode_def new_access_def filter_empty_conv intro!: filter_True)

lemma rows_of_mode_stop:
  assumes "p \<in> set ps"
  shows "\<exists>r \<in> set (rows_of_mode meters i origin hash now n mode ps).
    acc_mode r = mode \<and> acc_transit_stop_id r = sto_id p"
proof -
  obtain j where j: "j < length ps" "p = ps ! j" using assms by (auto simp: in_set_conv_nth)
  then have "(j, p) \<in> set (enumerate 0 ps)" by (simp add: in_set_enumerate_eq)
  then show ?thesis unfolding rows_of_mode_def set_map
    by (intro bexI, intro conjI) (auto simp: new_access_def intro!: imageI)
qed

text \<open>One candidate row of a listing, as the reader of the table may trust it.\<close>

definition honest_candidate ::
  "(point \<Rightarrow> point \<Rightarrow> rat) \<Rightarrow> point \<Rightarrow> db \<Rightarrow> transit_access \<Rightarrow> bool" where
  "honest_candidate meters origin s r \<longleftrightarrow>
     (\<exists>p \<in> set (db_stops s). \<exists>radius. (acc_mode r, radius) \<in> set CANDIDATE_RADII_M \<and>
        sto_id p = acc_transit_stop_id r \<and> reachable_complex meters origin (acc_mode r) radius p \<and>
        acc_straight_line_distance_m r = Some (truncate_rat (meters (sto_location_point p) origin))) \<and>
     (\<exists>k \<in> {1..MAX_CANDIDATES_PER_MODE}. acc_proximity_rank r = Some k) \<and>
     acc_walking_distance_m r = None \<and> acc_usefulness_status r = UsefulnessStatus.CANDIDATE \<and>
     acc_validation_status r = TransitValidationStatus.PENDING"

text \<open>A complex in reach is a candidate, or the mode is full of complexes at least as near.\<close>

definition candidate_or_full ::
  "(point \<Rightarrow> point \<Rightarrow> rat) \<Rightarrow> point \<Rightarrow> db \<Rightarrow> transit_access list \<Rightarrow> TransitMode \<Rightarrow> transit_stop \<Rightarrow> bool" where
  "candidate_or_full meters origin s rows mode p \<longleftrightarrow>
     (\<exists>r \<in> set rows. acc_mode r = mode \<and> acc_transit_stop_id r = sto_id p) \<or>
     length (filter (\<lambda>r. acc_mode r = mode) rows) = MAX_CANDIDATES_PER_MODE \<and>
     (\<forall>r \<in> set rows. acc_mode r = mode \<longrightarrow> (\<exists>q \<in> set (db_stops s). sto_id q = acc_transit_stop_id r \<and>
        meters (sto_location_point q) origin \<le> meters (sto_location_point p) origin))"

lemma mode_rows_honest:
  assumes "(mode, radius) \<in> set CANDIDATE_RADII_M"
    and "r \<in> set (rows_of_mode meters i origin hash now n mode (nearest_stops meters origin mode radius s))"
  shows "honest_candidate meters origin s r"
  using assms(2)
proof (rule in_rows_of_modeE)
  let ?ps = "nearest_stops meters origin mode radius s"
  fix j assume j: "j < length ?ps" and r: "r = new_access (n + j) i (?ps ! j) mode
     (truncate_rat (meters (sto_location_point (?ps ! j)) origin)) (Suc j) hash now"
  have p: "?ps ! j \<in> set ?ps" using j by simp
  have "Suc j \<in> {1..MAX_CANDIDATES_PER_MODE}"
    using j length_nearest_stops [of meters origin mode radius s] by simp
  with assms(1) nearest_stopsD [OF p] show ?thesis
    unfolding honest_candidate_def r new_access_def by auto
qed

lemma mode_rows_full:
  assumes "p \<in> set (db_stops s)" "reachable_complex meters origin mode radius p"
    and "filter (\<lambda>r. acc_mode r = mode) rows =
      rows_of_mode meters i origin hash now n mode (nearest_stops meters origin mode radius s)"
  shows "candidate_or_full meters origin s rows mode p"
proof (cases "p \<in> set (nearest_stops meters origin mode radius s)")
  case True
  from rows_of_mode_stop [OF this, of meters i origin hash now n mode] show ?thesis
    unfolding candidate_or_full_def assms(3) [symmetric] by auto
next
  case False
  let ?xs = "filter (reachable_complex meters origin mode radius) (db_stops s)"
  let ?ps = "nearest_stops meters origin mode radius s"
  have p: "p \<in> set ?xs" using assms(1,2) by simp
  note best = take_sort_key_best [OF p False [unfolded nearest_stops_def], folded nearest_stops_def]
  have "\<exists>q \<in> set (db_stops s). sto_id q = acc_transit_stop_id r \<and>
      meters (sto_location_point q) origin \<le> meters (sto_location_point p) origin"
    if "r \<in> set rows" "acc_mode r = mode" for r
  proof -
    have "r \<in> set (rows_of_mode meters i origin hash now n mode ?ps)"
      using that unfolding assms(3) [symmetric] by simp
    then obtain j where j: "j < length ?ps" "r = new_access (n + j) i (?ps ! j) mode
        (truncate_rat (meters (sto_location_point (?ps ! j)) origin)) (Suc j) hash now"
      by (rule in_rows_of_modeE)
    then have q: "?ps ! j \<in> set ?ps" by simp
    from nearest_stopsD [OF q] best(2) [OF q] j(2) show ?thesis
      by (intro bexI [of _ "?ps ! j"]) (auto simp: new_access_def)
  qed
  with best(1) show ?thesis by (simp add: candidate_or_full_def assms(3))
qed

section \<open>The usefulness rule\<close>

lemma classify_one_id [simp]: "acc_id (classify_one r) = acc_id r"
  by (simp add: classify_one_def split: option.split)

lemma classify_rows_state:
  assumes "distinct (map acc_id rs)"
  shows "snd (classify_rows rs m s) = s\<lparr>db_access := update_where (\<lambda>r. acc_id r \<in> acc_id ` set rs) classify_one (db_access s)\<rparr>"
    and "us_evaluated (fst (classify_rows rs m s)) = us_evaluated m + length rs"
    and "us_useful (fst (classify_rows rs m s)) = us_useful m + length (filter (\<lambda>r. useful_reason r \<noteq> None) rs)"
    and "us_candidate (fst (classify_rows rs m s)) = us_candidate m + length (filter (\<lambda>r. useful_reason r = None) rs)"
  using assms
proof (induction rs arbitrary: m s)
  case Nil
  { case 1 show ?case by (simp add: update_where_def)
  next case 2 show ?case by simp
  next case 3 show ?case by simp
  next case 4 show ?case by simp }
next
  case (Cons r rs)
  have two: "update_where (\<lambda>x. acc_id x \<in> acc_id ` set rs) classify_one
      (update_where (\<lambda>x. acc_id x = acc_id r) classify_one xs) =
    update_where (\<lambda>x. acc_id x \<in> acc_id ` set (r # rs)) classify_one xs"
    if "acc_id r \<notin> acc_id ` set rs" for xs
    using that by (auto simp: update_where_def)
  { case 1 then show ?case using Cons.IH(1) two by simp
  next case 2 then show ?case using Cons.IH(2) by simp
  next case 3 then show ?case using Cons.IH(3) by simp
  next case 4 then show ?case using Cons.IH(4) by simp }
qed

section \<open>Walks\<close>

definition walked ::
  "string \<Rightarrow> 'w walk_route \<Rightarrow> db \<Rightarrow> transit_access \<Rightarrow> transit_access \<Rightarrow> bool" where
  "walked router route s r r' \<longleftrightarrow> (\<exists>origin dest d t w w'. walk_ends r s = Some (origin, dest) \<and>
     route origin dest w = (Inr (Some (d, t)), w') \<and> 0 \<le> d \<and> 0 \<le> t \<and> r' = record_walk router d t r)"

lemma walk_ends_cong:
  assumes "s' = s\<lparr>db_access := rows\<rparr>"
  shows "walk_ends r s' = walk_ends r s"
proof -
  have "listing_origin i s' = listing_origin i s" for i
    by (rule listing_origin_cong) (simp_all add: assms)
  then show ?thesis by (simp add: walk_ends_def assms)
qed

lemma record_walk_id [simp]: "acc_id (record_walk router d t r) = acc_id r"
  by (simp add: record_walk_def Let_def)

lemma walk_rows_effect:
  assumes "walk_rows router route rs m w s = Inr (m', w', s')"
    and "set rs \<subseteq> set (db_access s)" "distinct (map acc_id rs)" "distinct (map acc_id (db_access s))"
  shows "\<exists>rows. s' = s\<lparr>db_access := rows\<rparr> \<and>
    list_all2 (\<lambda>r r'. r' = r \<or> r \<in> set rs \<and> walked router route s r r') (db_access s) rows"
  using assms
proof (induction rs arbitrary: m w s)
  case Nil
  then show ?case by (intro exI [of _ "db_access s"]) (simp add: list.rel_refl)
next
  case (Cons r rs)
  have skip: "?case" if "walk_rows router route rs m1 w1 s = Inr (m', w', s')" for m1 w1
  proof -
    from Cons.IH [OF that] Cons.prems(2-4) obtain rows where "s' = s\<lparr>db_access := rows\<rparr>"
        "list_all2 (\<lambda>r r'. r' = r \<or> r \<in> set rs \<and> walked router route s r r') (db_access s) rows"
      by auto
    then show ?thesis by (auto elim: list_all2_mono)
  qed
  show ?case
  proof (cases "walk_ends r s")
    case None
    with Cons.prems(1) show ?thesis by (intro skip) simp
  next
    case (Some ends)
    obtain origin dest where ends: "ends = (origin, dest)" by (cases ends)
    obtain a w1 where a: "route origin dest w = (a, w1)" by (cases "route origin dest w")
    with Cons.prems(1) Some ends obtain ans where ans: "a = Inr ans" by (cases a) auto
    show ?thesis
    proof (cases ans)
      case None
      with Cons.prems(1) Some ends a ans show ?thesis
        by (intro skip [of "m\<lparr>wk_attempted := Suc (wk_attempted m), wk_failed := Suc (wk_failed m)\<rparr>" w1]) simp
    next
      case (Some answer)
      obtain d t where dt: "answer = (d, t)" by (cases answer)
      let ?s = "s\<lparr>db_access := update_where (\<lambda>x. acc_id x = acc_id r) (record_walk router d t) (db_access s)\<rparr>"
      from Cons.prems(1) \<open>walk_ends r s = Some ends\<close> ends a ans Some dt obtain m1 where
          pos: "0 \<le> d" "0 \<le> t" and rest: "walk_rows router route rs m1 w1 ?s = Inr (m', w', s')"
        by (auto simp: Let_def split: if_splits)
      have r: "r \<in> set (db_access s)" using Cons.prems(2) by simp
      have same: "x = r" if "x \<in> set (db_access s)" "acc_id x = acc_id r" for x
        using that r Cons.prems(4) by (auto simp: distinct_map inj_on_def)
      have w: "walked router route s r (record_walk router d t r)"
        unfolding walked_def using \<open>walk_ends r s = Some ends\<close> ends a ans Some dt pos by blast
      have ids: "map acc_id (db_access ?s) = map acc_id (db_access s)"
        by (simp add: map_update_where)
      have keep: "set rs \<subseteq> set (db_access ?s)"
      proof
        fix x assume x: "x \<in> set rs"
        then have "acc_id x \<noteq> acc_id r"
          using Cons.prems(3) by (metis distinct.simps(2) image_eqI list.set_map list.simps(9))
        then show "x \<in> set (db_access ?s)"
          using x Cons.prems(2) by (auto intro!: untouched_by_update)
      qed
      from Cons.IH [OF rest keep] Cons.prems(3,4) ids obtain rows where
          s': "s' = ?s\<lparr>db_access := rows\<rparr>" and rel: "list_all2 (\<lambda>x x'. x' = x \<or> x \<in> set rs \<and>
            walked router route ?s x x') (db_access ?s) rows"
        by auto
      have "walked router route ?s x x' = walked router route s x x'" for x x'
        by (simp add: walked_def walk_ends_cong [OF refl])
      with rel have rel': "list_all2 (\<lambda>x x'. x' = x \<or> x \<in> set rs \<and> walked router route s x x') (db_access ?s) rows"
        by simp
      have step: "list_all2 (\<lambda>x x'. x' = x \<or> x = r \<and> x' = record_walk router d t r) (db_access s) (db_access ?s)"
        using same by (auto simp: update_where_def list.rel_map intro!: list.rel_refl_strong)
      have "list_all2 (\<lambda>x x'. x' = x \<or> x \<in> set (r # rs) \<and> walked router route s x x') (db_access s) rows"
      proof (rule list_all2_trans [OF _ step rel'])
        fix x y z
        assume xy: "y = x \<or> x = r \<and> y = record_walk router d t r"
          and yz: "z = y \<or> y \<in> set rs \<and> walked router route s y z"
        show "z = x \<or> x \<in> set (r # rs) \<and> walked router route s x z"
        proof (cases "y = x")
          case True
          with yz show ?thesis by auto
        next
          case False
          with xy have "x = r" "y = record_walk router d t r" by auto
          then have "acc_id y = acc_id r" by simp
          then have "y \<notin> set rs"
            using Cons.prems(3) by (metis distinct.simps(2) image_eqI list.set_map list.simps(9))
          with yz \<open>x = r\<close> \<open>y = record_walk router d t r\<close> w show ?thesis by auto
        qed
      qed
      then show ?thesis using s' by (intro exI [of _ rows]) simp
    qed
  qed
qed

text \<open>A written walk passes exactly when the answer it carries is plausible.\<close>

lemma walked_passed:
  assumes "walked router route s r r'"
  shows "acc_validation_status r' = TransitValidationStatus.PASSED \<longleftrightarrow>
      (\<exists>d t. acc_walking_distance_m r' = Some d \<and> acc_walking_duration_s r' = Some t \<and>
        walk_issue (case acc_straight_line_distance_m r of None \<Rightarrow> 0 | Some x \<Rightarrow> x) d t = None)"
proof -
  obtain d t where r': "r' = record_walk router d t r" using assms unfolding walked_def by blast
  show ?thesis
    by (cases "walk_issue (case acc_straight_line_distance_m r of None \<Rightarrow> 0 | Some x \<Rightarrow> x) d t")
      (simp_all add: r' record_walk_def Let_def)
qed

section \<open>Properties\<close>

text \<open>
  Ingesting a GTFS dataset a second time inserts no route and no stop, links no parent station
  and leaves the database as the first time left it.
\<close>
theorem gtfs_ingest_idempotent:
  assumes "ingest_dataset dataset source s = (counts, s')"
  shows "ingest_dataset dataset source s' =
    (\<lparr>ic_stops_inserted = 0, ic_routes_inserted = 0, ic_parents_linked = 0\<rparr>, s')"
  by (rule ingest_again [OF assms])

definition demo_gtfs :: TransitDataset where
  "demo_gtfs = (case parse_gtfs ''MTA'' ''2026-08'' None
       [[(''route_id'', ''1''), (''route_type'', ''1''), (''route_short_name'', '' 1 '')]]
       [[(''stop_id'', ''R01''), (''stop_name'', ''Main St''), (''stop_lat'', ''40.75''), (''stop_lon'', ''-73.9'')],
        [(''stop_id'', ''R01N''), (''stop_lat'', ''40.75''), (''stop_lon'', ''-73.9''),
         (''parent_station'', ''R01'')],
        [(''stop_id'', ''R02''), (''stop_lat'', []), (''stop_lon'', ''-73.9'')]] of
     Inr d \<Rightarrow> d
   | Inl e \<Rightarrow> \<lparr>td_operator_code = [], td_dataset_version = [], td_stops = [], td_routes = []\<rparr>)"

definition demo_transit :: db where
  "demo_transit = snd (ingest_dataset demo_gtfs 7 empty_db)"

lemma demo_ingested: "ingest_dataset demo_gtfs 7 empty_db =
    (\<lparr>ic_stops_inserted = 2, ic_routes_inserted = 1, ic_parents_linked = 1\<rparr>, demo_transit)"
  by code_simp

theorem gtfs_ingest_idempotent_witness:
  "ingest_dataset demo_gtfs 7 demo_transit =
    (\<lparr>ic_stops_inserted = 0, ic_routes_inserted = 0, ic_parents_linked = 0\<rparr>, demo_transit)"
  by (rule gtfs_ingest_idempotent [OF demo_ingested])

text \<open>
  C26. The candidates of a listing whose origin is new or has moved: rows for complexes in service
  within the radius of their mode, with the straight-line distance, no walking claim and nothing
  decided; and a complex in reach is left out only when the mode is full of complexes at least as near.
\<close>
theorem nearby_candidates:
  assumes "enrich_listing meters sha i now s = (n, s')" "listing_origin i s = Some origin"
    and "access_hash i s \<noteq> Some (sha (origin_text origin))"
  shows "(\<forall>r \<in> set (access_of i s'). honest_candidate meters (fst origin) s r) \<and>
    (\<forall>(mode, radius) \<in> set CANDIDATE_RADII_M. \<forall>p \<in> set (db_stops s).
       reachable_complex meters (fst origin) mode radius p \<longrightarrow>
       candidate_or_full meters (fst origin) s (access_of i s') mode p)"
proof -
  let ?hash = "sha (origin_text origin)"
  let ?near = "\<lambda>mode radius. nearest_stops meters (fst origin) mode radius s"
  let ?n2 = "db_next s + length (?near TransitMode.SUBWAY 1600)"
  let ?a = "rows_of_mode meters i (fst origin) ?hash now (db_next s) TransitMode.SUBWAY (?near TransitMode.SUBWAY 1600)"
  let ?b = "rows_of_mode meters i (fst origin) ?hash now ?n2 TransitMode.PATH (?near TransitMode.PATH 2000)"
  have radii: "set CANDIDATE_RADII_M = {(TransitMode.SUBWAY, 1600), (TransitMode.PATH, 2000)}"
    by (auto simp: CANDIDATE_RADII_M_def)
  have rows: "access_of i s' = ?a @ ?b"
    using enrich_listing_rows(1) [where sha = sha, OF assms(2,3,1)] by (simp add: CANDIDATE_RADII_M_def Let_def)
  have "honest_candidate meters (fst origin) s r" if "r \<in> set (access_of i s')" for r
  proof -
    from that consider "r \<in> set ?a" | "r \<in> set ?b" unfolding rows by auto
    then show ?thesis
      by cases (rule mode_rows_honest; simp add: radii)+
  qed
  moreover have "candidate_or_full meters (fst origin) s (access_of i s') TransitMode.SUBWAY p"
    if "p \<in> set (db_stops s)" "reachable_complex meters (fst origin) TransitMode.SUBWAY 1600 p" for p
    by (rule mode_rows_full [OF that]) (simp add: rows rows_of_mode_mode)
  moreover have "candidate_or_full meters (fst origin) s (access_of i s') TransitMode.PATH p"
    if "p \<in> set (db_stops s)" "reachable_complex meters (fst origin) TransitMode.PATH 2000 p" for p
    by (rule mode_rows_full [OF that]) (simp add: rows rows_of_mode_mode)
  ultimately show ?thesis by (auto simp: radii)
qed

text \<open>A located listing at the station, with a distance that tells places apart.\<close>

definition demo_near :: db where
  "demo_near = demo_transit\<lparr>db_listings := [demo_listing 10], db_buildings := [new_building 1 3],
     db_addresses := [(demo_address 3 BoundaryStatus.IN_SCOPE)
       \<lparr>ad_location_point := Some (- 739 / 10, 163 / 4)\<rparr>]\<rparr>"

definition apart :: "point \<Rightarrow> point \<Rightarrow> rat" where
  "apart p q = (if p = q then 0 else 5000)"

definition demo_candidates :: db where
  "demo_candidates = snd (enrich_listing apart (\<lambda>t. t) 10 7 demo_near)"

lemma demo_near_origin:
  "listing_origin 10 demo_near = Some ((- 739 / 10, 163 / 4), LocationPrecision.BUILDING)"
  "access_hash 10 demo_near = None" "length (access_of 10 demo_candidates) = 1"
  by code_simp+

theorem nearby_candidates_witness:
  "length (access_of 10 demo_candidates) = 1 \<and>
   list_all (honest_candidate apart (- 739 / 10, 163 / 4) demo_near) (access_of 10 demo_candidates)"
proof -
  have "enrich_listing apart (\<lambda>t. t) 10 7 demo_near =
      (fst (enrich_listing apart (\<lambda>t. t) 10 7 demo_near), demo_candidates)"
    by (simp add: demo_candidates_def)
  from nearby_candidates [OF this demo_near_origin(1)] demo_near_origin(2,3) show ?thesis
    by (simp add: list_all_iff)
qed

text \<open>
  Candidates are reused: right after a run, another run at any time creates nothing and changes
  nothing, whether or not the first found a complex.
\<close>
theorem nearby_reuse:
  "enrich_listing meters sha i later (snd (enrich_listing meters sha i now s)) =
     (0, snd (enrich_listing meters sha i now s))"
proof (cases "listing_origin i s")
  case None
  then show ?thesis by (simp add: enrich_listing_def)
next
  case (Some origin)
  let ?hash = "sha (origin_text origin)"
  obtain n s' where run: "enrich_listing meters sha i now s = (n, s')" by fastforce
  show ?thesis
  proof (cases "access_hash i s = Some ?hash")
    case True
    with Some show ?thesis by (simp add: enrich_listing_reused)
  next
    case False
    note rows = enrich_listing_rows [where sha = sha, OF Some False run]
    obtain rs m where s': "s' = (drop_access i s)\<lparr>db_access := rs, db_next := m\<rparr>" using rows(3) by blast
    have origin': "listing_origin i s' = Some origin"
      using Some listing_origin_cong [of s' s i] by (simp add: s' drop_access_def)
    show ?thesis
    proof (cases "access_of i s'")
      case (Cons r rest)
      then have "r \<in> set (access_of i s')" by simp
      then have "acc_input_location_hash r = ?hash" unfolding rows(1) using rows_of_modes_hash by blast
      with Cons origin' run show ?thesis by (simp add: enrich_listing_reused access_hash_def)
    next
      case Nil
      have "enrich_listing meters sha i later s' = add_modes meters i (fst origin) ?hash later CANDIDATE_RADII_M s'"
        using enrich_listing_state [where sha = sha, OF origin'] Nil by (simp add: access_hash_def drop_access_absent)
      moreover have "rows_of_modes meters i (fst origin) ?hash later (db_next s') CANDIDATE_RADII_M s' = []"
      proof -
        have stops: "db_stops s' = db_stops s" by (simp add: s' drop_access_def)
        from Nil rows(1) have "nearest_stops meters (fst origin) TransitMode.SUBWAY 1600 s = []"
            "nearest_stops meters (fst origin) TransitMode.PATH 2000 s = []"
          by (simp_all add: CANDIDATE_RADII_M_def Let_def)
        then show ?thesis by (simp add: CANDIDATE_RADII_M_def Let_def nearest_stops_def stops)
      qed
      ultimately show ?thesis using run by (simp add: add_modes_state)
    qed
  qed
qed

text \<open>
  The usefulness rule decides candidates only: a candidate becomes useful exactly when its straight
  line is within the band and its mode has a direct-access reason; every other row stays, and the
  summary counts both outcomes.
\<close>
theorem usefulness_rule:
  assumes "distinct (map acc_id (db_access s))"
    and "length (filter (\<lambda>r. acc_usefulness_status r = UsefulnessStatus.CANDIDATE) (db_access s)) \<le> limit"
  shows "snd (classify_usefulness limit s) = s\<lparr>db_access := map (\<lambda>r.
      if acc_usefulness_status r = UsefulnessStatus.CANDIDATE then classify_one r else r) (db_access s)\<rparr> \<and>
    us_useful (fst (classify_usefulness limit s)) + us_candidate (fst (classify_usefulness limit s)) =
      us_evaluated (fst (classify_usefulness limit s))"
proof -
  let ?rs = "filter (\<lambda>r. acc_usefulness_status r = UsefulnessStatus.CANDIDATE) (db_access s)"
  have dist: "distinct (map acc_id ?rs)" using assms(1) by (simp add: distinct_map_filter)
  have mem: "acc_id r \<in> acc_id ` set ?rs \<longleftrightarrow> acc_usefulness_status r = UsefulnessStatus.CANDIDATE"
    if "r \<in> set (db_access s)" for r
    using that assms(1) by (auto simp: distinct_map inj_on_def)
  have take: "take limit ?rs = ?rs" using assms(2) by simp
  have "update_where (\<lambda>r. acc_id r \<in> acc_id ` set ?rs) classify_one (db_access s) = map (\<lambda>r.
      if acc_usefulness_status r = UsefulnessStatus.CANDIDATE then classify_one r else r) (db_access s)"
    unfolding update_where_def by (rule map_cong) (use mem in auto)
  moreover have "length (filter (\<lambda>r. useful_reason r \<noteq> None) ?rs) + length (filter (\<lambda>r. useful_reason r = None) ?rs) = length ?rs"
    using sum_length_filter_compl [of "\<lambda>r. useful_reason r \<noteq> None" ?rs] by simp
  ultimately show ?thesis
    using classify_rows_state [OF dist] take
    by (simp add: classify_usefulness_def new_usefulness_summary_def del: filter_filter)
qed

text \<open>
  A walk is only ever written from an answer of the router, on a rank-one candidate without one;
  the straight line is never promoted to a walk, and the row passes validation exactly when the
  answer is plausible.
\<close>
theorem walks_are_routed:
  assumes "enrich_primary_candidates router route limit w s = Inr (m, w', s')"
    and "distinct (map acc_id (db_access s))"
  shows "\<exists>rows. s' = s\<lparr>db_access := rows\<rparr> \<and> list_all2 (\<lambda>r r'. r' = r \<or>
    needs_walk s r \<and> walked router route s r r' \<and>
    (acc_validation_status r' = TransitValidationStatus.PASSED \<longleftrightarrow>
       (\<exists>d t. acc_walking_distance_m r' = Some d \<and> acc_walking_duration_s r' = Some t \<and>
          walk_issue (case acc_straight_line_distance_m r of None \<Rightarrow> 0 | Some x \<Rightarrow> x) d t = None)))
    (db_access s) rows"
proof -
  let ?rs = "take limit (filter (needs_walk s) (db_access s))"
  have rs: "r \<in> set (db_access s) \<and> needs_walk s r" if "r \<in> set ?rs" for r
    using in_set_takeD [OF that] by simp
  have "distinct (map acc_id ?rs)"
    using assms(2) by (simp add: take_map [symmetric] distinct_map_filter)
  moreover have "set ?rs \<subseteq> set (db_access s)" using rs by blast
  ultimately obtain rows where s': "s' = s\<lparr>db_access := rows\<rparr>"
    and rel: "list_all2 (\<lambda>r r'. r' = r \<or> r \<in> set ?rs \<and> walked router route s r r') (db_access s) rows"
    using walk_rows_effect [OF assms(1) [unfolded enrich_primary_candidates_def] _ _ assms(2)] by blast
  have "list_all2 (\<lambda>r r'. r' = r \<or> needs_walk s r \<and> walked router route s r r' \<and>
    (acc_validation_status r' = TransitValidationStatus.PASSED \<longleftrightarrow>
       (\<exists>d t. acc_walking_distance_m r' = Some d \<and> acc_walking_duration_s r' = Some t \<and>
          walk_issue (case acc_straight_line_distance_m r of None \<Rightarrow> 0 | Some x \<Rightarrow> x) d t = None)))
    (db_access s) rows"
    using rel by (rule list_all2_mono) (use rs walked_passed in blast)
  with s' show ?thesis by blast
qed

definition demo_route :: "unit walk_route" where
  "demo_route origin dest w = (Inr (Some (100, 80)), w)"

lemma demo_walk:
  "case enrich_primary_candidates ''osrm'' demo_route 5 () demo_candidates of
     Inl e \<Rightarrow> False
   | Inr (m, w, s) \<Rightarrow> wk_routed m = 1 \<and> map acc_walking_duration_s (db_access s) = [Some 80]"
  by code_simp

theorem walks_are_routed_witness:
  "\<exists>m w s rows. enrich_primary_candidates ''osrm'' demo_route 5 () demo_candidates = Inr (m, w, s) \<and>
     wk_routed m = 1 \<and> s = demo_candidates\<lparr>db_access := rows\<rparr> \<and> map acc_walking_duration_s rows = [Some 80]"
proof -
  obtain m w s where run: "enrich_primary_candidates ''osrm'' demo_route 5 () demo_candidates = Inr (m, w, s)"
      "wk_routed m = 1" "map acc_walking_duration_s (db_access s) = [Some 80]"
    using demo_walk by (auto split: sum.splits prod.splits)
  have "distinct (map acc_id (db_access demo_candidates))" by code_simp
  from walks_are_routed [OF run(1) this] obtain rows where "s = demo_candidates\<lparr>db_access := rows\<rparr>" by blast
  with run show ?thesis by auto
qed

end
