(* ===== verification/Pydantic.thy ===== *)
theory Pydantic
  imports PyJson Schema Facts
begin

text \<open>
  Reading a model's answer: the classes that forbid extra fields, with Pydantic's conversions of a
  decoded JSON value to the field types the classes use, and the text searches that the services
  apply to what they read.  A value that no conversion accepts raises \<open>ValidationError\<close>.  Numbers
  in text are ASCII decimals without underscores.
\<close>

section \<open>Scalars\<close>

definition drop_zero_fraction :: "string \<Rightarrow> string" where
  "drop_zero_fraction t =
     (case dropWhile (\<lambda>c. c \<noteq> CHR ''.'') t of
        [] \<Rightarrow> t
      | c # zs \<Rightarrow> if list_all (\<lambda>z. z = CHR ''0'') zs then takeWhile (\<lambda>c. c \<noteq> CHR ''.'') t else t)"

fun field_int :: "json \<Rightarrow> int result" where
  "field_int (JBool b) = Inr (if b then 1 else 0)"
| "field_int (JInt n) = Inr n"
| "field_int (JNum x) = (if of_int \<lfloor>x\<rfloor> = x then Inr \<lfloor>x\<rfloor> else Inl ValidationError)"
| "field_int (JStr t) = (case int_of_text (drop_zero_fraction (py_strip t)) of
     None \<Rightarrow> Inl ValidationError | Some n \<Rightarrow> Inr n)"
| "field_int _ = Inl ValidationError"

definition py_lower :: "string \<Rightarrow> string" where
  "py_lower t = map lower_char t"

definition TRUE_TEXTS :: "string list" where
  "TRUE_TEXTS = [''1'', ''on'', ''t'', ''true'', ''y'', ''yes'']"

definition FALSE_TEXTS :: "string list" where
  "FALSE_TEXTS = [''0'', ''off'', ''f'', ''false'', ''n'', ''no'']"

fun field_bool :: "json \<Rightarrow> bool result" where
  "field_bool (JBool b) = Inr b"
| "field_bool (JInt n) = (if n = 1 then Inr True else if n = 0 then Inr False else Inl ValidationError)"
| "field_bool (JNum x) = (if x = 1 then Inr True else if x = 0 then Inr False else Inl ValidationError)"
| "field_bool (JStr t) = (if py_lower t \<in> set TRUE_TEXTS then Inr True
     else if py_lower t \<in> set FALSE_TEXTS then Inr False else Inl ValidationError)"
| "field_bool _ = Inl ValidationError"

fun field_str :: "json \<Rightarrow> string result" where
  "field_str (JStr t) = Inr t"
| "field_str _ = Inl ValidationError"

definition field_opt :: "(json \<Rightarrow> 'a result) \<Rightarrow> json \<Rightarrow> 'a option result" where
  "field_opt f j = (if j = JNull then Inr None else bind_result (f j) (\<lambda>x. Inr (Some x)))"

fun field_list :: "(json \<Rightarrow> 'a result) \<Rightarrow> json \<Rightarrow> 'a list result" where
  "field_list f (JList js) = collect f js"
| "field_list f _ = Inl ValidationError"

definition field_enum :: "'e list \<Rightarrow> ('e \<Rightarrow> string) \<Rightarrow> json \<Rightarrow> 'e result" where
  "field_enum members text_of j = (case j of
     JStr t \<Rightarrow> (case enum_of_value members text_of t of Inl _ \<Rightarrow> Inl ValidationError | Inr e \<Rightarrow> Inr e)
   | _ \<Rightarrow> Inl ValidationError)"

text \<open>\<open>Field(ge=n)\<close>\<close>

definition at_least :: "int \<Rightarrow> (json \<Rightarrow> int result) \<Rightarrow> json \<Rightarrow> int result" where
  "at_least n f j = bind_result (f j) (\<lambda>x. if n \<le> x then Inr x else Inl ValidationError)"

section \<open>Models\<close>

text \<open>The keys and values of a model that forbids extra fields; required and defaulted fields.\<close>

definition model_fields :: "string list \<Rightarrow> json \<Rightarrow> (string \<times> json) list result" where
  "model_fields names j = (case j of
     JObj kvs \<Rightarrow> if fst ` set kvs \<subseteq> set names then Inr kvs else Inl ValidationError
   | _ \<Rightarrow> Inl ValidationError)"

definition required :: "string \<Rightarrow> (json \<Rightarrow> 'a result) \<Rightarrow> (string \<times> json) list \<Rightarrow> 'a result" where
  "required k f kvs = (case map_of kvs k of None \<Rightarrow> Inl ValidationError | Some v \<Rightarrow> f v)"

definition defaulted :: "string \<Rightarrow> 'a \<Rightarrow> (json \<Rightarrow> 'a result) \<Rightarrow> (string \<times> json) list \<Rightarrow> 'a result" where
  "defaulted k d f kvs = (case map_of kvs k of None \<Rightarrow> Inr d | Some v \<Rightarrow> f v)"

text \<open>\<open>model_dump\<close> of optional text and of a list of texts.\<close>

definition json_text :: "string option \<Rightarrow> json" where
  "json_text t = (case t of None \<Rightarrow> JNull | Some x \<Rightarrow> JStr x)"

definition json_int :: "int option \<Rightarrow> json" where
  "json_int n = (case n of None \<Rightarrow> JNull | Some x \<Rightarrow> JInt x)"

definition json_texts :: "string list \<Rightarrow> json" where
  "json_texts ts = JList (map JStr ts)"

lemma at_least_InrD: "at_least n f j = Inr x \<Longrightarrow> n \<le> x"
  by (auto simp: at_least_def bind_result_Inr_iff split: if_splits)

lemma requiredE:
  assumes "required k f kvs = Inr x"
  obtains v where "map_of kvs k = Some v" "f v = Inr x"
  using assms by (auto simp: required_def split: option.splits)

text \<open>\<open>[a.strip() for a in xs if a.strip()][:25]\<close>, the label lists of three services.\<close>

definition amenity_labels :: "string list \<Rightarrow> string list" where
  "amenity_labels xs = take 25 (filter (\<lambda>t. t \<noteq> []) (map py_strip xs))"

text \<open>\<open>text in {t.value for t in LaundryType}\<close>\<close>

definition laundry_value :: "string \<Rightarrow> bool" where
  "laundry_value t \<longleftrightarrow> t \<in> set (map LaundryType_value LaundryType_members)"

section \<open>Searching text\<close>

text \<open>\<open>sep.join(ts)\<close>\<close>

fun join_texts :: "string \<Rightarrow> string list \<Rightarrow> string" where
  "join_texts sep [] = []"
| "join_texts sep [t] = t"
| "join_texts sep (t # ts) = t @ sep @ join_texts sep ts"

text \<open>\<open>needle in t\<close>\<close>

fun contains_text :: "string \<Rightarrow> string \<Rightarrow> bool" where
  "contains_text needle [] \<longleftrightarrow> needle = []"
| "contains_text needle (c # cs) \<longleftrightarrow> starts_with (c # cs) needle \<or> contains_text needle cs"

definition ends_with :: "string \<Rightarrow> string \<Rightarrow> bool" where
  "ends_with t ending \<longleftrightarrow> starts_with (rev t) (rev ending)"

text \<open>The maximal runs of characters with a property, in order.\<close>

function runs_of :: "(char \<Rightarrow> bool) \<Rightarrow> string \<Rightarrow> string list" where
  "runs_of p [] = []"
| "runs_of p (c # cs) = (if p c then (c # takeWhile p cs) # runs_of p (dropWhile p cs) else runs_of p cs)"
  by pat_completeness auto

termination
  by (relation "measure (\<lambda>(p, t). length t)") (auto simp: length_dropWhile_le le_imp_less_Suc)

text \<open>SQL's \<open>LIKE\<close>, and \<open>ILIKE\<close> on ASCII text.\<close>

fun sql_like :: "string \<Rightarrow> string \<Rightarrow> bool" where
  "sql_like [] t = (t = [])"
| "sql_like (c # p) [] = (c = CHR ''%'' \<and> sql_like p [])"
| "sql_like (c # p) (d # t) =
     (if c = CHR ''%'' then sql_like p (d # t) \<or> sql_like (c # p) t
      else if c = CHR 0x5C then (case p of [] \<Rightarrow> False | e # q \<Rightarrow> e = d \<and> sql_like q t)
      else (c = CHR ''_'' \<or> c = d) \<and> sql_like p t)"

definition sql_ilike :: "string \<Rightarrow> string \<Rightarrow> bool" where
  "sql_ilike p t = sql_like (py_lower p) (py_lower t)"

text \<open>A pattern \<open>%needle%\<close> without special characters is a search.\<close>

lemma starts_with_plain:
  assumes "\<forall>c \<in> set needle. c \<notin> set [CHR ''%'', CHR ''_'', CHR 0x5C]"
  shows "sql_like (needle @ p) t \<longleftrightarrow> starts_with t needle \<and> sql_like p (drop (length needle) t)"
  using assms
proof (induction needle arbitrary: t)
  case (Cons c needle)
  then show ?case by (cases t) (auto simp: starts_with_def)
qed (simp add: starts_with_def)

lemma sql_like_rest: "sql_like ''%'' t"
  by (induction t) simp_all

lemma sql_like_plain:
  assumes "\<forall>c \<in> set needle. c \<notin> set [CHR ''%'', CHR ''_'', CHR 0x5C]"
  shows "sql_like (CHR ''%'' # needle @ ''%'') t \<longleftrightarrow> contains_text needle t"
proof (induction t)
  case Nil
  have "sql_like (CHR ''%'' # needle @ ''%'') [] = sql_like (needle @ ''%'') []" by simp
  also have "\<dots> \<longleftrightarrow> starts_with [] needle"
    by (subst starts_with_plain [OF assms]) (simp add: sql_like_rest del: sql_like.simps)
  finally show ?case by (cases needle) (auto simp: starts_with_def)
next
  case (Cons c t)
  have "sql_like (CHR ''%'' # needle @ ''%'') (c # t) \<longleftrightarrow>
      sql_like (needle @ ''%'') (c # t) \<or> sql_like (CHR ''%'' # needle @ ''%'') t"
    by simp
  also have "sql_like (needle @ ''%'') (c # t) \<longleftrightarrow> starts_with (c # t) needle"
    by (subst starts_with_plain [OF assms]) (simp add: sql_like_rest del: sql_like.simps)
  finally show ?case using Cons.IH by simp
qed

end
