(* ===== verification/Research.thy ===== *)
theory Research
  imports Pydantic Location Transit
begin

text \<open>
  The on-demand research services: commute times (\<open>enrichment/commute/research.py\<close>), amenities
  (\<open>amenities/research.py\<close>) and nearby dining and stores (\<open>poi/research.py\<close>).  The executor is any
  \<open>LlmExecutor\<close>; \<open>schema\<close> stands for the JSON schema that Pydantic generates, \<open>dates\<close> for its reading
  and writing of timestamps, and \<open>digest\<close> for the SHA-256 of the \<open>repr\<close> of a tuple of an identifier
  and texts.
\<close>

record date_format =
  df_read :: "json \<Rightarrow> datetime option"
  df_write :: "datetime \<Rightarrow> string"

definition field_date :: "date_format \<Rightarrow> json \<Rightarrow> datetime result" where
  "field_date dates j = (case df_read dates j of None \<Rightarrow> Inl ValidationError | Some t \<Rightarrow> Inr t)"

definition json_date :: "date_format \<Rightarrow> datetime option \<Rightarrow> json" where
  "json_date dates t = (case t of None \<Rightarrow> JNull | Some x \<Rightarrow> JStr (df_write dates x))"

text \<open>\<open>timedelta(days=n)\<close> in microseconds.\<close>

definition days_us :: "int \<Rightarrow> int" where
  "days_us n = hours (24 * n)"

section \<open>Commute research\<close>

definition COMMUTE_TASK_TYPE :: string where
  "COMMUTE_TASK_TYPE = ''commute_research''"

definition COMMUTE_PROMPT_VERSION :: string where
  "COMMUTE_PROMPT_VERSION = ''1.0.0''"

definition COMMUTE_OUTPUT_SCHEMA_VERSION :: string where
  "COMMUTE_OUTPUT_SCHEMA_VERSION = ''1.0.0''"

record ResearchSource =
  rs_url :: string
  rs_title :: "string option"
  rs_accessed_at :: "datetime option"

record CommuteResearchOutput =
  co_duration_min_s :: int
  co_duration_max_s :: int
  co_likely_routes :: "string list"
  co_transfer_count :: "int option"
  co_named_stations :: "string list"
  co_summary :: "string option"
  co_sources :: "ResearchSource list"
  co_confidence :: Confidence

definition read_source :: "date_format \<Rightarrow> json \<Rightarrow> ResearchSource result" where
  "read_source dates j =
     bind_result (model_fields [''url'', ''title'', ''accessed_at''] j) (\<lambda>kvs.
     bind_result (required ''url'' field_str kvs) (\<lambda>url.
     bind_result (defaulted ''title'' None (field_opt field_str) kvs) (\<lambda>title.
     bind_result (defaulted ''accessed_at'' None (field_opt (field_date dates)) kvs) (\<lambda>accessed.
     Inr \<lparr>rs_url = url, rs_title = title, rs_accessed_at = accessed\<rparr>))))"

definition COMMUTE_FIELDS :: "string list" where
  "COMMUTE_FIELDS = [''duration_min_s'', ''duration_max_s'', ''likely_routes'', ''transfer_count'',
     ''named_stations'', ''summary'', ''sources'', ''confidence'']"

definition read_commute :: "date_format \<Rightarrow> json \<Rightarrow> CommuteResearchOutput result" where
  "read_commute dates j =
     bind_result (model_fields COMMUTE_FIELDS j) (\<lambda>kvs.
     bind_result (required ''duration_min_s'' (at_least 0 field_int) kvs) (\<lambda>dmin.
     bind_result (required ''duration_max_s'' (at_least 0 field_int) kvs) (\<lambda>dmax.
     bind_result (defaulted ''likely_routes'' [] (field_list field_str) kvs) (\<lambda>routes.
     bind_result (defaulted ''transfer_count'' None (field_opt (at_least 0 field_int)) kvs) (\<lambda>transfers.
     bind_result (defaulted ''named_stations'' [] (field_list field_str) kvs) (\<lambda>stations.
     bind_result (defaulted ''summary'' None (field_opt field_str) kvs) (\<lambda>summary.
     bind_result (required ''sources'' (field_list (read_source dates)) kvs) (\<lambda>sources.
     bind_result (defaulted ''confidence'' Confidence.UNKNOWN
       (field_enum Confidence_members Confidence_value) kvs) (\<lambda>confidence.
     Inr \<lparr>co_duration_min_s = dmin, co_duration_max_s = dmax, co_likely_routes = routes,
          co_transfer_count = transfers, co_named_stations = stations, co_summary = summary,
          co_sources = sources, co_confidence = confidence\<rparr>)))))))))"

definition dump_source :: "date_format \<Rightarrow> ResearchSource \<Rightarrow> json" where
  "dump_source dates r = JObj [(''url'', JStr (rs_url r)), (''title'', json_text (rs_title r)),
     (''accessed_at'', json_date dates (rs_accessed_at r))]"

definition dump_commute :: "date_format \<Rightarrow> CommuteResearchOutput \<Rightarrow> json" where
  "dump_commute dates c = JObj [(''duration_min_s'', JInt (co_duration_min_s c)),
     (''duration_max_s'', JInt (co_duration_max_s c)),
     (''likely_routes'', json_texts (co_likely_routes c)),
     (''transfer_count'', json_int (co_transfer_count c)),
     (''named_stations'', json_texts (co_named_stations c)), (''summary'', json_text (co_summary c)),
     (''sources'', JList (map (dump_source dates) (co_sources c))),
     (''confidence'', JStr (Confidence_value (co_confidence c)))]"

text \<open>\<open>get_fresh_result\<close>: the latest unexpired estimate of the target.\<close>

definition for_target :: "uuid option \<Rightarrow> uuid option \<Rightarrow> commute_result \<Rightarrow> bool" where
  "for_target listing company r = (case listing of
     Some i \<Rightarrow> cmr_canonical_listing_id r = Some i
   | None \<Rightarrow> cmr_company_property_id r = company)"

definition fresh_for ::
  "uuid option \<Rightarrow> uuid option \<Rightarrow> uuid \<Rightarrow> datetime \<Rightarrow> commute_result \<Rightarrow> bool" where
  "fresh_for listing company destination now r \<longleftrightarrow> for_target listing company r \<and>
     cmr_destination_id r = destination \<and> cmr_result_type r = CommuteResultType.RESEARCHED_ESTIMATE \<and>
     (case cmr_expires_at r of None \<Rightarrow> False | Some t \<Rightarrow> now < t)"

definition get_fresh_result ::
  "uuid option \<Rightarrow> uuid option \<Rightarrow> uuid \<Rightarrow> datetime \<Rightarrow> db \<Rightarrow> commute_result option" where
  "get_fresh_result listing company destination now s =
     (case sort_key (\<lambda>r. - cmr_calculated_at r)
        (filter (fresh_for listing company destination now) (db_commutes s)) of
        [] \<Rightarrow> None | r # _ \<Rightarrow> Some r)"

text \<open>\<open>_cross_check\<close>: named stations by \<open>ILIKE\<close>, routes by any short token that is a route name.\<close>

definition known_station :: "db \<Rightarrow> string \<Rightarrow> bool" where
  "known_station s station \<longleftrightarrow>
     (\<exists>p \<in> set (db_stops s). sql_ilike (''%'' @ station @ ''%'') (sto_stop_name p))"

definition token_char :: "char \<Rightarrow> bool" where
  "token_char c \<longleftrightarrow> (word_char c \<and> c \<noteq> CHR ''_'') \<or> c = CHR ''-''"

definition route_tokens :: "string \<Rightarrow> string list" where
  "route_tokens route = map py_upper (filter (\<lambda>t. length t \<le> 7) (runs_of token_char route))"

definition known_route :: "db \<Rightarrow> string \<Rightarrow> bool" where
  "known_route s route \<longleftrightarrow> (\<exists>r \<in> set (db_routes s). case rte_route_short_name r of
     None \<Rightarrow> False | Some name \<Rightarrow> py_upper name \<in> set (route_tokens route))"

definition cross_check :: "CommuteResearchOutput \<Rightarrow> db \<Rightarrow> TransitValidationStatus \<times> json" where
  "cross_check c s =
     (if db_stops s = []
      then (TransitValidationStatus.UNABLE_TO_VALIDATE,
            JObj [(''reason'', JStr ''no local transit dataset loaded'')])
      else (let stations = filter (\<lambda>t. \<not> known_station s t) (co_named_stations c);
                routes = filter (\<lambda>t. \<not> known_route s t) (co_likely_routes c)
            in if stations \<noteq> [] \<or> routes \<noteq> []
               then (TransitValidationStatus.WARNING,
                     JObj [(''unmatched_stations'', json_texts stations),
                       (''unmatched_routes'', json_texts routes)])
               else (TransitValidationStatus.PASSED, JObj [])))"

text \<open>The request to the executor.\<close>

definition COMMUTE_INSTRUCTIONS :: string where
  "COMMUTE_INSTRUCTIONS = ''Use web search/browsing tools to research the typical public-transit commute-time range, likely routes, and transfers. Cite every source. Do not answer from memory.''"

definition commute_refs :: "uuid option \<Rightarrow> uuid \<Rightarrow> destination \<Rightarrow> json" where
  "commute_refs listing target d = JObj
     [(if listing \<noteq> None then ''listing'' else ''company_property'', JUuid target),
      (''destination'', JStr (dst_destination_code d))]"

definition commute_request :: "json \<Rightarrow> uuid option \<Rightarrow> uuid \<Rightarrow> destination \<Rightarrow> string \<Rightarrow> LlmTaskRequest" where
  "commute_request schema listing target d origin =
     \<lparr>lq_task_type = COMMUTE_TASK_TYPE, lq_prompt_version = COMMUTE_PROMPT_VERSION,
      lq_output_schema_version = COMMUTE_OUTPUT_SCHEMA_VERSION,
      lq_input_refs = commute_refs listing target d,
      lq_input_payload = JObj [(''origin'', JStr origin), (''destination'', JStr (dst_display_name d)),
        (''destination_anchor'', JStr (dst_routing_anchor_name d)),
        (''scenario'', JStr ''typical weekday morning public-transit commute''),
        (''instructions'', JStr COMMUTE_INSTRUCTIONS)],
      lq_output_schema = Some schema, lq_tier = ModelTier.DEFAULT_HOSTED\<rparr>"

text \<open>The contract on the answer: a validated object with cited sources and an ordered range.\<close>

definition accepted_commute :: "date_format \<Rightarrow> LlmTaskResult \<Rightarrow> CommuteResearchOutput result" where
  "accepted_commute dates result =
     (if lr_status result \<noteq> ModelExecutionStatus.SUCCEEDED then Inl CommuteResearchRejected
      else (case lr_output result of
              None \<Rightarrow> Inl CommuteResearchRejected
            | Some j \<Rightarrow> (case read_commute dates j of
                Inl _ \<Rightarrow> Inl CommuteResearchRejected
              | Inr c \<Rightarrow> if co_sources c = [] then Inl CommuteResearchRejected
                         else if co_duration_max_s c < co_duration_min_s c then Inl CommuteResearchRejected
                         else Inr c)))"

definition model_name :: "LlmTaskResult \<Rightarrow> string" where
  "model_name result = (if lr_model_id result = [] then ''unknown'' else lr_model_id result)"

text \<open>The unique index of the audit table, and the insert under it.\<close>

definition execution_key :: "model_execution \<Rightarrow> string \<times> string \<times> string \<times> string \<times> string" where
  "execution_key x = (mex_task_type x, mex_input_hash x, mex_prompt_version x,
     mex_output_schema_version x, mex_model_id x)"

definition add_execution :: "(uuid \<Rightarrow> model_execution) \<Rightarrow> model_execution tx" where
  "add_execution row s =
     (let x = row (db_next s)
      in if \<not> int8_opt (mex_input_tokens x) \<or> \<not> int8_opt (mex_output_tokens x)
         then Inl data_error
         else if \<exists>y \<in> set (db_executions s). execution_key y = execution_key x then Inl IntegrityError
         else Inr (x, s\<lparr>db_executions := db_executions s @ [x], db_next := Suc (db_next s)\<rparr>))"

definition new_commute_execution ::
  "date_format \<Rightarrow> string \<Rightarrow> string \<Rightarrow> json \<Rightarrow> LlmTaskResult \<Rightarrow> CommuteResearchOutput \<Rightarrow>
   TransitValidationStatus \<Rightarrow> datetime \<Rightarrow> uuid \<Rightarrow> model_execution" where
  "new_commute_execution dates provider input_hash refs result c validation now i =
     \<lparr>mex_id = i, mex_job_id = None, mex_provider_code = provider, mex_model_id = model_name result,
      mex_model_tier = ModelTier.DEFAULT_HOSTED, mex_task_type = COMMUTE_TASK_TYPE,
      mex_prompt_version = COMMUTE_PROMPT_VERSION,
      mex_output_schema_version = COMMUTE_OUTPUT_SCHEMA_VERSION, mex_input_hash = input_hash,
      mex_input_refs = refs, mex_output_ref = Some (dump_commute dates c),
      mex_confidence = co_confidence c,
      mex_validation_status = (if validation = TransitValidationStatus.PASSED
        then ValidationStatus.PASSED else ValidationStatus.WARNING),
      mex_escalated_from_id = None, mex_input_tokens = lr_input_tokens result,
      mex_output_tokens = lr_output_tokens result, mex_cost_minor = None, mex_currency_code = None,
      mex_started_at = now, mex_completed_at = Some now, mex_status = ModelExecutionStatus.SUCCEEDED\<rparr>"

definition new_commute ::
  "date_format \<Rightarrow> int \<Rightarrow> uuid option \<Rightarrow> uuid option \<Rightarrow> destination \<Rightarrow> string \<Rightarrow> uuid \<Rightarrow>
   CommuteResearchOutput \<Rightarrow> TransitValidationStatus \<times> json \<Rightarrow> datetime \<Rightarrow> uuid \<Rightarrow> commute_result" where
  "new_commute dates cache_days listing company d location_hash execution c checked now i =
     \<lparr>cmr_id = i, cmr_canonical_listing_id = listing, cmr_company_property_id = company,
      cmr_destination_id = dst_id d, cmr_result_type = CommuteResultType.RESEARCHED_ESTIMATE,
      cmr_provider_request_id = None, cmr_model_execution_id = Some execution,
      cmr_travel_mode = TravelMode.PUBLIC_TRANSIT, cmr_time_basis = TimeBasis.DEPART_AT,
      cmr_requested_local_datetime = None, cmr_duration_s = None,
      cmr_duration_min_s = Some (co_duration_min_s c), cmr_duration_max_s = Some (co_duration_max_s c),
      cmr_distance_m = None, cmr_transfer_count = co_transfer_count c,
      cmr_route_summary = Some (JObj [(''likely_routes'', json_texts (co_likely_routes c)),
        (''named_stations'', json_texts (co_named_stations c)), (''summary'', json_text (co_summary c)),
        (''label'', JStr ''web-researched estimate'')]),
      cmr_sources = Some (map (dump_source dates) (co_sources c)), cmr_confidence = co_confidence c,
      cmr_result_status = CommuteResultStatus.AVAILABLE, cmr_validation_status = fst checked,
      cmr_validation_reasons = Some (snd checked), cmr_input_location_hash = location_hash,
      cmr_destination_registry_version = dst_registry_version d, cmr_calculated_at = now,
      cmr_expires_at = Some (now + days_us cache_days)\<rparr>"

text \<open>The insert of the estimate: 32-bit columns and the reference to its target.\<close>

definition target_exists :: "commute_result \<Rightarrow> db \<Rightarrow> bool" where
  "target_exists r s \<longleftrightarrow>
     (case cmr_canonical_listing_id r of None \<Rightarrow> True | Some i \<Rightarrow> get_by cl_id i (db_listings s) \<noteq> None) \<and>
     (case cmr_company_property_id r of None \<Rightarrow> True | Some i \<Rightarrow> get_by cpy_id i (db_company s) \<noteq> None)"

definition add_commute :: "(uuid \<Rightarrow> commute_result) \<Rightarrow> commute_result tx" where
  "add_commute row s =
     (let r = row (db_next s)
      in if \<not> int4_opt (cmr_duration_min_s r) \<or> \<not> int4_opt (cmr_duration_max_s r) \<or>
            \<not> int4_opt (cmr_transfer_count r) then Inl data_error
         else if \<not> target_exists r s then Inl IntegrityError
         else Inr (r, s\<lparr>db_commutes := db_commutes s @ [r], db_next := Suc (db_next s)\<rparr>))"

text \<open>What \<open>research\<close> does with the executor's answer.\<close>

definition persist_commute ::
  "date_format \<Rightarrow> int \<Rightarrow> string \<Rightarrow> uuid option \<Rightarrow> uuid option \<Rightarrow> destination \<Rightarrow> json \<Rightarrow> string \<Rightarrow>
   string \<Rightarrow> datetime \<Rightarrow> LlmTaskResult \<Rightarrow> commute_result tx" where
  "persist_commute dates cache_days provider listing company d refs input_hash location_hash now result s =
     bind_result (accepted_commute dates result) (\<lambda>c.
     (let checked = cross_check c s
      in bind_result (add_execution (new_commute_execution dates provider input_hash refs result c
           (fst checked) now) s) (\<lambda>(x, s1).
         add_commute (new_commute dates cache_days listing company d location_hash (mex_id x) c
           checked now) s1)))"

text \<open>
  \<open>CommuteResearchService.research\<close>; the outer pair keeps what the executor did to the world also
  when an exception ends the call.
\<close>

definition commute_target :: "uuid option \<Rightarrow> uuid option \<Rightarrow> uuid option" where
  "commute_target listing company = (if listing \<noteq> None then listing else company)"

definition commute_research ::
  "date_format \<Rightarrow> (uuid \<Rightarrow> string list \<Rightarrow> string) \<Rightarrow> json \<Rightarrow> int \<Rightarrow> 'w LlmExecutor \<Rightarrow> datetime \<Rightarrow>
   uuid option \<Rightarrow> uuid option \<Rightarrow> uuid \<Rightarrow> string \<Rightarrow> string \<Rightarrow> 'w \<Rightarrow> db \<Rightarrow>
   (commute_result \<times> db) result \<times> 'w" where
  "commute_research dates digest schema cache_days llm now listing company destination origin
     location_hash w s =
     (case commute_target listing company of
        None \<Rightarrow> (Inl ValueError, w)
      | Some target \<Rightarrow>
          if listing \<noteq> None \<and> company \<noteq> None then (Inl ValueError, w)
          else (case get_fresh_result listing company destination now s of
            Some r \<Rightarrow> (Inr (r, s), w)
          | None \<Rightarrow> (case get_by dst_id destination (db_destinations s) of
              None \<Rightarrow> (Inl LookupError, w)
            | Some d \<Rightarrow> (case lx_execute llm (commute_request schema listing target d origin) w of
                (Inl name, w1) \<Rightarrow> (Inl (ExternalError name), w1)
              | (Inr result, w1) \<Rightarrow>
                  (persist_commute dates cache_days (lx_provider_code llm) listing company d
                     (commute_refs listing target d)
                     (digest target [dst_destination_code d, location_hash, dst_registry_version d,
                        COMMUTE_PROMPT_VERSION])
                     location_hash now result s, w1)))))"

section \<open>Amenity research\<close>

text \<open>The one character beyond ASCII of the prompts, as UTF-8.\<close>

definition EM_DASH :: string where
  "EM_DASH = [CHR 0xE2, CHR 0x80, CHR 0x94]"

definition AMENITY_TASK_TYPE :: string where
  "AMENITY_TASK_TYPE = ''amenity_research''"

definition AMENITY_PROMPT_VERSION :: string where
  "AMENITY_PROMPT_VERSION = ''amenity-v1''"

definition AMENITY_FACT_KEY :: string where
  "AMENITY_FACT_KEY = ''amenities''"

record AmenityResearchOutput =
  ar_amenities :: "string list"
  ar_laundry_type :: string
  ar_fee_status :: string
  ar_sources :: "string list"
  ar_summary :: string

definition read_amenities :: "json \<Rightarrow> AmenityResearchOutput result" where
  "read_amenities j =
     bind_result (model_fields [''amenities'', ''laundry_type'', ''fee_status'', ''sources'', ''summary''] j) (\<lambda>kvs.
     bind_result (defaulted ''amenities'' [] (field_list field_str) kvs) (\<lambda>amenities.
     bind_result (defaulted ''laundry_type'' ''UNKNOWN'' field_str kvs) (\<lambda>laundry.
     bind_result (defaulted ''fee_status'' ''UNKNOWN'' field_str kvs) (\<lambda>fee.
     bind_result (defaulted ''sources'' [] (field_list field_str) kvs) (\<lambda>sources.
     bind_result (defaulted ''summary'' [] field_str kvs) (\<lambda>summary.
     Inr \<lparr>ar_amenities = amenities, ar_laundry_type = laundry, ar_fee_status = fee,
          ar_sources = sources, ar_summary = summary\<rparr>))))))"

definition AMENITY_INSTRUCTIONS :: string where
  "AMENITY_INSTRUCTIONS = ''Research the building/unit amenities of the given NYC-area rental property using live web sources (the building's official leasing site and listing pages). Report ONLY amenities those pages explicitly state (gym, doorman, elevator, roof deck, pool, dishwasher, parking, bike room, storage, package room, live-in super...), as short English labels. laundry_type must be one of '' @
     join_texts '', '' (map LaundryType_value LaundryType_members) @
     '' '' @ EM_DASH @ '' UNKNOWN unless laundry is explicitly described. fee_status NO_FEE only if a page explicitly says no broker fee; FEE_CHARGED only if a fee is explicitly stated; otherwise UNKNOWN. sources: the URLs you used '' @
     EM_DASH @ '' required. Verify you are looking at THIS property (name/address match). If you cannot verify something, omit it. Never answer from memory alone.''"

definition amenity_request :: "json \<Rightarrow> string \<Rightarrow> string \<Rightarrow> string option \<Rightarrow> LlmTaskRequest" where
  "amenity_request schema name address hint_url =
     \<lparr>lq_task_type = AMENITY_TASK_TYPE, lq_prompt_version = AMENITY_PROMPT_VERSION,
      lq_output_schema_version = ''1'', lq_input_refs = JObj [(''property'', JStr name)],
      lq_input_payload = JObj [(''instructions'', JStr AMENITY_INSTRUCTIONS),
        (''property_name'', JStr name), (''address'', JStr address), (''known_page'', json_text hint_url)],
      lq_output_schema = Some schema, lq_tier = ModelTier.DEFAULT_HOSTED\<rparr>"

text \<open>An answer is kept when it is valid, cites a source and states something.\<close>

definition accepted_amenities :: "LlmTaskResult \<Rightarrow> AmenityResearchOutput option" where
  "accepted_amenities result =
     (if lr_status result \<noteq> ModelExecutionStatus.SUCCEEDED then None
      else (case lr_output result of
              None \<Rightarrow> None
            | Some j \<Rightarrow> (case read_amenities j of
                Inl _ \<Rightarrow> None
              | Inr out \<Rightarrow> if ar_sources out = [] then None
                           else if ar_amenities out = [] \<and> ar_laundry_type out = ''UNKNOWN'' then None
                           else Some out)))"

definition amenity_research ::
  "json \<Rightarrow> 'w LlmExecutor \<Rightarrow> string \<Rightarrow> string \<Rightarrow> string option \<Rightarrow> 'w \<Rightarrow>
   AmenityResearchOutput option result \<times> 'w" where
  "amenity_research schema llm name address hint_url w =
     (case lx_execute llm (amenity_request schema name address hint_url) w of
        (Inl e, w1) \<Rightarrow> (Inl (ExternalError e), w1)
      | (Inr result, w1) \<Rightarrow> (Inr (accepted_amenities result), w1))"

text \<open>\<open>record_listing_fact\<close>\<close>

definition researched_fact :: "uuid \<Rightarrow> string \<Rightarrow> json \<Rightarrow> string \<Rightarrow> fact_input" where
  "researched_fact listing key v evidence =
     \<lparr>fi_entity_type = FactEntityType.LISTING, fi_entity_id = listing, fi_fact_key = key,
      fi_value_json = Some (JObj [(''value'', v)]), fi_value_status = ValueStatus.ASSERTED,
      fi_derivation_type = DerivationType.LLM_DERIVED, fi_confidence = Confidence.MEDIUM,
      fi_source_observation_id = None, fi_evidence_text = Some evidence\<rparr>"

definition record_amenity_fact :: "uuid \<Rightarrow> AmenityResearchOutput \<Rightarrow> datetime \<Rightarrow> unit tx" where
  "record_amenity_fact listing out now s =
     (let amenities = amenity_labels (ar_amenities out)
      in if amenities = [] then Inr ((), s)
         else bind_result (record_fact (researched_fact listing AMENITY_FACT_KEY (json_texts amenities)
                (take 500 (''web-researched: '' @ join_texts '', '' (take 5 (ar_sources out))))) now s)
              (\<lambda>(a, s'). Inr ((), s')))"

text \<open>
  \<open>apply_to_company\<close>: the snapshot is a JSON object; a key is open when it is absent, null, empty or
  UNKNOWN.
\<close>

definition open_key :: "string \<Rightarrow> json \<Rightarrow> bool" where
  "open_key k a \<longleftrightarrow> (case json_get k a of None \<Rightarrow> True
     | Some v \<Rightarrow> v = JNull \<or> v = JStr [] \<or> v = JStr ''UNKNOWN'')"

definition web_evidence :: "AmenityResearchOutput \<Rightarrow> json" where
  "web_evidence out = JStr (take 300 (''web-researched: '' @ join_texts '', '' (take 3 (ar_sources out))))"

definition fill_amenities :: "AmenityResearchOutput \<Rightarrow> json \<Rightarrow> json" where
  "fill_amenities out a =
     (if (case json_get ''amenities'' a of None \<Rightarrow> False | Some v \<Rightarrow> json_truthy v) then a
      else json_set ''amenities_sources'' (json_texts (take 5 (ar_sources out)))
             (json_set ''amenities'' (json_texts (amenity_labels (ar_amenities out))) a))"

definition fill_laundry :: "AmenityResearchOutput \<Rightarrow> json \<Rightarrow> json" where
  "fill_laundry out a =
     (if open_key ''laundry_type'' a \<and> laundry_value (ar_laundry_type out) \<and>
         ar_laundry_type out \<noteq> ''UNKNOWN''
      then json_set ''laundry_evidence'' (web_evidence out)
             (json_set ''laundry_type'' (JStr (ar_laundry_type out)) a)
      else a)"

definition fill_fee :: "AmenityResearchOutput \<Rightarrow> json \<Rightarrow> json" where
  "fill_fee out a =
     (if open_key ''fee_status'' a \<and> ar_fee_status out \<in> {''NO_FEE'', ''FEE_CHARGED''}
      then json_set ''fee_evidence'' (web_evidence out)
             (json_set ''fee_status'' (JStr (ar_fee_status out)) a)
      else a)"

definition snapshot_of :: "company_property \<Rightarrow> json" where
  "snapshot_of p = (case cpy_availability p of Some (JObj kvs) \<Rightarrow> JObj kvs | _ \<Rightarrow> JObj [])"

definition apply_to_company :: "AmenityResearchOutput \<Rightarrow> company_property \<Rightarrow> company_property" where
  "apply_to_company out p =
     p\<lparr>cpy_availability := Some (fill_fee out (fill_laundry out (fill_amenities out (snapshot_of p))))\<rparr>"

section \<open>Nearby dining and stores\<close>

definition POI_FACT_KEY :: string where
  "POI_FACT_KEY = ''nearby_poi''"

definition POI_CACHE_DAYS :: int where
  "POI_CACHE_DAYS = 30"

record NearbyPoiOutput =
  np_food_categories :: "string list"
  np_stores :: "string list"
  np_sources :: "string list"
  np_summary :: string

definition read_poi :: "json \<Rightarrow> NearbyPoiOutput result" where
  "read_poi j =
     bind_result (model_fields [''food_categories'', ''stores'', ''sources'', ''summary''] j) (\<lambda>kvs.
     bind_result (defaulted ''food_categories'' [] (field_list field_str) kvs) (\<lambda>food.
     bind_result (defaulted ''stores'' [] (field_list field_str) kvs) (\<lambda>stores.
     bind_result (defaulted ''sources'' [] (field_list field_str) kvs) (\<lambda>sources.
     bind_result (defaulted ''summary'' [] field_str kvs) (\<lambda>summary.
     Inr \<lparr>np_food_categories = food, np_stores = stores, np_sources = sources, np_summary = summary\<rparr>)))))"

definition dump_poi :: "NearbyPoiOutput \<Rightarrow> json" where
  "dump_poi out = JObj [(''food_categories'', json_texts (np_food_categories out)),
     (''stores'', json_texts (np_stores out)), (''sources'', json_texts (np_sources out)),
     (''summary'', JStr (np_summary out))]"

definition latest_fact :: "uuid \<Rightarrow> string \<Rightarrow> db \<Rightarrow> fact_assertion option" where
  "latest_fact entity key s =
     (case sort_key (\<lambda>a. - fa_asserted_at a)
        (filter (\<lambda>a. fa_entity_id a = entity \<and> fa_fact_key a = key) (db_assertions s)) of
        [] \<Rightarrow> None | a # _ \<Rightarrow> Some a)"

definition poi_get_fresh :: "uuid \<Rightarrow> datetime \<Rightarrow> db \<Rightarrow> json option" where
  "poi_get_fresh listing now s =
     (case latest_fact listing POI_FACT_KEY s of
        None \<Rightarrow> None
      | Some a \<Rightarrow> (case fa_value_json a of
          None \<Rightarrow> None
        | Some j \<Rightarrow>
            if fa_asserted_at a < now - days_us POI_CACHE_DAYS then None
            else (case json_get ''value'' j of Some (JObj kvs) \<Rightarrow> Some (JObj kvs) | _ \<Rightarrow> None)))"

definition accepted_poi :: "LlmTaskResult \<Rightarrow> NearbyPoiOutput option" where
  "accepted_poi result =
     (if lr_status result \<noteq> ModelExecutionStatus.SUCCEEDED then None
      else (case lr_output result of
              None \<Rightarrow> None
            | Some j \<Rightarrow> (case read_poi j of
                Inl _ \<Rightarrow> None | Inr out \<Rightarrow> if np_sources out = [] then None else Some out)))"

definition POI_INSTRUCTIONS :: string where
  "POI_INSTRUCTIONS = ''Research what is ACTUALLY within walking distance (~10 minutes) of the given NYC-area location, using live web sources (Google Maps results pages, neighborhood guides, store locators). Report: (1) food_categories '' @ EM_DASH @ '' cuisine CATEGORIES present nearby (e.g. Japanese, Korean, Chinese, Mexican, Italian, cafes) '' @ EM_DASH @ '' NEVER individual restaurant names; (2) stores '' @ EM_DASH @ '' NAMED supermarkets and major retail actually nearby (e.g. Costco, Target, Whole Foods, Trader Joe's, H Mart, key food markets); (3) sources '' @ EM_DASH @ '' the URLs you used. Only include what your sources confirm for this specific area. If you cannot verify something, omit it. Never answer from memory alone.''"

definition poi_request :: "json \<Rightarrow> uuid \<Rightarrow> string \<Rightarrow> LlmTaskRequest" where
  "poi_request schema listing area =
     \<lparr>lq_task_type = ''nearby_poi_research'', lq_prompt_version = ''poi-v1'',
      lq_output_schema_version = ''1'', lq_input_refs = JObj [(''listing'', JUuid listing)],
      lq_input_payload = JObj [(''instructions'', JStr POI_INSTRUCTIONS), (''location'', JStr area)],
      lq_output_schema = Some schema, lq_tier = ModelTier.DEFAULT_HOSTED\<rparr>"

definition poi_research ::
  "json \<Rightarrow> 'w LlmExecutor \<Rightarrow> datetime \<Rightarrow> uuid \<Rightarrow> string \<Rightarrow> 'w \<Rightarrow>
   db \<Rightarrow> (json option \<times> db) result \<times> 'w" where
  "poi_research schema llm now listing area w s =
     (case lx_execute llm (poi_request schema listing area) w of
        (Inl e, w1) \<Rightarrow> (Inl (ExternalError e), w1)
      | (Inr result, w1) \<Rightarrow>
          (case accepted_poi result of
             None \<Rightarrow> (Inr (None, s), w1)
           | Some out \<Rightarrow>
               (bind_result (record_fact (researched_fact listing POI_FACT_KEY (dump_poi out)
                   (join_texts '', '' (take 5 (np_sources out)))) now s)
                 (\<lambda>(a, s'). Inr (Some (dump_poi out), s')), w1)))"

end
