(* ===== verification/ResearchLaws.thy ===== *)
theory ResearchLaws
  imports Research TransitLaws
begin

text \<open>
  What commute research guarantees: an estimate is either the cached one or a new one that cites
  sources, a refused answer writes nothing, a fresh estimate is reused without asking the executor,
  and an expired one cannot be replaced as long as the model stays the same.
\<close>

section \<open>The cache\<close>

lemma get_fresh_SomeD:
  assumes "get_fresh_result listing company destination now s = Some r"
  shows "r \<in> set (db_commutes s) \<and> fresh_for listing company destination now r"
proof -
  let ?rs = "sort_key (\<lambda>r. - cmr_calculated_at r)
    (filter (fresh_for listing company destination now) (db_commutes s))"
  from assms obtain rest where "?rs = r # rest"
    by (auto simp: get_fresh_result_def split: list.splits)
  then have "r \<in> set ?rs" by (metis list.set_intros(1))
  then show ?thesis by simp
qed

lemma get_fresh_None_iff:
  "get_fresh_result listing company destination now s = None \<longleftrightarrow>
     (\<forall>r \<in> set (db_commutes s). \<not> fresh_for listing company destination now r)"
proof -
  let ?rs = "filter (fresh_for listing company destination now) (db_commutes s)"
  have "sort_key (\<lambda>r. - cmr_calculated_at r) ?rs = [] \<longleftrightarrow> ?rs = []"
    by (metis length_0_conv length_sort)
  then show ?thesis
    by (auto simp: get_fresh_result_def filter_empty_conv split: list.split)
qed

lemma fresh_earlier:
  "fresh_for listing company destination later r \<Longrightarrow> now \<le> later \<Longrightarrow>
     fresh_for listing company destination now r"
  by (auto simp: fresh_for_def split: option.splits)

section \<open>The answer\<close>

lemma read_commute_bounds:
  assumes "read_commute dates j = Inr c"
  shows "0 \<le> co_duration_min_s c" "0 \<le> co_duration_max_s c"
  using assms
  by (auto simp: read_commute_def bind_result_Inr_iff elim!: requiredE dest!: at_least_InrD)

lemma accepted_commuteD:
  assumes "accepted_commute dates result = Inr c"
  shows "lr_status result = ModelExecutionStatus.SUCCEEDED" "co_sources c \<noteq> []"
    "0 \<le> co_duration_min_s c" "co_duration_min_s c \<le> co_duration_max_s c"
    "\<exists>j. lr_output result = Some j \<and> read_commute dates j = Inr c"
  using assms read_commute_bounds
  by (auto simp: accepted_commute_def split: if_splits option.splits sum.splits)

text \<open>The contract on an answer, said once more without the order of the checks.\<close>

definition usable_answer :: "date_format \<Rightarrow> LlmTaskResult \<Rightarrow> bool" where
  "usable_answer dates answer \<longleftrightarrow> lr_status answer = ModelExecutionStatus.SUCCEEDED \<and>
     (\<exists>j c. lr_output answer = Some j \<and> read_commute dates j = Inr c \<and> co_sources c \<noteq> [] \<and>
        co_duration_min_s c \<le> co_duration_max_s c)"

lemma accepted_commute_Inr: "(\<exists>c. accepted_commute dates answer = Inr c) \<longleftrightarrow> usable_answer dates answer"
  by (auto simp: accepted_commute_def usable_answer_def split: option.splits sum.splits)

lemma accepted_commute_Inl:
  "\<not> usable_answer dates answer \<Longrightarrow> accepted_commute dates answer = Inl CommuteResearchRejected"
  by (auto simp: accepted_commute_def usable_answer_def split: option.splits sum.splits)

lemma add_executionD:
  assumes "add_execution row s = Inr (x, s')"
  shows "x = row (db_next s)" "\<forall>y \<in> set (db_executions s). execution_key y \<noteq> execution_key x"
    "s' = s\<lparr>db_executions := db_executions s @ [x], db_next := Suc (db_next s)\<rparr>"
  using assms by (auto simp: add_execution_def Let_def split: if_splits)

lemma add_commuteD:
  assumes "add_commute row s = Inr (r, s')"
  shows "r = row (db_next s)" "target_exists r s"
    "s' = s\<lparr>db_commutes := db_commutes s @ [r], db_next := Suc (db_next s)\<rparr>"
  using assms by (auto simp: add_commute_def Let_def split: if_splits)

text \<open>What a persisted estimate looks like.\<close>

definition cited_estimate ::
  "int \<Rightarrow> uuid option \<Rightarrow> uuid option \<Rightarrow> destination \<Rightarrow> string \<Rightarrow> datetime \<Rightarrow> model_execution \<Rightarrow>
   commute_result \<Rightarrow> bool" where
  "cited_estimate cache_days listing company d location_hash now x r \<longleftrightarrow>
     cmr_canonical_listing_id r = listing \<and> cmr_company_property_id r = company \<and>
     cmr_destination_id r = dst_id d \<and> cmr_result_type r = CommuteResultType.RESEARCHED_ESTIMATE \<and>
     cmr_model_execution_id r = Some (mex_id x) \<and> cmr_calculated_at r = now \<and>
     cmr_expires_at r = Some (now + days_us cache_days) \<and> cmr_input_location_hash r = location_hash \<and>
     (\<exists>source sources. cmr_sources r = Some (source # sources)) \<and>
     (\<exists>dmin dmax. cmr_duration_min_s r = Some dmin \<and> cmr_duration_max_s r = Some dmax \<and>
        0 \<le> dmin \<and> dmin \<le> dmax)"

lemma persist_commuteD:
  assumes "persist_commute dates cache_days provider listing company d refs input_hash location_hash now
      result s = Inr (r, s')"
  obtains x where "cited_estimate cache_days listing company d location_hash now x r"
    "execution_key x = (COMMUTE_TASK_TYPE, input_hash, COMMUTE_PROMPT_VERSION,
       COMMUTE_OUTPUT_SCHEMA_VERSION, model_name result)"
    "\<forall>y \<in> set (db_executions s). execution_key y \<noteq> execution_key x"
    "s' = s\<lparr>db_executions := db_executions s @ [x], db_commutes := db_commutes s @ [r],
       db_next := Suc (Suc (db_next s))\<rparr>"
proof -
  from assms obtain c x s1 where c: "accepted_commute dates result = Inr c"
    and x: "add_execution (new_commute_execution dates provider input_hash refs result c
      (fst (cross_check c s)) now) s = Inr (x, s1)"
    and r: "add_commute (new_commute dates cache_days listing company d location_hash (mex_id x) c
      (cross_check c s) now) s1 = Inr (r, s')"
    unfolding persist_commute_def Let_def by (auto simp: bind_result_Inr_iff)
  note x' = add_executionD [OF x] and r' = add_commuteD [OF r] and c' = accepted_commuteD [OF c]
  show thesis
  proof (rule that)
    show "cited_estimate cache_days listing company d location_hash now x r"
      using c' unfolding r'(1) cited_estimate_def new_commute_def by (cases "co_sources c") auto
    show "execution_key x = (COMMUTE_TASK_TYPE, input_hash, COMMUTE_PROMPT_VERSION,
       COMMUTE_OUTPUT_SCHEMA_VERSION, model_name result)"
      unfolding x'(1) by (simp add: execution_key_def new_commute_execution_def)
    show "\<forall>y \<in> set (db_executions s). execution_key y \<noteq> execution_key x" by (rule x'(2))
    show "s' = s\<lparr>db_executions := db_executions s @ [x], db_commutes := db_commutes s @ [r],
       db_next := Suc (Suc (db_next s))\<rparr>"
      unfolding r'(3) x'(3) by simp
  qed
qed

text \<open>The estimate says what the answer says.\<close>

definition estimate_of :: "date_format \<Rightarrow> LlmTaskResult \<Rightarrow> commute_result \<Rightarrow> bool" where
  "estimate_of dates answer r \<longleftrightarrow> (\<exists>j c. lr_output answer = Some j \<and> read_commute dates j = Inr c \<and>
     cmr_sources r = Some (map (dump_source dates) (co_sources c)) \<and>
     cmr_duration_min_s r = Some (co_duration_min_s c) \<and> cmr_duration_max_s r = Some (co_duration_max_s c))"

lemma persist_commute_usable:
  assumes "persist_commute dates cache_days provider listing company d refs input_hash location_hash now
      answer s = Inr (r, s')"
  shows "usable_answer dates answer \<and> estimate_of dates answer r"
proof -
  from assms obtain c x s1 where c: "accepted_commute dates answer = Inr c"
    and "add_execution (new_commute_execution dates provider input_hash refs answer c
      (fst (cross_check c s)) now) s = Inr (x, s1)"
    and row: "add_commute (new_commute dates cache_days listing company d location_hash (mex_id x) c
      (cross_check c s) now) s1 = Inr (r, s')"
    unfolding persist_commute_def Let_def by (auto simp: bind_result_Inr_iff)
  from accepted_commuteD(5) [OF c] have "estimate_of dates answer r"
    unfolding add_commuteD(1) [OF row] by (auto simp: estimate_of_def new_commute_def)
  moreover have "usable_answer dates answer" using c accepted_commute_Inr by blast
  ultimately show ?thesis by blast
qed

section \<open>The service\<close>

text \<open>A call of \<open>research\<close> that comes to ask the executor, and the answer it gets.\<close>

definition research_asks ::
  "'w LlmExecutor \<Rightarrow> json \<Rightarrow> datetime \<Rightarrow> uuid option \<Rightarrow> uuid option \<Rightarrow> uuid \<Rightarrow> string \<Rightarrow> 'w \<Rightarrow> db \<Rightarrow>
   uuid \<Rightarrow> destination \<Rightarrow> LlmTaskResult \<Rightarrow> 'w \<Rightarrow> bool" where
  "research_asks llm schema now listing company destination origin w s target d answer w' \<longleftrightarrow>
     commute_target listing company = Some target \<and> \<not> (listing \<noteq> None \<and> company \<noteq> None) \<and>
     get_fresh_result listing company destination now s = None \<and>
     get_by dst_id destination (db_destinations s) = Some d \<and>
     lx_execute llm (commute_request schema listing target d origin) w = (Inr answer, w')"

lemma commute_research_asks:
  assumes "research_asks llm schema now listing company destination origin w s target d answer w'"
  shows "commute_research dates digest schema cache_days llm now listing company destination origin
      location_hash w s =
    (persist_commute dates cache_days (lx_provider_code llm) listing company d
       (commute_refs listing target d)
       (digest target [dst_destination_code d, location_hash, dst_registry_version d,
          COMMUTE_PROMPT_VERSION]) location_hash now answer s, w')"
  using assms by (auto simp: research_asks_def commute_research_def)

text \<open>The two ways a call of \<open>research\<close> returns.\<close>

lemma commute_researchE:
  assumes "commute_research dates digest schema cache_days llm now listing company destination origin
      location_hash w s = (Inr (r, s'), w')"
  obtains (cached) "get_fresh_result listing company destination now s = Some r" "s' = s" "w' = w"
  | (researched) target d result where
      "commute_target listing company = Some target" "\<not> (listing \<noteq> None \<and> company \<noteq> None)"
      "get_fresh_result listing company destination now s = None"
      "get_by dst_id destination (db_destinations s) = Some d"
      "lx_execute llm (commute_request schema listing target d origin) w = (Inr result, w')"
      "persist_commute dates cache_days (lx_provider_code llm) listing company d
         (commute_refs listing target d)
         (digest target [dst_destination_code d, location_hash, dst_registry_version d,
            COMMUTE_PROMPT_VERSION]) location_hash now result s = Inr (r, s')"
proof -
  obtain target where t: "commute_target listing company = Some target"
    using assms by (cases "commute_target listing company") (simp_all add: commute_research_def)
  have one: "\<not> (listing \<noteq> None \<and> company \<noteq> None)"
    using assms t by (auto simp: commute_research_def split: if_splits)
  show thesis
  proof (cases "get_fresh_result listing company destination now s")
    case (Some c)
    with assms t one show thesis by (intro cached) (auto simp: commute_research_def split: if_splits)
  next
    case None
    note fresh = this
    obtain d where d: "get_by dst_id destination (db_destinations s) = Some d"
      using assms t one None
      by (cases "get_by dst_id destination (db_destinations s)") (auto simp: commute_research_def split: if_splits)
    obtain ans w1 where a: "lx_execute llm (commute_request schema listing target d origin) w = (ans, w1)"
      by (cases "lx_execute llm (commute_request schema listing target d origin) w")
    show thesis
    proof (cases ans)
      case (Inl e)
      with assms t one fresh d a show thesis by (auto simp: commute_research_def split: if_splits)
    next
      case (Inr result)
      with assms t one fresh d a show thesis
        by (intro researched [OF t one fresh d, of result]) (auto simp: commute_research_def split: if_splits)
    qed
  qed
qed

section \<open>Properties\<close>

text \<open>
  C27. No commute time comes from model memory.  What research returns is an unexpired estimate of the
  same target, found without asking the executor, or a new estimate from an answer of the executor
  that succeeded, cites at least one source and has an ordered range of non-negative durations; it
  carries this range and these sources, expires after the cache window and refers to the one audit row written with
  it, and nothing else changes.  Any other answer is refused with CommuteResearchRejected.
\<close>
theorem commute_research_is_cited:
  "(\<forall>r s' w'. commute_research dates digest schema cache_days llm now listing company destination origin
        location_hash w s = (Inr (r, s'), w') \<longrightarrow>
      (r \<in> set (db_commutes s) \<and> fresh_for listing company destination now r \<and> s' = s \<and> w' = w) \<or>
      (\<exists>target d x answer. get_by dst_id destination (db_destinations s) = Some d \<and>
         lx_execute llm (commute_request schema listing target d origin) w = (Inr answer, w') \<and>
         usable_answer dates answer \<and> estimate_of dates answer r \<and>
         cited_estimate cache_days listing company d location_hash now x r \<and>
         s' = s\<lparr>db_executions := db_executions s @ [x], db_commutes := db_commutes s @ [r],
                db_next := Suc (Suc (db_next s))\<rparr>)) \<and>
   (\<forall>target d answer w'. research_asks llm schema now listing company destination origin w s target d answer w' \<and>
      \<not> usable_answer dates answer \<longrightarrow>
      commute_research dates digest schema cache_days llm now listing company destination origin
        location_hash w s = (Inl CommuteResearchRejected, w'))"
proof (intro conjI allI impI)
  fix r s' w'
  assume "commute_research dates digest schema cache_days llm now listing company destination origin
      location_hash w s = (Inr (r, s'), w')"
  then show "(r \<in> set (db_commutes s) \<and> fresh_for listing company destination now r \<and> s' = s \<and> w' = w) \<or>
      (\<exists>target d x answer. get_by dst_id destination (db_destinations s) = Some d \<and>
         lx_execute llm (commute_request schema listing target d origin) w = (Inr answer, w') \<and>
         usable_answer dates answer \<and> estimate_of dates answer r \<and>
         cited_estimate cache_days listing company d location_hash now x r \<and>
         s' = s\<lparr>db_executions := db_executions s @ [x], db_commutes := db_commutes s @ [r],
                db_next := Suc (Suc (db_next s))\<rparr>)"
  proof (cases rule: commute_researchE)
    case cached
    then show ?thesis using get_fresh_SomeD by blast
  next
    case (researched target d result)
    from researched(6) show ?thesis
      by (rule persist_commuteD) (use researched(4,5) persist_commute_usable [OF researched(6)] in blast)
  qed
next
  fix target d answer w'
  assume "research_asks llm schema now listing company destination origin w s target d answer w' \<and>
    \<not> usable_answer dates answer"
  then have asks: "research_asks llm schema now listing company destination origin w s target d answer w'"
    and refused: "\<not> usable_answer dates answer" by blast+
  show "commute_research dates digest schema cache_days llm now listing company destination origin
      location_hash w s = (Inl CommuteResearchRejected, w')"
    unfolding commute_research_asks [OF asks] by (simp add: persist_commute_def accepted_commute_Inl [OF refused])
qed

text \<open>Once researched, a target has an estimate until the window closes.\<close>

lemma researched_is_fresh:
  assumes "commute_research dates digest schema cache_days llm now listing company destination origin
      location_hash w s = (Inr (r, s'), w')"
    and "get_fresh_result listing company destination now s = None"
  shows "r \<in> set (db_commutes s') \<and>
    (later < now + days_us cache_days \<longrightarrow> fresh_for listing company destination later r)"
  using assms(1)
proof (cases rule: commute_researchE)
  case (researched target d result)
  from researched(6) obtain x where x: "cited_estimate cache_days listing company d location_hash now x r"
      "s' = s\<lparr>db_executions := db_executions s @ [x], db_commutes := db_commutes s @ [r],
        db_next := Suc (Suc (db_next s))\<rparr>"
    by (rule persist_commuteD)
  have "dst_id d = destination" using get_by_SomeD [OF researched(4)] by simp
  with x researched(1,2) show ?thesis
    by (auto simp: cited_estimate_def fresh_for_def for_target_def commute_target_def split: option.split if_splits)
qed (use assms(2) in simp)

text \<open>
  A new estimate is reused: until its window closes any further request for the same target and
  destination, whoever answers and whatever its origin text, returns an unexpired stored estimate,
  leaves the database alone and does not ask the executor.
\<close>
theorem commute_cache_answers:
  assumes "commute_research dates digest schema cache_days llm now listing company destination origin
      location_hash w s = (Inr (r, s'), w')"
    and "get_fresh_result listing company destination now s = None"
    and "later < now + days_us cache_days"
  shows "\<exists>r'. commute_research dates digest schema days llm2 later listing company destination origin2
      hash2 w2 s' = (Inr (r', s'), w2) \<and> r' \<in> set (db_commutes s') \<and>
      fresh_for listing company destination later r'"
  using assms(1)
proof (cases rule: commute_researchE)
  case (researched target d result)
  have "get_fresh_result listing company destination later s' \<noteq> None"
    using researched_is_fresh [OF assms(1,2)] assms(3) unfolding get_fresh_None_iff by blast
  then obtain r' where r': "get_fresh_result listing company destination later s' = Some r'" by blast
  have "commute_research dates digest schema days llm2 later listing company destination origin2
      hash2 w2 s' = (Inr (r', s'), w2)"
    using researched(1,2) r' by (simp add: commute_research_def)
  with get_fresh_SomeD [OF r'] show ?thesis by blast
qed (use assms(2) in simp)

text \<open>
  C28. An expired estimate is not renewed by the model that made it.  Once the window has closed, asking
  again for the same target and destination from the same location, a usable answer that carries the
  model name recorded by the first research ends in an IntegrityError: the audit row of the first
  research holds the unique cache key of the second.
\<close>
theorem expired_commute_is_stuck:
  assumes "commute_research dates digest schema cache_days llm now listing company destination origin
      location_hash w s = (Inr (r, s'), w')"
    and "get_fresh_result listing company destination now s = None"
    and "now \<le> later" "now + days_us cache_days \<le> later"
    and "commute_target listing company = Some target" "get_by dst_id destination (db_destinations s) = Some d"
    and "lx_execute llm2 (commute_request schema2 listing target d origin2) w2 = (Inr answer, w3)"
    and "usable_answer dates answer" "model_name answer = mex_model_id (last (db_executions s'))"
    and "int8_opt (lr_input_tokens answer)" "int8_opt (lr_output_tokens answer)"
  shows "commute_research dates digest schema2 days2 llm2 later listing company destination
      origin2 location_hash w2 s' = (Inl IntegrityError, w3)"
  using assms(1)
proof (cases rule: commute_researchE)
  case (researched target1 d1 result)
  have same: "target1 = target" "d1 = d" using researched(1,4) assms(5,6) by simp_all
  let ?hash = "digest target [dst_destination_code d, location_hash, dst_registry_version d, COMMUTE_PROMPT_VERSION]"
  from researched(6) obtain x where x: "cited_estimate cache_days listing company d location_hash now x r"
      "execution_key x = (COMMUTE_TASK_TYPE, ?hash, COMMUTE_PROMPT_VERSION,
        COMMUTE_OUTPUT_SCHEMA_VERSION, model_name result)"
      "s' = s\<lparr>db_executions := db_executions s @ [x], db_commutes := db_commutes s @ [r],
        db_next := Suc (Suc (db_next s))\<rparr>"
    unfolding same by (rule persist_commuteD)
  have none: "get_fresh_result listing company destination later s' = None"
    using assms(2,3,4) x(1) fresh_earlier
    by (auto simp: get_fresh_None_iff x(3)) (auto simp: fresh_for_def cited_estimate_def)
  have asks: "research_asks llm2 schema2 later listing company destination origin2 w2 s' target d answer w3"
    using none assms(5-7) researched(2) by (simp add: research_asks_def x(3))
  obtain c where c: "accepted_commute dates answer = Inr c" using assms(8) accepted_commute_Inr by blast
  have key: "execution_key x = execution_key (new_commute_execution dates (lx_provider_code llm2) ?hash
      refs answer c v later i)" for refs v i
    using x(2,3) assms(9) by (simp add: execution_key_def new_commute_execution_def)
  have "add_execution (new_commute_execution dates (lx_provider_code llm2) ?hash refs answer c v later) s' =
      Inl IntegrityError" for refs v
    using key [of refs v] assms(10,11)
    by (auto simp: add_execution_def Let_def new_commute_execution_def x(3))
  then show ?thesis
    unfolding commute_research_asks [OF asks] by (simp add: persist_commute_def c Let_def)
qed (use assms(2) in simp)

section \<open>Amenities fill gaps\<close>

definition gives_laundry :: "AmenityResearchOutput \<Rightarrow> bool" where
  "gives_laundry out \<longleftrightarrow> laundry_value (ar_laundry_type out) \<and> ar_laundry_type out \<noteq> ''UNKNOWN''"

definition gives_fee :: "AmenityResearchOutput \<Rightarrow> bool" where
  "gives_fee out \<longleftrightarrow> ar_fee_status out \<in> {''NO_FEE'', ''FEE_CHARGED''}"

definition states_amenities :: "json \<Rightarrow> bool" where
  "states_amenities a \<longleftrightarrow> (case json_get ''amenities'' a of None \<Rightarrow> False | Some v \<Rightarrow> json_truthy v)"

lemma json_get_fill_laundry:
  "json_get k (fill_laundry out a) =
     (if open_key ''laundry_type'' a \<and> gives_laundry out
      then (if k = ''laundry_evidence'' then Some (web_evidence out)
            else if k = ''laundry_type'' then Some (JStr (ar_laundry_type out)) else json_get k a)
      else json_get k a)"
  unfolding gives_laundry_def fill_laundry_def by (auto simp: json_get_set)

lemma json_get_fill_fee:
  "json_get k (fill_fee out a) =
     (if open_key ''fee_status'' a \<and> gives_fee out
      then (if k = ''fee_evidence'' then Some (web_evidence out)
            else if k = ''fee_status'' then Some (JStr (ar_fee_status out)) else json_get k a)
      else json_get k a)"
  unfolding gives_fee_def fill_fee_def by (auto simp: json_get_set)

lemma json_get_fill_amenities:
  "json_get k (fill_amenities out a) =
     (if states_amenities a then json_get k a
      else if k = ''amenities_sources'' then Some (json_texts (take 5 (ar_sources out)))
      else if k = ''amenities'' then Some (json_texts (amenity_labels (ar_amenities out)))
      else json_get k a)"
  by (simp add: fill_amenities_def states_amenities_def json_get_set)

text \<open>Whether a key is open depends on that key only.\<close>

lemma open_key_cong: "json_get k a = json_get k b \<Longrightarrow> open_key k a = open_key k b"
  by (simp add: open_key_def)

lemma gives_laundry_value:
  "gives_laundry out \<Longrightarrow> ar_laundry_type out \<noteq> [] \<and> ar_laundry_type out \<noteq> ''UNKNOWN''"
  by (auto simp: gives_laundry_def laundry_value_def LaundryType_members_def)

lemma gives_fee_value:
  "gives_fee out \<Longrightarrow> ar_fee_status out \<noteq> [] \<and> ar_fee_status out \<noteq> ''UNKNOWN''"
  by (auto simp: gives_fee_def)

definition filled :: "AmenityResearchOutput \<Rightarrow> json \<Rightarrow> json" where
  "filled out a = fill_fee out (fill_laundry out (fill_amenities out a))"

lemma json_get_filled:
  "json_get k (filled out a) =
     (if k = ''amenities_sources'' \<and> \<not> states_amenities a then Some (json_texts (take 5 (ar_sources out)))
      else if k = ''amenities'' \<and> \<not> states_amenities a then Some (json_texts (amenity_labels (ar_amenities out)))
      else if k = ''laundry_evidence'' \<and> open_key ''laundry_type'' a \<and> gives_laundry out then Some (web_evidence out)
      else if k = ''laundry_type'' \<and> open_key ''laundry_type'' a \<and> gives_laundry out
        then Some (JStr (ar_laundry_type out))
      else if k = ''fee_evidence'' \<and> open_key ''fee_status'' a \<and> gives_fee out then Some (web_evidence out)
      else if k = ''fee_status'' \<and> open_key ''fee_status'' a \<and> gives_fee out then Some (JStr (ar_fee_status out))
      else json_get k a)"
proof -
  have "open_key ''laundry_type'' (fill_amenities out a) = open_key ''laundry_type'' a"
    by (rule open_key_cong) (simp add: json_get_fill_amenities)
  moreover have "open_key ''fee_status'' (fill_laundry out (fill_amenities out a)) = open_key ''fee_status'' a"
    by (rule open_key_cong) (simp add: json_get_fill_amenities json_get_fill_laundry)
  ultimately show ?thesis
    by (auto simp: filled_def json_get_fill_fee json_get_fill_laundry json_get_fill_amenities)
qed

text \<open>A second answer finds closed what the first filled, except an amenity list that stayed empty.\<close>

lemma filled_closed:
  "states_amenities (filled out a) \<longleftrightarrow> states_amenities a \<or> amenity_labels (ar_amenities out) \<noteq> []"
  "open_key ''laundry_type'' (filled out a) \<longleftrightarrow> open_key ''laundry_type'' a \<and> \<not> gives_laundry out"
  "open_key ''fee_status'' (filled out a) \<longleftrightarrow> open_key ''fee_status'' a \<and> \<not> gives_fee out"
proof -
  show "states_amenities (filled out a) \<longleftrightarrow> states_amenities a \<or> amenity_labels (ar_amenities out) \<noteq> []"
    unfolding states_amenities_def [of "filled out a"] json_get_filled
    by (cases "states_amenities a") (simp_all add: json_texts_def, simp add: states_amenities_def)
  show "open_key ''laundry_type'' (filled out a) \<longleftrightarrow> open_key ''laundry_type'' a \<and> \<not> gives_laundry out"
    unfolding open_key_def [of _ "filled out a"] json_get_filled
    using gives_laundry_value by (auto simp: open_key_def)
  show "open_key ''fee_status'' (filled out a) \<longleftrightarrow> open_key ''fee_status'' a \<and> \<not> gives_fee out"
    unfolding open_key_def [of _ "filled out a"] json_get_filled
    using gives_fee_value by (auto simp: open_key_def)
qed

lemma filled_again: "json_get k (filled out (filled out a)) = json_get k (filled out a)"
proof -
  let ?b = "filled out a"
  have "json_get k (filled out ?b) = (if k = ''amenities_sources'' \<and> \<not> states_amenities ?b
      then Some (json_texts (take 5 (ar_sources out)))
      else if k = ''amenities'' \<and> \<not> states_amenities ?b then Some (json_texts (amenity_labels (ar_amenities out)))
      else json_get k ?b)"
    unfolding json_get_filled [of k out ?b] filled_closed(2,3) by simp
  moreover have "json_get ''amenities_sources'' ?b = Some (json_texts (take 5 (ar_sources out)))"
    "json_get ''amenities'' ?b = Some (json_texts (amenity_labels (ar_amenities out)))"
    if "\<not> states_amenities ?b"
    using that by (simp_all add: filled_closed(1) json_get_filled)
  ultimately show ?thesis by (simp split: if_split)
qed

lemma filled_keeps:
  "(states_amenities a \<longrightarrow> json_get ''amenities'' (filled out a) = json_get ''amenities'' a) \<and>
   (\<forall>k \<in> {''laundry_type'', ''fee_status''}. \<not> open_key k a \<longrightarrow> json_get k (filled out a) = json_get k a) \<and>
   (\<forall>k. k \<notin> {''amenities'', ''amenities_sources'', ''laundry_type'', ''laundry_evidence'', ''fee_status'',
        ''fee_evidence''} \<longrightarrow> json_get k (filled out a) = json_get k a)"
  by (simp add: json_get_filled)

text \<open>
  Amenity research only fills gaps of a company property: beside the snapshot the row is unchanged; a
  stated amenity list, laundry type or fee status is never overwritten, keys outside the three facts
  and their provenance keep their values, and applying the same answer again changes nothing.
\<close>
theorem amenity_research_fills_gaps:
  "\<exists>a. apply_to_company out p = p\<lparr>cpy_availability := Some a\<rparr> \<and>
     (states_amenities (snapshot_of p) \<longrightarrow>
        json_get ''amenities'' a = json_get ''amenities'' (snapshot_of p)) \<and>
     (\<forall>k \<in> {''laundry_type'', ''fee_status''}. \<not> open_key k (snapshot_of p) \<longrightarrow>
        json_get k a = json_get k (snapshot_of p)) \<and>
     (\<forall>k. k \<notin> {''amenities'', ''amenities_sources'', ''laundry_type'', ''laundry_evidence'', ''fee_status'',
        ''fee_evidence''} \<longrightarrow> json_get k a = json_get k (snapshot_of p)) \<and>
     (\<exists>b. apply_to_company out (apply_to_company out p) = p\<lparr>cpy_availability := Some b\<rparr> \<and>
        (\<forall>k. json_get k b = json_get k a))"
proof -
  let ?a = "filled out (snapshot_of p)"
  have obj: "\<exists>kvs. ?a = JObj kvs"
  proof -
    have set_obj: "\<exists>kvs. json_set k v (JObj xs) = JObj kvs" for k v xs by simp
    have snap: "\<exists>kvs. snapshot_of p = JObj kvs"
      by (auto simp: snapshot_of_def split: option.split json.split)
    show ?thesis
      using snap by (auto simp: filled_def fill_fee_def fill_laundry_def fill_amenities_def)
  qed
  have one: "apply_to_company out p = p\<lparr>cpy_availability := Some ?a\<rparr>"
    by (simp add: apply_to_company_def filled_def)
  have "snapshot_of (p\<lparr>cpy_availability := Some ?a\<rparr>) = ?a"
    using obj by (auto simp: snapshot_of_def)
  then have two: "apply_to_company out (apply_to_company out p) =
      p\<lparr>cpy_availability := Some (filled out ?a)\<rparr>"
    unfolding one by (simp add: apply_to_company_def filled_def)
  have again: "\<forall>k. json_get k (filled out ?a) = json_get k ?a" by (simp add: filled_again)
  note keeps = filled_keeps [of "snapshot_of p" out]
  show ?thesis
    by (intro exI conjI, rule one, rule keeps [THEN conjunct1], rule keeps [THEN conjunct2, THEN conjunct1],
        rule keeps [THEN conjunct2, THEN conjunct2], rule two, rule again)
qed

section \<open>The dining cache\<close>

text \<open>An assertion later than all others of its key is the one found.\<close>

lemma latest_fact_new:
  assumes "filter (\<lambda>x. fa_entity_id x = entity \<and> fa_fact_key x = key) (db_assertions s) = xs @ [a]"
    and "\<forall>x \<in> set xs. fa_asserted_at x < fa_asserted_at a"
  shows "latest_fact entity key s = Some a"
proof -
  let ?ys = "sort_key (\<lambda>x. - fa_asserted_at x) (xs @ [a])"
  have "set ?ys \<noteq> {}" by simp
  then obtain y rest where ys: "?ys = y # rest" by (cases ?ys) auto
  have "a \<in> set ?ys" by simp
  moreover have "sorted (map (\<lambda>x. - fa_asserted_at x) (y # rest))" by (metis sorted_sort_key ys)
  ultimately have "fa_asserted_at a \<le> fa_asserted_at y" unfolding ys by auto
  moreover have "y \<in> set (xs @ [a])" by (metis list.set_intros(1) set_sort ys)
  ultimately have "y = a" using assms(2) by auto
  with ys show ?thesis by (simp add: latest_fact_def assms(1))
qed

text \<open>
  A researched neighbourhood is found again: for thirty days after a successful research the cache
  answers with exactly the recorded value, when no later assertion of the key exists.
\<close>
theorem poi_cache_roundtrip:
  assumes "poi_research schema llm now listing area w s = (Inr (Some v, s'), w')"
    and "\<forall>a \<in> set (db_assertions s). fa_asserted_at a < now"
    and "later \<le> now + days_us POI_CACHE_DAYS"
  shows "poi_get_fresh listing later s' = Some v"
proof -
  obtain result where "lx_execute llm (poi_request schema listing area) w = (Inr result, w')"
      "(case accepted_poi result of None \<Rightarrow> (Inr (None, s), w') | Some out \<Rightarrow>
        (bind_result (record_fact (researched_fact listing POI_FACT_KEY (dump_poi out)
          (join_texts '', '' (take 5 (np_sources out)))) now s) (\<lambda>(a, s'). Inr (Some (dump_poi out), s')), w')) =
        (Inr (Some v, s'), w')"
    using assms(1) by (auto simp: poi_research_def split: sum.splits prod.splits option.splits)
  then obtain out a where v: "v = dump_poi out"
    and rec: "record_fact (researched_fact listing POI_FACT_KEY (dump_poi out)
      (join_texts '', '' (take 5 (np_sources out)))) now s = Inr (a, s')"
    by (auto simp: bind_result_Inr_iff split: option.splits)
  have asserts: "db_assertions s' = db_assertions s @ [a]"
    and a: "a = new_assertion (db_next s) (researched_fact listing POI_FACT_KEY (dump_poi out)
      (join_texts '', '' (take 5 (np_sources out)))) now"
    using rec by (auto elim!: record_fact_cases)
  let ?mine = "\<lambda>x. fa_entity_id x = listing \<and> fa_fact_key x = POI_FACT_KEY"
  have mine: "filter ?mine (db_assertions s') = filter ?mine (db_assertions s) @ [a]"
    by (simp add: asserts a new_assertion_def researched_fact_def)
  have "latest_fact listing POI_FACT_KEY s' = Some a"
    by (rule latest_fact_new [OF mine]) (use assms(2) in \<open>simp add: a new_assertion_def\<close>)
  with assms(3) show ?thesis
    by (simp add: poi_get_fresh_def a v new_assertion_def researched_fact_def dump_poi_def)
qed

section \<open>Examples\<close>

definition demo_dates :: date_format where
  "demo_dates = \<lparr>df_read = (\<lambda>j. None), df_write = (\<lambda>t. [])\<rparr>"

definition demo_digest :: "uuid \<Rightarrow> string list \<Rightarrow> string" where
  "demo_digest i ts = concat ts"

definition demo_result :: "json \<Rightarrow> LlmTaskResult" where
  "demo_result answer = (new_llm_result ModelExecutionStatus.SUCCEEDED)
     \<lparr>lr_output := Some answer, lr_model_id := ''m''\<rparr>"

definition demo_llm :: "json \<Rightarrow> unit LlmExecutor" where
  "demo_llm answer = \<lparr>lx_interface_version = ''1'', lx_provider_code = ''p'',
     lx_execute = (\<lambda>q w. (Inr (demo_result answer), w))\<rparr>"

definition demo_commute_answer :: json where
  "demo_commute_answer = JObj [(''duration_min_s'', JInt 1200), (''duration_max_s'', JInt 1800),
     (''sources'', JList [JObj [(''url'', JStr ''https://mta.info'')]])]"

definition demo_destination :: destination where
  "demo_destination = \<lparr>dst_id = 40, dst_destination_code = ''NYU'', dst_destination_type = DestinationType.UNIVERSITY_CAMPUS,
     dst_institution_name = None, dst_display_name = ''NYU'', dst_routing_anchor_name = ''Washington Sq'',
     dst_routing_anchor_point = (- 74, 40), dst_address_id = None, dst_active = True,
     dst_registry_version = ''v1''\<rparr>"

definition demo_commute_db :: db where
  "demo_commute_db = demo_three\<lparr>db_destinations := [demo_destination], db_next := 50\<rparr>"

definition demo_commute_run :: "(commute_result \<times> db) result \<times> unit" where
  "demo_commute_run = commute_research demo_dates demo_digest JNull 14 (demo_llm demo_commute_answer) 9
     (Some 10) None 40 ''here'' ''hash'' () demo_commute_db"

lemma demo_commute_check:
  "case fst demo_commute_run of Inl e \<Rightarrow> False
   | Inr (r, s) \<Rightarrow> cmr_duration_max_s r = Some 1800 \<and> mex_model_id (last (db_executions s)) = ''m'' \<and>
       cmr_validation_status r = TransitValidationStatus.UNABLE_TO_VALIDATE"
  by code_simp

lemma demo_commute_returns:
  "\<exists>r s. commute_research demo_dates demo_digest JNull 14 (demo_llm demo_commute_answer) 9
     (Some 10) None 40 ''here'' ''hash'' () demo_commute_db = (Inr (r, s), ()) \<and> cmr_duration_max_s r = Some 1800 \<and>
     mex_model_id (last (db_executions s)) = ''m''"
proof -
  obtain r s where "fst demo_commute_run = Inr (r, s)" "cmr_duration_max_s r = Some 1800"
      "mex_model_id (last (db_executions s)) = ''m''"
    using demo_commute_check by (auto split: sum.splits)
  moreover then have "demo_commute_run = (Inr (r, s), ())" by (simp add: prod_eq_iff)
  ultimately show ?thesis unfolding demo_commute_run_def by blast
qed

lemma demo_commute_destination: "get_by dst_id 40 (db_destinations demo_commute_db) = Some demo_destination"
  by (simp add: demo_commute_db_def demo_destination_def get_by_Cons)

lemma demo_commute_fresh: "get_fresh_result (Some 10) None 40 9 demo_commute_db = None"
  by code_simp

theorem commute_research_is_cited_witness:
  "(\<exists>r s. fst demo_commute_run = Inr (r, s) \<and> estimate_of demo_dates (demo_result demo_commute_answer) r \<and>
     (\<exists>source sources. cmr_sources r = Some (source # sources))) \<and>
   commute_research demo_dates demo_digest JNull 14 (demo_llm JNull) 9 (Some 10) None 40 ''here'' ''hash'' ()
     demo_commute_db = (Inl CommuteResearchRejected, ())"
proof -
  obtain r s where run: "commute_research demo_dates demo_digest JNull 14 (demo_llm demo_commute_answer) 9
     (Some 10) None 40 ''here'' ''hash'' () demo_commute_db = (Inr (r, s), ())"
    using demo_commute_returns by blast
  have "\<not> usable_answer demo_dates (demo_result JNull)"
    by (simp add: usable_answer_def demo_result_def read_commute_def model_fields_def)
  moreover obtain d where "research_asks (demo_llm JNull) JNull 9 (Some 10) None 40 ''here'' () demo_commute_db
      10 d (demo_result JNull) ()"
    using demo_commute_fresh demo_commute_destination
    by (auto simp: research_asks_def commute_target_def demo_llm_def)
  ultimately have "commute_research demo_dates demo_digest JNull 14 (demo_llm JNull) 9 (Some 10) None 40 ''here'' ''hash'' ()
     demo_commute_db = (Inl CommuteResearchRejected, ())"
    by (intro conjunct2 [OF commute_research_is_cited, rule_format] conjI)
  moreover from conjunct1 [OF commute_research_is_cited, rule_format, OF run]
      get_fresh_None_iff [THEN iffD1, OF demo_commute_fresh]
  have "estimate_of demo_dates (demo_result demo_commute_answer) r \<and> (\<exists>source sources. cmr_sources r = Some (source # sources))"
    by (auto simp: cited_estimate_def demo_llm_def)
  ultimately show ?thesis by (simp add: demo_commute_run_def run)
qed

theorem commute_cache_answers_witness:
  "\<exists>r s. fst demo_commute_run = Inr (r, s) \<and> (\<exists>r'. commute_research demo_dates demo_digest JNull 14
     (demo_llm JNull) 1000 (Some 10) None 40 ''there'' ''hash'' () s = (Inr (r', s), ()))"
proof -
  obtain r s where run: "commute_research demo_dates demo_digest JNull 14 (demo_llm demo_commute_answer) 9
     (Some 10) None 40 ''here'' ''hash'' () demo_commute_db = (Inr (r, s), ())"
    using demo_commute_returns by blast
  have "(1000 :: int) < 9 + days_us 14" by (simp add: days_us_def)
  from commute_cache_answers [OF run demo_commute_fresh this, where days = 14 and ?llm2.0 = "demo_llm JNull"
      and ?origin2.0 = "''there''" and ?hash2.0 = "''hash''" and ?w2.0 = "()"] run show ?thesis
    by (auto simp: demo_commute_run_def)
qed

theorem expired_commute_is_stuck_witness:
  "\<exists>r s. fst demo_commute_run = Inr (r, s) \<and> commute_research demo_dates demo_digest JNull 14
     (demo_llm demo_commute_answer) (9 + days_us 14) (Some 10) None 40 ''there'' ''hash'' () s = (Inl IntegrityError, ())"
proof -
  obtain r s where run: "commute_research demo_dates demo_digest JNull 14 (demo_llm demo_commute_answer) 9
     (Some 10) None 40 ''here'' ''hash'' () demo_commute_db = (Inr (r, s), ())"
    and model: "mex_model_id (last (db_executions s)) = ''m''"
    using demo_commute_returns by blast
  let ?a = "demo_result demo_commute_answer"
  have now: "(9 :: int) \<le> 9 + days_us 14" by (simp add: days_us_def)
  have "(case accepted_commute demo_dates ?a of Inl _ \<Rightarrow> False | Inr _ \<Rightarrow> True)" by code_simp
  then have "usable_answer demo_dates ?a"
    using accepted_commute_Inr [of demo_dates ?a] by (auto split: sum.splits)
  moreover have "model_name ?a = mex_model_id (last (db_executions s))"
    by (simp add: model model_name_def demo_result_def)
  moreover have "int8_opt (lr_input_tokens ?a)" "int8_opt (lr_output_tokens ?a)"
    by (simp_all add: demo_result_def new_llm_result_def int8_opt_def)
  moreover have "lx_execute (demo_llm demo_commute_answer) q () = (Inr ?a, ())" for q
    by (simp add: demo_llm_def)
  ultimately have "commute_research demo_dates demo_digest JNull 14 (demo_llm demo_commute_answer)
      (9 + days_us 14) (Some 10) None 40 ''there'' ''hash'' () s = (Inl IntegrityError, ())"
    by (intro expired_commute_is_stuck [OF run demo_commute_fresh now order_refl _ demo_commute_destination])
      (simp_all add: commute_target_def)
  with run show ?thesis by (auto simp: demo_commute_run_def)
qed

definition demo_amenities :: AmenityResearchOutput where
  "demo_amenities = \<lparr>ar_amenities = ['' gym '', []], ar_laundry_type = ''BUILDING_SHARED_LAUNDRY'',
     ar_fee_status = ''NO_FEE'', ar_sources = [''https://x''], ar_summary = []\<rparr>"

definition demo_property :: company_property where
  "demo_property = \<lparr>cpy_id = 60, cpy_name = ''160 Water St'', cpy_name_fingerprint = ''160 water st'',
     cpy_source_document = ''file.docx'', cpy_original_url = Some ''https://a'', cpy_resolved_url = None,
     cpy_resolved_url_kind = None, cpy_link_status = ''UNKNOWN'', cpy_address_text = None,
     cpy_locality = None, cpy_latitude = None, cpy_longitude = None, cpy_matched_building_id = None,
     cpy_availability = Some (JObj [(''fee_status'', JStr ''FEE_CHARGED'')]), cpy_check_log = None,
     cpy_check_status = ''PENDING'', cpy_check_error = None, cpy_last_checked_at = None\<rparr>"

theorem amenity_research_fills_gaps_witness:
  "\<exists>a. apply_to_company demo_amenities demo_property = demo_property\<lparr>cpy_availability := Some a\<rparr> \<and>
     json_get ''fee_status'' a = Some (JStr ''FEE_CHARGED'')"
proof -
  have "\<not> open_key ''fee_status'' (snapshot_of demo_property)"
    "json_get ''fee_status'' (snapshot_of demo_property) = Some (JStr ''FEE_CHARGED'')"
    by code_simp+
  with amenity_research_fills_gaps [of demo_amenities demo_property] show ?thesis by auto
qed

definition demo_poi_answer :: json where
  "demo_poi_answer = JObj [(''stores'', JList [JStr ''H Mart'']), (''sources'', JList [JStr ''https://x''])]"

theorem poi_cache_roundtrip_witness:
  "\<exists>v s. fst (poi_research JNull (demo_llm demo_poi_answer) 9 10 ''here'' () empty_db) = Inr (Some v, s) \<and>
     poi_get_fresh 10 1000 s = Some v"
proof -
  have "case fst (poi_research JNull (demo_llm demo_poi_answer) 9 10 ''here'' () empty_db) of
      Inl e \<Rightarrow> False | Inr (v, s) \<Rightarrow> v \<noteq> None"
    by code_simp
  then obtain v s where run: "poi_research JNull (demo_llm demo_poi_answer) 9 10 ''here'' () empty_db = (Inr (Some v, s), ())"
    by (cases "poi_research JNull (demo_llm demo_poi_answer) 9 10 ''here'' () empty_db")
      (auto split: sum.splits prod.splits)
  have "(1000 :: int) \<le> 9 + days_us POI_CACHE_DAYS" by (simp add: days_us_def POI_CACHE_DAYS_def)
  from poi_cache_roundtrip [OF run _ this] run show ?thesis by (simp add: empty_db_def)
qed

end
