(* ===== verification/WebPages.thy ===== *)
theory WebPages
  imports Pydantic Transit
begin

text \<open>
  Access to the web through Tavily: the search provider of \<open>acquisition/search_tavily.py\<close>, the extract
  client of \<open>enrichment/listing_content/service.py\<close>, both over an injected poster, and the host tests
  on URLs that the enrichment services share.  A poster gives the decoded body or raises: an HTTP
  status, a transport error, or another exception.  \<open>show_json\<close> stands for \<open>str\<close> on a value that is no
  text.
\<close>

datatype post_error = HttpError int | TransportError string | OtherError string

type_synonym 'w poster = "string \<Rightarrow> json \<Rightarrow> 'w \<Rightarrow> (post_error + json) \<times> 'w"

section \<open>The search provider\<close>

definition MAX_RESULTS_PER_REQUEST :: int where
  "MAX_RESULTS_PER_REQUEST = 20"

text \<open>\<open>site:(\S+)\s*\<close>: what the expression finds, and the query without it.\<close>

definition no_space :: "char \<Rightarrow> bool" where
  "no_space c \<longleftrightarrow> \<not> py_space c"

function site_tokens :: "string \<Rightarrow> string \<times> string list" where
  "site_tokens [] = ([], [])"
| "site_tokens (c # cs) =
     (let rest = drop 5 (c # cs); domain = takeWhile no_space rest
      in if starts_with (c # cs) ''site:'' \<and> domain \<noteq> []
         then (let (clean, domains) = site_tokens (dropWhile py_space (dropWhile no_space rest))
               in (clean, domain # domains))
         else (let (clean, domains) = site_tokens cs in (c # clean, domains)))"
  by pat_completeness auto

termination
proof (relation "measure length")
  fix c :: char and cs rest domain
  assume "rest = drop 5 (c # cs)" "domain = takeWhile no_space rest"
    "starts_with (c # cs) ''site:'' \<and> domain \<noteq> []"
  then have "length (dropWhile py_space (dropWhile no_space rest)) \<le> length (drop 4 cs)"
    by (metis drop_Suc_Cons length_dropWhile_le le_trans numeral_eq_Suc pred_numeral_simps(3)
        eval_nat_numeral(3) semiring_norm(26) semiring_norm(27) semiring_norm(28))
  then show "(dropWhile py_space (dropWhile no_space rest), c # cs) \<in> measure length"
    by simp
qed auto

definition split_site_restriction :: "string \<Rightarrow> string \<times> string list" where
  "split_site_restriction query = (let (clean, domains) = site_tokens query in (py_strip clean, domains))"

definition search_body :: "SearchQuery \<Rightarrow> json" where
  "search_body request = (let (clean, domains) = split_site_restriction (sq_query request) in JObj (
     [(''query'', JStr (if clean = [] then sq_query request else clean)),
      (''max_results'', JInt (min (sq_max_results request) MAX_RESULTS_PER_REQUEST)),
      (''search_depth'', JStr ''basic'')] @
     (if domains = [] then [] else [(''include_domains'', json_texts domains)])))"

text \<open>One result object, counted from rank 1; results without a URL are skipped.\<close>

definition search_item :: "int \<Rightarrow> json \<Rightarrow> SearchResultItem option result" where
  "search_item rank found =
     bind_result (py_get ''url'' found) (\<lambda>url.
     if \<not> json_truthy url then Inr None
     else bind_result (py_get ''title'' found) (\<lambda>title.
          bind_result (py_get ''content'' found) (\<lambda>snippet.
          bind_result (field_str url) (\<lambda>u.
          bind_result (field_opt field_str title) (\<lambda>t.
          bind_result (field_opt field_str snippet) (\<lambda>c.
          Inr (Some \<lparr>si_url = u, si_title = t, si_snippet = c, si_rank = Some rank\<rparr>)))))))"

fun search_items :: "int \<Rightarrow> json list \<Rightarrow> SearchResultItem list result" where
  "search_items rank [] = Inr []"
| "search_items rank (found # rest) =
     bind_result (search_item rank found) (\<lambda>item.
     bind_result (search_items (rank + 1) rest) (\<lambda>items.
     Inr (case item of None \<Rightarrow> items | Some i \<Rightarrow> i # items)))"

definition search_failure :: "ProviderRequestStatus \<Rightarrow> string \<Rightarrow> SearchResponse" where
  "search_failure status code = \<lparr>sp_status = status, sp_items = [], sp_provider_result_id = None,
     sp_error_code = Some code\<rparr>"

definition tavily_search :: "'w poster \<Rightarrow> SearchQuery \<Rightarrow> 'w \<Rightarrow> SearchResponse fallible \<times> 'w" where
  "tavily_search post request w =
     (case post ''https://api.tavily.com/search'' (search_body request) w of
        (Inl (HttpError code), w1) \<Rightarrow>
          (Inr (search_failure (if code = 429 then ProviderRequestStatus.RATE_LIMITED
             else ProviderRequestStatus.FAILED) (''HTTP_'' @ dec_text code)), w1)
      | (Inl (TransportError name), w1) \<Rightarrow>
          (Inr (search_failure ProviderRequestStatus.FAILED (''TRANSPORT_'' @ name)), w1)
      | (Inl (OtherError name), w1) \<Rightarrow>
          (Inr (search_failure ProviderRequestStatus.FAILED (''TRANSPORT_'' @ name)), w1)
      | (Inr body, w1) \<Rightarrow>
          (case bind_result (bind_result (py_get_default ''results'' (JList []) body) py_iter) (search_items 1) of
             Inl e \<Rightarrow> (Inl (error_name e), w1)
           | Inr items \<Rightarrow> (Inr \<lparr>sp_status = ProviderRequestStatus.SUCCEEDED, sp_items = items,
               sp_provider_result_id = None, sp_error_code = None\<rparr>, w1)))"

definition TavilySearchProvider :: "string \<Rightarrow> 'w poster \<Rightarrow> 'w SearchProvider result" where
  "TavilySearchProvider api_key post =
     (if api_key = [] then Inl ValueError
      else Inr \<lparr>sv_interface_version = ''1.0.0'', sv_provider_code = ''tavily'',
                sv_search = tavily_search post\<rparr>)"

section \<open>The extract client\<close>

text \<open>\<open>TavilyQuotaError\<close> is known by its name, like every exception the callers catch by type.\<close>

abbreviation TavilyQuotaError :: py_error where
  "TavilyQuotaError \<equiv> ExternalError ''TavilyQuotaError''"

type_synonym 'w extractor = "string \<Rightarrow> 'w \<Rightarrow> string option result \<times> 'w"

text \<open>The first truthy \<open>raw_content\<close>, as text.\<close>

fun first_content :: "(json \<Rightarrow> string) \<Rightarrow> json list \<Rightarrow> string option result" where
  "first_content show_json [] = Inr None"
| "first_content show_json (found # rest) =
     bind_result (py_get ''raw_content'' found) (\<lambda>content.
       if json_truthy content
       then Inr (Some (case content of JStr t \<Rightarrow> t | _ \<Rightarrow> show_json content))
       else first_content show_json rest)"

definition tavily_extract :: "(json \<Rightarrow> string) \<Rightarrow> 'w poster \<Rightarrow> 'w extractor" where
  "tavily_extract show_json post url w =
     (case post ''https://api.tavily.com/extract'' (JObj [(''urls'', json_texts [url])]) w of
        (Inl (HttpError code), w1) \<Rightarrow>
          (if code = 429 \<or> code = 432 then Inl TavilyQuotaError else Inr None, w1)
      | (Inl (TransportError name), w1) \<Rightarrow> (Inr None, w1)
      | (Inl (OtherError name), w1) \<Rightarrow> (Inl (ExternalError name), w1)
      | (Inr body, w1) \<Rightarrow>
          (bind_result (bind_result (py_get_default ''results'' (JList []) body) py_iter)
             (first_content show_json), w1))"

section \<open>Hosts\<close>

text \<open>
  \<open>urlparse(url).netloc\<close>: leading control characters and spaces go, tabs and newlines go anywhere, a
  scheme is skipped, and the authority runs to the first slash, question mark or number sign.  One
  bracket without the other raises.
\<close>

definition clean_url :: "string \<Rightarrow> string" where
  "clean_url url = filter (\<lambda>c. c \<notin> {CHR 0x09, CHR 0x0A, CHR 0x0D})
     (dropWhile (\<lambda>c. (of_char c :: nat) \<le> 32) url)"

definition scheme_char :: "char \<Rightarrow> bool" where
  "scheme_char c \<longleftrightarrow> (word_char c \<and> c \<noteq> CHR ''_'') \<or> c \<in> set ''+-.''"

definition after_scheme :: "string \<Rightarrow> string" where
  "after_scheme url = (let scheme = takeWhile (\<lambda>c. c \<noteq> CHR '':'') url; rest = dropWhile (\<lambda>c. c \<noteq> CHR '':'') url
     in if scheme \<noteq> [] \<and> rest \<noteq> [] \<and> (ascii_lower (hd scheme) \<or> ascii_upper (hd scheme)) \<and>
           list_all scheme_char scheme then tl rest else url)"

definition url_netloc :: "string \<Rightarrow> string result" where
  "url_netloc url = (let rest = after_scheme (clean_url url) in
     if \<not> starts_with rest ''//'' then Inr []
     else (let netloc = takeWhile (\<lambda>c. c \<notin> set ''/?#'') (drop 2 rest)
           in if (CHR ''['' \<in> set netloc) \<noteq> (CHR '']'' \<in> set netloc) then Inl ValueError else Inr netloc))"

definition url_path :: "string \<Rightarrow> string" where
  "url_path url = (let rest = after_scheme (clean_url url);
       after = (if starts_with rest ''//'' then dropWhile (\<lambda>c. c \<notin> set ''/?#'') (drop 2 rest) else rest)
     in takeWhile (\<lambda>c. c \<notin> set ''?#'') after)"

text \<open>\<open>netloc.removeprefix("www.").lower()\<close>\<close>

definition url_host :: "string \<Rightarrow> string result" where
  "url_host url = bind_result (url_netloc url) (\<lambda>netloc.
     Inr (py_lower (if starts_with netloc ''www.'' then drop 4 netloc else netloc)))"

definition AGGREGATOR_DOMAINS :: "string list" where
  "AGGREGATOR_DOMAINS = [''apartments.com'', ''zillow.com'', ''streeteasy.com'', ''rent.com'', ''renthop.com'',
     ''trulia.com'', ''hotpads.com'', ''zumper.com'', ''realtor.com'', ''apartmentguide.com'',
     ''apartmentlist.com'', ''padmapper.com'', ''craigslist.org'', ''rentcafe.com'', ''rentable.co'',
     ''rent-marketplace.com'', ''cityrealty.com'', ''propertyshark.com'', ''loopnet.com'', ''niche.com'',
     ''newyorkyimby.com'', ''prnewswire.com'', ''jerseydigs.com'', ''njbiz.com'', ''6sqft.com'',
     ''curbed.com'', ''therealdeal.com'', ''uhomes.com'', ''transparentcity.co'', ''leaseswap.nyc'',
     ''luxuryrentalsmanhattan.com'', ''redfin.com'', ''compass.com'', ''theblueground.com'', ''leasing.ai'',
     ''facebook.com'', ''instagram.com'', ''yelp.com'', ''google.com'', ''youtube.com'', ''wikipedia.org'']"

text \<open>A host is a domain or one of its subdomains.\<close>

definition in_domain :: "string \<Rightarrow> string \<Rightarrow> bool" where
  "in_domain host d \<longleftrightarrow> host = d \<or> ends_with host (''.'' @ d)"

definition aggregator_host :: "string \<Rightarrow> bool" where
  "aggregator_host host \<longleftrightarrow> (\<exists>d \<in> set AGGREGATOR_DOMAINS. in_domain host d)"

end
