(* ===== verification/Excerpt.thy ===== *)
theory Excerpt
  imports WebPages "HOL-Library.Sublist"
begin

text \<open>
  The windowed excerpt of a page, \<open>_relevant_excerpt\<close> of \<open>enrichment/listing_content/service.py\<close>: a
  window around each occurrence of a keyword, the windows sorted and merged, and their texts joined
  after the head of the page up to the cap.  The separator is newline, an em dash (one character,
  \<open>dash\<close>) and the letter n, as the source writes it.
\<close>

section \<open>Windows\<close>

datatype span = Span (sp_start: nat) (sp_end: nat)

text \<open>Lists of two numbers sort lexicographically.\<close>

instantiation span :: linorder
begin

definition less_eq_span :: "span \<Rightarrow> span \<Rightarrow> bool" where
  "s \<le> t \<longleftrightarrow> sp_start s < sp_start t \<or> sp_start s = sp_start t \<and> sp_end s \<le> sp_end t"

definition less_span :: "span \<Rightarrow> span \<Rightarrow> bool" where
  "s < t \<longleftrightarrow> sp_start s < sp_start t \<or> sp_start s = sp_start t \<and> sp_end s < sp_end t"

instance
  by intro_classes (auto simp: less_eq_span_def less_span_def span.expand)

end

lemma span_le_start: "s \<le> (t :: span) \<Longrightarrow> sp_start s \<le> sp_start t"
  by (auto simp: less_eq_span_def)

fun find_text :: "string \<Rightarrow> string \<Rightarrow> nat option" where
  "find_text needle [] = (if needle = [] then Some 0 else None)"
| "find_text needle (c # cs) = (if starts_with (c # cs) needle then Some 0
     else map_option Suc (find_text needle cs))"

text \<open>\<open>t.find(needle, start)\<close>\<close>

definition find_from :: "string \<Rightarrow> nat \<Rightarrow> string \<Rightarrow> nat option" where
  "find_from needle start t =
     (if length t < start then None else map_option (\<lambda>i. start + i) (find_text needle (drop start t)))"

definition EXCERPT_KEYWORDS :: "string list" where
  "EXCERPT_KEYWORDS = [''$'', ''laundry'', ''washer'', ''dryer'', ''floor plan'', ''floorplan'', ''amenit'',
     ''broker fee'', ''no fee'', ''per month'', ''/mo'', ''available'']"

definition MAX_PAGE_CHARS :: nat where
  "MAX_PAGE_CHARS = 14000"

definition window :: "nat \<Rightarrow> nat \<Rightarrow> span" where
  "window len idx = Span (idx - 600) (min len (idx + 1400))"

fun keyword_spans :: "nat \<Rightarrow> string \<Rightarrow> string \<Rightarrow> nat \<Rightarrow> span list" where
  "keyword_spans 0 keyword lowered start = []"
| "keyword_spans (Suc n) keyword lowered start =
     (case find_from keyword start lowered of
        None \<Rightarrow> []
      | Some idx \<Rightarrow> window (length lowered) idx # keyword_spans n keyword lowered (idx + 2000))"

definition page_spans :: "string \<Rightarrow> span list" where
  "page_spans text = concat (map (\<lambda>k. keyword_spans 20 k (py_lower text) 0) EXCERPT_KEYWORDS)"

text \<open>The loop over the sorted spans; the head of the list is \<open>merged[-1]\<close>.\<close>

fun merge_spans :: "span list \<Rightarrow> span list" where
  "merge_spans [] = []"
| "merge_spans [s] = [s]"
| "merge_spans (s # t # ss) =
     (if sp_start t \<le> sp_end s
      then merge_spans (Span (sp_start s) (max (sp_end s) (sp_end t)) # ss)
      else s # merge_spans (t # ss))"

definition slice :: "string \<Rightarrow> nat \<Rightarrow> nat \<Rightarrow> string" where
  "slice text a b = take (b - a) (drop a text)"

fun take_pieces :: "nat \<Rightarrow> string \<Rightarrow> nat \<Rightarrow> span list \<Rightarrow> string list" where
  "take_pieces cap text used [] = []"
| "take_pieces cap text used (s # ss) =
     (if cap \<le> used then []
      else (let chunk = slice text (sp_start s) (min (sp_end s) (sp_start s + (cap - used)))
            in chunk # take_pieces cap text (used + length chunk) ss))"

definition excerpt_pieces :: "nat \<Rightarrow> string \<Rightarrow> string list" where
  "excerpt_pieces cap text = take 1500 text #
     take_pieces cap text (length (take 1500 text)) (merge_spans (sort (page_spans text)))"

definition relevant_excerpt :: "char \<Rightarrow> nat \<Rightarrow> string \<Rightarrow> string" where
  "relevant_excerpt dash cap text =
     (if length text \<le> cap then text
      else if page_spans text = [] then take cap text
      else take cap (join_texts [CHR 0x0A, dash, CHR ''n''] (excerpt_pieces cap text)))"

section \<open>Merging\<close>

text \<open>A span is inside another; the merged spans are apart, and each span is inside one of them.\<close>

definition inside :: "span \<Rightarrow> span \<Rightarrow> bool" where
  "inside s m \<longleftrightarrow> sp_start m \<le> sp_start s \<and> sp_end s \<le> sp_end m"

text \<open>The span that a step of the loop puts in the place of two.\<close>

definition joined :: "span \<Rightarrow> span \<Rightarrow> span" where
  "joined s t = Span (sp_start s) (max (sp_end s) (sp_end t))"

lemma joined_sel [simp]: "sp_start (joined s t) = sp_start s" "sp_end (joined s t) = max (sp_end s) (sp_end t)"
  by (simp_all add: joined_def)

lemma joined_le: "s \<le> v \<Longrightarrow> t \<le> v \<Longrightarrow> s \<le> t \<Longrightarrow> joined s t \<le> v"
  by (auto simp: less_eq_span_def)

lemma sorted_joined: "sorted (s # t # ss) \<Longrightarrow> sorted (joined s t # ss)"
  by (auto intro: joined_le)

lemma merge_spans_step:
  "merge_spans (s # t # ss) = (if sp_start t \<le> sp_end s then merge_spans (joined s t # ss)
     else s # merge_spans (t # ss))"
  by (simp add: joined_def)

text \<open>Induction over the loop on sorted spans.\<close>

lemma merge_induct [consumes 1, case_names none one overlap apart]:
  assumes "sorted ss" "P []" "\<And>s. P [s]"
    and "\<And>s t ss. sorted (s # t # ss) \<Longrightarrow> sp_start t \<le> sp_end s \<Longrightarrow> P (joined s t # ss) \<Longrightarrow> P (s # t # ss)"
    and "\<And>s t ss. sorted (s # t # ss) \<Longrightarrow> sp_end s < sp_start t \<Longrightarrow> P (t # ss) \<Longrightarrow> P (s # t # ss)"
  shows "P ss"
  using assms(1)
proof (induction ss rule: merge_spans.induct)
  case (3 s t ss)
  show ?case
  proof (cases "sp_start t \<le> sp_end s")
    case True
    from 3(1) [OF True] sorted_joined [OF 3(3)] have "P (joined s t # ss)" by (simp add: joined_def)
    with assms(4) [OF 3(3) True] show ?thesis by simp
  next
    case False
    from 3(2) [OF False] 3(3) assms(5) [OF 3(3)] False show ?thesis by simp
  qed
qed (use assms(2,3) in simp_all)

lemma merge_starts:
  "sorted ss \<Longrightarrow> m \<in> set (merge_spans ss) \<Longrightarrow> sp_start (hd ss) \<le> sp_start m"
proof (induction rule: merge_induct)
  case (apart s t ss)
  then have "sp_start s \<le> sp_start t" using span_le_start by simp
  with apart show ?case by (auto simp: merge_spans_step simp del: merge_spans.simps)
qed (auto simp: merge_spans_step simp del: merge_spans.simps(3))

lemma merge_apart: "sorted ss \<Longrightarrow> sorted_wrt (\<lambda>s t. sp_end s < sp_start t) (merge_spans ss)"
proof (induction rule: merge_induct)
  case (apart s t ss)
  have "sp_end s < sp_start m" if "m \<in> set (merge_spans (t # ss))" for m
    using merge_starts [OF _ that] apart by (metis leD le_less_trans list.sel(1) not_le_imp_less sorted_simps(2))
  with apart show ?case by (simp add: merge_spans_step del: merge_spans.simps(3))
qed (simp_all add: merge_spans_step del: merge_spans.simps(3))

lemma merge_inside: "sorted ss \<Longrightarrow> s \<in> set ss \<Longrightarrow> \<exists>m \<in> set (merge_spans ss). inside s m"
proof (induction arbitrary: s rule: merge_induct)
  case (overlap u t ss)
  have "\<exists>m \<in> set (merge_spans (joined u t # ss)). inside s m"
  proof (cases "s \<in> set ss")
    case True
    then show ?thesis using overlap.IH by simp
  next
    case False
    with overlap.prems have "s = u \<or> s = t" by simp
    moreover have "sp_start u \<le> sp_start t" using overlap(1) span_le_start by simp
    ultimately have "inside s (joined u t)" by (auto simp: inside_def)
    moreover obtain m where "m \<in> set (merge_spans (joined u t # ss))" "inside (joined u t) m"
      using overlap.IH [of "joined u t"] by auto
    ultimately show ?thesis by (meson inside_def le_trans)
  qed
  with overlap(2) show ?case by (simp add: merge_spans_step del: merge_spans.simps(3))
next
  case (apart u t ss)
  then show ?case by (auto simp: merge_spans_step inside_def simp del: merge_spans.simps(3))
qed (simp_all add: inside_def)

lemma merge_sound:
  "sorted ss \<Longrightarrow> m \<in> set (merge_spans ss) \<Longrightarrow> sp_start m \<le> i \<Longrightarrow> i \<le> sp_end m \<Longrightarrow>
     \<exists>s \<in> set ss. sp_start s \<le> i \<and> i \<le> sp_end s"
proof (induction rule: merge_induct)
  case (overlap u t ss)
  have "m \<in> set (merge_spans (joined u t # ss))"
    using overlap.prems(1) overlap(2) by (simp add: merge_spans_step del: merge_spans.simps(3))
  from overlap.IH [OF this overlap.prems(2,3)] obtain s where
      "s \<in> set (joined u t # ss)" "sp_start s \<le> i" "i \<le> sp_end s"
    by blast
  then have s: "s = joined u t \<or> s \<in> set ss" "sp_start s \<le> i" "i \<le> sp_end s" by simp_all
  show ?case
  proof (cases "s = joined u t")
    case True
    with s overlap(2) show ?thesis by (cases "i \<le> sp_end u") auto
  qed (use s in auto)
qed (auto simp: merge_spans_step simp del: merge_spans.simps(3))

section \<open>Pieces of the page\<close>

text \<open>A span that lies in a text of the given length and is not empty.\<close>

definition span_ok :: "nat \<Rightarrow> span \<Rightarrow> bool" where
  "span_ok len s \<longleftrightarrow> sp_start s < sp_end s \<and> sp_end s \<le> len"

lemma merge_ok: "sorted ss \<Longrightarrow> \<forall>s \<in> set ss. span_ok len s \<Longrightarrow> m \<in> set (merge_spans ss) \<Longrightarrow> span_ok len m"
proof (induction rule: merge_induct)
  case (overlap u t ss)
  have "\<forall>s \<in> set (joined u t # ss). span_ok len s"
    using overlap.prems(1) by (auto simp: span_ok_def)
  from overlap.IH [OF this] overlap.prems(2) overlap(2) show ?case
    by (simp add: merge_spans_step del: merge_spans.simps(3))
qed (auto simp: merge_spans_step simp del: merge_spans.simps(3))

lemma sublist_slice: "sublist (slice text a b) text"
proof -
  have "text = take a text @ slice text a b @ drop (b - a) (drop a text)"
    unfolding slice_def by (metis append_take_drop_id)
  then show ?thesis unfolding sublist_def by blast
qed

lemma slice_inside:
  assumes "inside s m"
  shows "sublist (slice text (sp_start s) (sp_end s)) (slice text (sp_start m) (sp_end m))"
proof -
  let ?d = "sp_start s - sp_start m"
  have "sp_start m + ?d = sp_start s" "sp_start s - sp_start m \<le> sp_start s"
    using assms by (auto simp: inside_def)
  then have "drop ?d (slice text (sp_start m) (sp_end m)) =
      take (sp_end m - sp_start m - ?d) (drop (sp_start s) text)"
    by (simp add: slice_def drop_take add.commute)
  moreover have "sp_end s - sp_start s \<le> sp_end m - sp_start m - ?d"
    using assms by (auto simp: inside_def)
  ultimately have "slice text (sp_start s) (sp_end s) =
      slice (slice text (sp_start m) (sp_end m)) ?d (?d + (sp_end s - sp_start s))"
    by (simp add: slice_def [of _ ?d] slice_def [of "text" "sp_start s"] min_absorb1)
  then show ?thesis using sublist_slice by metis
qed

lemma pieces_from_page: "p \<in> set (excerpt_pieces cap text) \<Longrightarrow> sublist p text"
proof -
  have take: "sublist (take n text) text" for n
    using sublist_slice [of "text" 0 n] by (simp add: slice_def)
  have "p \<in> set (take_pieces cap text n ss) \<Longrightarrow> sublist p text" for n ss
    by (induction ss arbitrary: n) (auto simp: Let_def sublist_slice split: if_splits)
  with take show "p \<in> set (excerpt_pieces cap text) \<Longrightarrow> sublist p text"
    by (auto simp: excerpt_pieces_def)
qed

lemma length_slice: "span_ok (length text) s \<Longrightarrow> length (slice text (sp_start s) (sp_end s)) = sp_end s - sp_start s"
  by (auto simp: slice_def span_ok_def)

definition span_size :: "span \<Rightarrow> nat" where
  "span_size s = sp_end s - sp_start s"

lemma take_pieces_full:
  assumes "\<forall>s \<in> set ss. span_ok (length text) s" "used + sum_list (map span_size ss) \<le> cap"
  shows "take_pieces cap text used ss = map (\<lambda>s. slice text (sp_start s) (sp_end s)) ss"
  using assms
proof (induction ss arbitrary: used)
  case (Cons s ss)
  have ok: "span_ok (length text) s" using Cons.prems(1) by simp
  then have "min (sp_end s) (sp_start s + (cap - used)) = sp_end s" "\<not> cap \<le> used"
    using Cons.prems(2) by (auto simp: span_size_def span_ok_def)
  with Cons length_slice [OF ok] show ?case by (simp add: Let_def span_size_def)
qed simp

lemma sublist_join: "p \<in> set ps \<Longrightarrow> sublist p (join_texts sep ps)"
proof (induction sep ps rule: join_texts.induct)
  case (3 sep t u ts)
  show ?case
  proof (cases "p = t")
    case True
    have "join_texts sep (t # u # ts) = [] @ t @ (sep @ join_texts sep (u # ts))" by simp
    with True show ?thesis unfolding sublist_def by blast
  next
    case False
    with 3 obtain ps ss where "join_texts sep (u # ts) = ps @ p @ ss" by (auto simp: sublist_def)
    then have "join_texts sep (t # u # ts) = (t @ sep @ ps) @ p @ ss" by simp
    then show ?thesis unfolding sublist_def by blast
  qed
qed simp_all

lemma length_join:
  "length (join_texts sep ps) = sum_list (map length ps) + length sep * (length ps - 1)"
  by (induction sep ps rule: join_texts.induct) simp_all

section \<open>The windows of a page\<close>

lemma find_text_bound: "find_text needle t = Some i \<Longrightarrow> i + length needle \<le> length t"
proof (induction t arbitrary: i)
  case (Cons c t)
  show ?case
  proof (cases "starts_with (c # t) needle")
    case True
    then have "length needle \<le> length (c # t)"
      by (metis length_take min.cobounded1 starts_with_def)
    with Cons.prems True show ?thesis by simp
  next
    case False
    with Cons.prems obtain j where "find_text needle t = Some j" "i = Suc j" by auto
    with Cons.IH show ?thesis by simp
  qed
qed (auto split: if_splits)

lemma find_from_bound:
  assumes "find_from needle start t = Some i"
  shows "i + length needle \<le> length t"
proof -
  obtain j where j: "find_text needle (drop start t) = Some j" "i = start + j" "start \<le> length t"
    using assms by (auto simp: find_from_def split: if_splits)
  with find_text_bound [OF j(1)] show ?thesis by simp
qed

lemma keyword_spans_ok:
  "k \<noteq> [] \<Longrightarrow> s \<in> set (keyword_spans n k lowered start) \<Longrightarrow> span_ok (length lowered) s"
proof (induction n arbitrary: start)
  case (Suc n)
  then obtain idx where idx: "find_from k start lowered = Some idx"
    by (cases "find_from k start lowered") auto
  have "idx < length lowered"
    using find_from_bound [OF idx] Suc.prems(1) by (cases k) auto
  then have "span_ok (length lowered) (window (length lowered) idx)"
    by (simp add: span_ok_def window_def) arith
  with Suc idx show ?case by auto
qed simp

lemma length_py_lower [simp]: "length (py_lower t) = length t"
  by (simp add: py_lower_def)

lemma page_spans_ok: "s \<in> set (page_spans text) \<Longrightarrow> span_ok (length text) s"
proof -
  assume "s \<in> set (page_spans text)"
  then obtain k where k: "k \<in> set EXCERPT_KEYWORDS" "s \<in> set (keyword_spans 20 k (py_lower text) 0)"
    by (auto simp: page_spans_def)
  have "k \<noteq> []" using k(1) by (auto simp: EXCERPT_KEYWORDS_def)
  from keyword_spans_ok [OF this k(2)] show ?thesis by simp
qed

lemma first_window:
  assumes "k \<in> set EXCERPT_KEYWORDS" "find_text k (py_lower text) = Some idx"
  shows "window (length text) idx \<in> set (page_spans text)"
proof -
  have "find_from k 0 (py_lower text) = Some idx" using assms(2) by (simp add: find_from_def)
  then have "window (length text) idx \<in> set (keyword_spans (Suc 19) k (py_lower text) 0)"
    by (simp only: keyword_spans.simps option.case length_py_lower list.set_intros)
  moreover have "Suc 19 = 20" by simp
  ultimately show ?thesis using assms(1) by (auto simp only: page_spans_def set_concat set_map)
qed

definition excerpt_fits :: "nat \<Rightarrow> string \<Rightarrow> bool" where
  "excerpt_fits cap text \<longleftrightarrow>
     1500 + sum_list (map (\<lambda>m. 3 + span_size m) (merge_spans (sort (page_spans text)))) \<le> cap"

lemma span_sizes: "sum_list (map (\<lambda>m. 3 + span_size m) ms) = 3 * length ms + sum_list (map span_size ms)"
  by (induction ms) simp_all

lemma excerpt_whole:
  assumes "excerpt_fits cap text" "cap < length text" "page_spans text \<noteq> []"
  shows "relevant_excerpt dash cap text = join_texts [CHR 0x0A, dash, CHR ''n''] (take 1500 text #
    map (\<lambda>s. slice text (sp_start s) (sp_end s)) (merge_spans (sort (page_spans text))))"
proof -
  let ?ms = "merge_spans (sort (page_spans text))"
  have ok: "\<forall>m \<in> set ?ms. span_ok (length text) m"
    using merge_ok [of "sort (page_spans text)" "length text"] page_spans_ok by simp
  note sizes = span_sizes [of ?ms]
  have head: "length (take 1500 text) \<le> 1500" by simp
  have pieces: "excerpt_pieces cap text = take 1500 text #
      map (\<lambda>s. slice text (sp_start s) (sp_end s)) ?ms"
  proof -
    have "length (take 1500 text) + sum_list (map span_size ?ms) \<le> cap"
      using assms(1) sizes head unfolding excerpt_fits_def by linarith
    from take_pieces_full [OF ok this] show ?thesis by (simp only: excerpt_pieces_def)
  qed
  have lens: "map length (map (\<lambda>s. slice text (sp_start s) (sp_end s)) ?ms) = map span_size ?ms"
    unfolding map_map by (rule map_cong) (simp_all add: ok [rule_format] length_slice span_size_def)
  have "sum_list (map length (excerpt_pieces cap text)) = length (take 1500 text) + sum_list (map span_size ?ms)"
    unfolding pieces list.map(2) sum_list.Cons lens ..
  then have "sum_list (map length (excerpt_pieces cap text)) \<le> 1500 + sum_list (map span_size ?ms)"
    using head by linarith
  then have "length (join_texts [CHR 0x0A, dash, CHR ''n''] (excerpt_pieces cap text)) \<le> cap"
    using assms(1) sizes by (simp add: length_join excerpt_fits_def pieces)
  with assms(2,3) show ?thesis by (simp add: relevant_excerpt_def pieces)
qed

section \<open>Properties\<close>

text \<open>
  The merge of the windows: of a sorted list it makes spans that lie strictly apart, in order, and
  cover exactly the positions that the windows cover, each window inside one of them.
\<close>
theorem merged_windows:
  "sorted_wrt (\<lambda>s t. sp_end s < sp_start t) (merge_spans (sort ss)) \<and>
   (\<forall>s \<in> set ss. \<exists>m \<in> set (merge_spans (sort ss)). inside s m) \<and>
   (\<forall>m \<in> set (merge_spans (sort ss)). \<forall>i \<in> {sp_start m..sp_end m}.
      \<exists>s \<in> set ss. i \<in> {sp_start s..sp_end s})"
  using merge_apart [of "sort ss"] merge_inside [of "sort ss"] merge_sound [of "sort ss"] by force

theorem merged_windows_witness:
  "merge_spans (sort [Span 5 9, Span 0 3, Span 2 4]) = [Span 0 4, Span 5 9] \<and>
   sorted_wrt (\<lambda>s t. sp_end s < sp_start t) [Span 0 4, Span 5 9]"
proof -
  have "merge_spans (sort [Span 5 9, Span 0 3, Span 2 4]) = [Span 0 4, Span 5 9]"
    by (simp add: less_eq_span_def)
  with merged_windows [of "[Span 5 9, Span 0 3, Span 2 4]"] show ?thesis by metis
qed

text \<open>
  The excerpt is bounded and invents nothing: it is never longer than the cap, a page within the cap
  is kept whole, and a longer one becomes the first \<open>cap\<close> characters of the page or of the joined
  pieces, each of which is a contiguous part of the page.
\<close>
theorem excerpt_bounded:
  "length (relevant_excerpt dash cap text) \<le> cap \<and>
   (length text \<le> cap \<longrightarrow> relevant_excerpt dash cap text = text) \<and>
   (cap < length text \<longrightarrow> (\<exists>pieces. (\<forall>p \<in> set pieces. sublist p text) \<and>
      relevant_excerpt dash cap text = take cap (join_texts [CHR 0x0A, dash, CHR ''n''] pieces)))"
proof -
  have "\<exists>pieces. (\<forall>p \<in> set pieces. sublist p text) \<and>
      relevant_excerpt dash cap text = take cap (join_texts [CHR 0x0A, dash, CHR ''n''] pieces)"
    if "cap < length text"
  proof (cases "page_spans text = []")
    case True
    with that show ?thesis by (intro exI [of _ "[text]"]) (simp add: relevant_excerpt_def)
  next
    case False
    with that pieces_from_page [of _ cap "text"] show ?thesis
      by (intro exI [of _ "excerpt_pieces cap text"]) (simp add: relevant_excerpt_def)
  qed
  then show ?thesis by (auto simp: relevant_excerpt_def)
qed

theorem excerpt_bounded_witness:
  "length (relevant_excerpt (CHR ''-'') 2 ''rent'') \<le> 2 \<and>
   (\<exists>pieces. (\<forall>p \<in> set pieces. sublist p ''rent'') \<and> relevant_excerpt (CHR ''-'') 2 ''rent'' =
      take 2 (join_texts [CHR 0x0A, CHR ''-'', CHR ''n''] pieces))"
  using excerpt_bounded [of "CHR ''-''" 2 "''rent''"] by simp

text \<open>
  When head, windows and separators fit under the cap, the surroundings of the first occurrence of
  every keyword (600 characters before it, 1400 from it on) are in the excerpt, in one piece.
\<close>
theorem excerpt_keeps_contexts:
  assumes "excerpt_fits cap text" "k \<in> set EXCERPT_KEYWORDS" "find_text k (py_lower text) = Some idx"
  shows "sublist (slice text (idx - 600) (min (length text) (idx + 1400))) (relevant_excerpt dash cap text)"
proof (cases "length text \<le> cap")
  case True
  then show ?thesis by (simp add: relevant_excerpt_def sublist_slice)
next
  case False
  let ?w = "window (length text) idx"
  let ?ms = "merge_spans (sort (page_spans text))"
  have w: "?w \<in> set (page_spans text)" by (rule first_window [OF assms(2,3)])
  then obtain m where m: "m \<in> set ?ms" "inside ?w m"
    using merge_inside [of "sort (page_spans text)" ?w] by auto
  have "sublist (slice text (sp_start m) (sp_end m)) (relevant_excerpt dash cap text)"
    using m(1) w False by (subst excerpt_whole [OF assms(1)]) (auto intro: sublist_join)
  with slice_inside [OF m(2)] show ?thesis
    by (auto simp: window_def intro: sublist_order.order.trans)
qed

theorem excerpt_keeps_contexts_witness:
  "sublist ''rent $2,000'' (relevant_excerpt (CHR ''-'') 14000 ''rent $2,000'')"
proof -
  have "page_spans ''rent $2,000'' = [Span 0 11]"
    by (simp add: page_spans_def EXCERPT_KEYWORDS_def numeral_eq_Suc find_from_def starts_with_def
        py_lower_def lower_char_def ascii_upper_def window_def)
  then have "excerpt_fits 14000 ''rent $2,000''" by (simp add: excerpt_fits_def span_size_def)
  moreover have "find_text ''$'' (py_lower ''rent $2,000'') = Some 5"
    by (simp add: starts_with_def py_lower_def lower_char_def ascii_upper_def)
  moreover have "''$'' \<in> set EXCERPT_KEYWORDS" by (simp add: EXCERPT_KEYWORDS_def)
  ultimately show ?thesis
    using excerpt_keeps_contexts [of 14000 "''rent $2,000''" "''$''" 5 "CHR ''-''"]
    by (simp add: slice_def)
qed

end
