(* ===== verification/ListingContent.thy ===== *)
theory ListingContent
  imports Normalization Research Excerpt
begin

text \<open>
  Detail-page enrichment, \<open>ListingContentEnrichmentService\<close> of \<open>enrichment/listing_content/service.py\<close>:
  the page of a listing (or of its building's own site) is fetched, excerpted and read by a model,
  and what it states becomes facts, a rent and laundry correction under overrides, an event and a
  referenced floor plan.  \<open>sha256\<close> is the hash of a text, \<open>dash\<close> the em dash, \<open>schema\<close> Pydantic's JSON
  schema; one clock reading serves a call.  An insert that violates a constraint fails the call.
\<close>

definition DETAIL_TASK_TYPE :: string where
  "DETAIL_TASK_TYPE = ''listing_detail_extract''"

definition DETAIL_PROMPT_VERSION :: string where
  "DETAIL_PROMPT_VERSION = ''detail-extract-v3''"

definition DETAIL_SCHEMA_VERSION :: string where
  "DETAIL_SCHEMA_VERSION = ''1''"

record ListingPageFacts =
  pf_laundry_type :: string
  pf_laundry_evidence :: string
  pf_floor_plan_present :: bool
  pf_floor_plan_url :: "string option"
  pf_amenities :: "string list"
  pf_fee_status :: string
  pf_fee_evidence :: string
  pf_monthly_rent_usd :: "int option"
  pf_rent_evidence :: string

definition PAGE_FIELDS :: "string list" where
  "PAGE_FIELDS = [''laundry_type'', ''laundry_evidence'', ''floor_plan_present'', ''floor_plan_url'',
     ''amenities'', ''fee_status'', ''fee_evidence'', ''monthly_rent_usd'', ''rent_evidence'']"

definition read_page_facts :: "json \<Rightarrow> ListingPageFacts result" where
  "read_page_facts j =
     bind_result (model_fields PAGE_FIELDS j) (\<lambda>kvs.
     bind_result (defaulted ''laundry_type'' ''UNKNOWN'' field_str kvs) (\<lambda>laundry.
     bind_result (defaulted ''laundry_evidence'' [] field_str kvs) (\<lambda>laundry_evidence.
     bind_result (defaulted ''floor_plan_present'' False field_bool kvs) (\<lambda>plan.
     bind_result (defaulted ''floor_plan_url'' None (field_opt field_str) kvs) (\<lambda>plan_url.
     bind_result (defaulted ''amenities'' [] (field_list field_str) kvs) (\<lambda>amenities.
     bind_result (defaulted ''fee_status'' ''UNKNOWN'' field_str kvs) (\<lambda>fee.
     bind_result (defaulted ''fee_evidence'' [] field_str kvs) (\<lambda>fee_evidence.
     bind_result (defaulted ''monthly_rent_usd'' None (field_opt field_int) kvs) (\<lambda>rent.
     bind_result (defaulted ''rent_evidence'' [] field_str kvs) (\<lambda>rent_evidence.
     Inr \<lparr>pf_laundry_type = laundry, pf_laundry_evidence = laundry_evidence,
          pf_floor_plan_present = plan, pf_floor_plan_url = plan_url, pf_amenities = amenities,
          pf_fee_status = fee, pf_fee_evidence = fee_evidence, pf_monthly_rent_usd = rent,
          pf_rent_evidence = rent_evidence\<rparr>))))))))))"

definition dump_page_facts :: "ListingPageFacts \<Rightarrow> json" where
  "dump_page_facts f = JObj [(''laundry_type'', JStr (pf_laundry_type f)),
     (''laundry_evidence'', JStr (pf_laundry_evidence f)),
     (''floor_plan_present'', JBool (pf_floor_plan_present f)),
     (''floor_plan_url'', json_text (pf_floor_plan_url f)), (''amenities'', json_texts (pf_amenities f)),
     (''fee_status'', JStr (pf_fee_status f)), (''fee_evidence'', JStr (pf_fee_evidence f)),
     (''monthly_rent_usd'', json_int (pf_monthly_rent_usd f)),
     (''rent_evidence'', JStr (pf_rent_evidence f))]"

section \<open>The building's own site\<close>

definition building_address :: "canonical_listing \<Rightarrow> db \<Rightarrow> address option" where
  "building_address l s = Option.bind (get_by bd_id (cl_building_id l) (db_buildings s))
     (\<lambda>b. get_by ad_id (bd_address_id b) (db_addresses s))"

text \<open>The first result that is no aggregator and neither municipal nor a nonprofit.\<close>

definition skipped_host :: "string \<Rightarrow> bool" where
  "skipped_host host \<longleftrightarrow> aggregator_host host \<or> ends_with host ''.gov'' \<or> ends_with host ''.org''"

fun official_url :: "SearchResultItem list \<Rightarrow> string option result" where
  "official_url [] = Inr None"
| "official_url (item # items) =
     bind_result (url_host (si_url item)) (\<lambda>host.
       if skipped_host host then official_url items else Inr (Some (si_url item)))"

definition official_query :: "string \<Rightarrow> address \<Rightarrow> SearchQuery" where
  "official_query line a = \<lparr>sq_query = ''\"'' @ line @ ''\" '' @ ad_locality a @
     '' apartments official website leasing'', sq_max_results = 8\<rparr>"

definition find_official_site ::
  "'w SearchProvider option \<Rightarrow> canonical_listing \<Rightarrow> 'w \<Rightarrow> db \<Rightarrow> string option result \<times> 'w" where
  "find_official_site search l w s =
     (case search of
        None \<Rightarrow> (Inr None, w)
      | Some provider \<Rightarrow> (case building_address l s of
          None \<Rightarrow> (Inr None, w)
        | Some a \<Rightarrow> (case ad_line_1 a of
            None \<Rightarrow> (Inr None, w)
          | Some line \<Rightarrow>
              if line = [] then (Inr None, w)
              else (case sv_search provider (official_query line a) w of
                (Inl name, w1) \<Rightarrow> (Inl (ExternalError name), w1)
              | (Inr response, w1) \<Rightarrow>
                  if sp_status response \<noteq> ProviderRequestStatus.SUCCEEDED then (Inr None, w1)
                  else (official_url (sp_items response), w1)))))"

text \<open>The house number and the first letters of the street occur in the page.\<close>

definition text_matches_line :: "string \<Rightarrow> string \<Rightarrow> bool" where
  "text_matches_line t line =
     (case runs_of no_space (py_lower line) of
        [] \<Rightarrow> False
      | house_number # rest \<Rightarrow> contains_text house_number (py_lower t) \<and>
          contains_text (take 12 (join_texts '' '' (take 2 rest))) (py_lower t))"

definition page_matches_address :: "string \<Rightarrow> canonical_listing \<Rightarrow> db \<Rightarrow> bool" where
  "page_matches_address t l s =
     (case building_address l s of
        None \<Rightarrow> False
      | Some a \<Rightarrow> (case ad_line_1 a of
          None \<Rightarrow> False | Some line \<Rightarrow> line \<noteq> [] \<and> text_matches_line t line))"

text \<open>The page text and the URL it came from.\<close>

definition nonempty :: "string option \<Rightarrow> bool" where
  "nonempty t \<longleftrightarrow> (case t of None \<Rightarrow> False | Some x \<Rightarrow> x \<noteq> [])"

definition fetch_page ::
  "'w extractor \<Rightarrow> 'w SearchProvider option \<Rightarrow> canonical_listing \<Rightarrow> listing_source_link \<Rightarrow> 'w \<Rightarrow> db \<Rightarrow>
   (string \<times> string) option result \<times> 'w" where
  "fetch_page extract search l link w s =
     (case extract (lk_source_url link) w of
        (Inl e, w1) \<Rightarrow> (Inl e, w1)
      | (Inr page, w1) \<Rightarrow>
          if nonempty page then (Inr (map_option (\<lambda>t. (t, lk_source_url link)) page), w1)
          else (case find_official_site search l w1 s of
            (Inl e, w2) \<Rightarrow> (Inl e, w2)
          | (Inr url, w2) \<Rightarrow>
              (case url of
                 None \<Rightarrow> (Inr None, w2)
               | Some u \<Rightarrow>
                   if u = [] then (Inr None, w2)
                   else (case extract u w2 of
                     (Inl e, w3) \<Rightarrow> (Inl e, w3)
                   | (Inr official, w3) \<Rightarrow>
                       (Inr (case official of
                          None \<Rightarrow> None
                        | Some t \<Rightarrow> if t \<noteq> [] \<and> page_matches_address t l s then Some (t, u) else None),
                        w3)))))"

section \<open>What a page changes\<close>

text \<open>\<open>f"{n:,}"\<close> below a million.\<close>

definition grouped_text :: "int \<Rightarrow> string" where
  "grouped_text n = (if n < 1000 then dec_text n
     else dec_text (n div 1000) @ '','' @ (let t = dec_text (n mod 1000) in replicate (3 - length t) (CHR ''0'') @ t))"

definition page_fact ::
  "uuid \<Rightarrow> string \<Rightarrow> json \<Rightarrow> Confidence \<Rightarrow> string \<Rightarrow> fact_input" where
  "page_fact listing key v confidence evidence =
     \<lparr>fi_entity_type = FactEntityType.LISTING, fi_entity_id = listing, fi_fact_key = key,
      fi_value_json = Some (JObj [(''value'', v)]), fi_value_status = ValueStatus.ASSERTED,
      fi_derivation_type = DerivationType.LLM_DERIVED, fi_confidence = confidence,
      fi_source_observation_id = None,
      fi_evidence_text = (let t = take 500 evidence in if t = [] then None else Some t)\<rparr>"

definition price_event :: "uuid \<Rightarrow> uuid \<Rightarrow> int option \<Rightarrow> int \<Rightarrow> datetime \<Rightarrow> listing_event" where
  "price_event i listing before new_minor now =
     \<lparr>ev_id = i, ev_canonical_listing_id = listing, ev_event_type = ListingEventType.PRICE_CHANGED,
      ev_event_time = now, ev_refresh_run_id = None, ev_source_observation_id = None,
      ev_before_values = Some (JObj [(''monthly_rent_minor'', json_int before)]),
      ev_after_values = Some (JObj [(''monthly_rent_minor'', JInt new_minor),
        (''source'', JStr ''detail_page_extract'')]), ev_reason_codes = None,
      ev_idempotency_key = (listing, ListingEventType.PRICE_CHANGED,
        KeyText (''detail_extract:'' @ dec_text new_minor))\<rparr>"

text \<open>A plain insert under the unique key, where the event log elsewhere does nothing on conflict.\<close>

definition insert_event :: "(uuid \<Rightarrow> listing_event) \<Rightarrow> unit tx" where
  "insert_event row s =
     (let ev = row (db_next s)
      in if \<exists>r \<in> set (db_events s). ev_idempotency_key r = ev_idempotency_key ev then Inl IntegrityError
         else Inr ((), s\<lparr>db_events := db_events s @ [ev], db_next := Suc (db_next s)\<rparr>))"

definition plausible_rent :: "int \<Rightarrow> bool" where
  "plausible_rent usd \<longleftrightarrow> 300 \<le> usd \<and> usd \<le> 100000"

definition apply_rent :: "canonical_listing \<Rightarrow> ListingPageFacts \<Rightarrow> datetime \<Rightarrow> string list tx" where
  "apply_rent l f now s =
     (case pf_monthly_rent_usd f of
        None \<Rightarrow> Inr ([], s)
      | Some usd \<Rightarrow>
          (let new_minor = usd * 100
           in if \<not> plausible_rent usd \<or> cl_monthly_rent_minor l = Some new_minor then Inr ([], s)
              else bind_result (active_override FactEntityType.LISTING (cl_id l) ''monthly_rent'' s) (\<lambda>override.
                   bind_result (record_fact (page_fact (cl_id l) ''monthly_rent'' (JInt new_minor)
                     Confidence.HIGH (pf_rent_evidence f)) now s) (\<lambda>(a, s1).
                   case override of
                     Some o' \<Rightarrow> Inr ([], raise_conflict_with_override o' (cl_id l) ''monthly_rent'' (JInt new_minor) s1)
                   | None \<Rightarrow>
                       bind_result (insert_event (\<lambda>i. price_event i (cl_id l) (cl_monthly_rent_minor l) new_minor now)
                         (update_listing (cl_id l) (\<lambda>r. r\<lparr>cl_monthly_rent_minor := Some new_minor,
                            cl_last_material_change_at := now\<rparr>) s1)) (\<lambda>(u, s2).
                       Inr ([''monthly_rent=$'' @ grouped_text usd], s2))))))"

text \<open>The badge constraint of the listing table guards the laundry column.\<close>

definition apply_laundry :: "canonical_listing \<Rightarrow> ListingPageFacts \<Rightarrow> datetime \<Rightarrow> string list tx" where
  "apply_laundry l f now s =
     (case enum_of_value LaundryType_members LaundryType_value (pf_laundry_type f) of
        Inl e \<Rightarrow> Inr ([], s)
      | Inr laundry \<Rightarrow>
          if laundry = LaundryType.UNKNOWN then Inr ([], s)
          else bind_result (active_override FactEntityType.LISTING (cl_id l) ''laundry_type'' s) (\<lambda>override.
               bind_result (record_fact (page_fact (cl_id l) ''laundry_type'' (JStr (pf_laundry_type f))
                 Confidence.MEDIUM (pf_laundry_evidence f)) now s) (\<lambda>(a, s1).
               case override of
                 Some o' \<Rightarrow> Inr ([''laundry_type='' @ pf_laundry_type f],
                   raise_conflict_with_override o' (cl_id l) ''laundry_type'' (JStr (pf_laundry_type f)) s1)
               | None \<Rightarrow>
                   if cl_indoor_laundry_badge_eligible l \<and> laundry \<noteq> LaundryType.IN_UNIT_WASHER_DRYER_CONFIRMED
                   then Inl IntegrityError
                   else Inr ([''laundry_type='' @ pf_laundry_type f],
                     update_listing (cl_id l) (\<lambda>r. r\<lparr>cl_laundry_type := laundry\<rparr>) s1))))"

definition apply_fee :: "canonical_listing \<Rightarrow> ListingPageFacts \<Rightarrow> datetime \<Rightarrow> string list tx" where
  "apply_fee l f now s =
     (if pf_fee_status f \<in> {''NO_FEE'', ''FEE_CHARGED''}
      then bind_result (record_fact (page_fact (cl_id l) ''fee_status'' (JStr (pf_fee_status f))
             Confidence.MEDIUM (pf_fee_evidence f)) now s)
           (\<lambda>(a, s1). Inr ([''fee_status='' @ pf_fee_status f], s1))
      else Inr ([], s))"

definition apply_amenities :: "canonical_listing \<Rightarrow> ListingPageFacts \<Rightarrow> datetime \<Rightarrow> string list tx" where
  "apply_amenities l f now s =
     (let amenities = amenity_labels (pf_amenities f)
      in if amenities = [] then Inr ([], s)
         else bind_result (record_fact (page_fact (cl_id l) ''amenities'' (json_texts amenities)
                Confidence.MEDIUM []) now s)
              (\<lambda>(a, s1). Inr ([''amenities['' @ dec_text (int (length amenities)) @ '']''], s1)))"

definition new_plan_asset :: "uuid \<Rightarrow> uuid \<Rightarrow> string \<Rightarrow> media_asset" where
  "new_plan_asset i source url =
     \<lparr>mas_id = i, mas_source_id = source, mas_source_observation_id = None, mas_source_url = url,
      mas_storage_ref = None, mas_retrieved_at = None,
      mas_availability_status = MediaAvailabilityStatus.REFERENCED, mas_media_type = MediaType.FLOOR_PLAN,
      mas_mime_type = None, mas_width_px = None, mas_height_px = None, mas_byte_size = None,
      mas_content_hash = None, mas_perceptual_hash = None,
      mas_classification_status = MediaClassificationStatus.UNCLASSIFIED, mas_model_execution_id = None,
      mas_policy_version = DETAIL_PROMPT_VERSION, mas_source_media_id = None, mas_source_caption = None,
      mas_source_alt_text = None, mas_final_url_hash = None, mas_retrieval_status_code = None,
      mas_original_filename = None, mas_color_space = None, mas_orientation = None,
      mas_page_count = None, mas_has_alpha = None, mas_animation_detected = None,
      mas_technical_quality_status = TechnicalQualityStatus.PENDING,
      mas_content_safety_status = ContentSafetyStatus.PENDING,
      mas_contact_overlay_status = ContactOverlayStatus.NOT_DETECTED,
      mas_watermark_status = WatermarkStatus.UNKNOWN,
      mas_marketing_use_status = MarketingUseStatus.UNKNOWN, mas_marketing_selected = False,
      mas_policy_expires_at = None\<rparr>"

definition new_plan_link :: "uuid \<Rightarrow> uuid \<Rightarrow> canonical_listing \<Rightarrow> bool \<Rightarrow> media_association" where
  "new_plan_link i asset l own_url =
     \<lparr>mac_id = i, mac_media_asset_id = asset, mac_building_id = Some (cl_building_id l),
      mac_unit_id = None, mac_canonical_listing_id = Some (cl_id l), mac_layout_class = None,
      mac_association_level = AssociationLevel.LISTING_SOURCE_ASSOCIATED,
      mac_association_status = (if own_url then AssociationStatus.CONFIRMED else AssociationStatus.PROVISIONAL),
      mac_confidence = Confidence.MEDIUM, mac_display_order = None, mac_is_primary_candidate = False,
      mac_evidence = None\<rparr>"

definition has_plan :: "uuid \<Rightarrow> string \<Rightarrow> db \<Rightarrow> bool" where
  "has_plan listing url s \<longleftrightarrow> (\<exists>k \<in> set (db_media_links s). \<exists>m \<in> set (db_media s).
     mac_media_asset_id k = mas_id m \<and> mac_canonical_listing_id k = Some listing \<and>
     mas_source_url m = url \<and> mas_media_type m = MediaType.FLOOR_PLAN)"

definition apply_floor_plan ::
  "canonical_listing \<Rightarrow> listing_source_link \<Rightarrow> ListingPageFacts \<Rightarrow> string \<Rightarrow> db \<Rightarrow> string list \<times> db" where
  "apply_floor_plan l link f source_url s =
     (if \<not> pf_floor_plan_present f then ([], s)
      else (let own = nonempty (pf_floor_plan_url f);
                url = (case pf_floor_plan_url f of Some u \<Rightarrow> if u = [] then source_url else u | None \<Rightarrow> source_url)
            in ([''floor_plan''],
                if has_plan (cl_id l) url s then s
                else s\<lparr>db_media := db_media s @ [new_plan_asset (db_next s) (lk_source_id link) url],
                       db_media_links := db_media_links s @
                         [new_plan_link (Suc (db_next s)) (db_next s) l own],
                       db_next := Suc (Suc (db_next s))\<rparr>)))"

definition apply_page ::
  "canonical_listing \<Rightarrow> listing_source_link \<Rightarrow> ListingPageFacts \<Rightarrow> string \<Rightarrow> datetime \<Rightarrow> string list tx" where
  "apply_page l link f source_url now s =
     bind_result (apply_rent l f now s) (\<lambda>(rent, s1).
     bind_result (apply_laundry l f now s1) (\<lambda>(laundry, s2).
     bind_result (apply_fee l f now s2) (\<lambda>(fee, s3).
     bind_result (apply_amenities l f now s3) (\<lambda>(amenities, s4).
     (let (plan, s5) = apply_floor_plan l link f source_url s4
      in Inr (rent @ laundry @ fee @ amenities @ plan, s5))))))"

section \<open>Enriching a listing\<close>

record EnrichmentOutcome =
  eo_listing_id :: uuid
  eo_status :: string
  eo_facts_written :: "string list"

definition enrichment :: "uuid \<Rightarrow> string \<Rightarrow> EnrichmentOutcome" where
  "enrichment i status = \<lparr>eo_listing_id = i, eo_status = status, eo_facts_written = []\<rparr>"

definition already_extracted :: "uuid \<Rightarrow> string \<Rightarrow> db \<Rightarrow> bool" where
  "already_extracted listing hash s =
     (case latest_fact listing ''detail_extract_hash'' s of
        None \<Rightarrow> False
      | Some a \<Rightarrow> (case fa_value_json a of
          None \<Rightarrow> False | Some j \<Rightarrow> json_get ''value'' j = Some (JStr hash)))"

definition active_links :: "uuid \<Rightarrow> db \<Rightarrow> listing_source_link list" where
  "active_links listing s = sort_key (\<lambda>k. - lk_last_seen_at k)
     (filter (\<lambda>k. lk_canonical_listing_id k = listing \<and> lk_link_status k = LinkStatus.ACTIVE) (db_links s))"

definition new_detail_execution ::
  "string \<Rightarrow> string \<Rightarrow> json \<Rightarrow> LlmTaskResult \<Rightarrow> ListingPageFacts \<Rightarrow> datetime \<Rightarrow> uuid \<Rightarrow> model_execution" where
  "new_detail_execution provider hash refs result f now i =
     \<lparr>mex_id = i, mex_job_id = None, mex_provider_code = provider, mex_model_id = model_name result,
      mex_model_tier = ModelTier.DEFAULT_HOSTED, mex_task_type = DETAIL_TASK_TYPE,
      mex_prompt_version = DETAIL_PROMPT_VERSION, mex_output_schema_version = DETAIL_SCHEMA_VERSION,
      mex_input_hash = hash, mex_input_refs = refs, mex_output_ref = Some (dump_page_facts f),
      mex_confidence = Confidence.UNKNOWN, mex_validation_status = ValidationStatus.PENDING,
      mex_escalated_from_id = None, mex_input_tokens = None, mex_output_tokens = None,
      mex_cost_minor = None, mex_currency_code = None, mex_started_at = now,
      mex_completed_at = Some now, mex_status = ModelExecutionStatus.SUCCEEDED\<rparr>"

text \<open>The audit row is written once per page content and model.\<close>

definition log_detail_execution ::
  "string \<Rightarrow> string \<Rightarrow> json \<Rightarrow> LlmTaskResult \<Rightarrow> ListingPageFacts \<Rightarrow> datetime \<Rightarrow> db \<Rightarrow> db" where
  "log_detail_execution provider hash refs result f now s =
     (if \<exists>y \<in> set (db_executions s). execution_key y =
           (DETAIL_TASK_TYPE, hash, DETAIL_PROMPT_VERSION, DETAIL_SCHEMA_VERSION, model_name result)
      then s
      else s\<lparr>db_executions := db_executions s @ [new_detail_execution provider hash refs result f now (db_next s)],
             db_next := Suc (db_next s)\<rparr>)"

definition hash_fact :: "uuid \<Rightarrow> string \<Rightarrow> fact_input" where
  "hash_fact listing hash =
     \<lparr>fi_entity_type = FactEntityType.LISTING, fi_entity_id = listing, fi_fact_key = ''detail_extract_hash'',
      fi_value_json = Some (JObj [(''value'', JStr hash)]), fi_value_status = ValueStatus.ASSERTED,
      fi_derivation_type = DerivationType.RULE_DERIVED, fi_confidence = Confidence.HIGH,
      fi_source_observation_id = None, fi_evidence_text = None\<rparr>"

text \<open>The instructions of the prompt are left abstract in the request; nothing depends on their text.\<close>

definition detail_refs :: "uuid \<Rightarrow> string \<Rightarrow> json" where
  "detail_refs listing url = JObj [(''listing'', JUuid listing), (''url'', JStr url)]"

definition detail_request :: "string \<Rightarrow> json \<Rightarrow> uuid \<Rightarrow> string \<Rightarrow> string \<Rightarrow> LlmTaskRequest" where
  "detail_request instructions schema listing url page =
     \<lparr>lq_task_type = DETAIL_TASK_TYPE, lq_prompt_version = DETAIL_PROMPT_VERSION,
      lq_output_schema_version = DETAIL_SCHEMA_VERSION, lq_input_refs = detail_refs listing url,
      lq_input_payload = JObj [(''instructions'', JStr instructions), (''page_text_untrusted'', JStr page)],
      lq_output_schema = Some schema, lq_tier = ModelTier.DEFAULT_HOSTED\<rparr>"

definition accepted_page :: "LlmTaskResult \<Rightarrow> ListingPageFacts option" where
  "accepted_page result =
     (if lr_status result \<noteq> ModelExecutionStatus.SUCCEEDED then None
      else (case lr_output result of
              None \<Rightarrow> None
            | Some j \<Rightarrow> (case read_page_facts j of Inl _ \<Rightarrow> None | Inr f \<Rightarrow> Some f)))"

text \<open>After the model's answer.\<close>

definition store_page ::
  "string \<Rightarrow> canonical_listing \<Rightarrow> listing_source_link \<Rightarrow> string \<Rightarrow> string \<Rightarrow> LlmTaskResult \<Rightarrow> datetime \<Rightarrow>
   EnrichmentOutcome tx" where
  "store_page provider l link url hash result now s =
     (case accepted_page result of
        None \<Rightarrow> Inr (enrichment (cl_id l) ''LLM_FAILED'', s)
      | Some f \<Rightarrow>
          bind_result (apply_page l link f url now
            (log_detail_execution provider hash (detail_refs (cl_id l) url) result f now s)) (\<lambda>(written, s1).
          bind_result (record_fact (hash_fact (cl_id l) hash) now s1) (\<lambda>(a, s2).
          Inr (\<lparr>eo_listing_id = cl_id l, eo_status = ''ENRICHED'', eo_facts_written = written\<rparr>, s2))))"

text \<open>What lies outside the service: the web, the model, the hash and the constants of the prompt.\<close>

record 'w page_env =
  pe_extract :: "'w extractor"
  pe_search :: "'w SearchProvider option"
  pe_llm :: "'w LlmExecutor"
  pe_sha256 :: "string \<Rightarrow> string"
  pe_dash :: char
  pe_instructions :: string
  pe_schema :: json

definition enrich_page ::
  "'w page_env \<Rightarrow> bool \<Rightarrow> datetime \<Rightarrow> canonical_listing \<Rightarrow> listing_source_link \<Rightarrow> string \<Rightarrow> string \<Rightarrow> 'w \<Rightarrow>
   db \<Rightarrow> (EnrichmentOutcome \<times> db) result \<times> 'w" where
  "enrich_page env force now l link t url w s =
     (let page = relevant_excerpt (pe_dash env) MAX_PAGE_CHARS t; hash = pe_sha256 env page
      in if \<not> force \<and> already_extracted (cl_id l) hash s
         then (Inr (enrichment (cl_id l) ''SKIPPED_UNCHANGED'', s), w)
         else (case lx_execute (pe_llm env) (detail_request (pe_instructions env) (pe_schema env)
                 (cl_id l) url page) w of
           (Inl name, w1) \<Rightarrow> (Inl (ExternalError name), w1)
         | (Inr result, w1) \<Rightarrow>
             (store_page (lx_provider_code (pe_llm env)) l link url hash result now s, w1)))"

definition enrich_content ::
  "'w page_env \<Rightarrow> bool \<Rightarrow> datetime \<Rightarrow> uuid \<Rightarrow> 'w \<Rightarrow> db \<Rightarrow> (EnrichmentOutcome \<times> db) result \<times> 'w" where
  "enrich_content env force now listing w s =
     (case get_by cl_id listing (db_listings s) of
        None \<Rightarrow> (Inr (enrichment listing ''NO_LINK'', s), w)
      | Some l \<Rightarrow> (case active_links listing s of
          [] \<Rightarrow> (Inr (enrichment listing ''NO_LINK'', s), w)
        | link # _ \<Rightarrow> (case fetch_page (pe_extract env) (pe_search env) l link w s of
            (Inl e, w1) \<Rightarrow> (Inl e, w1)
          | (Inr None, w1) \<Rightarrow> (Inr (enrichment listing ''EXTRACT_FAILED'', s), w1)
          | (Inr (Some (t, url)), w1) \<Rightarrow> enrich_page env force now l link t url w1 s)))"

section \<open>The batch\<close>

text \<open>
  \<open>run_detail_enrichment\<close> of \<open>jobs/detail_enrichment.py\<close> once keys and factory are set up: each listing
  in its own transaction, an abort on the quota error, any other error counted and skipped.
\<close>

definition enrichable :: "canonical_listing \<Rightarrow> bool" where
  "enrichable l \<longleftrightarrow> cl_lifecycle_status l \<in>
     {LifecycleStatus.ACTIVE, LifecycleStatus.CANDIDATE, LifecycleStatus.REAPPEARED}"

fun enrich_batch ::
  "'w page_env \<Rightarrow> bool \<Rightarrow> datetime \<Rightarrow> uuid list \<Rightarrow> (string \<times> nat) list \<Rightarrow> 'w \<Rightarrow> db \<Rightarrow>
   (string \<times> nat) list \<times> 'w \<times> db" where
  "enrich_batch env force now [] counts w s = (counts, w, s)"
| "enrich_batch env force now (i # is) counts w s =
     (case enrich_content env force now i w s of
        (Inr (eo, s1), w1) \<Rightarrow> enrich_batch env force now is (bump (eo_status eo) counts) w1 s1
      | (Inl e, w1) \<Rightarrow>
          if e = TavilyQuotaError then (bump ''RATE_LIMITED'' counts, w1, s)
          else enrich_batch env force now is (bump ''ERROR'' counts) w1 s)"

definition run_detail_enrichment ::
  "'w page_env \<Rightarrow> bool \<Rightarrow> nat \<Rightarrow> datetime \<Rightarrow> 'w \<Rightarrow> db \<Rightarrow> (string \<times> nat) list \<times> 'w \<times> db" where
  "run_detail_enrichment env force limit now w s =
     (let ids = map cl_id (sort_key (\<lambda>l. - cl_last_seen_at l) (filter enrichable (db_listings s)))
      in enrich_batch env force now (if limit = 0 then ids else take limit ids) [] w s)"

end
