(* ===== verification/Company.thy ===== *)
theory Company
  imports Location ListingContent
begin

text \<open>
  The company portfolio, \<open>enrichment/company/service.py\<close> and \<open>jobs/company_refresh.py\<close>: the page of a
  property is fetched, its link repaired from the web when it is dead, read by a model into an
  availability snapshot with a rolling check log, and located, matched and routed.  The environment
  record holds what lies outside: the web, the model, the geocoders, the pedestrian router, PostGIS's
  distance and the texts of identifiers, timestamps and JSON.  Text is ASCII.
\<close>

definition CHECK_LOG_CAP :: nat where
  "CHECK_LOG_CAP = 30"

definition COMPANY_TASK_TYPE :: string where
  "COMPANY_TASK_TYPE = ''company_availability_extract''"

definition COMPANY_PROMPT_VERSION :: string where
  "COMPANY_PROMPT_VERSION = ''company-availability-v2''"

definition COMPANY_SCHEMA_VERSION :: string where
  "COMPANY_SCHEMA_VERSION = ''2''"

record CompanyUnit =
  cu_unit_label :: "string option"
  cu_layout :: "string option"
  cu_monthly_rent_usd :: "int option"
  cu_availability_text :: "string option"

record CompanyPageAvailability =
  pg_page_is_this_property :: bool
  pg_property_name :: "string option"
  pg_address :: "string option"
  pg_locality :: "string option"
  pg_available_units :: "CompanyUnit list"
  pg_no_units_stated :: bool
  pg_evidence :: string
  pg_laundry_type :: string
  pg_laundry_evidence :: string
  pg_amenities :: "string list"
  pg_fee_status :: string
  pg_fee_evidence :: string
  pg_description :: "string option"
  pg_floor_plan_present :: bool
  pg_floor_plan_url :: "string option"

definition read_unit :: "json \<Rightarrow> CompanyUnit result" where
  "read_unit j =
     bind_result (model_fields [''unit_label'', ''layout'', ''monthly_rent_usd'', ''availability_text''] j) (\<lambda>kvs.
     bind_result (defaulted ''unit_label'' None (field_opt field_str) kvs) (\<lambda>label.
     bind_result (defaulted ''layout'' None (field_opt field_str) kvs) (\<lambda>layout.
     bind_result (defaulted ''monthly_rent_usd'' None (field_opt field_int) kvs) (\<lambda>rent.
     bind_result (defaulted ''availability_text'' None (field_opt field_str) kvs) (\<lambda>available.
     Inr \<lparr>cu_unit_label = label, cu_layout = layout, cu_monthly_rent_usd = rent,
          cu_availability_text = available\<rparr>)))))"

definition dump_unit :: "CompanyUnit \<Rightarrow> json" where
  "dump_unit u = JObj [(''unit_label'', json_text (cu_unit_label u)), (''layout'', json_text (cu_layout u)),
     (''monthly_rent_usd'', json_int (cu_monthly_rent_usd u)),
     (''availability_text'', json_text (cu_availability_text u))]"

definition COMPANY_FIELDS :: "string list" where
  "COMPANY_FIELDS = [''page_is_this_property'', ''property_name'', ''address'', ''locality'', ''available_units'',
     ''no_units_stated'', ''evidence'', ''laundry_type'', ''laundry_evidence'', ''amenities'', ''fee_status'',
     ''fee_evidence'', ''description'', ''floor_plan_present'', ''floor_plan_url'']"

definition read_company_page :: "json \<Rightarrow> CompanyPageAvailability result" where
  "read_company_page j =
     bind_result (model_fields COMPANY_FIELDS j) (\<lambda>kvs.
     bind_result (defaulted ''page_is_this_property'' False field_bool kvs) (\<lambda>this.
     bind_result (defaulted ''property_name'' None (field_opt field_str) kvs) (\<lambda>name.
     bind_result (defaulted ''address'' None (field_opt field_str) kvs) (\<lambda>address.
     bind_result (defaulted ''locality'' None (field_opt field_str) kvs) (\<lambda>locality.
     bind_result (defaulted ''available_units'' [] (field_list read_unit) kvs) (\<lambda>units.
     bind_result (defaulted ''no_units_stated'' False field_bool kvs) (\<lambda>no_units.
     bind_result (defaulted ''evidence'' [] field_str kvs) (\<lambda>evidence.
     bind_result (defaulted ''laundry_type'' ''UNKNOWN'' field_str kvs) (\<lambda>laundry.
     bind_result (defaulted ''laundry_evidence'' [] field_str kvs) (\<lambda>laundry_evidence.
     bind_result (defaulted ''amenities'' [] (field_list field_str) kvs) (\<lambda>amenities.
     bind_result (defaulted ''fee_status'' ''UNKNOWN'' field_str kvs) (\<lambda>fee.
     bind_result (defaulted ''fee_evidence'' [] field_str kvs) (\<lambda>fee_evidence.
     bind_result (defaulted ''description'' None (field_opt field_str) kvs) (\<lambda>description.
     bind_result (defaulted ''floor_plan_present'' False field_bool kvs) (\<lambda>plan.
     bind_result (defaulted ''floor_plan_url'' None (field_opt field_str) kvs) (\<lambda>plan_url.
     Inr \<lparr>pg_page_is_this_property = this, pg_property_name = name, pg_address = address,
          pg_locality = locality, pg_available_units = units, pg_no_units_stated = no_units,
          pg_evidence = evidence, pg_laundry_type = laundry, pg_laundry_evidence = laundry_evidence,
          pg_amenities = amenities, pg_fee_status = fee, pg_fee_evidence = fee_evidence,
          pg_description = description, pg_floor_plan_present = plan, pg_floor_plan_url = plan_url\<rparr>))))))))))))))))"

section \<open>Names and addresses\<close>

text \<open>\<open>^\d+[\s-]+\w\<close> on the stripped name.\<close>

definition looks_like_address :: "string \<Rightarrow> bool" where
  "looks_like_address name =
     (let t = py_strip name; gap = (\<lambda>c. py_space c \<or> c = CHR ''-''); rest = dropWhile digit t;
          tail = dropWhile gap rest
      in takeWhile digit t \<noteq> [] \<and> takeWhile gap rest \<noteq> [] \<and> tail \<noteq> [] \<and> word_char (hd tail))"

definition SUFFIX_EXPANSIONS :: "(string \<times> string) list" where
  "SUFFIX_EXPANSIONS = [(''st'', ''street''), (''ave'', ''avenue''), (''blvd'', ''boulevard''), (''rd'', ''road''),
     (''pl'', ''place''), (''dr'', ''drive''), (''ln'', ''lane''), (''ter'', ''terrace''), (''pkwy'', ''parkway'')]"

definition strip_end :: "string \<Rightarrow> string \<Rightarrow> string" where
  "strip_end chars t = rev (dropWhile (\<lambda>c. c \<in> set chars) (rev t))"

definition expand_word :: "string \<Rightarrow> string" where
  "expand_word w = (case map_of SUFFIX_EXPANSIONS (strip_end ''.,'' (py_lower w)) of None \<Rightarrow> w | Some x \<Rightarrow> x)"

definition expand_street_suffixes :: "string \<Rightarrow> string" where
  "expand_street_suffixes t = join_texts '' '' (map expand_word (runs_of no_space (py_strip t)))"

definition NAME_STOP :: "string list" where
  "NAME_STOP = [''the'', ''and'', ''at'', ''of'', ''on'', ''apartments'', ''apartment'', ''residences'']"

definition name_tokens :: "string \<Rightarrow> string list" where
  "name_tokens name = filter (\<lambda>t. 3 \<le> length t \<and> t \<notin> set NAME_STOP)
     (runs_of (\<lambda>c. ascii_lower c \<or> digit c) (py_lower name))"

text \<open>\<open>x or None\<close> and \<open>x or d\<close> on optional text.\<close>

definition given :: "string option \<Rightarrow> string option" where
  "given t = (case t of None \<Rightarrow> None | Some x \<Rightarrow> if x = [] then None else Some x)"

definition or_else :: "string \<Rightarrow> string option \<Rightarrow> string" where
  "or_else d t = (case given t of None \<Rightarrow> d | Some x \<Rightarrow> x)"

text \<open>The address that a property is searched by, if any.\<close>

definition search_address :: "company_property \<Rightarrow> string option" where
  "search_address p = (if looks_like_address (cpy_name p) then given (Some (cpy_name p)) else given (cpy_address_text p))"

section \<open>The wrong-building guard\<close>

definition mentions_variant :: "string \<Rightarrow> string \<Rightarrow> bool" where
  "mentions_variant lowered variant =
     (case runs_of no_space (py_lower variant) of
        a # b # rest \<Rightarrow> contains_text a lowered \<and> contains_text (take 10 b) lowered
      | _ \<Rightarrow> False)"

definition address_references :: "company_property \<Rightarrow> string list" where
  "address_references p = (if looks_like_address (cpy_name p) then [cpy_name p] else []) @
     (case given (cpy_address_text p) of None \<Rightarrow> [] | Some a \<Rightarrow> [a])"

definition mentions_name :: "string \<Rightarrow> company_property \<Rightarrow> bool" where
  "mentions_name lowered p =
     (let tokens = name_tokens (cpy_name p); hits = length (filter (\<lambda>t. contains_text t lowered) tokens)
      in \<not> looks_like_address (cpy_name p) \<and> tokens \<noteq> [] \<and> max 1 ((length tokens + 1) div 2) \<le> hits)"

definition page_mentions_property :: "string \<Rightarrow> company_property \<Rightarrow> bool" where
  "page_mentions_property t p =
     (let lowered = py_lower t
      in (\<exists>r \<in> set (address_references p). mentions_variant lowered r \<or>
            mentions_variant lowered (expand_street_suffixes r)) \<or> mentions_name lowered p)"

section \<open>Repairing a link\<close>

record 'w company_env =
  ce_extract :: "'w extractor"
  ce_search :: "'w SearchProvider option"
  ce_llm :: "'w LlmExecutor"
  ce_geocoders :: "'w Geocoder list"
  ce_router :: "'w walk_route option"
  ce_meters :: "point \<Rightarrow> point \<Rightarrow> rat"
  ce_dash :: char
  ce_instructions :: string
  ce_schema :: json
  ce_show_json :: "json \<Rightarrow> string"
  ce_show_id :: "uuid \<Rightarrow> string"
  ce_iso :: "datetime \<Rightarrow> string"

definition search_urls :: "'w company_env \<Rightarrow> string \<Rightarrow> 'w \<Rightarrow> string list result \<times> 'w" where
  "search_urls env query w =
     (case ce_search env of
        None \<Rightarrow> (Inr [], w)
      | Some provider \<Rightarrow> (case sv_search provider \<lparr>sq_query = query, sq_max_results = 8\<rparr> w of
          (Inl name, w1) \<Rightarrow> (Inl (ExternalError name), w1)
        | (Inr response, w1) \<Rightarrow>
            (Inr (if sp_status response \<noteq> ProviderRequestStatus.SUCCEEDED then []
                  else map si_url (sp_items response)), w1)))"

text \<open>\<open>str((availability or {}).get("page_property_name") or "").strip()\<close>, when it is not the name itself.\<close>

definition snapshot_or_empty :: "company_property \<Rightarrow> json" where
  "snapshot_or_empty p = (case cpy_availability p of None \<Rightarrow> JObj [] | Some j \<Rightarrow> json_or j (JObj []))"

definition page_name :: "'w company_env \<Rightarrow> company_property \<Rightarrow> string option result" where
  "page_name env p =
     bind_result (py_get ''page_property_name'' (snapshot_or_empty p)) (\<lambda>v.
       let name = (if \<not> json_truthy v then []
             else py_strip (case v of JStr t \<Rightarrow> t | _ \<Rightarrow> ce_show_json env v))
       in Inr (if name \<noteq> [] \<and> py_lower name \<noteq> py_lower (cpy_name p) then Some name else None))"

definition quoted :: "string \<Rightarrow> string" where
  "quoted t = ''\"'' @ t @ ''\"''"

definition official_queries :: "string option \<Rightarrow> company_property \<Rightarrow> string list" where
  "official_queries page p =
     (let region = or_else ''New York'' (cpy_locality p)
      in (case page of None \<Rightarrow> []
          | Some n \<Rightarrow> [quoted n @ '' '' @ region @ '' apartments official website leasing'']) @
         [quoted (cpy_name p) @ '' '' @ region @ '' apartments official website leasing''] @
         (case search_address p of
            None \<Rightarrow> []
          | Some a \<Rightarrow>
              [quoted (expand_street_suffixes a) @ '' '' @ region @ '' apartment building official website leasing'',
               expand_street_suffixes a @ '' '' @ region @ '' apartment building leasing office'']))"

definition streeteasy_queries :: "string option \<Rightarrow> company_property \<Rightarrow> string list" where
  "streeteasy_queries page p =
     (case page of None \<Rightarrow> [] | Some n \<Rightarrow> [''site:streeteasy.com '' @ quoted n]) @
     [''site:streeteasy.com '' @ quoted (cpy_name p)] @
     (case search_address p of None \<Rightarrow> [] | Some a \<Rightarrow> [''site:streeteasy.com '' @ expand_street_suffixes a])"

definition official_url_ok :: "string \<Rightarrow> bool result" where
  "official_url_ok url = bind_result (url_host url) (\<lambda>host.
     Inr (\<not> aggregator_host host \<and> \<not> ends_with host ''.gov'' \<and> \<not> ends_with host ''.org'' \<and>
          \<not> ends_with host ''.edu''))"

definition streeteasy_url_ok :: "string \<Rightarrow> bool result" where
  "streeteasy_url_ok url = bind_result (url_host url) (\<lambda>host.
     Inr (ends_with host ''streeteasy.com'' \<and>
          (starts_with (url_path url) ''/building/'' \<or> starts_with (url_path url) ''/complex/'')))"

fun add_candidates :: "(string \<Rightarrow> bool result) \<Rightarrow> string list \<Rightarrow> string list \<Rightarrow> string list result" where
  "add_candidates ok [] cs = Inr cs"
| "add_candidates ok (u # us) cs = bind_result (ok u) (\<lambda>yes.
     add_candidates ok us (if yes \<and> u \<notin> set cs then cs @ [u] else cs))"

text \<open>Query by query until \<open>n\<close> candidates are known.\<close>

fun gather_candidates ::
  "'w company_env \<Rightarrow> (string \<Rightarrow> bool result) \<Rightarrow> nat \<Rightarrow> string list \<Rightarrow> string list \<Rightarrow> 'w \<Rightarrow>
   string list result \<times> 'w" where
  "gather_candidates env ok n [] cs w = (Inr (take n cs), w)"
| "gather_candidates env ok n (q # qs) cs w =
     (case search_urls env q w of
        (Inl e, w1) \<Rightarrow> (Inl e, w1)
      | (Inr urls, w1) \<Rightarrow> (case add_candidates ok urls cs of
          Inl e \<Rightarrow> (Inl e, w1)
        | Inr cs1 \<Rightarrow> if n \<le> length cs1 then (Inr (take n cs1), w1) else gather_candidates env ok n qs cs1 w1))"

definition official_candidates :: "'w company_env \<Rightarrow> company_property \<Rightarrow> 'w \<Rightarrow> string list result \<times> 'w" where
  "official_candidates env p w =
     (case page_name env p of
        Inl e \<Rightarrow> (Inl e, w)
      | Inr page \<Rightarrow> gather_candidates env official_url_ok 3 (official_queries page p) [] w)"

definition streeteasy_candidates :: "'w company_env \<Rightarrow> company_property \<Rightarrow> 'w \<Rightarrow> string list result \<times> 'w" where
  "streeteasy_candidates env p w =
     (case page_name env p of
        Inl e \<Rightarrow> (Inl e, w)
      | Inr page \<Rightarrow> gather_candidates env streeteasy_url_ok 2 (streeteasy_queries page p) [] w)"

text \<open>What a fetch returns: the page text, its URL and the kind of the URL.\<close>

type_synonym company_page = "(string \<times> string \<times> string) option"

fun try_candidates ::
  "'w company_env \<Rightarrow> company_property \<Rightarrow> string \<Rightarrow> string list \<Rightarrow> string list \<Rightarrow> 'w \<Rightarrow>
   (company_page \<times> string list) result \<times> 'w" where
  "try_candidates env p kind [] tried w = (Inr (None, tried), w)"
| "try_candidates env p kind (c # cs) tried w =
     (if c \<in> set tried then try_candidates env p kind cs tried w
      else (case ce_extract env c w of
        (Inl e, w1) \<Rightarrow> (Inl e, w1)
      | (Inr None, w1) \<Rightarrow> try_candidates env p kind cs (tried @ [c]) w1
      | (Inr (Some t), w1) \<Rightarrow>
          if t \<noteq> [] \<and> page_mentions_property t p then (Inr (Some (t, c, kind), tried @ [c]), w1)
          else try_candidates env p kind cs (tried @ [c]) w1))"

fun try_known ::
  "'w company_env \<Rightarrow> company_property \<Rightarrow> (string option \<times> string) list \<Rightarrow> string list \<Rightarrow> 'w \<Rightarrow>
   (company_page \<times> string list) result \<times> 'w" where
  "try_known env p [] tried w = (Inr (None, tried), w)"
| "try_known env p ((u, kind) # rest) tried w =
     (case given u of
        None \<Rightarrow> try_known env p rest tried w
      | Some url \<Rightarrow>
          if url \<in> set tried then try_known env p rest tried w
          else (case (if kind = ''OFFICIAL_SITE'' then bind_result (url_host url) (\<lambda>h. Inr (aggregator_host h)) else Inr False) of
            Inl e \<Rightarrow> (Inl e, w)
          | Inr True \<Rightarrow> try_known env p rest tried w
          | Inr False \<Rightarrow>
              (case ce_extract env url w of
                 (Inl e, w1) \<Rightarrow> (Inl e, w1)
               | (Inr text, w1) \<Rightarrow>
                   (case given text of
                      None \<Rightarrow> try_known env p rest (tried @ [url]) w1
                    | Some t \<Rightarrow> (Inr (Some (t, url, if Some url = cpy_original_url p then ''ORIGINAL'' else kind),
                                      tried @ [url]), w1)))))"

definition repair_link ::
  "'w company_env \<Rightarrow> company_property \<Rightarrow> string list \<Rightarrow> 'w \<Rightarrow> company_page result \<times> 'w" where
  "repair_link env p tried w =
     (case official_candidates env p w of
        (Inl e, w1) \<Rightarrow> (Inl e, w1)
      | (Inr cs, w1) \<Rightarrow> (case try_candidates env p ''OFFICIAL_SITE'' cs tried w1 of
          (Inl e, w2) \<Rightarrow> (Inl e, w2)
        | (Inr (Some page, _), w2) \<Rightarrow> (Inr (Some page), w2)
        | (Inr (None, tried1), w2) \<Rightarrow> (case streeteasy_candidates env p w2 of
            (Inl e, w3) \<Rightarrow> (Inl e, w3)
          | (Inr ss, w3) \<Rightarrow> (case try_candidates env p ''STREETEASY'' ss tried1 w3 of
              (Inl e, w4) \<Rightarrow> (Inl e, w4)
            | (Inr (page, _), w4) \<Rightarrow> (Inr page, w4)))))"

definition fetch_company_page :: "'w company_env \<Rightarrow> company_property \<Rightarrow> 'w \<Rightarrow> company_page result \<times> 'w" where
  "fetch_company_page env p w =
     (case try_known env p [(cpy_resolved_url p, or_else ''ORIGINAL'' (cpy_resolved_url_kind p)),
         (cpy_original_url p, ''ORIGINAL'')] [] w of
        (Inl e, w1) \<Rightarrow> (Inl e, w1)
      | (Inr (Some page, _), w1) \<Rightarrow> (Inr (Some page), w1)
      | (Inr (None, tried), w1) \<Rightarrow> repair_link env p tried w1)"

section \<open>The check log\<close>

text \<open>The rents of units that state one; the smallest and the largest as a JSON value.\<close>

definition unit_rents :: "CompanyUnit list \<Rightarrow> int list" where
  "unit_rents us = concat (map (\<lambda>u. case cu_monthly_rent_usd u of None \<Rightarrow> [] | Some n \<Rightarrow> if n = 0 then [] else [n]) us)"

definition extreme :: "(int \<Rightarrow> int \<Rightarrow> int) \<Rightarrow> int list \<Rightarrow> json" where
  "extreme f ns = (case ns of [] \<Rightarrow> JNull | n # rest \<Rightarrow> JInt (fold f rest n))"

text \<open>\<open>next((item for item in log if item.get("status") == "CHECKED"), None)\<close>\<close>

fun first_checked :: "json list \<Rightarrow> json option result" where
  "first_checked [] = Inr None"
| "first_checked (j # js) = bind_result (py_get ''status'' j) (\<lambda>st.
     if st = JStr ''CHECKED'' then Inr (Some j) else first_checked js)"

definition log_field :: "string \<Rightarrow> json \<Rightarrow> json" where
  "log_field k j = (case json_get k j of None \<Rightarrow> JNull | Some v \<Rightarrow> v)"

definition log_event :: "json option \<Rightarrow> int \<Rightarrow> json \<Rightarrow> json \<Rightarrow> string" where
  "log_event previous n lo hi =
     (case previous of
        None \<Rightarrow> ''FIRST_CHECK''
      | Some j \<Rightarrow>
          if log_field ''unit_count'' j \<noteq> JInt n then ''AVAILABILITY_CHANGED''
          else if (log_field ''min_rent'' j, log_field ''max_rent'' j) \<noteq> (lo, hi) then ''PRICE_CHANGED''
          else ''UNCHANGED'')"

definition log_entry :: "string \<Rightarrow> string \<Rightarrow> int \<Rightarrow> json \<Rightarrow> json \<Rightarrow> string \<Rightarrow> json" where
  "log_entry stamp status n lo hi event = JObj [(''at'', JStr stamp), (''status'', JStr status), (''unit_count'', JInt n),
     (''min_rent'', lo), (''max_rent'', hi), (''event'', JStr event)]"

definition append_check_log ::
  "'w company_env \<Rightarrow> string \<Rightarrow> CompanyUnit list \<Rightarrow> datetime \<Rightarrow> company_property \<Rightarrow> company_property result" where
  "append_check_log env status units now p =
     (let rents = unit_rents units; lo = extreme min rents; hi = extreme max rents; n = int (length units);
          entries = (case cpy_check_log p of None \<Rightarrow> [] | Some js \<Rightarrow> js)
      in bind_result (if status \<noteq> ''CHECKED'' then Inr ''CHECK_FAILED''
           else bind_result (first_checked entries) (\<lambda>previous. Inr (log_event previous n lo hi))) (\<lambda>event.
         Inr (p\<lparr>cpy_check_log := Some (take CHECK_LOG_CAP (log_entry (ce_iso env now) status n lo hi event # entries))\<rparr>)))"

section \<open>Location\<close>

definition is_nj :: "company_property \<Rightarrow> bool" where
  "is_nj p = (let blob = py_lower (or_else [] (cpy_locality p) @ '' '' @ or_else [] (cpy_address_text p))
     in (\<exists>town \<in> set NJ_LOCALITIES. contains_text (py_lower town) blob) \<or>
        ''nj'' \<in> set (runs_of word_char blob) \<or> contains_text ''new jersey'' blob)"

definition in_metro :: "rat option \<Rightarrow> rat option \<Rightarrow> bool" where
  "in_metro lat lon = (case (lat, lon) of
     (Some y, Some x) \<Rightarrow> 404 / 10 \<le> y \<and> y \<le> 412 / 10 \<and> - 745 / 10 \<le> x \<and> x \<le> - 735 / 10
   | _ \<Rightarrow> False)"

definition company_request :: "string \<Rightarrow> company_property \<Rightarrow> GeocodeRequest" where
  "company_request address p =
     \<lparr>gq_formatted_address = address @ '', '' @ or_else ''New York'' (cpy_locality p), gq_locality = cpy_locality p,
      gq_administrative_area = Some (if is_nj p then ''NJ'' else ''NY''), gq_postal_code = None\<rparr>"

text \<open>The loop over the geocoders; \<open>far\<close> is \<open>saw_out_of_metro\<close>.\<close>

fun locate ::
  "GeocodeRequest \<Rightarrow> bool \<Rightarrow> bool \<Rightarrow> 'w Geocoder list \<Rightarrow> company_property \<Rightarrow> 'w \<Rightarrow>
   company_property result \<times> 'w" where
  "locate request nj far [] p w =
     (Inr (if far then p\<lparr>cpy_latitude := None, cpy_longitude := None\<rparr> else p), w)"
| "locate request nj far (g # gs) p w =
     (if nj \<and> gc_provider_code g = ''nyc_geosearch'' then locate request nj far gs p w
      else (case gc_geocode g request w of
        (Inl name, w1) \<Rightarrow> (Inl (ExternalError name), w1)
      | (Inr r, w1) \<Rightarrow>
          if gr_status r \<noteq> ProviderRequestStatus.SUCCEEDED then locate request nj far gs p w1
          else if in_metro (gr_latitude r) (gr_longitude r)
          then (Inr (p\<lparr>cpy_latitude := gr_latitude r, cpy_longitude := gr_longitude r\<rparr>), w1)
          else locate request nj True gs p w1))"

definition geocode_company :: "'w company_env \<Rightarrow> company_property \<Rightarrow> 'w \<Rightarrow> company_property result \<times> 'w" where
  "geocode_company env p w =
     (case given (cpy_address_text p) of
        None \<Rightarrow> (Inr p, w)
      | Some a \<Rightarrow> locate (company_request a p) (is_nj p) False (ce_geocoders env) p w)"

definition match_building :: "db \<Rightarrow> company_property \<Rightarrow> company_property" where
  "match_building s p =
     (case given (cpy_address_text p) of
        None \<Rightarrow> p
      | Some a \<Rightarrow> (case find (\<lambda>b. \<exists>x \<in> set (db_addresses s). ad_id x = bd_address_id b \<and>
            ad_fingerprint x = Some (address_fingerprint a)) (db_buildings s) of
          None \<Rightarrow> p
        | Some b \<Rightarrow> p\<lparr>cpy_matched_building_id := Some (bd_id b)\<rparr>))"

definition resolve_location :: "'w company_env \<Rightarrow> db \<Rightarrow> company_property \<Rightarrow> 'w \<Rightarrow> company_property result \<times> 'w" where
  "resolve_location env s p w =
     (case geocode_company env p w of
        (Inl e, w1) \<Rightarrow> (Inl e, w1)
      | (Inr p1, w1) \<Rightarrow> (Inr (match_building s p1), w1))"

section \<open>Walks to the nearest stops\<close>

text \<open>\<open>ST_Distance(...)::int\<close> rounds halves to even; the query orders by the rounded distance.\<close>

definition near_stops :: "'w company_env \<Rightarrow> point \<Rightarrow> db \<Rightarrow> transit_stop list" where
  "near_stops env here s = take 5 (sort_key (\<lambda>p. round_half_even (ce_meters env (sto_location_point p) here))
     (filter (\<lambda>p. sto_parent_stop_id p = None \<and> sto_active_status p = TransitStopActiveStatus.ACTIVE \<and>
        ce_meters env (sto_location_point p) here \<le> 2000) (db_stops s)))"

definition plausible_walk :: "int \<Rightarrow> int \<Rightarrow> int \<Rightarrow> bool" where
  "plausible_walk straight distance duration \<longleftrightarrow>
     (let speed = (if duration = 0 then 0 else of_int distance / of_int duration :: rat)
      in straight \<le> distance + 30 \<and> 1 / 2 \<le> speed \<and> speed \<le> 22 / 10)"

definition stop_entry :: "transit_stop \<Rightarrow> int \<Rightarrow> json \<Rightarrow> json \<Rightarrow> (string \<times> json) list \<Rightarrow> json" where
  "stop_entry stop straight walk_min walking_m rest = JObj ([(''stop'', JStr (sto_stop_name stop)),
     (''mode'', JStr (TransitMode_value (sto_mode stop))), (''straight_line_m'', JInt straight),
     (''walk_min'', walk_min), (''walking_m'', walking_m)] @ rest)"

definition routed_entry :: "transit_stop \<Rightarrow> int \<Rightarrow> (int \<times> int) option \<Rightarrow> json \<times> nat" where
  "routed_entry stop straight answer =
     (case answer of
        None \<Rightarrow> (stop_entry stop straight JNull JNull [], 0)
      | Some (distance, duration) \<Rightarrow>
          if plausible_walk straight distance duration
          then (stop_entry stop straight (JInt (max 1 (round_half_even (of_int duration / 60)))) (JInt distance) [], 1)
          else (stop_entry stop straight JNull JNull [(''validation'', JStr ''implausible_route'')], 0))"

fun route_stops ::
  "'w company_env \<Rightarrow> 'w walk_route \<Rightarrow> point \<Rightarrow> transit_stop list \<Rightarrow> 'w \<Rightarrow> (json list \<times> nat) result \<times> 'w" where
  "route_stops env router here [] w = (Inr ([], 0), w)"
| "route_stops env router here (stop # stops) w =
     (case router here (sto_location_point stop) w of
        (Inl e, w1) \<Rightarrow> (Inl e, w1)
      | (Inr answer, w1) \<Rightarrow> (case route_stops env router here stops w1 of
          (Inl e, w2) \<Rightarrow> (Inl e, w2)
        | (Inr (entries, n), w2) \<Rightarrow>
            (let (entry, k) = routed_entry stop (round_half_even (ce_meters env (sto_location_point stop) here)) answer
             in (Inr (entry # entries, k + n), w2))))"

definition attach_nearby_transit ::
  "'w company_env \<Rightarrow> 'w walk_route \<Rightarrow> db \<Rightarrow> company_property \<Rightarrow> 'w \<Rightarrow> (nat \<times> company_property) result \<times> 'w" where
  "attach_nearby_transit env router s p w =
     (case (cpy_latitude p, cpy_longitude p, cpy_availability p) of
        (Some lat, Some lon, Some availability) \<Rightarrow>
          (case route_stops env router (lon, lat) (near_stops env (lon, lat) s) w of
             (Inl e, w1) \<Rightarrow> (Inl e, w1)
           | (Inr (entries, n), w1) \<Rightarrow>
               (Inr (n, p\<lparr>cpy_availability := Some (json_set ''nearby_transit'' (JList entries) availability)\<rparr>), w1))
      | _ \<Rightarrow> (Inr (0, p), w))"

section \<open>Checking a property\<close>

definition company_request_llm :: "'w company_env \<Rightarrow> company_property \<Rightarrow> string \<Rightarrow> string \<Rightarrow> LlmTaskRequest" where
  "company_request_llm env p t url =
     \<lparr>lq_task_type = COMPANY_TASK_TYPE, lq_prompt_version = COMPANY_PROMPT_VERSION,
      lq_output_schema_version = COMPANY_SCHEMA_VERSION,
      lq_input_refs = JObj [(''company_property'', JUuid (cpy_id p)), (''url'', JStr url)],
      lq_input_payload = JObj [(''instructions'', JStr (ce_instructions env)), (''property_name'', JStr (cpy_name p)),
        (''known_address'', json_text (cpy_address_text p)),
        (''page_text_untrusted'', JStr (relevant_excerpt (ce_dash env) MAX_PAGE_CHARS t))],
      lq_output_schema = Some (ce_schema env), lq_tier = ModelTier.DEFAULT_HOSTED\<rparr>"

definition sane_units :: "CompanyUnit list \<Rightarrow> CompanyUnit list" where
  "sane_units us = filter (\<lambda>u. case cu_monthly_rent_usd u of None \<Rightarrow> True | Some n \<Rightarrow> plausible_rent n) us"

definition strip_opt :: "string option \<Rightarrow> string" where
  "strip_opt t = py_strip (or_else [] t)"

definition text_or_null :: "string \<Rightarrow> json" where
  "text_or_null t = (if t = [] then JNull else JStr t)"

definition company_snapshot :: "'w company_env \<Rightarrow> CompanyPageAvailability \<Rightarrow> string \<Rightarrow> datetime \<Rightarrow> json" where
  "company_snapshot env g url now = JObj [
     (''available_units'', JList (map dump_unit (sane_units (pg_available_units g)))),
     (''no_units_stated'', JBool (pg_no_units_stated g)),
     (''page_is_this_property'', JBool (pg_page_is_this_property g)),
     (''page_property_name'', text_or_null (strip_opt (pg_property_name g))),
     (''evidence'', JStr (take 500 (pg_evidence g))), (''source_url'', JStr url),
     (''checked_at'', JStr (ce_iso env now)),
     (''laundry_type'', JStr (if pg_laundry_type g \<in> LaundryType_value ` set LaundryType_members
        then pg_laundry_type g else ''UNKNOWN'')),
     (''laundry_evidence'', JStr (take 300 (pg_laundry_evidence g))),
     (''amenities'', json_texts (amenity_labels (pg_amenities g))),
     (''fee_status'', JStr (if pg_fee_status g \<in> {''NO_FEE'', ''FEE_CHARGED''} then pg_fee_status g else ''UNKNOWN'')),
     (''fee_evidence'', JStr (take 300 (pg_fee_evidence g))),
     (''description'', text_or_null (take 1500 (strip_opt (pg_description g)))),
     (''floor_plan_present'', JBool (pg_floor_plan_present g)), (''floor_plan_url'', json_text (pg_floor_plan_url g))]"

definition fail_check ::
  "'w company_env \<Rightarrow> bool \<Rightarrow> string \<Rightarrow> datetime \<Rightarrow> db \<Rightarrow> company_property \<Rightarrow> 'w \<Rightarrow>
   (string \<times> company_property) result \<times> 'w" where
  "fail_check env discard_stale error now s p w =
     (case append_check_log env ''FAILED'' [] now (p\<lparr>cpy_check_status := ''FAILED'', cpy_check_error := Some error,
         cpy_availability := (if discard_stale then None else cpy_availability p)\<rparr>) of
        Inl e \<Rightarrow> (Inl e, w)
      | Inr p1 \<Rightarrow> (case resolve_location env s p1 w of
          (Inl e, w1) \<Rightarrow> (Inl e, w1)
        | (Inr p2, w1) \<Rightarrow> (Inr (''FAILED'', p2), w1)))"

definition take_page :: "CompanyPageAvailability \<Rightarrow> string \<Rightarrow> string \<Rightarrow> company_property \<Rightarrow> company_property" where
  "take_page g url kind p = p\<lparr>cpy_resolved_url := Some url, cpy_resolved_url_kind := Some kind,
     cpy_link_status := (if kind = ''ORIGINAL'' then ''OK'' else ''REPLACED''),
     cpy_address_text := (if given (pg_address g) \<noteq> None \<and> given (cpy_address_text p) = None
        then pg_address g else cpy_address_text p),
     cpy_locality := (if given (pg_locality g) \<noteq> None \<and> given (cpy_locality p) = None
        then pg_locality g else cpy_locality p)\<rparr>"

definition store_check ::
  "'w company_env \<Rightarrow> CompanyPageAvailability \<Rightarrow> string \<Rightarrow> string \<Rightarrow> datetime \<Rightarrow> db \<Rightarrow> company_property \<Rightarrow> 'w \<Rightarrow>
   (string \<times> company_property) result \<times> 'w" where
  "store_check env g url kind now s p w =
     (case append_check_log env ''CHECKED'' (sane_units (pg_available_units g)) now
         ((take_page g url kind p)\<lparr>cpy_availability := Some (company_snapshot env g url now)\<rparr>) of
        Inl e \<Rightarrow> (Inl e, w)
      | Inr p1 \<Rightarrow> (case resolve_location env s (p1\<lparr>cpy_check_status := ''CHECKED'', cpy_check_error := None\<rparr>) w of
          (Inl e, w1) \<Rightarrow> (Inl e, w1)
        | (Inr p2, w1) \<Rightarrow> (case ce_router env of
            None \<Rightarrow> (Inr (''CHECKED'', p2), w1)
          | Some router \<Rightarrow> (case attach_nearby_transit env router s p2 w1 of
              (Inl e, w2) \<Rightarrow> (Inl e, w2)
            | (Inr (n, p3), w2) \<Rightarrow> (Inr (''CHECKED'', p3), w2)))))"

definition name_as_address :: "company_property \<Rightarrow> company_property" where
  "name_as_address p = (if looks_like_address (cpy_name p) \<and> given (cpy_address_text p) = None
     then p\<lparr>cpy_address_text := Some (py_strip (cpy_name p))\<rparr> else p)"

definition unreachable_error :: "'w company_env \<Rightarrow> string" where
  "unreachable_error env = ''page unreachable: file link'' @
     (case ce_search env of None \<Rightarrow> [] | Some _ \<Rightarrow> '' and web fallbacks'') @ '' all failed''"

definition llm_error :: "LlmTaskResult \<Rightarrow> string" where
  "llm_error result = ''LLM extraction failed ('' @
     (case lr_error_code result of None \<Rightarrow> ''None'' | Some c \<Rightarrow> c) @ '')''"

definition read_check ::
  "'w company_env \<Rightarrow> bool \<Rightarrow> string \<Rightarrow> string \<Rightarrow> string \<Rightarrow> datetime \<Rightarrow> db \<Rightarrow> company_property \<Rightarrow> 'w \<Rightarrow>
   (string \<times> company_property) result \<times> 'w" where
  "read_check env discard_stale t url kind now s p w =
     (case lx_execute (ce_llm env) (company_request_llm env p t url) w of
        (Inl name, w1) \<Rightarrow> (Inl (ExternalError name), w1)
      | (Inr result, w1) \<Rightarrow>
          (case (if lr_status result \<noteq> ModelExecutionStatus.SUCCEEDED then None else lr_output result) of
             None \<Rightarrow> fail_check env discard_stale (llm_error result) now s p w1
           | Some j \<Rightarrow> (case read_company_page j of
               Inl _ \<Rightarrow> fail_check env discard_stale ''LLM output failed schema validation'' now s p w1
             | Inr g \<Rightarrow> store_check env g url kind now s p w1)))"

definition company_check ::
  "'w company_env \<Rightarrow> bool \<Rightarrow> datetime \<Rightarrow> db \<Rightarrow> company_property \<Rightarrow> 'w \<Rightarrow>
   (string \<times> company_property) result \<times> 'w" where
  "company_check env discard_stale now s p w =
     (let p0 = name_as_address p
      in case fetch_company_page env p0 w of
           (Inl e, w1) \<Rightarrow> (if e = TavilyQuotaError then Inr (''RATE_LIMITED'', p0) else Inl e, w1)
         | (Inr page, w1) \<Rightarrow>
             (let p1 = p0\<lparr>cpy_last_checked_at := Some now\<rparr>
              in case page of
                   None \<Rightarrow> fail_check env discard_stale (unreachable_error env) now s (p1\<lparr>cpy_link_status := ''FAILED''\<rparr>) w1
                 | Some (t, url, kind) \<Rightarrow> read_check env discard_stale t url kind now s p1 w1))"

end
