(* ===== verification/CompanyRefresh.thy ===== *)
theory CompanyRefresh
  imports Company
begin

text \<open>
  The portfolio run, \<open>run_company_refresh\<close> of \<open>jobs/company_refresh.py\<close>, once keys, clients and session
  factory are set up: every property in its own transactions, its commutes researched in one of their
  own, an abort on the quota error.  The status file is best-effort output and left out; \<open>rank\<close> is the
  collation the database sorts names by.
\<close>

definition STALE_AFTER :: int where
  "STALE_AFTER = days_us 1"

definition COMMUTE_DESTINATIONS_PER_TYPE :: nat where
  "COMMUTE_DESTINATIONS_PER_TYPE = 1"

text \<open>The nearest active destinations of each type; the order of the types is the database's.\<close>

definition nearest_destinations :: "'w company_env \<Rightarrow> point \<Rightarrow> db \<Rightarrow> destination list" where
  "nearest_destinations env here s = concat (map (\<lambda>ty. take COMMUTE_DESTINATIONS_PER_TYPE
     (sort_key (\<lambda>d. ce_meters env (dst_routing_anchor_point d) here)
       (filter (\<lambda>d. dst_active d \<and> dst_destination_type d = ty) (db_destinations s))))
     [DestinationType.UNIVERSITY_CAMPUS, DestinationType.MAJOR_DESTINATION])"

definition company_origin :: "company_property \<Rightarrow> string" where
  "company_origin p = or_else (cpy_name p) (cpy_address_text p) @ '', '' @ or_else ''New York'' (cpy_locality p)"

definition company_location_hash :: "'w company_env \<Rightarrow> company_property \<Rightarrow> rat \<Rightarrow> rat \<Rightarrow> string" where
  "company_location_hash env p lat lon =
     ''company:'' @ ce_show_id env (cpy_id p) @ '':'' @ fixed_text 5 lat @ '','' @ fixed_text 5 lon"

text \<open>\<open>except (CommuteResearchRejected, LookupError)\<close>; KeyError and IndexError are lookup errors.\<close>

definition tolerated :: "py_error \<Rightarrow> bool" where
  "tolerated e \<longleftrightarrow> error_name e \<in> {''CommuteResearchRejected'', ''LookupError'', ''KeyError'', ''IndexError''}"

text \<open>The parameters of the commute research.\<close>

record 'w research_env =
  re_dates :: date_format
  re_digest :: "uuid \<Rightarrow> string list \<Rightarrow> string"
  re_schema :: json
  re_cache_days :: int

fun research_destinations ::
  "'w company_env \<Rightarrow> 'w research_env \<Rightarrow> datetime \<Rightarrow> company_property \<Rightarrow> string \<Rightarrow> destination list \<Rightarrow> nat \<Rightarrow>
   'w \<Rightarrow> db \<Rightarrow> (nat \<times> db) result \<times> 'w" where
  "research_destinations env re now p hash [] n w s = (Inr (n, s), w)"
| "research_destinations env re now p hash (d # ds) n w s =
     (case get_fresh_result None (Some (cpy_id p)) (dst_id d) now s of
        Some _ \<Rightarrow> research_destinations env re now p hash ds n w s
      | None \<Rightarrow> (case commute_research (re_dates re) (re_digest re) (re_schema re) (re_cache_days re) (ce_llm env) now
            None (Some (cpy_id p)) (dst_id d) (company_origin p) hash w s of
          (Inr (r, s1), w1) \<Rightarrow> research_destinations env re now p hash ds (Suc n) w1 s1
        | (Inl e, w1) \<Rightarrow>
            if tolerated e then research_destinations env re now p hash ds n w1 s else (Inl e, w1)))"

definition research_company_commutes ::
  "'w company_env \<Rightarrow> 'w research_env \<Rightarrow> datetime \<Rightarrow> company_property \<Rightarrow> 'w \<Rightarrow> db \<Rightarrow> (nat \<times> db) result \<times> 'w" where
  "research_company_commutes env re now p w s =
     (case (cpy_latitude p, cpy_longitude p) of
        (Some lat, Some lon) \<Rightarrow> research_destinations env re now p (company_location_hash env p lat lon)
          (nearest_destinations env (lon, lat) s) 0 w s
      | _ \<Rightarrow> (Inr (0, s), w))"

section \<open>One property\<close>

definition put_property :: "company_property \<Rightarrow> db \<Rightarrow> db" where
  "put_property p s = s\<lparr>db_company := update_where (\<lambda>q. cpy_id q = cpy_id p) (\<lambda>q. p) (db_company s)\<rparr>"

type_synonym counts = "(string \<times> nat) list"

fun bump_by :: "string \<Rightarrow> nat \<Rightarrow> counts \<Rightarrow> counts" where
  "bump_by k n [] = [(k, n)]"
| "bump_by k n ((k', m) # d) = (if k = k' then (k', m + n) # d else (k', m) # bump_by k n d)"

definition add_count :: "string \<Rightarrow> nat \<Rightarrow> counts \<Rightarrow> counts" where
  "add_count k n d = (if n = 0 then d else bump_by k n d)"

text \<open>\<open>commutes_only\<close>: a missing transit panel is routed, then commutes are researched, in one transaction.\<close>

definition route_missing ::
  "'w company_env \<Rightarrow> db \<Rightarrow> company_property \<Rightarrow> 'w \<Rightarrow> (nat \<times> company_property) result \<times> 'w" where
  "route_missing env s p w =
     (case (ce_router env, cpy_availability p) of
        (Some router, Some j) \<Rightarrow>
          if json_get ''nearby_transit'' j = None then attach_nearby_transit env router s p w else (Inr (0, p), w)
      | _ \<Rightarrow> (Inr (0, p), w))"

definition commutes_step ::
  "'w company_env \<Rightarrow> 'w research_env \<Rightarrow> datetime \<Rightarrow> company_property \<Rightarrow> counts \<Rightarrow> 'w \<Rightarrow> db \<Rightarrow> counts \<times> 'w \<times> db" where
  "commutes_step env re now p counts w s =
     (case route_missing env s p w of
        (Inl e, w1) \<Rightarrow> (bump ''ERROR'' counts, w1, s)
      | (Inr (routed, p1), w1) \<Rightarrow>
          (let counts1 = add_count ''TRANSIT_ROUTED'' routed counts
           in case research_company_commutes env re now p1 w1 (put_property p1 s) of
                (Inl e, w2) \<Rightarrow> (bump ''ERROR'' counts1, w2, s)
              | (Inr (n, s1), w2) \<Rightarrow> (add_count ''COMMUTES'' n counts1, w2, s1)))"

definition fresh_check :: "bool \<Rightarrow> datetime \<Rightarrow> company_property \<Rightarrow> bool" where
  "fresh_check force now p \<longleftrightarrow> \<not> force \<and> cpy_check_status p = ''CHECKED'' \<and>
     (case cpy_last_checked_at p of None \<Rightarrow> False | Some t \<Rightarrow> now - STALE_AFTER \<le> t)"

text \<open>A failed research is rolled back and does not fail the check before it.\<close>

definition after_check ::
  "'w company_env \<Rightarrow> 'w research_env \<Rightarrow> datetime \<Rightarrow> string \<Rightarrow> company_property \<Rightarrow> counts \<Rightarrow> 'w \<Rightarrow> db \<Rightarrow>
   counts \<times> 'w \<times> db" where
  "after_check env re now status p counts w s =
     (if status \<noteq> ''CHECKED'' then (counts, w, s)
      else (case research_company_commutes env re now p w s of
              (Inl e, w1) \<Rightarrow> (counts, w1, s)
            | (Inr (n, s1), w1) \<Rightarrow> (add_count ''COMMUTES'' n counts, w1, s1)))"

section \<open>The run\<close>

datatype refresh_mode = CheckAll | CheckForce | CheckFailed | CommutesOnly

text \<open>The boolean tells whether the run went through; it ends early on an exhausted quota.\<close>

fun refresh_properties ::
  "'w company_env \<Rightarrow> 'w research_env \<Rightarrow> bool \<Rightarrow> bool \<Rightarrow> datetime \<Rightarrow> uuid list \<Rightarrow> counts \<Rightarrow> 'w \<Rightarrow> db \<Rightarrow>
   bool \<times> counts \<times> 'w \<times> db" where
  "refresh_properties env re only force now [] counts w s = (True, counts, w, s)"
| "refresh_properties env re only force now (i # is) counts w s =
     (case get_by cpy_id i (db_company s) of
        None \<Rightarrow> refresh_properties env re only force now is counts w s
      | Some p \<Rightarrow>
          if only
          then (let (counts1, w1, s1) = commutes_step env re now p counts w s
                in refresh_properties env re only force now is counts1 w1 s1)
          else if fresh_check force now p
          then refresh_properties env re only force now is (bump ''SKIPPED_FRESH'' counts) w s
          else (case company_check env force now s p w of
                  (Inl e, w1) \<Rightarrow> refresh_properties env re only force now is (bump ''ERROR'' counts) w1 s
                | (Inr (status, p1), w1) \<Rightarrow>
                    (let s1 = put_property p1 s
                     in if status = ''RATE_LIMITED'' then (False, bump status counts, w1, s1)
                        else (let (counts1, w2, s2) = after_check env re now status p1 (bump status counts) w1 s1
                              in refresh_properties env re only force now is counts1 w2 s2))))"

definition run_company_refresh ::
  "(string \<Rightarrow> nat) \<Rightarrow> 'w company_env \<Rightarrow> 'w research_env \<Rightarrow> refresh_mode \<Rightarrow> datetime \<Rightarrow> 'w \<Rightarrow> db \<Rightarrow>
   bool \<times> counts \<times> 'w \<times> db" where
  "run_company_refresh rank env re mode now w s =
     (let rows = filter (\<lambda>p. mode = CheckFailed \<longrightarrow> cpy_check_status p \<noteq> ''CHECKED'') (db_company s)
      in refresh_properties env re (mode = CommutesOnly) (mode = CheckForce) now
           (map cpy_id (sort_key (\<lambda>p. rank (cpy_name p)) rows)) [] w s)"

end
