(* ===== verification/ListingContentLaws.thy ===== *)
theory ListingContentLaws
  imports ListingContent ResearchLaws
begin

text \<open>
  What detail-page enrichment may change, when it repeats itself and where it gets stuck.
\<close>

section \<open>The rows a page may touch\<close>

definition page_frozen :: "canonical_listing \<Rightarrow> canonical_listing" where
  "page_frozen l = l\<lparr>cl_monthly_rent_minor := None, cl_laundry_type := LaundryType.UNKNOWN,
     cl_last_material_change_at := 0\<rparr>"

definition page_row :: "uuid \<Rightarrow> canonical_listing \<Rightarrow> canonical_listing \<Rightarrow> bool" where
  "page_row i l l' \<longleftrightarrow> (if cl_id l = i then page_frozen l' = page_frozen l else l' = l)"

text \<open>What acquisition, transit and the portfolio keep: all but the audit and the media tables.\<close>

definition page_inputs :: "db \<Rightarrow> db" where
  "page_inputs s = s\<lparr>db_executions := [], db_media := [], db_media_links := []\<rparr>"

definition page_step :: "uuid \<Rightarrow> db \<Rightarrow> db \<Rightarrow> bool" where
  "page_step i s s' \<longleftrightarrow>
     manual_state s' = manual_state s \<and> identity_state s' = identity_state s \<and>
     upstream_state (page_inputs s') = upstream_state (page_inputs s) \<and>
     list_all2 (page_row i) (db_listings s) (db_listings s') \<and>
     (\<exists>new. db_events s' = db_events s @ new) \<and> (\<exists>new. db_issues s' = db_issues s @ new) \<and>
     (facts_inv s \<longrightarrow> facts_inv s') \<and> (keys_unique s \<longrightarrow> keys_unique s') \<and> db_next s \<le> db_next s'"

lemma page_row_refl [simp, intro]: "page_row i l l"
  by (simp add: page_row_def)

lemma page_frozen_id: "page_frozen l' = page_frozen l \<Longrightarrow> cl_id l' = cl_id l"
  by (drule arg_cong [where f = cl_id]) (simp add: page_frozen_def)

lemma page_row_id: "page_row i l l' \<Longrightarrow> cl_id l' = cl_id l"
  by (auto simp: page_row_def dest: page_frozen_id split: if_splits)

lemma page_row_trans: "page_row i l m \<Longrightarrow> page_row i m n \<Longrightarrow> page_row i l n"
  using page_row_id [of i l m] by (auto simp: page_row_def split: if_splits)

lemma page_step_refl [simp, intro]: "page_step i s s"
  by (simp add: page_step_def list_all2_refl)

lemma page_step_trans [trans]: "page_step i s t \<Longrightarrow> page_step i t u \<Longrightarrow> page_step i s u"
proof -
  assume a: "page_step i s t" and b: "page_step i t u"
  have "list_all2 (page_row i) (db_listings s) (db_listings u)"
    using a b unfolding page_step_def
    by (elim conjE) (rule list_all2_trans [of "page_row i" "page_row i", OF page_row_trans], assumption+)
  then show ?thesis using a b unfolding page_step_def by (elim conjE exE, intro conjI) auto
qed

lemma history_page_step: "history_step s s' \<Longrightarrow> page_step i s s'"
  by (auto simp: history_step_def page_step_def page_inputs_def frame_defs list_all2_refl)

lemma update_page_step:
  assumes "\<And>l. page_frozen (f l) = page_frozen l"
  shows "page_step i s (update_listing i f s)"
proof -
  have "list_all2 (page_row i) ls (update_where (\<lambda>r. cl_id r = i) f ls)" for ls
    by (rule list_all2_update_where) (simp_all add: page_row_def assms)
  then show ?thesis
    unfolding page_step_def
    by (simp add: page_inputs_def frame_defs update_listing_def facts_inv_def keys_unique_def)
qed

lemma insert_event_page_step:
  assumes "insert_event row s = Inr (u, s')"
  shows "page_step i s s'" "db_events s' = db_events s @ [row (db_next s)]" "db_listings s' = db_listings s"
proof -
  from assms have fresh: "\<forall>r \<in> set (db_events s). ev_idempotency_key r \<noteq> ev_idempotency_key (row (db_next s))"
    and s': "s' = s\<lparr>db_events := db_events s @ [row (db_next s)], db_next := Suc (db_next s)\<rparr>"
    by (auto simp: insert_event_def Let_def split: if_splits)
  have "keys_unique s \<longrightarrow> keys_unique s'" using fresh by (force simp: s' keys_unique_def)
  then show "page_step i s s'"
    by (simp add: page_step_def s' page_inputs_def frame_defs facts_inv_def list_all2_refl)
  show "db_events s' = db_events s @ [row (db_next s)]" "db_listings s' = db_listings s"
    by (simp_all add: s')
qed

section \<open>The steps of a page\<close>

text \<open>A fact recorded first, then the rest of the branch.\<close>

lemma recordedE:
  assumes "bind_result (record_fact f now s) (\<lambda>(a, t). g t) = Inr (x, s')"
  obtains a t where "record_fact f now s = Inr (a, t)" "g t = Inr (x, s')" "page_step i s t"
  using assms by (auto elim!: bind_pairE dest: record_fact_history history_page_step [where i = i])

lemma apply_rent_cases:
  assumes "apply_rent l f now s = Inr (written, s')"
  obtains (same) "written = []" "s' = s"
  | (blocked) usd o' t where "pf_monthly_rent_usd f = Some usd" "written = []"
      "active_override FactEntityType.LISTING (cl_id l) ''monthly_rent'' s = Inr (Some o')"
      "record_fact (page_fact (cl_id l) ''monthly_rent'' (JInt (usd * 100)) Confidence.HIGH (pf_rent_evidence f))
         now s = Inr t"
      "s' = raise_conflict_with_override o' (cl_id l) ''monthly_rent'' (JInt (usd * 100)) (snd t)"
  | (corrected) usd t where "pf_monthly_rent_usd f = Some usd" "plausible_rent usd"
      "cl_monthly_rent_minor l \<noteq> Some (usd * 100)" "written = [''monthly_rent=$'' @ grouped_text usd]"
      "active_override FactEntityType.LISTING (cl_id l) ''monthly_rent'' s = Inr None"
      "record_fact (page_fact (cl_id l) ''monthly_rent'' (JInt (usd * 100)) Confidence.HIGH (pf_rent_evidence f))
         now s = Inr t"
      "insert_event (\<lambda>i. price_event i (cl_id l) (cl_monthly_rent_minor l) (usd * 100) now)
         (update_listing (cl_id l) (\<lambda>r. r\<lparr>cl_monthly_rent_minor := Some (usd * 100),
            cl_last_material_change_at := now\<rparr>) (snd t)) = Inr ((), s')"
proof (cases "pf_monthly_rent_usd f")
  case None
  then show thesis using assms by (intro same) (simp_all add: apply_rent_def)
next
  case (Some usd)
  show thesis
  proof (cases "\<not> plausible_rent usd \<or> cl_monthly_rent_minor l = Some (usd * 100)")
    case True
    then show thesis using assms Some by (intro same) (auto simp: apply_rent_def)
  next
    case False
    with assms Some obtain ov a t where
      ov: "active_override FactEntityType.LISTING (cl_id l) ''monthly_rent'' s = Inr ov"
      and t: "record_fact (page_fact (cl_id l) ''monthly_rent'' (JInt (usd * 100)) Confidence.HIGH
        (pf_rent_evidence f)) now s = Inr (a, t)"
      by (auto simp: apply_rent_def Let_def bind_result_Inr_iff)
    show thesis
    proof (cases ov)
      case None
      then show ?thesis using False assms Some ov t
        by (intro corrected [of usd "(a, t)"]) (auto simp: apply_rent_def Let_def bind_result_Inr_iff)
    next
      case (Some o')
      then show ?thesis using False assms \<open>pf_monthly_rent_usd f = Some usd\<close> ov t
        by (intro blocked [of usd o' "(a, t)"]) (auto simp: apply_rent_def Let_def)
    qed
  qed
qed

lemma apply_laundry_cases:
  assumes "apply_laundry l f now s = Inr (written, s')"
  obtains (same) "written = []" "s' = s"
  | (blocked) o' v t where "active_override FactEntityType.LISTING (cl_id l) ''laundry_type'' s = Inr (Some o')"
      "record_fact (page_fact (cl_id l) ''laundry_type'' (JStr (pf_laundry_type f)) Confidence.MEDIUM
         (pf_laundry_evidence f)) now s = Inr t"
      "s' = raise_conflict_with_override o' (cl_id l) ''laundry_type'' v (snd t)"
  | (stated) laundry t where "active_override FactEntityType.LISTING (cl_id l) ''laundry_type'' s = Inr None"
      "cl_indoor_laundry_badge_eligible l \<longrightarrow> laundry = LaundryType.IN_UNIT_WASHER_DRYER_CONFIRMED"
      "record_fact (page_fact (cl_id l) ''laundry_type'' (JStr (pf_laundry_type f)) Confidence.MEDIUM
         (pf_laundry_evidence f)) now s = Inr t"
      "s' = update_listing (cl_id l) (\<lambda>r. r\<lparr>cl_laundry_type := laundry\<rparr>) (snd t)"
proof (cases "enum_of_value LaundryType_members LaundryType_value (pf_laundry_type f)")
  case (Inl e)
  then show thesis using assms by (intro same) (simp_all add: apply_laundry_def)
next
  case (Inr laundry)
  show thesis
  proof (cases "laundry = LaundryType.UNKNOWN")
    case True
    then show thesis using assms Inr by (intro same) (simp_all add: apply_laundry_def)
  next
    case False
    with assms Inr obtain ov a t where
      ov: "active_override FactEntityType.LISTING (cl_id l) ''laundry_type'' s = Inr ov"
      and t: "record_fact (page_fact (cl_id l) ''laundry_type'' (JStr (pf_laundry_type f)) Confidence.MEDIUM
        (pf_laundry_evidence f)) now s = Inr (a, t)"
      by (auto simp: apply_laundry_def bind_result_Inr_iff)
    show thesis
    proof (cases ov)
      case None
      then show ?thesis using False assms Inr ov t
        by (intro stated [of laundry "(a, t)"]) (auto simp: apply_laundry_def split: if_splits)
    next
      case (Some o')
      then show ?thesis using False assms Inr ov t
        by (intro blocked [of o' "(a, t)"]) (auto simp: apply_laundry_def)
    qed
  qed
qed

lemma record_page_step: "record_fact f now s = Inr t \<Longrightarrow> page_step i s (snd t)"
  by (cases t) (auto intro: history_page_step record_fact_history)

lemma conflict_page_step: "page_step i s (raise_conflict_with_override o' j k v s)"
  by (rule history_page_step) (rule raise_conflict_history)

lemma apply_rent_page_step: "apply_rent l f now s = Inr (written, s') \<Longrightarrow> page_step (cl_id l) s s'"
proof (erule apply_rent_cases)
  fix usd t
  assume t: "record_fact (page_fact (cl_id l) ''monthly_rent'' (JInt (usd * 100)) Confidence.HIGH
      (pf_rent_evidence f)) now s = Inr t"
    and ins: "insert_event (\<lambda>i. price_event i (cl_id l) (cl_monthly_rent_minor l) (usd * 100) now)
      (update_listing (cl_id l) (\<lambda>r. r\<lparr>cl_monthly_rent_minor := Some (usd * 100),
         cl_last_material_change_at := now\<rparr>) (snd t)) = Inr ((), s')"
  note record_page_step [OF t, of "cl_id l"]
  also have "page_step (cl_id l) (snd t) (update_listing (cl_id l)
      (\<lambda>r. r\<lparr>cl_monthly_rent_minor := Some (usd * 100), cl_last_material_change_at := now\<rparr>) (snd t))"
    by (rule update_page_step) (simp add: page_frozen_def)
  also note insert_event_page_step(1) [OF ins, of "cl_id l"]
  finally show ?thesis .
qed (auto intro: page_step_trans [OF record_page_step conflict_page_step])

lemma apply_laundry_page_step: "apply_laundry l f now s = Inr (written, s') \<Longrightarrow> page_step (cl_id l) s s'"
proof (erule apply_laundry_cases)
  fix laundry t
  assume t: "record_fact (page_fact (cl_id l) ''laundry_type'' (JStr (pf_laundry_type f)) Confidence.MEDIUM
      (pf_laundry_evidence f)) now s = Inr t"
    and s': "s' = update_listing (cl_id l) (\<lambda>r. r\<lparr>cl_laundry_type := laundry\<rparr>) (snd t)"
  note record_page_step [OF t, of "cl_id l"]
  also have "page_step (cl_id l) (snd t) s'"
    unfolding s' by (rule update_page_step) (simp add: page_frozen_def)
  finally show ?thesis .
qed (auto intro: page_step_trans [OF record_page_step conflict_page_step])

lemma apply_fee_page_step: "apply_fee l f now s = Inr (written, s') \<Longrightarrow> page_step i s s'"
  by (auto simp: apply_fee_def bind_result_Inr_iff split: if_splits dest: record_page_step [where i = i])

lemma apply_amenities_page_step: "apply_amenities l f now s = Inr (written, s') \<Longrightarrow> page_step i s s'"
  by (auto simp: apply_amenities_def Let_def bind_result_Inr_iff split: if_splits
      dest: record_page_step [where i = i])

lemma apply_floor_plan_page_step: "apply_floor_plan l link f url s = (written, s') \<Longrightarrow> page_step i s s'"
  by (auto simp: apply_floor_plan_def Let_def page_step_def page_inputs_def frame_defs list_all2_refl
      facts_inv_def keys_unique_def split: if_splits)

section \<open>A whole page\<close>

lemma apply_pageE:
  assumes "apply_page l link f url now s = Inr (written, s')"
  obtains rent s1 laundry s2 fee s3 amenities s4 plan where
    "apply_rent l f now s = Inr (rent, s1)" "apply_laundry l f now s1 = Inr (laundry, s2)"
    "apply_fee l f now s2 = Inr (fee, s3)" "apply_amenities l f now s3 = Inr (amenities, s4)"
    "apply_floor_plan l link f url s4 = (plan, s')"
    "written = rent @ laundry @ fee @ amenities @ plan"
proof -
  from assms obtain rent s1 laundry s2 fee s3 amenities s4 where
    steps: "apply_rent l f now s = Inr (rent, s1)" "apply_laundry l f now s1 = Inr (laundry, s2)"
      "apply_fee l f now s2 = Inr (fee, s3)" "apply_amenities l f now s3 = Inr (amenities, s4)"
    and plan: "(let (plan, s5) = apply_floor_plan l link f url s4
      in Inr (rent @ laundry @ fee @ amenities @ plan, s5)) = (Inr (written, s') :: (string list \<times> db) result)"
    by (auto simp only: apply_page_def bind_result_Inr_iff prod.case split_paired_Ex)
  show thesis
    by (cases "apply_floor_plan l link f url s4") (use plan in \<open>auto intro: that [OF steps]\<close>)
qed

lemma after_rent_page_step:
  assumes "apply_page l link f url now s = Inr (written, s')" "apply_rent l f now s = Inr (rent, s1)"
  shows "page_step (cl_id l) s1 s'"
  using assms(1)
proof (cases rule: apply_pageE)
  case (1 rent' s1' laundry s2 fee s3 amenities s4 plan)
  then have "s1' = s1" using assms(2) by simp
  note apply_laundry_page_step [OF 1(2) [unfolded this]]
  also note apply_fee_page_step [OF 1(3), of "cl_id l"]
  also note apply_amenities_page_step [OF 1(4), of "cl_id l"]
  also note apply_floor_plan_page_step [OF 1(5), of "cl_id l"]
  finally show ?thesis .
qed

lemma apply_page_step:
  assumes "apply_page l link f url now s = Inr (written, s')"
  shows "page_step (cl_id l) s s'"
  using assms
  by (rule apply_pageE) (metis apply_rent_page_step after_rent_page_step [OF assms] page_step_trans)

lemma log_page_step: "page_step i s (log_detail_execution provider hash refs result f now s)"
  by (simp add: log_detail_execution_def page_step_def page_inputs_def frame_defs list_all2_refl
      facts_inv_def keys_unique_def)

lemma log_same [simp]:
  "db_assertions (log_detail_execution provider hash refs result f now s) = db_assertions s"
  "db_overrides (log_detail_execution provider hash refs result f now s) = db_overrides s"
  "db_listings (log_detail_execution provider hash refs result f now s) = db_listings s"
  "db_events (log_detail_execution provider hash refs result f now s) = db_events s"
  by (simp_all add: log_detail_execution_def)

lemma store_pageE:
  assumes "store_page provider l link url hash result now s = Inr (eo, s')"
  obtains (failed) "accepted_page result = None" "eo = enrichment (cl_id l) ''LLM_FAILED''" "s' = s"
  | (stored) f written s1 a where "accepted_page result = Some f"
      "apply_page l link f url now
         (log_detail_execution provider hash (detail_refs (cl_id l) url) result f now s) = Inr (written, s1)"
      "record_fact (hash_fact (cl_id l) hash) now s1 = Inr (a, s')"
      "eo = \<lparr>eo_listing_id = cl_id l, eo_status = ''ENRICHED'', eo_facts_written = written\<rparr>"
  using assms by (auto simp: store_page_def bind_result_Inr_iff split: option.splits)

lemma store_page_step:
  assumes "store_page provider l link url hash result now s = Inr (eo, s')"
  shows "page_step (cl_id l) s s'"
  using assms
proof (cases rule: store_pageE)
  case (stored f written s1 a)
  note log_page_step
  also note apply_page_step [OF stored(2)]
  also note record_page_step [OF stored(3), simplified]
  finally show ?thesis .
qed simp

lemma enrich_pageE:
  assumes "enrich_page env force now l link t url w s = (Inr (eo, s'), w')"
  obtains (skipped) "eo = enrichment (cl_id l) ''SKIPPED_UNCHANGED''" "s' = s" "w' = w"
  | (asked) result hash where
      "hash = pe_sha256 env (relevant_excerpt (pe_dash env) MAX_PAGE_CHARS t)"
      "store_page (lx_provider_code (pe_llm env)) l link url hash result now s = Inr (eo, s')"
  using assms by (auto simp: enrich_page_def Let_def split: if_splits sum.splits prod.splits)

lemma enrich_contentE:
  assumes "enrich_content env force now i w s = (Inr (eo, s'), w')"
  obtains (nothing) st where "eo = enrichment i st" "s' = s"
  | (page) l link rest t url w1 where "get_by cl_id i (db_listings s) = Some l" "active_links i s = link # rest"
      "fetch_page (pe_extract env) (pe_search env) l link w s = (Inr (Some (t, url)), w1)"
      "enrich_page env force now l link t url w1 s = (Inr (eo, s'), w')"
  using assms
  by (auto simp: enrich_content_def split: option.splits list.splits sum.splits prod.splits)

lemma enrich_content_step:
  assumes "enrich_content env force now i w s = (Inr (eo, s'), w')"
  shows "page_step i s s'"
  using assms
proof (cases rule: enrich_contentE)
  case (page l link rest t url w1)
  have "cl_id l = i" using get_by_SomeD [OF page(1)] by simp
  from page(4) show ?thesis
  proof (cases rule: enrich_pageE)
    case (asked result hash)
    with store_page_step [OF asked(2)] \<open>cl_id l = i\<close> show ?thesis by simp
  qed simp
qed simp

text \<open>The columns of a row under a page step.\<close>

lemma list_all2_get_by:
  assumes "list_all2 R xs ys" "\<And>x y. R x y \<Longrightarrow> g y = g x"
  shows "rel_option R (get_by g k xs) (get_by g k ys)"
  using assms by (induction rule: list_all2_induct) (auto simp: get_by_Cons)

lemma page_step_row:
  assumes "page_step i s s'"
  shows "rel_option (page_row i) (get_by cl_id j (db_listings s)) (get_by cl_id j (db_listings s'))"
  using assms unfolding page_step_def by (auto intro: list_all2_get_by page_row_id)

lemma page_row_frozen: "page_row i l l' \<Longrightarrow> page_frozen l' = page_frozen l"
  by (auto simp: page_row_def split: if_splits)

lemma page_step_columns:
  assumes "page_step i s s'"
  shows "column (\<lambda>l. page_frozen l) j s' = column (\<lambda>l. page_frozen l) j s"
    "j \<noteq> i \<Longrightarrow> get_by cl_id j (db_listings s') = get_by cl_id j (db_listings s)"
  using page_step_row [OF assms, of j]
  by (auto simp: column_def option_rel_Some1 option_rel_Some2 page_row_def rel_option_iff
      split: option.splits if_splits dest!: get_by_SomeD)

section \<open>What the laundry branch respects\<close>

definition badge_ok :: "canonical_listing \<Rightarrow> bool" where
  "badge_ok l \<longleftrightarrow> (cl_indoor_laundry_badge_eligible l \<longrightarrow> cl_laundry_type l = LaundryType.IN_UNIT_WASHER_DRYER_CONFIRMED)"

lemma column_cong: "(\<And>l. g l = h (k l)) \<Longrightarrow> column k j s' = column k j s \<Longrightarrow> column g j s' = column g j s"
  by (auto simp: column_def map_option_case split: option.splits)

lemma badge_frozen: "cl_indoor_laundry_badge_eligible l = cl_indoor_laundry_badge_eligible (page_frozen l)"
  by (simp add: page_frozen_def)

lemma page_step_badge: "page_step i s s' \<Longrightarrow>
    column cl_indoor_laundry_badge_eligible j s' = column cl_indoor_laundry_badge_eligible j s"
  by (rule column_cong [of _ cl_indoor_laundry_badge_eligible page_frozen, OF badge_frozen]) (rule page_step_columns)

text \<open>The laundry column of a state is left alone by every branch but the laundry one.\<close>

lemma record_same_listings: "record_fact f now s = Inr t \<Longrightarrow> db_listings (snd t) = db_listings s"
  by (cases t) (simp add: record_fact_frame(4))

lemma apply_rent_laundry:
  assumes "apply_rent l f now s = Inr (written, s')"
  shows "column cl_laundry_type j s' = column cl_laundry_type j s"
  using assms
proof (cases rule: apply_rent_cases)
  case (blocked usd o' t)
  then show ?thesis by (simp add: column_def raise_conflict_frame record_same_listings)
next
  case (corrected usd t)
  have "column cl_laundry_type j s' = column cl_laundry_type j (update_listing (cl_id l)
      (\<lambda>r. r\<lparr>cl_monthly_rent_minor := Some (usd * 100), cl_last_material_change_at := now\<rparr>) (snd t))"
    by (rule column_same) (rule insert_event_page_step(3) [OF corrected(7)])
  also have "\<dots> = column cl_laundry_type j (snd t)" by (rule column_update_listing) simp_all
  also have "\<dots> = column cl_laundry_type j s" by (rule column_same) (rule record_same_listings [OF corrected(6)])
  finally show ?thesis .
qed simp

lemma apply_page_listings:
  "apply_fee l f now s = Inr (fee, s1) \<Longrightarrow> db_listings s1 = db_listings s"
  "apply_amenities l f now s = Inr (am, s1) \<Longrightarrow> db_listings s1 = db_listings s"
  "apply_floor_plan l link f url s = (plan, s1) \<Longrightarrow> db_listings s1 = db_listings s"
  by (auto simp: apply_fee_def apply_amenities_def apply_floor_plan_def Let_def bind_result_Inr_iff
      split: if_splits dest: record_fact_frame(4))

lemma page_step_overridden: "page_step i s s' \<Longrightarrow> overridden j k s' = overridden j k s"
  by (rule overridden_cong) (simp add: page_step_def)

lemma active_not_overridden: "active_override FactEntityType.LISTING i k s = Inr None \<Longrightarrow> \<not> overridden i k s"
  using active_override_NoneD by (auto simp: overridden_def)

lemma apply_laundry_overridden:
  assumes "apply_laundry l f now s = Inr (written, s')" "overridden (cl_id l) ''laundry_type'' s"
  shows "column cl_laundry_type j s' = column cl_laundry_type j s"
  using assms(1)
proof (cases rule: apply_laundry_cases)
  case (blocked o' v t)
  then show ?thesis by (simp add: column_def raise_conflict_frame record_same_listings)
next
  case (stated laundry t)
  then show ?thesis using assms(2) active_not_overridden by blast
qed simp

lemma apply_laundry_badge:
  assumes "apply_laundry l f now s = Inr (written, s')" "column badge_ok j s = Some True"
    and "j = cl_id l \<Longrightarrow> column cl_indoor_laundry_badge_eligible j s = Some (cl_indoor_laundry_badge_eligible l)"
  shows "column badge_ok j s' = Some True"
  using assms(1)
proof (cases rule: apply_laundry_cases)
  case (blocked o' v t)
  then show ?thesis using assms(2) by (simp add: column_def raise_conflict_frame record_same_listings)
next
  case (stated laundry t)
  have "get_by cl_id j (db_listings s') = map_option (\<lambda>r. if cl_id r = cl_id l
      then r\<lparr>cl_laundry_type := laundry\<rparr> else r) (get_by cl_id j (db_listings s))"
    unfolding stated(4) update_listing_def
    by (simp add: get_by_update_where record_same_listings [OF stated(3)])
  moreover obtain r where r: "get_by cl_id j (db_listings s) = Some r" "badge_ok r"
    using assms(2) by (auto simp: column_def)
  ultimately have "column badge_ok j s' = Some (badge_ok (if cl_id r = cl_id l
      then r\<lparr>cl_laundry_type := laundry\<rparr> else r))"
    by (simp add: column_def)
  moreover have "cl_indoor_laundry_badge_eligible r = cl_indoor_laundry_badge_eligible l" if "cl_id r = cl_id l"
    using assms(3) r(1) that get_by_SomeD [OF r(1)] by (simp add: column_def)
  ultimately show ?thesis using stated(2) r(2) by (auto simp: badge_ok_def)
qed (use assms(2) in simp)

lemma apply_page_laundry:
  assumes "apply_page l link f url now s = Inr (written, s')"
  shows "overridden (cl_id l) ''laundry_type'' s \<Longrightarrow> column cl_laundry_type j s' = column cl_laundry_type j s"
    and "get_by cl_id (cl_id l) (db_listings s) = Some l \<Longrightarrow> column badge_ok j s = Some True \<Longrightarrow>
      column badge_ok j s' = Some True"
proof -
  from assms obtain rent s1 laundry s2 fee s3 am s4 plan where
    steps: "apply_rent l f now s = Inr (rent, s1)" "apply_laundry l f now s1 = Inr (laundry, s2)"
    and rest: "apply_fee l f now s2 = Inr (fee, s3)" "apply_amenities l f now s3 = Inr (am, s4)"
      "apply_floor_plan l link f url s4 = (plan, s')"
    by (rule apply_pageE)
  have same: "column g j s' = column g j s2" for g :: "canonical_listing \<Rightarrow> 'c"
    by (rule column_same)
      (simp add: apply_page_listings(3) [OF rest(3)] apply_page_listings(2) [OF rest(2)]
        apply_page_listings(1) [OF rest(1)])
  note p1 = apply_rent_page_step [OF steps(1)]
  show "column cl_laundry_type j s' = column cl_laundry_type j s" if "overridden (cl_id l) ''laundry_type'' s"
    unfolding same
    using apply_laundry_overridden [OF steps(2)] apply_rent_laundry [OF steps(1)] that
      page_step_overridden [OF p1] by simp
  show "column badge_ok j s' = Some True"
    if "get_by cl_id (cl_id l) (db_listings s) = Some l" "column badge_ok j s = Some True"
    unfolding same
  proof (rule apply_laundry_badge [OF steps(2)])
    have "map_option badge_ok (get_by cl_id j (db_listings s1)) = Some True"
      using that(2) apply_rent_laundry [OF steps(1), of j] page_step_badge [OF p1, of j]
      by (auto simp: column_def badge_ok_def)
    then show "column badge_ok j s1 = Some True" by (simp add: column_def)
    show "column cl_indoor_laundry_badge_eligible j s1 = Some (cl_indoor_laundry_badge_eligible l)"
      if "j = cl_id l"
      using page_step_badge [OF p1, of j] that \<open>get_by cl_id (cl_id l) (db_listings s) = Some l\<close>
      by (simp add: column_def)
  qed
qed

section \<open>Properties\<close>

text \<open>
  C29. Enriching a listing from its page stays in its lane: what people decided, identities and sources, every
  other listing, and the listing's own lifecycle and badge are untouched, the event log only grows, a badge
  still implies confirmed in-unit laundry, and an active override of the laundry type is respected.
\<close>
theorem enrichment_scope:
  assumes "enrich_content env force now i w s = (Inr (eo, s'), w')"
  shows "manual_state s' = manual_state s \<and> identity_state s' = identity_state s \<and>
    (\<exists>new. db_events s' = db_events s @ new) \<and>
    (j \<noteq> i \<longrightarrow> get_by cl_id j (db_listings s') = get_by cl_id j (db_listings s)) \<and>
    column cl_lifecycle_status j s' = column cl_lifecycle_status j s \<and>
    column cl_indoor_laundry_badge_eligible j s' = column cl_indoor_laundry_badge_eligible j s \<and>
    (column badge_ok j s = Some True \<longrightarrow> column badge_ok j s' = Some True) \<and>
    (overridden i ''laundry_type'' s \<longrightarrow> column cl_laundry_type j s' = column cl_laundry_type j s)"
proof -
  have step: "page_step i s s'" by (rule enrich_content_step [OF assms])
  have laundry: "(column badge_ok j s = Some True \<longrightarrow> column badge_ok j s' = Some True) \<and>
    (overridden i ''laundry_type'' s \<longrightarrow> column cl_laundry_type j s' = column cl_laundry_type j s)"
    using assms
  proof (cases rule: enrich_contentE)
    case (page l link rest t url w1)
    have l: "cl_id l = i" "get_by cl_id (cl_id l) (db_listings s) = Some l"
      using get_by_SomeD [OF page(1)] page(1) by simp_all
    from page(4) show ?thesis
    proof (cases rule: enrich_pageE)
      case (asked result hash)
      from asked(2) show ?thesis
      proof (cases rule: store_pageE)
        case (stored f written s1 a)
        let ?logged = "log_detail_execution (lx_provider_code (pe_llm env)) hash (detail_refs (cl_id l) url) result f now s"
        have "db_listings s' = db_listings s1" by (rule record_fact_frame(4) [OF stored(3)])
        note same = column_same [OF this] column_same [OF log_same(3)]
        have "overridden k x ?logged = overridden k x s" for k x by (simp add: overridden_def)
        then show ?thesis
          using apply_page_laundry [OF stored(2), of j] l by (simp add: same)
      qed simp
    qed simp
  qed simp
  have "column cl_lifecycle_status j s' = column cl_lifecycle_status j s"
    by (rule column_cong [of cl_lifecycle_status cl_lifecycle_status page_frozen])
      (simp add: page_frozen_def, rule page_step_columns [OF step])
  then show ?thesis
    using step laundry page_step_badge [OF step, of j] page_step_columns(2) [OF step, of j]
    by (simp add: page_step_def)
qed

text \<open>
  C30. A person's rent is not safe from enrichment: the override normalization respects is stored under the
  column's name (monthly_rent_minor), enrichment looks for another field name (monthly_rent).  So with
  the rent column under an active human override, and none under the other name, a page that states a
  plausible other rent still rewrites the column, as long as no page has corrected the rent of this
  listing to this amount before (C31 says what happens then).
\<close>
theorem page_rent_ignores_override:
  assumes "facts_inv s" "get_by cl_id (cl_id l) (db_listings s) = Some l"
    and "overridden (cl_id l) ''monthly_rent_minor'' s" "\<not> overridden (cl_id l) ''monthly_rent'' s"
    and "pf_monthly_rent_usd f = Some usd" "plausible_rent usd" "cl_monthly_rent_minor l \<noteq> Some (usd * 100)"
    and "\<forall>r \<in> set (db_events s). ev_idempotency_key r \<noteq>
      (cl_id l, ListingEventType.PRICE_CHANGED, KeyText (''detail_extract:'' @ dec_text (usd * 100)))"
  shows "\<exists>written s'. apply_rent l f now s = Inr (written, s') \<and>
    overridden (cl_id l) ''monthly_rent_minor'' s' \<and>
    column cl_monthly_rent_minor (cl_id l) s' = Some (Some (usd * 100))"
proof -
  let ?f = "page_fact (cl_id l) ''monthly_rent'' (JInt (usd * 100)) Confidence.HIGH (pf_rent_evidence f)"
  let ?up = "\<lambda>r. r\<lparr>cl_monthly_rent_minor := Some (usd * 100), cl_last_material_change_at := now\<rparr>"
  obtain x where x: "active_override FactEntityType.LISTING (cl_id l) ''monthly_rent'' s = Inr x"
    using active_override_total [OF assms(1)] by blast
  have "x = None"
    using assms(4) x by (cases x) (auto simp: overridden_def dest!: active_override_SomeD)
  obtain a t where t: "record_fact ?f now s = Inr (a, t)" using record_fact_total [OF assms(1)] by blast
  have events: "db_events (update_listing (cl_id l) ?up t) = db_events s"
    by (simp add: record_fact_frame(5) [OF t])
  then obtain s' where s': "insert_event (\<lambda>i. price_event i (cl_id l) (cl_monthly_rent_minor l) (usd * 100) now)
      (update_listing (cl_id l) ?up t) = Inr ((), s')"
    using assms(8) by (force simp: insert_event_def Let_def price_event_def)
  have run: "apply_rent l f now s = Inr ([''monthly_rent=$'' @ grouped_text usd], s')"
    using assms(5-7) x \<open>x = None\<close> t s' by (simp add: apply_rent_def Let_def)
  have "get_by cl_id (cl_id l) (db_listings s') = Some (?up l)"
    using insert_event_page_step(3) [OF s'] record_fact_frame(4) [OF t] assms(2)
    by (simp add: update_listing_def get_by_update_where)
  then have "column cl_monthly_rent_minor (cl_id l) s' = Some (Some (usd * 100))" by (simp add: column_def)
  moreover have "overridden (cl_id l) ''monthly_rent_minor'' s'"
    using page_step_overridden [OF apply_rent_page_step [OF run]] assms(3) by blast
  ultimately show ?thesis using run by blast
qed

text \<open>
  C31. A rent that a page once corrected to cannot be restored by a page again: the event key holds only
  listing and amount, the insert is not idempotent, so in any later state with a grown event log and another
  rent, without an override, stating the same amount again fails the whole enrichment of the listing.
\<close>
theorem rent_return_is_stuck:
  assumes "apply_rent l f now s = Inr (written, s1)" "written \<noteq> []"
    and "facts_inv t" "db_events t = db_events s1 @ newer" "\<not> overridden (cl_id l) ''monthly_rent'' t"
    and "cl_id l' = cl_id l" "pf_monthly_rent_usd f' = pf_monthly_rent_usd f"
    and "pf_monthly_rent_usd f = Some usd" "cl_monthly_rent_minor l' \<noteq> Some (usd * 100)"
    and "accepted_page result = Some f'"
  shows "store_page provider l' link url hash result later t = Inl IntegrityError"
proof -
  let ?key = "(cl_id l, ListingEventType.PRICE_CHANGED, KeyText (''detail_extract:'' @ dec_text (usd * 100)))"
  have before: "\<exists>r \<in> set (db_events s1). ev_idempotency_key r = ?key"
    and fine: "plausible_rent usd"
    using assms(1,2,8) by (auto elim!: apply_rent_cases simp: insert_event_page_step(2) price_event_def)
  let ?u = "log_detail_execution provider hash (detail_refs (cl_id l') url) result f' later t"
  have u: "facts_inv ?u" "\<exists>r \<in> set (db_events ?u). ev_idempotency_key r = ?key"
    using log_page_step assms(3) before assms(4) by (auto simp: page_step_def)
  obtain x where x: "active_override FactEntityType.LISTING (cl_id l) ''monthly_rent'' ?u = Inr x"
    using active_override_total [OF u(1)] by blast
  have "x = None"
    using assms(5) x by (cases x) (auto simp: overridden_def dest!: active_override_SomeD)
  obtain a v where v: "record_fact (page_fact (cl_id l) ''monthly_rent'' (JInt (usd * 100)) Confidence.HIGH
      (pf_rent_evidence f')) later ?u = Inr (a, v)"
    using record_fact_total [OF u(1)] by blast
  have "\<exists>r \<in> set (db_events (update_listing i g v)). ev_idempotency_key r = ?key" for i g
    using u(2) by (simp add: record_fact_frame(5) [OF v])
  then have "apply_rent l' f' later ?u = Inl IntegrityError"
    using assms(6-9) fine x \<open>x = None\<close> v
    by (simp add: apply_rent_def Let_def insert_event_def price_event_def)
  then show ?thesis using assms(10) by (simp add: store_page_def apply_page_def)
qed

text \<open>Assertions of the hash key are written only by the marker itself.\<close>

definition hash_marks :: "uuid \<Rightarrow> db \<Rightarrow> fact_assertion list" where
  "hash_marks i s = filter (\<lambda>a. fa_entity_id a = i \<and> fa_fact_key a = ''detail_extract_hash'') (db_assertions s)"

lemma record_assertions: "record_fact f now s = Inr (a, s') \<Longrightarrow>
    db_assertions s' = db_assertions s @ [a] \<and> a = new_assertion (db_next s) f now"
  by (auto elim!: record_fact_cases)

lemma record_marks:
  "record_fact (page_fact j key v c e) now s = Inr t \<Longrightarrow> key \<noteq> ''detail_extract_hash'' \<Longrightarrow>
    hash_marks i (snd t) = hash_marks i s"
  by (cases t) (auto simp: hash_marks_def page_fact_def new_assertion_def dest!: record_assertions)

lemma fact_state_marks: "fact_state s' = fact_state s \<Longrightarrow> hash_marks i s' = hash_marks i s"
  by (simp add: fact_state_def hash_marks_def)

lemma insert_event_facts: "insert_event row s = Inr (u, s') \<Longrightarrow> fact_state s' = fact_state s"
  by (auto simp: insert_event_def Let_def fact_state_def split: if_splits)

lemma apply_rent_marks: "apply_rent l f now s = Inr (written, s') \<Longrightarrow> hash_marks i s' = hash_marks i s"
proof (erule apply_rent_cases)
  fix usd t
  assume t: "record_fact (page_fact (cl_id l) ''monthly_rent'' (JInt (usd * 100)) Confidence.HIGH
      (pf_rent_evidence f)) now s = Inr t"
    and ins: "insert_event (\<lambda>i. price_event i (cl_id l) (cl_monthly_rent_minor l) (usd * 100) now)
      (update_listing (cl_id l) (\<lambda>r. r\<lparr>cl_monthly_rent_minor := Some (usd * 100),
         cl_last_material_change_at := now\<rparr>) (snd t)) = Inr ((), s')"
  have "fact_state s' = fact_state (snd t)"
    by (rule insert_event_facts [OF ins, unfolded update_listing_frame])
  then show ?thesis using record_marks [OF t, of i] fact_state_marks [of s' "snd t" i] by simp
qed (simp_all add: record_marks fact_state_marks [OF raise_conflict_frame(4)])

lemma apply_laundry_marks: "apply_laundry l f now s = Inr (written, s') \<Longrightarrow> hash_marks i s' = hash_marks i s"
  by (erule apply_laundry_cases)
    (simp_all add: record_marks fact_state_marks [OF raise_conflict_frame(4)]
      fact_state_marks [OF update_listing_frame(4)])

lemma apply_page_marks:
  assumes "apply_page l link f url now s = Inr (written, s')"
  shows "hash_marks i s' = hash_marks i s"
  using assms
proof (cases rule: apply_pageE)
  case (1 rent s1 laundry s2 fee s3 am s4 plan)
  have "hash_marks i s3 = hash_marks i s2"
    using 1(3) by (auto simp: apply_fee_def bind_result_Inr_iff split: if_splits dest: record_marks [where i = i])
  moreover have "hash_marks i s4 = hash_marks i s3"
    using 1(4) by (auto simp: apply_amenities_def Let_def bind_result_Inr_iff split: if_splits
        dest: record_marks [where i = i])
  moreover have "hash_marks i s' = hash_marks i s4"
    using 1(5) by (auto simp: apply_floor_plan_def Let_def hash_marks_def split: if_splits)
  ultimately show ?thesis using apply_rent_marks [OF 1(1)] apply_laundry_marks [OF 1(2)] by simp
qed

text \<open>
  Enrichment does not repeat itself: after a page was stored, a later unforced run that fetches a page
  with the same excerpt, from whatever link or URL, reports it as unchanged, asks no model and leaves the
  database alone, provided the clock had advanced since the listing's earlier runs.
\<close>
theorem enriched_page_is_skipped:
  assumes "enrich_page env force now l link t url w s = (Inr (eo, s'), w')" "eo_status eo = ''ENRICHED''"
    and "\<forall>a \<in> set (db_assertions s). fa_asserted_at a < now"
    and "relevant_excerpt (pe_dash env) MAX_PAGE_CHARS t' = relevant_excerpt (pe_dash env) MAX_PAGE_CHARS t"
    and "cl_id l' = cl_id l"
  shows "enrich_page env False later l' link' t' url' v s' =
    (Inr (enrichment (cl_id l) ''SKIPPED_UNCHANGED'', s'), v)"
  using assms(1)
proof (cases rule: enrich_pageE)
  case skipped
  then show ?thesis using assms(2) by (simp add: enrichment_def)
next
  case (asked result hash)
  from asked(2) show ?thesis
  proof (cases rule: store_pageE)
    case failed
    then show ?thesis using assms(2) by (simp add: enrichment_def)
  next
    case (stored f written s1 a)
    have a: "db_assertions s' = db_assertions s1 @ [a]" "a = new_assertion (db_next s1) (hash_fact (cl_id l) hash) now"
      using record_assertions [OF stored(3)] by auto
    have "hash_marks (cl_id l) s' = hash_marks (cl_id l) s1 @ [a]"
      by (simp add: hash_marks_def a new_assertion_def hash_fact_def)
    also have "hash_marks (cl_id l) s1 = hash_marks (cl_id l) s"
      using apply_page_marks [OF stored(2), of "cl_id l"] by (simp add: hash_marks_def)
    finally have "hash_marks (cl_id l) s' = hash_marks (cl_id l) s @ [a]" .
    note marks = this [unfolded hash_marks_def]
    have "latest_fact (cl_id l) ''detail_extract_hash'' s' = Some a"
      by (rule latest_fact_new [OF marks]) (use assms(3) in \<open>simp add: a(2) new_assertion_def\<close>)
    then have "already_extracted (cl_id l) hash s'"
      by (simp add: already_extracted_def a(2) new_assertion_def hash_fact_def)
    then show ?thesis using assms(4,5) asked(1) by (simp add: enrich_page_def)
  qed
qed

text \<open>
  A building's own site is the first search result that is neither a listing aggregator (nor a subdomain of
  one) nor a .gov or .org host: whatever result is chosen has none before it that qualifies, and nothing
  is chosen only if nothing qualifies.
\<close>
theorem official_site_is_first_party:
  assumes "official_url items = Inr found" "\<forall>it \<in> set items. url_host (si_url it) = Inr (host it)"
  shows "found = map_option si_url (find (\<lambda>it. \<not> skipped_host (host it)) items)"
  using assms by (induction items) auto

text \<open>
  A batch accounts for its listings: it counts each processed listing once and processes all of them unless the
  quota of the web extractor runs out, which it counts and which ends it; and it never touches what people
  decided, nor the listings outside the batch.
\<close>
theorem batch_accounts_for_listings:
  assumes "enrich_batch env force now is counts w s = (counts', w', s')"
  shows "(\<exists>k \<le> length is. sum_list (map snd counts') = sum_list (map snd counts) + k \<and>
      (k < length is \<longrightarrow> ''RATE_LIMITED'' \<in> fst ` set counts')) \<and>
    manual_state s' = manual_state s \<and>
    (j \<notin> set is \<longrightarrow> get_by cl_id j (db_listings s') = get_by cl_id j (db_listings s))"
  using assms
proof (induction "is" arbitrary: counts w s)
  case Nil
  then show ?case by simp
next
  case (Cons i ids)
  obtain r w1 where r: "enrich_content env force now i w s = (r, w1)" by fastforce
  show ?case
  proof (cases r)
    case (Inl e)
    show ?thesis
    proof (cases "e = TavilyQuotaError")
      case True
      have "k \<in> fst ` set (bump k d)" for k and d :: "(string \<times> nat) list"
        by (induction d rule: bump.induct) auto
      with True Cons.prems r Inl show ?thesis by (auto simp: sum_bump intro!: exI [of _ 1])
    next
      case False
      then have "enrich_batch env force now ids (bump ''ERROR'' counts) w1 s = (counts', w', s')"
        using Cons.prems r Inl by simp
      from Cons.IH [OF this] show ?thesis by (auto simp: sum_bump)
    qed
  next
    case (Inr p)
    obtain eo s1 where p: "p = (eo, s1)" by fastforce
    have "enrich_batch env force now ids (bump (eo_status eo) counts) w1 s1 = (counts', w', s')"
      using Cons.prems r Inr p by simp
    from Cons.IH [OF this] have rest: "(\<exists>k \<le> length (i # ids). sum_list (map snd counts') = sum_list (map snd counts) + k \<and>
        (k < length (i # ids) \<longrightarrow> ''RATE_LIMITED'' \<in> fst ` set counts'))"
        "manual_state s' = manual_state s1"
        "j \<notin> set ids \<Longrightarrow> get_by cl_id j (db_listings s') = get_by cl_id j (db_listings s1)"
      by (auto simp: sum_bump)
    have step: "page_step i s s1" using enrich_content_step r Inr p by simp
    then have "manual_state s1 = manual_state s" by (simp add: page_step_def)
    then show ?thesis using rest page_step_columns(2) [OF step, of j] by auto
  qed
qed

section \<open>Examples\<close>

definition demo_page :: string where
  "demo_page = ''Rent $3,500''"

definition demo_page_env :: "unit page_env" where
  "demo_page_env = \<lparr>pe_extract = (\<lambda>u w. (Inr (Some demo_page), w)), pe_search = None,
     pe_llm = demo_llm (JObj [(''monthly_rent_usd'', JInt 3500)]), pe_sha256 = id, pe_dash = CHR ''-'',
     pe_instructions = [], pe_schema = JNull\<rparr>"

definition demo_facts :: ListingPageFacts where
  "demo_facts = \<lparr>pf_laundry_type = ''UNKNOWN'', pf_laundry_evidence = [], pf_floor_plan_present = False,
     pf_floor_plan_url = None, pf_amenities = [], pf_fee_status = ''UNKNOWN'', pf_fee_evidence = [],
     pf_monthly_rent_usd = Some 3500, pf_rent_evidence = []\<rparr>"

definition demo_answer :: LlmTaskResult where
  "demo_answer = (new_llm_result ModelExecutionStatus.SUCCEEDED)
     \<lparr>lr_output := Some (JObj [(''monthly_rent_usd'', JInt 3500)]), lr_model_id := ''m''\<rparr>"

definition demo_stored_page :: "(EnrichmentOutcome \<times> db) result" where
  "demo_stored_page = store_page ''p'' (demo_listing 10) (demo_link 20 10) ''u1'' demo_page demo_answer 100 demo_three"

lemma demo_stored_page_check:
  "case demo_stored_page of Inl e \<Rightarrow> False
   | Inr (eo, s) \<Rightarrow> eo_status eo = ''ENRICHED'' \<and> eo_facts_written eo = [''monthly_rent=$3,500''] \<and>
       column cl_monthly_rent_minor 10 s = Some (Some 350000)"
  by code_simp

lemma demo_listing_ten: "cl_id (demo_listing 10) = 10" "cl_monthly_rent_minor (demo_listing 10) = Some 300000"
  by (simp_all add: demo_listing_def new_listing_def demo_row_def demo_payload_def default_pricing_def)

lemma demo_page_whole: "relevant_excerpt d MAX_PAGE_CHARS demo_page = demo_page"
  by (simp add: relevant_excerpt_def demo_page_def MAX_PAGE_CHARS_def)

lemma demo_unmarked: "\<not> already_extracted 10 h demo_three"
  by (simp add: already_extracted_def latest_fact_def demo_three_def empty_db_def)

lemma demo_enrich_page:
  "enrich_page demo_page_env force 100 (demo_listing 10) (demo_link 20 10) demo_page ''u1'' () demo_three =
     (demo_stored_page, ())"
  by (simp add: enrich_page_def demo_stored_page_def demo_listing_ten demo_unmarked demo_page_env_def
      demo_page_whole demo_llm_def demo_result_def demo_answer_def)

lemma demo_enriched:
  obtains eo s where "demo_stored_page = Inr (eo, s)" "eo_status eo = ''ENRICHED''"
    "eo_facts_written eo = [''monthly_rent=$3,500'']" "column cl_monthly_rent_minor 10 s = Some (Some 350000)"
  using demo_stored_page_check by (auto split: sum.splits)

lemma demo_enrich_content:
  "enrich_content demo_page_env force 100 10 () demo_three = (demo_stored_page, ())"
proof -
  have "get_by cl_id 10 (db_listings demo_three) = Some (demo_listing 10)"
    by (simp add: demo_three_def get_by_Cons) (simp add: demo_listing_def new_listing_def)
  moreover have "active_links 10 demo_three = [demo_link 20 10]" by code_simp
  moreover have "fetch_page (pe_extract demo_page_env) (pe_search demo_page_env) (demo_listing 10)
      (demo_link 20 10) () demo_three = (Inr (Some (demo_page, ''u1'')), ())"
    by (simp add: fetch_page_def demo_page_env_def nonempty_def demo_page_def demo_link_def new_link_def demo_row_def)
  ultimately show ?thesis by (simp add: enrich_content_def demo_enrich_page)
qed

theorem enrichment_scope_witness:
  "\<exists>eo s. enrich_content demo_page_env False 100 10 () demo_three = (Inr (eo, s), ()) \<and>
     get_by cl_id 11 (db_listings s) = get_by cl_id 11 (db_listings demo_three)"
proof -
  obtain eo s where "demo_stored_page = Inr (eo, s)" by (rule demo_enriched)
  then have run: "enrich_content demo_page_env False 100 10 () demo_three = (Inr (eo, s), ())"
    by (simp add: demo_enrich_content)
  from enrichment_scope [OF run, of 11] run show ?thesis by auto
qed

theorem enriched_page_is_skipped_witness:
  "\<exists>eo s. demo_stored_page = Inr (eo, s) \<and> enrich_page demo_page_env False 200 (demo_listing 10) (demo_link 20 10)
     demo_page ''u1'' () s = (Inr (enrichment 10 ''SKIPPED_UNCHANGED'', s), ())"
proof -
  obtain eo s where s: "demo_stored_page = Inr (eo, s)" "eo_status eo = ''ENRICHED''" by (rule demo_enriched)
  then have run: "enrich_page demo_page_env False 100 (demo_listing 10) (demo_link 20 10) demo_page ''u1'' () demo_three =
      (Inr (eo, s), ())"
    by (simp add: demo_enrich_page)
  have "\<forall>a \<in> set (db_assertions demo_three). fa_asserted_at a < 100" by (simp add: demo_three_def empty_db_def)
  from enriched_page_is_skipped [OF run s(2) this refl refl, where later = 200 and link' = "demo_link 20 10"
      and url' = "''u1''"] s(1) show ?thesis
    unfolding demo_listing_ten by blast
qed

definition demo_price_fixed :: db where
  "demo_price_fixed = demo_three\<lparr>db_overrides := [demo_override\<lparr>ho_entity_id := 10\<rparr>]\<rparr>"

theorem page_rent_ignores_override_witness:
  "\<exists>written s'. apply_rent (demo_listing 10) demo_facts 100 demo_price_fixed = Inr (written, s') \<and>
     column cl_monthly_rent_minor 10 s' = Some (Some 350000)"
proof -
  note l = demo_listing_ten
  have db: "facts_inv demo_price_fixed" "db_events demo_price_fixed = []"
    "db_listings demo_price_fixed = [demo_listing 10, demo_listing 11, demo_listing 12]"
    "overridden 10 ''monthly_rent_minor'' demo_price_fixed" "\<not> overridden 10 ''monthly_rent'' demo_price_fixed"
    by (simp_all add: demo_price_fixed_def demo_three_def empty_db_def facts_inv_def one_current_def one_active_def
        overridden_def is_active_override_def demo_override_def)
  have "get_by cl_id (cl_id (demo_listing 10)) (db_listings demo_price_fixed) = Some (demo_listing 10)"
    by (simp add: db get_by_Cons)
  from page_rent_ignores_override [OF db(1) this, of demo_facts 3500 100] db l show ?thesis
    by (auto simp: demo_facts_def plausible_rent_def)
qed

theorem rent_return_is_stuck_witness:
  "\<exists>eo s. demo_stored_page = Inr (eo, s) \<and> store_page ''p'' (demo_listing 10) (demo_link 20 10) ''u1'' demo_page
     demo_answer 200 s = Inl IntegrityError"
proof -
  obtain eo s where s: "demo_stored_page = Inr (eo, s)" "eo_facts_written eo = [''monthly_rent=$3,500'']"
    by (rule demo_enriched)
  from s(1) have stored: "store_page ''p'' (demo_listing 10) (demo_link 20 10) ''u1'' demo_page demo_answer 100 demo_three =
      Inr (eo, s)"
    by (simp add: demo_stored_page_def)
  have "facts_inv demo_three" "\<not> overridden 10 ''monthly_rent'' demo_three"
    by (simp_all add: demo_three_def empty_db_def facts_inv_def one_current_def one_active_def overridden_def)
  then have t: "facts_inv s" "\<not> overridden 10 ''monthly_rent'' s"
    using store_page_step [OF stored] page_step_overridden [OF store_page_step [OF stored]]
    by (auto simp: page_step_def)
  have read: "accepted_page demo_answer = Some demo_facts" by code_simp
  note l = demo_listing_ten
  let ?u = "log_detail_execution ''p'' demo_page (detail_refs 10 ''u1'') demo_answer demo_facts 100 demo_three"
  have "case apply_rent (demo_listing 10) demo_facts 100 ?u of Inl e \<Rightarrow> False | Inr (ws, v) \<Rightarrow> ws \<noteq> []"
    by code_simp
  then obtain ws v where v: "apply_rent (demo_listing 10) demo_facts 100 ?u = Inr (ws, v)" "ws \<noteq> []"
    by (auto split: sum.splits)
  from stored obtain newer where "db_events s = db_events v @ newer"
  proof (cases rule: store_pageE)
    case (stored f written s1 a)
    have "page_step 10 v s1"
      using after_rent_page_step [OF stored(2)] stored(1) read l v(1) by simp
    also have "page_step 10 s1 s" using record_page_step [OF stored(3)] by simp
    finally show ?thesis using that by (auto simp: page_step_def)
  qed (use s(2) in \<open>simp add: enrichment_def\<close>)
  note stuck = rent_return_is_stuck [OF v t(1) this, of "demo_listing 10" demo_facts 3500 demo_answer "''p''"
      "demo_link 20 10" "''u1''" demo_page 200]
  have "pf_monthly_rent_usd demo_facts = Some 3500" by (simp add: demo_facts_def)
  with stuck t(2) l read have
    "store_page ''p'' (demo_listing 10) (demo_link 20 10) ''u1'' demo_page demo_answer 200 s = Inl IntegrityError"
    by simp
  with s(1) show ?thesis by blast
qed

definition demo_result :: "string \<Rightarrow> SearchResultItem" where
  "demo_result url = \<lparr>si_url = url, si_title = None, si_snippet = None, si_rank = None\<rparr>"

definition demo_host :: "SearchResultItem \<Rightarrow> string" where
  "demo_host it = (case url_host (si_url it) of Inl e \<Rightarrow> [] | Inr h \<Rightarrow> h)"

definition demo_results :: "SearchResultItem list" where
  "demo_results = map demo_result [''https://www.zillow.com/a'', ''https://hpd.nyc.gov/b'', ''https://tower.example/c'']"

theorem official_site_is_first_party_witness:
  "map_option si_url (find (\<lambda>it. \<not> skipped_host (demo_host it)) demo_results) = Some ''https://tower.example/c''"
proof -
  have "official_url demo_results = Inr (Some ''https://tower.example/c'')" by code_simp
  moreover have "\<forall>it \<in> set demo_results. url_host (si_url it) = Inr (demo_host it)" by code_simp
  ultimately show ?thesis using official_site_is_first_party [of demo_results _ demo_host] by metis
qed

theorem batch_accounts_for_listings_witness:
  "case enrich_batch demo_page_env False 100 [10, 77] [] () demo_three of (counts, w, s) \<Rightarrow>
     manual_state s = manual_state demo_three \<and>
     get_by cl_id 11 (db_listings s) = get_by cl_id 11 (db_listings demo_three)"
proof -
  obtain counts w s where run: "enrich_batch demo_page_env False 100 [10, 77] [] () demo_three = (counts, w, s)"
    by (cases "enrich_batch demo_page_env False 100 [10, 77] [] () demo_three") auto
  from batch_accounts_for_listings [OF run, of 11] run show ?thesis by simp
qed

end
