(* ===== verification/CompanyLaws.thy ===== *)
theory CompanyLaws
  imports CompanyRefresh ListingContentLaws
begin

text \<open>
  What a check of a portfolio property may change, which pages and points it accepts, and what the
  portfolio run leaves alone.
\<close>

section \<open>What a check keeps\<close>

text \<open>
  The columns the owner's file supplies.  The address is one of them too, but may be missing in the file;
  then a check may fill it from the page or from the name, and what is there is kept.
\<close>

definition company_kept :: "company_property \<Rightarrow> uuid \<times> string \<times> string \<times> string \<times> string option" where
  "company_kept p = (cpy_id p, cpy_name p, cpy_name_fingerprint p, cpy_source_document p, cpy_original_url p)"

definition keeps_address :: "company_property \<Rightarrow> company_property \<Rightarrow> bool" where
  "keeps_address p p' \<longleftrightarrow> given (cpy_address_text p) = None \<or> cpy_address_text p' = cpy_address_text p"

definition keeps_file :: "company_property \<Rightarrow> company_property \<Rightarrow> bool" where
  "keeps_file p p' \<longleftrightarrow> company_kept p' = company_kept p \<and> keeps_address p p'"

lemma keeps_file_refl [simp, intro]: "keeps_file p p"
  by (simp add: keeps_file_def keeps_address_def)

lemma keeps_address_trans: "keeps_address p q \<Longrightarrow> keeps_address q r \<Longrightarrow> keeps_address p r"
  by (auto simp: keeps_address_def)

lemma keeps_file_trans: "keeps_file p q \<Longrightarrow> keeps_file q r \<Longrightarrow> keeps_file p r"
  using keeps_address_trans by (auto simp: keeps_file_def)

definition company_point :: "company_property \<Rightarrow> rat option \<times> rat option" where
  "company_point p = (cpy_latitude p, cpy_longitude p)"

definition point_step :: "company_property \<Rightarrow> company_property \<Rightarrow> bool" where
  "point_step p p' \<longleftrightarrow> company_point p' = company_point p \<or> company_point p' = (None, None) \<or>
     in_metro (cpy_latitude p') (cpy_longitude p')"

definition with_point :: "rat option \<Rightarrow> rat option \<Rightarrow> company_property \<Rightarrow> company_property" where
  "with_point lat lon p = p\<lparr>cpy_latitude := lat, cpy_longitude := lon\<rparr>"

lemma with_point_kept [simp]:
  "company_kept (with_point lat lon p) = company_kept p"
  "cpy_availability (with_point lat lon p) = cpy_availability p"
  "cpy_check_log (with_point lat lon p) = cpy_check_log p"
  "cpy_check_status (with_point lat lon p) = cpy_check_status p"
  "cpy_last_checked_at (with_point lat lon p) = cpy_last_checked_at p"
  "cpy_address_text (with_point lat lon p) = cpy_address_text p"
  by (simp_all add: with_point_def company_kept_def)

lemma locateD:
  assumes "locate request nj far gs p w = (Inr p', w')"
  shows "\<exists>lat lon. p' = with_point lat lon p \<and> point_step p p'"
  using assms
proof (induction request nj far gs p w rule: locate.induct)
  case (1 request nj far p w)
  then have "p' = with_point (if far then None else cpy_latitude p) (if far then None else cpy_longitude p) p"
    by (auto simp: with_point_def)
  moreover have "point_step p p'"
    unfolding calculation by (simp add: point_step_def company_point_def with_point_def)
  ultimately show ?case by blast
next
  case (2 request nj far g gs p w)
  show ?case
  proof (cases "nj \<and> gc_provider_code g = ''nyc_geosearch''")
    case True
    then show ?thesis using 2 by simp
  next
    case False
    obtain r w1 where r: "gc_geocode g request w = (r, w1)" by fastforce
    show ?thesis
    proof (cases r)
      case (Inl name)
      then show ?thesis using 2(4) r by (simp add: False)
    next
      case (Inr a)
      show ?thesis
      proof (cases "gr_status a = ProviderRequestStatus.SUCCEEDED \<and> in_metro (gr_latitude a) (gr_longitude a)")
        case True
        then have "p' = with_point (gr_latitude a) (gr_longitude a) p"
          using 2(4) r Inr False by (simp add: with_point_def)
        then show ?thesis using True by (auto simp: point_step_def with_point_def)
      next
        case no: False
        then show ?thesis using 2(2-4) r Inr False by (auto split: if_splits)
      qed
    qed
  qed
qed

text \<open>
  A New Jersey property is never sent to the New York geocoder: locating it with any list of geocoders is
  locating it with that one taken out, whatever the others answer.
\<close>
theorem nj_skips_nyc_geocoder:
  "locate request True far gs p w =
     locate request True far (filter (\<lambda>g. gc_provider_code g \<noteq> ''nyc_geosearch'') gs) p w"
proof (induction gs arbitrary: far p w)
  case (Cons g gs)
  then show ?case by (auto split: sum.splits prod.splits)
qed simp

lemma match_building_kept [simp]:
  "company_kept (match_building s p) = company_kept p"
  "company_point (match_building s p) = company_point p"
  "cpy_availability (match_building s p) = cpy_availability p"
  "cpy_check_log (match_building s p) = cpy_check_log p"
  "cpy_check_status (match_building s p) = cpy_check_status p"
  "cpy_last_checked_at (match_building s p) = cpy_last_checked_at p"
  "cpy_address_text (match_building s p) = cpy_address_text p"
  by (auto simp: match_building_def company_kept_def company_point_def split: option.splits)

lemma point_step_cong: "company_point q = company_point p \<Longrightarrow> company_point q' = company_point p' \<Longrightarrow>
    point_step p p' \<Longrightarrow> point_step q q'"
  by (simp add: point_step_def company_point_def)

lemma resolve_locationD:
  assumes "resolve_location env s p w = (Inr p', w')"
  shows "company_kept p' = company_kept p \<and> point_step p p' \<and> cpy_availability p' = cpy_availability p \<and>
    cpy_check_log p' = cpy_check_log p \<and> cpy_check_status p' = cpy_check_status p \<and>
    cpy_last_checked_at p' = cpy_last_checked_at p \<and> cpy_address_text p' = cpy_address_text p"
proof -
  from assms obtain q where q: "geocode_company env p w = (Inr q, w')" "p' = match_building s q"
    by (auto simp: resolve_location_def split: sum.splits prod.splits)
  have "q = p \<or> (\<exists>lat lon. q = with_point lat lon p \<and> point_step p q)"
  proof (cases "given (cpy_address_text p)")
    case None
    then show ?thesis using q(1) by (simp add: geocode_company_def)
  next
    case (Some a)
    with q(1) have "locate (company_request a p) (is_nj p) False (ce_geocoders env) p w = (Inr q, w')"
      by (simp add: geocode_company_def)
    from locateD [OF this] show ?thesis by blast
  qed
  then have "point_step p q" "company_kept q = company_kept p \<and> cpy_availability q = cpy_availability p \<and>
      cpy_check_log q = cpy_check_log p \<and> cpy_check_status q = cpy_check_status p \<and>
      cpy_last_checked_at q = cpy_last_checked_at p \<and> cpy_address_text q = cpy_address_text p"
    by (auto simp: point_step_def)
  moreover have "point_step p p'"
    by (rule point_step_cong [OF refl _ calculation(1)]) (simp add: q(2))
  ultimately show ?thesis by (simp add: q(2))
qed

lemma append_check_logD:
  assumes "append_check_log env status units now p = Inr p'"
  shows "\<exists>log. p' = p\<lparr>cpy_check_log := Some log\<rparr> \<and> length log \<le> CHECK_LOG_CAP"
  using assms by (auto simp: append_check_log_def Let_def bind_result_Inr_iff)

text \<open>One step of a check of a property.\<close>

definition check_step :: "datetime \<Rightarrow> string \<Rightarrow> company_property \<Rightarrow> company_property \<Rightarrow> bool" where
  "check_step now status p p' \<longleftrightarrow> keeps_file p p' \<and> point_step p p' \<and>
     cpy_check_status p' = status \<and> cpy_last_checked_at p' = Some now \<and>
     (\<exists>log. cpy_check_log p' = Some log \<and> length log \<le> 30)"

lemma fail_checkD:
  assumes "fail_check env discard error now s p w = (Inr (status, p'), w')" "cpy_last_checked_at p = Some now"
  shows "status = ''FAILED'' \<and> check_step now ''FAILED'' p p' \<and>
    cpy_availability p' = (if discard then None else cpy_availability p)"
proof -
  let ?q = "p\<lparr>cpy_check_status := ''FAILED'', cpy_check_error := Some error,
    cpy_availability := (if discard then None else cpy_availability p)\<rparr>"
  from assms(1) obtain q where q: "append_check_log env ''FAILED'' [] now ?q = Inr q"
      "resolve_location env s q w = (Inr p', w')" "status = ''FAILED''"
    by (auto simp: fail_check_def split: sum.splits prod.splits)
  obtain log where log: "q = ?q\<lparr>cpy_check_log := Some log\<rparr>" "length log \<le> 30"
    using append_check_logD [OF q(1)] by (auto simp: CHECK_LOG_CAP_def)
  have "company_kept q = company_kept p" "company_point q = company_point p" "cpy_address_text q = cpy_address_text p"
    by (simp_all add: log company_kept_def company_point_def)
  then show ?thesis
    using resolve_locationD [OF q(2)] q(3) assms(2) log point_step_cong [of p q p' p']
    by (simp add: check_step_def keeps_file_def keeps_address_def)
qed

section \<open>Routed walks\<close>

text \<open>An entry of the transit panel: a stop with its straight line, and a walk only from a plausible route.\<close>

definition answered :: "'w walk_route \<Rightarrow> point \<Rightarrow> point \<Rightarrow> int \<Rightarrow> int \<Rightarrow> bool" where
  "answered router here there distance duration \<longleftrightarrow>
     (\<exists>u u'. router here there u = (Inr (Some (distance, duration)), u'))"

definition honest_entry :: "'w company_env \<Rightarrow> point \<Rightarrow> 'w walk_route \<Rightarrow> transit_stop \<Rightarrow> json \<Rightarrow> bool" where
  "honest_entry env here router stop entry \<longleftrightarrow>
     (let straight = round_half_even (ce_meters env (sto_location_point stop) here)
      in json_get ''stop'' entry = Some (JStr (sto_stop_name stop)) \<and>
         json_get ''straight_line_m'' entry = Some (JInt straight) \<and>
         (json_get ''walk_min'' entry = Some JNull \<and> json_get ''walking_m'' entry = Some JNull \<or>
          (\<exists>distance duration. answered router here (sto_location_point stop) distance duration \<and>
             plausible_walk straight distance duration \<and> json_get ''walking_m'' entry = Some (JInt distance) \<and>
             json_get ''walk_min'' entry = Some (JInt (max 1 (round_half_even (of_int duration / 60)))))))"

definition has_walk :: "json \<Rightarrow> bool" where
  "has_walk entry \<longleftrightarrow> json_get ''walk_min'' entry \<noteq> Some JNull"

lemma routed_entry_honest:
  assumes "router here (sto_location_point stop) u = (Inr answer, u')"
    and "routed_entry stop (round_half_even (ce_meters env (sto_location_point stop) here)) answer = (entry, k)"
  shows "honest_entry env here router stop entry \<and> k = length (filter has_walk [entry])"
proof (cases answer)
  case None
  then show ?thesis
    using assms(2) by (auto simp: routed_entry_def honest_entry_def has_walk_def stop_entry_def Let_def)
next
  case (Some pair)
  obtain distance duration where pair: "pair = (distance, duration)" by fastforce
  have ans: "answered router here (sto_location_point stop) distance duration"
    using assms(1) Some pair by (auto simp: answered_def)
  show ?thesis
  proof (cases "plausible_walk (round_half_even (ce_meters env (sto_location_point stop) here)) distance duration")
    case True
    then show ?thesis using assms(2) Some pair ans
      by (auto simp: routed_entry_def honest_entry_def has_walk_def stop_entry_def Let_def)
  next
    case False
    then show ?thesis using assms(2) Some pair
      by (auto simp: routed_entry_def honest_entry_def has_walk_def stop_entry_def Let_def)
  qed
qed

lemma route_stops_honest:
  assumes "route_stops env router here stops w = (Inr (entries, n), w')"
  shows "list_all2 (honest_entry env here router) stops entries \<and> n = length (filter has_walk entries)"
  using assms
proof (induction stops arbitrary: w entries n w')
  case (Cons stop stops)
  obtain r w1 where r: "router here (sto_location_point stop) w = (r, w1)" by fastforce
  from Cons.prems r obtain answer es m where a: "r = Inr answer" "route_stops env router here stops w1 = (Inr (es, m), w')"
    by (auto simp: Let_def split: sum.splits prod.splits)
  obtain entry k where e: "routed_entry stop (round_half_even (ce_meters env (sto_location_point stop) here)) answer = (entry, k)"
    by fastforce
  have "entries = entry # es" "n = k + m"
    using Cons.prems r a e by (simp_all add: Let_def)
  then show ?case
    using Cons.IH [OF a(2)] routed_entry_honest [where env = env and here = here and stop = stop and router = router, OF r [unfolded a(1)] e] by auto
qed simp

text \<open>
  Walking times of a property come from the router only: its panel lists at most five active stations
  within two kilometres, nearest first, each with its straight line; a walk is stated exactly for those whose
  routed answer is plausible, and the count returned is the number of such walks.  Everything else in the
  row stays.
\<close>
theorem company_walks_are_routed:
  assumes "attach_nearby_transit env router s p w = (Inr (n, p'), w')"
    and "cpy_latitude p = Some lat" "cpy_longitude p = Some lon" "cpy_availability p = Some j"
  shows "\<exists>entries. p' = p\<lparr>cpy_availability := Some (json_set ''nearby_transit'' (JList entries) j)\<rparr> \<and>
    length entries \<le> 5 \<and> n = length (filter has_walk entries) \<and>
    list_all2 (honest_entry env (lon, lat) router) (near_stops env (lon, lat) s) entries \<and>
    sorted (map (\<lambda>x. round_half_even (ce_meters env (sto_location_point x) (lon, lat))) (near_stops env (lon, lat) s)) \<and>
    (\<forall>x \<in> set (near_stops env (lon, lat) s). x \<in> set (db_stops s) \<and> sto_parent_stop_id x = None \<and>
       sto_active_status x = TransitStopActiveStatus.ACTIVE \<and> ce_meters env (sto_location_point x) (lon, lat) \<le> 2000)"
proof -
  let ?here = "(lon, lat)"
  from assms obtain entries where e: "route_stops env router ?here (near_stops env ?here s) w = (Inr (entries, n), w')"
      "p' = p\<lparr>cpy_availability := Some (json_set ''nearby_transit'' (JList entries) j)\<rparr>"
    by (auto simp: attach_nearby_transit_def split: sum.splits prod.splits)
  have "length (near_stops env ?here s) \<le> 5" by (simp add: near_stops_def)
  moreover have "sorted (map (\<lambda>x. round_half_even (ce_meters env (sto_location_point x) ?here)) (near_stops env ?here s))"
    by (simp add: near_stops_def take_map [symmetric] sorted_wrt_take)
  moreover have "x \<in> set (db_stops s) \<and> sto_parent_stop_id x = None \<and>
      sto_active_status x = TransitStopActiveStatus.ACTIVE \<and> ce_meters env (sto_location_point x) ?here \<le> 2000"
    if "x \<in> set (near_stops env ?here s)" for x
    using in_set_takeD [OF that [unfolded near_stops_def]] by simp
  moreover note honest = route_stops_honest [OF e(1)]
  moreover have "length entries = length (near_stops env ?here s)"
    using list_all2_lengthD [OF conjunct1 [OF honest]] by simp
  ultimately show ?thesis
    by (intro exI [of _ entries] conjI) (simp_all add: e(2))
qed

section \<open>A whole check\<close>

lemma attach_kept:
  assumes "attach_nearby_transit env router s p w = (Inr (n, p'), w')"
  obtains a where "p' = p\<lparr>cpy_availability := a\<rparr>"
proof (cases "p' = p")
  case True
  then show thesis using that [of "cpy_availability p"] by simp
next
  case False
  then show thesis
    using assms that by (auto simp: attach_nearby_transit_def split: option.splits sum.splits prod.splits)
qed

lemma store_checkD:
  assumes "store_check env g url kind now s p w = (Inr (status, p'), w')" "cpy_last_checked_at p = Some now"
  shows "status = ''CHECKED'' \<and> check_step now ''CHECKED'' p p'"
proof -
  let ?q = "(take_page g url kind p)\<lparr>cpy_availability := Some (company_snapshot env g url now)\<rparr>"
  let ?c = "\<lambda>q. q\<lparr>cpy_check_status := ''CHECKED'', cpy_check_error := None\<rparr>"
  obtain q where q: "append_check_log env ''CHECKED'' (sane_units (pg_available_units g)) now ?q = Inr q"
    using assms(1) unfolding store_check_def by (cases "append_check_log env ''CHECKED'' (sane_units (pg_available_units g)) now ?q") simp_all
  obtain x w1 where x: "resolve_location env s (?c q) w = (x, w1)" by fastforce
  then obtain r where r: "resolve_location env s (?c q) w = (Inr r, w1)" and x: "x = Inr r"
    using assms(1) q unfolding store_check_def by (cases x) simp_all
  have last: "status = ''CHECKED'' \<and>
      (p' = r \<or> (\<exists>router n. attach_nearby_transit env router s r w1 = (Inr (n, p'), w')))"
    using assms(1) q r unfolding store_check_def
    by (simp split: option.splits sum.splits prod.splits) blast+
  obtain a where a: "p' = r\<lparr>cpy_availability := a\<rparr>"
  proof -
    from last consider "p' = r" | router n where "attach_nearby_transit env router s r w1 = (Inr (n, p'), w')" by blast
    then show thesis
      by cases (use that [of "cpy_availability r"] in simp, metis attach_kept that)
  qed
  obtain log where log: "q = ?q\<lparr>cpy_check_log := Some log\<rparr>" "length log \<le> 30"
    using append_check_logD [OF q] by (auto simp: CHECK_LOG_CAP_def)
  have c: "company_kept (?c q) = company_kept p" "company_point (?c q) = company_point p" "cpy_check_log (?c q) = Some log"
      "cpy_last_checked_at (?c q) = Some now" "cpy_check_status (?c q) = ''CHECKED''"
    using assms(2) by (simp_all add: log take_page_def company_kept_def company_point_def)
  have address: "keeps_address p (?c q)" by (simp add: log take_page_def keeps_address_def)
  have "cpy_address_text r = cpy_address_text (?c q)" using resolve_locationD [OF r] by blast
  then have "cpy_address_text p' = cpy_address_text (?c q)" by (simp add: a)
  with address have address: "keeps_address p p'" by (simp add: keeps_address_def)
  have r: "company_kept r = company_kept p" "point_step (?c q) r" "cpy_check_log r = Some log"
      "cpy_last_checked_at r = Some now" "cpy_check_status r = ''CHECKED''"
    using resolve_locationD [OF r] c by simp_all
  have "point_step p p'"
    by (rule point_step_cong [OF c(2) [symmetric] _ r(2)]) (simp add: a company_point_def)
  moreover have "company_kept p' = company_kept p" using r(1) by (simp add: a company_kept_def)
  moreover have "keeps_file p p'" using calculation(2) address by (simp add: keeps_file_def)
  ultimately show ?thesis using r(3-5) log(2) last by (simp add: check_step_def a)
qed

lemma name_as_address_kept [simp]:
  "company_kept (name_as_address p) = company_kept p"
  "company_point (name_as_address p) = company_point p"
  "cpy_availability (name_as_address p) = cpy_availability p"
  "keeps_address p (name_as_address p)"
  by (simp_all add: name_as_address_def company_kept_def company_point_def keeps_address_def)

lemma read_checkD:
  assumes "read_check env discard t url kind now s p w = (Inr (status, p'), w')" "cpy_last_checked_at p = Some now"
  shows "check_step now status p p' \<and> status \<in> {''CHECKED'', ''FAILED''} \<and>
    (status = ''FAILED'' \<longrightarrow> cpy_availability p' = (if discard then None else cpy_availability p))"
proof -
  from assms(1) consider
      (failed) error w1 where "fail_check env discard error now s p w1 = (Inr (status, p'), w')"
    | (stored) g w1 where "store_check env g url kind now s p w1 = (Inr (status, p'), w')"
    unfolding read_check_def by (auto split: sum.splits prod.splits option.splits if_splits)
  then show ?thesis
  proof cases
    case failed
    from fail_checkD [OF this assms(2)] show ?thesis by auto
  next
    case stored
    from store_checkD [OF this assms(2)] show ?thesis by auto
  qed
qed

lemma stamped_kept [simp]:
  "keeps_file p ((name_as_address p)\<lparr>cpy_last_checked_at := t\<rparr>)"
  "keeps_file p ((name_as_address p)\<lparr>cpy_last_checked_at := t, cpy_link_status := l\<rparr>)"
  "company_point ((name_as_address p)\<lparr>cpy_last_checked_at := t\<rparr>) = company_point p"
  "company_point ((name_as_address p)\<lparr>cpy_last_checked_at := t, cpy_link_status := l\<rparr>) = company_point p"
  "cpy_availability ((name_as_address p)\<lparr>cpy_last_checked_at := t\<rparr>) = cpy_availability p"
  "cpy_availability ((name_as_address p)\<lparr>cpy_last_checked_at := t, cpy_link_status := l\<rparr>) = cpy_availability p"
  by (simp_all add: name_as_address_def keeps_file_def keeps_address_def company_kept_def company_point_def)

text \<open>
  C32. A completed check of a portfolio property keeps what the owner's file says (identity, name, document,
  link, and the address where one is given: only a missing address is filled), stamps the row with its
  outcome and time, keeps at most thirty log entries, and never maps a guess: the stored point is the old
  one, none, or one inside the metropolitan area.  A failed check keeps the last snapshot unless the sweep
  asked to discard it.
\<close>
theorem company_check_scope:
  assumes "company_check env discard now s p w = (Inr (status, p'), w')" "status \<noteq> ''RATE_LIMITED''"
  shows "status \<in> {''CHECKED'', ''FAILED''} \<and> company_kept p' = company_kept p \<and>
    (given (cpy_address_text p) \<noteq> None \<longrightarrow> cpy_address_text p' = cpy_address_text p) \<and> point_step p p' \<and>
    cpy_check_status p' = status \<and> cpy_last_checked_at p' = Some now \<and>
    (\<exists>log. cpy_check_log p' = Some log \<and> length log \<le> 30) \<and>
    (status = ''FAILED'' \<longrightarrow> cpy_availability p' = (if discard then None else cpy_availability p))"
proof -
  let ?p0 = "name_as_address p"
  obtain r w1 where r: "fetch_company_page env ?p0 w = (r, w1)" by fastforce
  have step: "check_step now status q p' \<Longrightarrow> keeps_file p q \<Longrightarrow> company_point q = company_point p \<Longrightarrow>
      ?thesis \<or> \<not> (status \<in> {''CHECKED'', ''FAILED''} \<and>
        (status = ''FAILED'' \<longrightarrow> cpy_availability p' = (if discard then None else cpy_availability p)))" for q
    using point_step_cong [of p q p' p'] keeps_file_trans [of p q p']
    by (auto simp: check_step_def keeps_file_def keeps_address_def)
  show ?thesis
  proof (cases r)
    case (Inl e)
    then show ?thesis using assms r by (simp add: company_check_def Let_def split: if_splits)
  next
    case (Inr page)
    show ?thesis
    proof (cases page)
      case None
      let ?q = "?p0\<lparr>cpy_last_checked_at := Some now, cpy_link_status := ''FAILED''\<rparr>"
      have "fail_check env discard (unreachable_error env) now s ?q w1 = (Inr (status, p'), w')"
        using assms(1) r Inr None by (simp add: company_check_def Let_def)
      from fail_checkD [OF this] step [of ?q] show ?thesis by (auto split: if_splits)
    next
      case (Some x)
      obtain t url kind where x: "x = (t, url, kind)" by (cases x) auto
      let ?q = "?p0\<lparr>cpy_last_checked_at := Some now\<rparr>"
      have "read_check env discard t url kind now s ?q w1 = (Inr (status, p'), w')"
        using assms(1) r Inr Some x by (simp add: company_check_def Let_def)
      from read_checkD [OF this] step [of ?q] show ?thesis by (auto split: if_splits)
    qed
  qed
qed

text \<open>
  The quota error is said to touch nothing; what a rate-limited check returns is the row with its name
  copied into a missing address, so it differs from the old row exactly when the name is a street address
  and no address was stored.
\<close>
theorem rate_limited_check_writes_address:
  assumes "company_check env discard now s p w = (Inr (''RATE_LIMITED'', p'), w')"
  shows "p' = name_as_address p \<and>
    (p' \<noteq> p \<longleftrightarrow> looks_like_address (cpy_name p) \<and> given (cpy_address_text p) = None)"
proof -
  let ?p0 = "name_as_address p"
  obtain r w1 where r: "fetch_company_page env ?p0 w = (r, w1)" by fastforce
  have "p' = ?p0"
  proof (cases r)
    case (Inl e)
    then show ?thesis using assms r by (auto simp: company_check_def Let_def split: if_splits)
  next
    case (Inr page)
    show ?thesis
    proof (cases page)
      case None
      have "fail_check env discard (unreachable_error env) now s
          (?p0\<lparr>cpy_last_checked_at := Some now, cpy_link_status := ''FAILED''\<rparr>) w1 = (Inr (''RATE_LIMITED'', p'), w')"
        using assms r Inr None by (simp add: company_check_def Let_def)
      from fail_checkD [OF this] show ?thesis by simp
    next
      case (Some x)
      obtain t url kind where x: "x = (t, url, kind)" by (cases x) auto
      have "read_check env discard t url kind now s (?p0\<lparr>cpy_last_checked_at := Some now\<rparr>) w1 =
          (Inr (''RATE_LIMITED'', p'), w')"
        using assms r Inr Some x by (simp add: company_check_def Let_def)
      from read_checkD [OF this] show ?thesis by simp
    qed
  qed
  moreover have "?p0 \<noteq> p \<longleftrightarrow> looks_like_address (cpy_name p) \<and> given (cpy_address_text p) = None"
  proof (cases "looks_like_address (cpy_name p) \<and> given (cpy_address_text p) = None")
    case True
    then have "py_strip (cpy_name p) \<noteq> []" by (auto simp: looks_like_address_def Let_def)
    then have "cpy_address_text p \<noteq> Some (py_strip (cpy_name p))" using True by (auto simp: given_def)
    moreover have "cpy_address_text ?p0 = Some (py_strip (cpy_name p))" using True by (simp add: name_as_address_def)
    ultimately show ?thesis using True by auto
  next
    case False
    then show ?thesis by (auto simp: name_as_address_def)
  qed
  ultimately show ?thesis by simp
qed

section \<open>Repaired links\<close>

lemma add_candidatesD:
  assumes "add_candidates ok us cs = Inr cs'"
  shows "c \<in> set cs' \<Longrightarrow> c \<in> set cs \<or> ok c = Inr True"
  using assms
proof (induction us arbitrary: cs)
  case (Cons u us)
  from Cons.prems(2) obtain yes where "ok u = Inr yes"
      "add_candidates ok us (if yes \<and> u \<notin> set cs then cs @ [u] else cs) = Inr cs'"
    by (auto simp: bind_result_Inr_iff)
  with Cons.IH [OF Cons.prems(1), of "if yes \<and> u \<notin> set cs then cs @ [u] else cs"] show ?case
    by (auto split: if_splits)
qed simp

lemma gather_candidatesD:
  assumes "gather_candidates env ok n qs cs w = (Inr cs', w')" "c \<in> set cs'"
  shows "c \<in> set cs \<or> ok c = Inr True"
  using assms
proof (induction qs arbitrary: cs w)
  case Nil
  then show ?case by (auto dest: in_set_takeD)
next
  case (Cons q qs)
  obtain r w1 where r: "search_urls env q w = (r, w1)" by fastforce
  from Cons.prems r obtain urls cs1 where cs1: "r = Inr urls" "add_candidates ok urls cs = Inr cs1"
    by (auto split: sum.splits)
  have "c \<in> set cs1 \<or> ok c = Inr True"
  proof (cases "n \<le> length cs1")
    case True
    then show ?thesis using Cons.prems r cs1 by (auto dest: in_set_takeD)
  next
    case False
    then show ?thesis using Cons.IH [of cs1 w1] Cons.prems r cs1 by simp
  qed
  then show ?case using add_candidatesD [OF cs1(2)] by blast
qed

lemma try_candidatesD:
  assumes "try_candidates env p kind cs tried w = (Inr (Some (t, url, k), tried'), w')"
  shows "k = kind \<and> url \<in> set cs \<and> page_mentions_property t p"
  using assms
proof (induction env p kind cs tried w rule: try_candidates.induct)
  case (2 env p kind c cs tried w)
  show ?case
  proof (cases "c \<in> set tried")
    case True
    then show ?thesis using 2 by auto
  next
    case False
    obtain r w1 where r: "ce_extract env c w = (r, w1)" by fastforce
    show ?thesis
    proof (cases r)
      case (Inl e)
      then show ?thesis using 2(4) r False by simp
    next
      case (Inr page)
      then show ?thesis using 2(2-4) r False by (cases page) (auto split: if_splits)
    qed
  qed
qed simp

lemma try_knownD:
  assumes "try_known env p known tried w = (Inr (Some (t, url, k), tried'), w')"
  shows "\<exists>kind. (Some url, kind) \<in> set known \<and> t \<noteq> []"
  using assms
proof (induction env p known tried w rule: try_known.induct)
  case (2 env p u kind rest tried w)
  show ?case
  proof (cases "given u")
    case None
    then show ?thesis using 2 by auto
  next
    case (Some x)
    then have u: "u = Some x" by (auto simp: given_def split: option.splits if_splits)
    show ?thesis
    proof (cases "x \<in> set tried")
      case True
      then show ?thesis using 2 Some by auto
    next
      case False
      let ?agg = "if kind = ''OFFICIAL_SITE'' then bind_result (url_host x) (\<lambda>h. Inr (aggregator_host h)) else Inr False"
      show ?thesis
      proof (cases ?agg)
        case (Inl e)
        then show ?thesis using 2(5) Some False by simp
      next
        case (Inr b)
        show ?thesis
        proof (cases b)
          case True
          have "try_known env p rest tried w = (Inr (Some (t, url, k), tried'), w')"
            using 2(5) Some False Inr True by simp
          then show ?thesis using 2(3) [OF Some False Inr] True by auto
        next
          case no: False
          obtain r w1 where r: "ce_extract env x w = (r, w1)" by fastforce
          show ?thesis
          proof (cases r)
            case (Inl e)
            then show ?thesis using 2(5) Some False Inr no r by simp
          next
            case page: (Inr body)
            show ?thesis
            proof (cases "given body")
              case None
              then show ?thesis using 2(4) [OF Some False Inr _ r [symmetric] page] 2(5) Some False Inr no r page by auto
            next
              case got: (Some y)
              then show ?thesis using 2(5) Some False Inr no r page u
                by (auto simp: given_def split: option.splits if_splits)
            qed
          qed
        qed
      qed
    qed
  qed
qed simp

text \<open>
  C33. A page is read only from a link the row knows (its resolved or original URL) or from a repaired one that
  passes the guards: a repaired official site is no aggregator, .gov, .org or .edu host, a repaired listing
  is a StreetEasy building or complex page, and in both cases the page mentions the property.
\<close>
theorem repaired_link_is_guarded:
  assumes "fetch_company_page env p w = (Inr (Some (t, url, kind)), w')"
  shows "cpy_resolved_url p = Some url \<or> cpy_original_url p = Some url \<or>
    page_mentions_property t p \<and>
    (kind = ''OFFICIAL_SITE'' \<and> official_url_ok url = Inr True \<or>
     kind = ''STREETEASY'' \<and> streeteasy_url_ok url = Inr True)"
proof -
  let ?known = "[(cpy_resolved_url p, or_else ''ORIGINAL'' (cpy_resolved_url_kind p)), (cpy_original_url p, ''ORIGINAL'')]"
  obtain r w1 where r: "try_known env p ?known [] w = (r, w1)" by fastforce
  from assms r obtain first tried where f: "r = Inr (first, tried)"
    by (auto simp: fetch_company_page_def split: sum.splits prod.splits)
  show ?thesis
  proof (cases first)
    case (Some page)
    then have "page = (t, url, kind)" "w' = w1" using assms r f by (simp_all add: fetch_company_page_def)
    then have "try_known env p ?known [] w = (Inr (Some (t, url, kind), tried), w1)" using r f Some by simp
    from try_knownD [OF this] show ?thesis by auto
  next
    case None
    then have rep: "repair_link env p tried w1 = (Inr (Some (t, url, kind)), w')"
      using assms r f by (simp add: fetch_company_page_def)
    obtain c w2 where c: "official_candidates env p w1 = (c, w2)" by fastforce
    from rep c obtain cs where cs: "c = Inr cs" by (cases c) (auto simp: repair_link_def)
    obtain o1 w3 where o1: "try_candidates env p ''OFFICIAL_SITE'' cs tried w2 = (o1, w3)" by fastforce
    from rep c cs o1 obtain found tried1 where o2: "o1 = Inr (found, tried1)"
      by (cases o1) (auto simp: repair_link_def)
    show ?thesis
    proof (cases found)
      case page: (Some page)
      then have "page = (t, url, kind)" using rep c cs o1 o2 by (simp add: repair_link_def)
      then have "try_candidates env p ''OFFICIAL_SITE'' cs tried w2 = (Inr (Some (t, url, kind), tried1), w3)"
        using o1 o2 page by simp
      note g = try_candidatesD [OF this]
      have "official_url_ok url = Inr True"
        using c cs g gather_candidatesD [where cs = "[]" and c = url]
        by (fastforce simp: official_candidates_def split: sum.splits)
      with g show ?thesis by blast
    next
      case none: None
      obtain d w4 where d: "streeteasy_candidates env p w3 = (d, w4)" by fastforce
      from rep c cs o1 o2 none d obtain ds where ds: "d = Inr ds"
        by (cases d) (auto simp: repair_link_def)
      obtain s1 w5 where s1: "try_candidates env p ''STREETEASY'' ds tried1 w4 = (s1, w5)" by fastforce
      from rep c cs o1 o2 none d ds s1 obtain tried2 where
        "try_candidates env p ''STREETEASY'' ds tried1 w4 = (Inr (Some (t, url, kind), tried2), w5)"
        by (cases s1) (auto simp: repair_link_def)
      note g = try_candidatesD [OF this]
      have "streeteasy_url_ok url = Inr True"
        using d ds g gather_candidatesD [where cs = "[]" and c = url]
        by (fastforce simp: streeteasy_candidates_def split: sum.splits)
      with g show ?thesis by blast
    qed
  qed
qed

section \<open>An exhausted search quota\<close>

text \<open>
  Pages are blocked, the search answers no query (its status is RATE_LIMITED for HTTP 429 and FAILED for
  any other refusal, the plan limit 432 among them), the geocoders answer somehow.
\<close>

definition search_exhausted :: "'w company_env \<Rightarrow> bool" where
  "search_exhausted env \<longleftrightarrow> (\<forall>u v. \<exists>v'. ce_extract env u v = (Inr None, v')) \<and>
     (\<exists>provider. ce_search env = Some provider \<and>
        (\<forall>q v. \<exists>r v'. sv_search provider q v = (Inr r, v') \<and> sp_status r \<noteq> ProviderRequestStatus.SUCCEEDED)) \<and>
     (\<forall>g \<in> set (ce_geocoders env). \<forall>r v. \<exists>a v'. gc_geocode g r v = (Inr a, v'))"

lemma exhausted_search: "search_exhausted env \<Longrightarrow> \<exists>v'. search_urls env q v = (Inr [], v')"
proof -
  assume "search_exhausted env"
  then obtain provider r v' where "ce_search env = Some provider"
      "sv_search provider \<lparr>sq_query = q, sq_max_results = 8\<rparr> v = (Inr r, v')"
      "sp_status r \<noteq> ProviderRequestStatus.SUCCEEDED"
    unfolding search_exhausted_def by blast
  then show ?thesis by (simp add: search_urls_def)
qed

lemma exhausted_gather: "search_exhausted env \<Longrightarrow> 0 < n \<Longrightarrow> \<exists>v'. gather_candidates env ok n qs [] v = (Inr [], v')"
proof (induction qs arbitrary: v)
  case (Cons q qs)
  obtain v1 where "search_urls env q v = (Inr [], v1)" using exhausted_search [OF Cons.prems(1)] by blast
  then show ?case using Cons.IH [OF Cons.prems, of v1] Cons.prems(2) by simp
qed simp

text \<open>The host of the address can be read, if there is one.\<close>

definition readable_url :: "string option \<Rightarrow> bool" where
  "readable_url u \<longleftrightarrow> (case given u of None \<Rightarrow> True | Some url \<Rightarrow> (case url_host url of Inl _ \<Rightarrow> False | Inr _ \<Rightarrow> True))"

lemma exhausted_known:
  assumes "search_exhausted env" "\<forall>(u, kind) \<in> set known. kind = ''OFFICIAL_SITE'' \<longrightarrow> readable_url u"
  shows "\<exists>tried' v'. try_known env p known tried v = (Inr (None, tried'), v')"
  using assms(2)
proof (induction known arbitrary: tried v)
  case (Cons k known)
  obtain u kind where k: "k = (u, kind)" by fastforce
  show ?case
  proof (cases "given u")
    case None
    then show ?thesis using Cons k by simp
  next
    case (Some url)
    show ?thesis
    proof (cases "url \<in> set tried")
      case True
      then show ?thesis using Cons k Some by simp
    next
      case False
      obtain v1 where v1: "ce_extract env url v = (Inr None, v1)"
        using assms(1) unfolding search_exhausted_def by blast
      have rest: "\<exists>tried' v'. try_known env p known tried2 v2 = (Inr (None, tried'), v')" for tried2 v2
        by (rule Cons.IH) (use Cons.prems in simp)
      obtain skip where skip: "(if kind = ''OFFICIAL_SITE'' then bind_result (url_host url) (\<lambda>h. Inr (aggregator_host h))
          else Inr False) = Inr skip"
      proof (cases "kind = ''OFFICIAL_SITE''")
        case True
        then have "readable_url u" using Cons.prems k by simp
        then obtain h where "url_host url = Inr h"
          using Some by (auto simp: readable_url_def split: sum.splits)
        then show thesis using that True by simp
      qed (use that in simp)
      show ?thesis
        using rest [of tried v] rest [of "tried @ [url]" v1] k Some False v1 skip
        by (cases skip) (simp_all add: given_def)
    qed
  qed
qed simp

lemma exhausted_fetch:
  assumes "search_exhausted env" "page_name env p = Inr nm" "readable_url (cpy_resolved_url p)"
  shows "\<exists>v'. fetch_company_page env p v = (Inr None, v')"
proof -
  let ?known = "[(cpy_resolved_url p, or_else ''ORIGINAL'' (cpy_resolved_url_kind p)), (cpy_original_url p, ''ORIGINAL'')]"
  have "\<forall>(u, kind) \<in> set ?known. kind = ''OFFICIAL_SITE'' \<longrightarrow> readable_url u"
    using assms(3) by simp
  from exhausted_known [OF assms(1) this] obtain tried v1 where
    "try_known env p ?known [] v = (Inr (None, tried), v1)" by blast
  moreover obtain v2 where "official_candidates env p v1 = (Inr [], v2)"
    using exhausted_gather [OF assms(1), of 3] assms(2) by (fastforce simp: official_candidates_def)
  moreover obtain v3 where "streeteasy_candidates env p v2 = (Inr [], v3)"
    using exhausted_gather [OF assms(1), of 2] assms(2) by (fastforce simp: streeteasy_candidates_def)
  ultimately show ?thesis by (simp add: fetch_company_page_def repair_link_def)
qed

lemma locate_total:
  assumes "\<forall>g \<in> set gs. \<forall>r v. \<exists>a v'. gc_geocode g r v = (Inr a, v')"
  shows "\<exists>p' v'. locate request nj far gs p v = (Inr p', v')"
  using assms
proof (induction gs arbitrary: far v)
  case (Cons g gs)
  obtain a v1 where "gc_geocode g request v = (Inr a, v1)" using Cons.prems by fastforce
  then show ?case using Cons.IH Cons.prems by (auto simp del: split_paired_Ex)
qed simp

lemma resolve_total:
  assumes "\<forall>g \<in> set (ce_geocoders env). \<forall>r v. \<exists>a v'. gc_geocode g r v = (Inr a, v')"
  shows "\<exists>p' v'. resolve_location env s p v = (Inr p', v')"
proof (cases "given (cpy_address_text p)")
  case None
  then show ?thesis by (simp add: resolve_location_def geocode_company_def)
next
  case (Some a)
  obtain p' v' where "locate (company_request a p) (is_nj p) False (ce_geocoders env) p v = (Inr p', v')"
    using locate_total [OF assms] by blast
  then show ?thesis using Some by (simp add: resolve_location_def geocode_company_def)
qed

lemma exhausted_resolve: "search_exhausted env \<Longrightarrow> \<exists>p' v'. resolve_location env s p v = (Inr p', v')"
  by (rule resolve_total) (simp add: search_exhausted_def)

text \<open>
  C34. An exhausted search quota wipes data although the sweep promises it never can: when the page of a property
  is blocked and the search behind the link repair answers no query, be it rate-limited (429) or out of
  plan (432), the check of a discarding sweep does not stop; it reports the property as FAILED and deletes
  its snapshot.  The snapshot is taken to be readable and so is the host of the resolved link.
\<close>
theorem exhausted_search_wipes_snapshot:
  assumes "search_exhausted env" "page_name env (name_as_address p) = Inr nm"
    and "readable_url (cpy_resolved_url p)"
  shows "\<exists>p' w'. company_check env True now s p w = (Inr (''FAILED'', p'), w') \<and> cpy_availability p' = None"
proof -
  let ?p0 = "name_as_address p"
  let ?q = "?p0\<lparr>cpy_last_checked_at := Some now, cpy_link_status := ''FAILED''\<rparr>"
  have "cpy_resolved_url ?p0 = cpy_resolved_url p" by (simp add: name_as_address_def)
  then obtain v where v: "fetch_company_page env ?p0 w = (Inr None, v)"
    using exhausted_fetch [OF assms(1,2)] assms(3) by fastforce
  obtain q1 where q1: "append_check_log env ''FAILED'' [] now (?q\<lparr>cpy_check_status := ''FAILED'',
      cpy_check_error := Some (unreachable_error env), cpy_availability := None\<rparr>) = Inr q1"
    by (simp add: append_check_log_def Let_def)
  obtain p' v' where "resolve_location env s q1 v = (Inr p', v')"
    using exhausted_resolve [OF assms(1)] by blast
  then have run: "fail_check env True (unreachable_error env) now s ?q v = (Inr (''FAILED'', p'), v')"
    using q1 by (simp add: fail_check_def)
  then have "cpy_availability p' = None" using fail_checkD [OF run] by simp
  moreover have "company_check env True now s p w = (Inr (''FAILED'', p'), v')"
    using v run by (simp add: company_check_def Let_def)
  ultimately show ?thesis by blast
qed

section \<open>The check log\<close>

lemma first_checked_skip: "\<forall>j \<in> set fails. json_get ''status'' j = Some (JStr ''FAILED'') \<Longrightarrow>
    first_checked (fails @ js) = first_checked js"
proof (induction fails)
  case (Cons j fails)
  then have "py_get ''status'' j = Inr (JStr ''FAILED'')" by (cases j) auto
  then show ?case using Cons by simp
qed simp

text \<open>
  The log compares a check with the last successful one: after any number of failed checks in between, the
  newest entry of a second successful check says whether the number of units, then the range of rents, has
  changed, and the log keeps at most thirty entries, newest first.
\<close>
theorem check_log_compares:
  assumes "append_check_log env ''CHECKED'' units now p = Inr p1" "cpy_check_log p1 = Some (entry # older)"
    and "cpy_check_log p2 = Some (fails @ entry # older)"
    and "\<forall>j \<in> set fails. json_get ''status'' j = Some (JStr ''FAILED'')"
    and "append_check_log env ''CHECKED'' units' later p2 = Inr p3"
  shows "\<exists>newest. cpy_check_log p3 = Some (take 30 (newest # fails @ entry # older)) \<and>
    json_get ''event'' newest = Some (JStr
      (if length units' \<noteq> length units then ''AVAILABILITY_CHANGED''
       else if (extreme min (unit_rents units'), extreme max (unit_rents units')) \<noteq>
               (extreme min (unit_rents units), extreme max (unit_rents units)) then ''PRICE_CHANGED''
       else ''UNCHANGED''))"
proof -
  obtain event where entry: "entry = log_entry (ce_iso env now) ''CHECKED'' (int (length units))
      (extreme min (unit_rents units)) (extreme max (unit_rents units)) event"
    using assms(1,2) by (auto simp: append_check_log_def Let_def bind_result_Inr_iff CHECK_LOG_CAP_def)
  have "first_checked (fails @ entry # older) = Inr (Some entry)"
    unfolding first_checked_skip [OF assms(4)] by (simp add: entry log_entry_def)
  then have "p3 = p2\<lparr>cpy_check_log := Some (take 30 (log_entry (ce_iso env later) ''CHECKED'' (int (length units'))
      (extreme min (unit_rents units')) (extreme max (unit_rents units'))
      (log_event (Some entry) (int (length units')) (extreme min (unit_rents units')) (extreme max (unit_rents units')))
      # fails @ entry # older))\<rparr>"
    using assms(3,5) by (simp add: append_check_log_def Let_def CHECK_LOG_CAP_def)
  then show ?thesis
    by (auto simp: log_event_def log_field_def entry log_entry_def)
qed

section \<open>The portfolio run\<close>

text \<open>The row of a property other than \<open>i\<close>.\<close>

definition others_same :: "uuid \<Rightarrow> db \<Rightarrow> db \<Rightarrow> bool" where
  "others_same i s s' \<longleftrightarrow> (\<forall>j. j \<noteq> i \<longrightarrow> get_by cpy_id j (db_company s') = get_by cpy_id j (db_company s))"

lemma others_same_company: "db_company s' = db_company s \<Longrightarrow> others_same i s s'"
  by (simp add: others_same_def)

lemma others_same_trans: "others_same i s t \<Longrightarrow> others_same i t u \<Longrightarrow> others_same i s u"
  by (simp add: others_same_def)

lemma put_property_others: "cpy_id p = i \<Longrightarrow> others_same i s (put_property p s)"
proof -
  have "j \<noteq> cpy_id p \<Longrightarrow> get_by cpy_id j (update_where (\<lambda>q. cpy_id q = cpy_id p) (\<lambda>q. p) rs) = get_by cpy_id j rs" for j rs
    by (induction rs) (auto simp: get_by_Cons)
  then show "cpy_id p = i \<Longrightarrow> ?thesis" by (auto simp: others_same_def put_property_def)
qed

text \<open>What a run may write: rows of the portfolio, and new estimates with their audit rows.\<close>

definition portfolio_step :: "db \<Rightarrow> db \<Rightarrow> bool" where
  "portfolio_step s s' \<longleftrightarrow>
     s' = s\<lparr>db_company := db_company s', db_commutes := db_commutes s', db_executions := db_executions s',
            db_next := db_next s'\<rparr> \<and>
     list_all2 keeps_file (db_company s) (db_company s') \<and>
     (\<exists>new. db_commutes s' = db_commutes s @ new) \<and> (\<exists>new. db_executions s' = db_executions s @ new)"

lemma portfolio_step_refl [simp, intro]: "portfolio_step s s"
  by (simp add: portfolio_step_def list_all2_refl)

lemma portfolio_step_trans [trans]:
  assumes "portfolio_step s t" "portfolio_step t u"
  shows "portfolio_step s u"
proof -
  from assms obtain c1 x1 c2 x2 where a: "db_commutes t = db_commutes s @ c1" "db_executions t = db_executions s @ x1"
      "db_commutes u = db_commutes t @ c2" "db_executions u = db_executions t @ x2"
    unfolding portfolio_step_def by blast
  have t: "t = s\<lparr>db_company := db_company t, db_commutes := db_commutes t, db_executions := db_executions t,
      db_next := db_next t\<rparr>"
    and u: "u = t\<lparr>db_company := db_company u, db_commutes := db_commutes u, db_executions := db_executions u,
      db_next := db_next u\<rparr>"
    using assms unfolding portfolio_step_def by metis+
  have k: "list_all2 keeps_file (db_company s) (db_company t)" "list_all2 keeps_file (db_company t) (db_company u)"
    using assms unfolding portfolio_step_def by simp_all
  have k: "list_all2 keeps_file (db_company s) (db_company u)"
    using list_all2_trans [OF keeps_file_trans k] .
  have "u = s\<lparr>db_company := db_company u, db_commutes := db_commutes u, db_executions := db_executions u,
      db_next := db_next u\<rparr>"
    by (subst u, subst t) simp
  then show ?thesis using a k unfolding portfolio_step_def by simp
qed

lemma kept_ids: "list_all2 keeps_file ps ps' \<Longrightarrow> map cpy_id ps' = map cpy_id ps"
  by (induction rule: list_all2_induct) (auto simp: keeps_file_def company_kept_def)

lemma put_property_step:
  assumes "distinct (map cpy_id (db_company s))" "get_by cpy_id i (db_company s) = Some p" "keeps_file p p'"
  shows "portfolio_step s (put_property p' s)"
proof -
  have id: "cpy_id p' = cpy_id p" using assms(3) by (simp add: keeps_file_def company_kept_def)
  have "q = p" if "q \<in> set (db_company s)" "cpy_id q = cpy_id p'" for q
    using that id assms(1) get_by_SomeD [OF assms(2)] by (metis distinct_map inj_onD)
  then have "list_all2 keeps_file (db_company s)
      (update_where (\<lambda>q. cpy_id q = cpy_id p') (\<lambda>q. p') (db_company s))"
    by (intro list_all2_update_where) (use assms(3) in auto)
  then show ?thesis by (simp add: portfolio_step_def put_property_def)
qed

lemma commute_portfolio_step:
  assumes "commute_research dates digest schema days llm now None (Some i) d origin hash w s = (Inr (r, s'), w')"
  shows "portfolio_step s s' \<and> db_company s' = db_company s"
  using assms
proof (cases rule: commute_researchE)
  case (researched target dst result)
  from researched(6) show ?thesis by (rule persist_commuteD) (simp add: portfolio_step_def list_all2_refl)
qed simp

lemma research_destinations_step:
  assumes "research_destinations env re now p hash ds n w s = (Inr (m, s'), w')"
  shows "portfolio_step s s' \<and> db_company s' = db_company s \<and> n \<le> m \<and> m \<le> n + length ds"
  using assms
proof (induction ds arbitrary: n w s)
  case (Cons d ds)
  show ?case
  proof (cases "get_fresh_result None (Some (cpy_id p)) (dst_id d) now s")
    case (Some r)
    then show ?thesis using Cons.IH [of n w s] Cons.prems by auto
  next
    case None
    obtain r w1 where r: "commute_research (re_dates re) (re_digest re) (re_schema re) (re_cache_days re) (ce_llm env) now
        None (Some (cpy_id p)) (dst_id d) (company_origin p) hash w s = (r, w1)" by fastforce
    show ?thesis
    proof (cases r)
      case (Inl e)
      then show ?thesis using Cons.IH [of n w1 s] Cons.prems None r by (auto split: if_splits)
    next
      case (Inr x)
      obtain c s1 where x: "x = (c, s1)" by fastforce
      have "portfolio_step s s1 \<and> db_company s1 = db_company s" using commute_portfolio_step r Inr x by simp
      moreover have "portfolio_step s1 s' \<and> db_company s' = db_company s1 \<and> Suc n \<le> m \<and> m \<le> Suc n + length ds"
        by (rule Cons.IH) (use Cons.prems None r Inr x in simp)
      ultimately show ?thesis using portfolio_step_trans by auto
    qed
  qed
qed simp

lemma research_company_step:
  "research_company_commutes env re now p w s = (Inr (n, s'), w') \<Longrightarrow>
    portfolio_step s s' \<and> db_company s' = db_company s"
  by (auto simp: research_company_commutes_def split: option.splits dest: research_destinations_step)

lemma route_missing_kept:
  "route_missing env s p w = (Inr (n, p'), w') \<Longrightarrow> keeps_file p p'"
  by (auto simp: route_missing_def keeps_file_def keeps_address_def company_kept_def
      split: option.splits if_splits elim!: attach_kept)

lemma commutes_step_step:
  assumes "distinct (map cpy_id (db_company s))" "get_by cpy_id i (db_company s) = Some p"
    and "commutes_step env re now p counts w s = (counts', w', s')"
  shows "portfolio_step s s' \<and> others_same i s s'"
proof -
  have i: "cpy_id p = i" using get_by_SomeD [OF assms(2)] by simp
  obtain r w1 where r: "route_missing env s p w = (r, w1)" by fastforce
  show ?thesis
  proof (cases r)
    case (Inl e)
    then show ?thesis using assms(3) r by (simp add: commutes_step_def others_same_def)
  next
    case (Inr x)
    obtain n p1 where x: "x = (n, p1)" by fastforce
    have kept: "keeps_file p p1" by (rule route_missing_kept [OF r [unfolded Inr x]])
    have put: "portfolio_step s (put_property p1 s)" by (rule put_property_step [OF assms(1,2) kept])
    have other: "others_same i s (put_property p1 s)"
      by (rule put_property_others) (use kept i in \<open>simp add: keeps_file_def company_kept_def\<close>)
    obtain c w2 where c: "research_company_commutes env re now p1 w1 (put_property p1 s) = (c, w2)" by fastforce
    show ?thesis
    proof (cases c)
      case (Inl e)
      then show ?thesis using assms(3) r Inr x c by (simp add: commutes_step_def others_same_def)
    next
      case ok: (Inr y)
      then have "s' = snd y" using assms(3) r Inr x c by (cases y) (simp add: commutes_step_def)
      moreover have "portfolio_step (put_property p1 s) (snd y) \<and> db_company (snd y) = db_company (put_property p1 s)"
        using research_company_step c ok by (cases y) simp
      ultimately show ?thesis
        using put portfolio_step_trans others_same_trans [OF other others_same_company] by blast
    qed
  qed
qed

lemma after_check_step: "after_check env re now status p counts w s = (counts', w', s') \<Longrightarrow>
    portfolio_step s s' \<and> db_company s' = db_company s"
  by (auto simp: after_check_def split: if_splits sum.splits prod.splits dest: research_company_step)

lemma company_check_kept:
  assumes run: "company_check env discard now s p w = (Inr (status, p'), w')"
  shows "keeps_file p p'"
proof -
  let ?p0 = "name_as_address p"
  have kept: "keeps_file p ?p0" by (simp add: keeps_file_def)
  obtain r w1 where r: "fetch_company_page env ?p0 w = (r, w1)" by fastforce
  show ?thesis
  proof (cases r)
    case (Inl e)
    then show ?thesis using run r kept by (auto simp: company_check_def Let_def split: if_splits)
  next
    case (Inr page)
    show ?thesis
    proof (cases page)
      case None
      let ?q = "?p0\<lparr>cpy_last_checked_at := Some now, cpy_link_status := ''FAILED''\<rparr>"
      have "fail_check env discard (unreachable_error env) now s ?q w1 = (Inr (status, p'), w')"
        using run r Inr None by (simp add: company_check_def Let_def)
      from fail_checkD [OF this] have "keeps_file ?q p'" by (simp add: check_step_def)
      then show ?thesis by (rule keeps_file_trans [OF stamped_kept(2)])
    next
      case (Some x)
      let ?q = "?p0\<lparr>cpy_last_checked_at := Some now\<rparr>"
      obtain t url kind where "read_check env discard t url kind now s ?q w1 = (Inr (status, p'), w')"
        using run r Inr Some by (cases x) (simp add: company_check_def Let_def)
      from read_checkD [OF this] have "keeps_file ?q p'" by (simp add: check_step_def)
      then show ?thesis by (rule keeps_file_trans [OF stamped_kept(1)])
    qed
  qed
qed

text \<open>One property of a run, whatever the mode.\<close>

lemma check_portfolio_step:
  assumes "distinct (map cpy_id (db_company s))" "get_by cpy_id i (db_company s) = Some p"
    and "company_check env force now s p w = (Inr (status, p1), w1)"
  shows "portfolio_step s (put_property p1 s) \<and> others_same i s (put_property p1 s)"
proof -
  have kept: "keeps_file p p1" by (rule company_check_kept [OF assms(3)])
  moreover have "cpy_id p = i" using get_by_SomeD [OF assms(2)] by simp
  ultimately show ?thesis
    using put_property_step [OF assms(1,2)] put_property_others [of p1 i]
    by (simp add: keeps_file_def company_kept_def)
qed

lemma in_bump: "k \<in> fst ` set (bump k d)"
  by (induction d rule: bump.induct) auto

lemma refresh_properties_step:
  assumes "distinct (map cpy_id (db_company s))"
    and "refresh_properties env re only force now is counts w s = (fin, counts', w', s')"
  shows "portfolio_step s s' \<and> (\<exists>k \<le> length is.
    (\<forall>j. j \<notin> set (take k is) \<longrightarrow> get_by cpy_id j (db_company s') = get_by cpy_id j (db_company s)) \<and>
    (if fin then k = length is else 0 < k \<and> ''RATE_LIMITED'' \<in> fst ` set counts'))"
  (is "_ \<and> ?upto is s")
  using assms
proof (induction "is" arbitrary: counts w s)
  case Nil
  then show ?case by simp
next
  case (Cons i ids)
  have later: "portfolio_step s s' \<and> ?upto (i # ids) s"
    if "refresh_properties env re only force now ids c v t = (fin, counts', w', s')" "portfolio_step s t" "others_same i s t"
    for c v t
  proof -
    have "distinct (map cpy_id (db_company t))"
      using Cons.prems(1) that(2) kept_ids [of "db_company s" "db_company t"] by (simp add: portfolio_step_def)
    from Cons.IH [OF this that(1)] obtain k where k: "portfolio_step t s'" "k \<le> length ids"
      "\<forall>j. j \<notin> set (take k ids) \<longrightarrow> get_by cpy_id j (db_company s') = get_by cpy_id j (db_company t)"
      "if fin then k = length ids else 0 < k \<and> ''RATE_LIMITED'' \<in> fst ` set counts'"
      by blast
    then show ?thesis
      using that(2,3) portfolio_step_trans [of s t s']
      by (intro conjI exI [of _ "Suc k"]) (auto simp: others_same_def split: if_splits)
  qed
  show ?case
  proof (cases "get_by cpy_id i (db_company s)")
    case None
    then show ?thesis using Cons.prems(2) by (intro later [of counts w s]) (simp_all add: others_same_def)
  next
    case (Some p)
    consider (commutes) "only" | (fresh) "\<not> only" "fresh_check force now p" | (check) "\<not> only" "\<not> fresh_check force now p"
      by blast
    then show ?thesis
    proof cases
      case commutes
      obtain c v t where t: "commutes_step env re now p counts w s = (c, v, t)" by (metis prod_cases3)
      have "portfolio_step s t \<and> others_same i s t" by (rule commutes_step_step [OF Cons.prems(1) Some t])
      then show ?thesis using Cons.prems(2) Some commutes t by (intro later [of c v t]) simp_all
    next
      case fresh
      then show ?thesis using Cons.prems(2) Some
        by (intro later [of "bump ''SKIPPED_FRESH'' counts" w s]) (simp_all add: others_same_def)
    next
      case check
      obtain r w1 where r: "company_check env force now s p w = (r, w1)" by fastforce
      show ?thesis
      proof (cases r)
        case (Inl e)
        then show ?thesis using Cons.prems(2) Some check r
          by (intro later [of "bump ''ERROR'' counts" w1 s]) (simp_all add: others_same_def)
      next
        case (Inr x)
        obtain status p1 where x: "x = (status, p1)" by fastforce
        have put: "portfolio_step s (put_property p1 s) \<and> others_same i s (put_property p1 s)"
          by (rule check_portfolio_step [OF Cons.prems(1) Some r [unfolded Inr x]])
        show ?thesis
        proof (cases "status = ''RATE_LIMITED''")
          case True
          then have "fin = False" "counts' = bump ''RATE_LIMITED'' counts" "s' = put_property p1 s"
            using Cons.prems(2) Some check r Inr x by simp_all
          then show ?thesis using put by (intro conjI exI [of _ 1]) (auto simp: others_same_def in_bump)
        next
          case False
          obtain c v t where t: "after_check env re now status p1 (bump status counts) w1 (put_property p1 s) = (c, v, t)"
            by (metis prod_cases3)
          note after = after_check_step [OF t]
          have "portfolio_step s t" "others_same i s t"
            using put after portfolio_step_trans others_same_trans [OF _ others_same_company] by blast+
          then show ?thesis using Cons.prems(2) Some check r Inr x False t by (intro later [of c v t]) simp_all
        qed
      qed
    qed
  qed
qed

text \<open>How a run ends: on the first exhausted quota, at the property whose check met it, or after all of them.\<close>

lemma bump_keys: "fst ` set (bump k d) = insert k (fst ` set d)"
  by (induction d rule: bump.induct) auto

definition no_quota_met :: "counts \<Rightarrow> bool" where
  "no_quota_met counts \<longleftrightarrow> ''RATE_LIMITED'' \<notin> fst ` set counts"

lemma no_quota_bump [simp]: "no_quota_met (bump k d) \<longleftrightarrow> k \<noteq> ''RATE_LIMITED'' \<and> no_quota_met d"
  by (auto simp: no_quota_met_def bump_keys)

lemma no_quota_add: "k \<noteq> ''RATE_LIMITED'' \<Longrightarrow> no_quota_met d \<Longrightarrow> no_quota_met (add_count k n d)"
proof -
  have "fst ` set (bump_by k n d) \<subseteq> insert k (fst ` set d)"
    by (induction k n d rule: bump_by.induct) auto
  then show "k \<noteq> ''RATE_LIMITED'' \<Longrightarrow> no_quota_met d \<Longrightarrow> ?thesis"
    unfolding add_count_def no_quota_met_def by auto
qed

lemma commutes_step_quota:
  "commutes_step env re now p counts w s = (counts', w', s') \<Longrightarrow> no_quota_met counts \<Longrightarrow> no_quota_met counts'"
  by (auto simp: commutes_step_def Let_def no_quota_add split: sum.splits prod.splits)

lemma after_check_quota:
  "after_check env re now status p counts w s = (counts', w', s') \<Longrightarrow> no_quota_met counts \<Longrightarrow> no_quota_met counts'"
  by (auto simp: after_check_def no_quota_add split: if_splits sum.splits prod.splits)

definition stops_at_quota ::
  "'w company_env \<Rightarrow> 'w research_env \<Rightarrow> bool \<Rightarrow> bool \<Rightarrow> datetime \<Rightarrow> uuid list \<Rightarrow> counts \<Rightarrow> 'w \<Rightarrow> db \<Rightarrow>
   uuid list \<Rightarrow> uuid \<Rightarrow> uuid list \<Rightarrow> counts \<Rightarrow> 'w \<Rightarrow> db \<Rightarrow> bool" where
  "stops_at_quota env re only force now is counts w s before i later counts' w' s' \<longleftrightarrow>
     is = before @ i # later \<and>
     (\<exists>counts1 w1 s1 p p1. refresh_properties env re only force now before counts w s = (True, counts1, w1, s1) \<and>
        no_quota_met counts1 \<and> get_by cpy_id i (db_company s1) = Some p \<and>
        company_check env force now s1 p w1 = (Inr (''RATE_LIMITED'', p1), w') \<and>
        counts' = bump ''RATE_LIMITED'' counts1 \<and> s' = put_property p1 s1)"

lemma refresh_properties_end:
  assumes "refresh_properties env re only force now is counts w s = (fin, counts', w', s')"
    and "no_quota_met counts"
  shows "if fin then no_quota_met counts'
    else \<exists>before i later. stops_at_quota env re only force now is counts w s before i later counts' w' s'"
  (is "?ends is counts w s")
  using assms
proof (induction "is" arbitrary: counts w s)
  case Nil
  then show ?case by simp
next
  case (Cons j ids)
  have go_on: "?ends (j # ids) counts w s"
    if step: "\<And>xs. refresh_properties env re only force now (j # xs) counts w s = refresh_properties env re only force now xs c v t"
      and fresh: "no_quota_met c" for c v t
  proof -
    have "refresh_properties env re only force now ids c v t = (fin, counts', w', s')"
      using Cons.prems(1) step by simp
    from Cons.IH [OF this fresh] have IH: "?ends ids c v t" .
    show ?thesis
    proof (cases fin)
      case False
      with IH obtain before i later where "stops_at_quota env re only force now ids c v t before i later counts' w' s'"
        by auto
      then have "stops_at_quota env re only force now (j # ids) counts w s (j # before) i later counts' w' s'"
        using step [of before] by (simp add: stops_at_quota_def del: refresh_properties.simps)
      with False show ?thesis by auto
    qed (use IH in simp)
  qed
  show ?case
  proof (cases "get_by cpy_id j (db_company s)")
    case None
    then show ?thesis using Cons.prems(2) by (intro go_on [of counts w s]) simp_all
  next
    case (Some p)
    consider (commutes) "only" | (fresh) "\<not> only" "fresh_check force now p" | (check) "\<not> only" "\<not> fresh_check force now p"
      by blast
    then show ?thesis
    proof cases
      case commutes
      obtain c v t where t: "commutes_step env re now p counts w s = (c, v, t)" by (metis prod_cases3)
      have "no_quota_met c" using commutes_step_quota [OF t] Cons.prems(2) by auto
      then show ?thesis using Some commutes t by (intro go_on [of c v t]) simp_all
    next
      case fresh
      then show ?thesis using Cons.prems(2) Some
        by (intro go_on [of "bump ''SKIPPED_FRESH'' counts" w s]) simp_all
    next
      case check
      obtain r w1 where r: "company_check env force now s p w = (r, w1)" by fastforce
      show ?thesis
      proof (cases r)
        case (Inl e)
        then show ?thesis using Cons.prems(2) Some check r
          by (intro go_on [of "bump ''ERROR'' counts" w1 s]) simp_all
      next
        case (Inr x)
        obtain status p1 where x: "x = (status, p1)" by fastforce
        show ?thesis
        proof (cases "status = ''RATE_LIMITED''")
          case True
          then have stop: "fin = False" "counts' = bump ''RATE_LIMITED'' counts" "w' = w1" "s' = put_property p1 s"
            using Cons.prems(1) Some check r Inr x by simp_all
          then have "stops_at_quota env re only force now (j # ids) counts w s [] j ids counts' w' s'"
            using Cons.prems(2) Some r Inr x True by (simp add: stops_at_quota_def)
          with stop(1) show ?thesis by auto
        next
          case False
          obtain c v t where t: "after_check env re now status p1 (bump status counts) w1 (put_property p1 s) = (c, v, t)"
            by (metis prod_cases3)
          have "no_quota_met c"
            using after_check_quota [OF t] Cons.prems(2) False by simp
          then show ?thesis using Some check r Inr x False t by (intro go_on [of c v t]) simp_all
        qed
      qed
    qed
  qed
qed

lemma kept_distinct: "portfolio_step s t \<Longrightarrow> distinct (map cpy_id (db_company s)) \<Longrightarrow> distinct (map cpy_id (db_company t))"
  using kept_ids [of "db_company s" "db_company t"] by (simp add: portfolio_step_def)

lemma stopped_others:
  assumes "stops_at_quota env re only force now is counts w s before i later counts' w' s'"
    and "distinct (map cpy_id (db_company s))" "j \<notin> set before" "j \<noteq> i"
  shows "get_by cpy_id j (db_company s') = get_by cpy_id j (db_company s)"
proof -
  from assms(1) obtain counts1 w1 s1 p p1 where
    run: "refresh_properties env re only force now before counts w s = (True, counts1, w1, s1)"
    and p: "get_by cpy_id i (db_company s1) = Some p"
    and check: "company_check env force now s1 p w1 = (Inr (''RATE_LIMITED'', p1), w')" and s': "s' = put_property p1 s1"
    unfolding stops_at_quota_def by blast
  from refresh_properties_step [OF assms(2) run] obtain k where k: "portfolio_step s s1"
      "\<forall>j. j \<notin> set (take k before) \<longrightarrow> get_by cpy_id j (db_company s1) = get_by cpy_id j (db_company s)" by blast
  have "others_same i s1 s'"
    unfolding s' using check_portfolio_step [OF kept_distinct [OF k(1) assms(2)] p check] by blast
  moreover have "j \<notin> set (take k before)" using assms(3) set_take_subset by fast
  ultimately show ?thesis using k(2) assms(4) by (simp add: others_same_def)
qed

definition run_order :: "(string \<Rightarrow> nat) \<Rightarrow> refresh_mode \<Rightarrow> db \<Rightarrow> uuid list" where
  "run_order rank mode s = map cpy_id (sort_key (\<lambda>p. rank (cpy_name p))
     (filter (\<lambda>p. mode = CheckFailed \<longrightarrow> cpy_check_status p \<noteq> ''CHECKED'') (db_company s)))"

text \<open>
  C35. A portfolio run, in any mode, writes only rows of the portfolio, never a column the owner's file supplies
  (a missing address may be filled), and new commute estimates with their audit rows.  It goes through all
  its properties exactly as long as no check is refused for its quota; the first refused check ends it: the
  properties before it, in the order of the run, were gone through without a refusal, nothing is called or
  written after that check, and every property it had not come to is as it was.
\<close>
theorem portfolio_run_scope:
  assumes "distinct (map cpy_id (db_company s))"
    and "run_company_refresh rank env re mode now w s = (fin, counts, w', s')"
  shows "portfolio_step s s' \<and> (if fin then no_quota_met counts
    else \<exists>before i later. stops_at_quota env re (mode = CommutesOnly) (mode = CheckForce) now (run_order rank mode s) [] w s
        before i later counts w' s' \<and>
      (\<forall>j. j \<notin> set before \<and> j \<noteq> i \<longrightarrow> get_by cpy_id j (db_company s') = get_by cpy_id j (db_company s)))"
proof -
  have run: "refresh_properties env re (mode = CommutesOnly) (mode = CheckForce) now (run_order rank mode s) [] w s =
      (fin, counts, w', s')"
    using assms(2) by (simp add: run_company_refresh_def run_order_def)
  from refresh_properties_step [OF assms(1) run] have "portfolio_step s s'" by blast
  moreover from refresh_properties_end [OF run] have "if fin then no_quota_met counts
    else \<exists>before i later. stops_at_quota env re (mode = CommutesOnly) (mode = CheckForce) now (run_order rank mode s) [] w s
        before i later counts w' s'" by (simp add: no_quota_met_def)
  ultimately show ?thesis
  proof (cases fin)
    case False
    with \<open>if fin then _ else _\<close> obtain before i later where
      "stops_at_quota env re (mode = CommutesOnly) (mode = CheckForce) now (run_order rank mode s) [] w s
        before i later counts w' s'" by auto
    with False \<open>portfolio_step s s'\<close> stopped_others [OF this assms(1)] show ?thesis
      unfolding if_not_P [OF False] by blast
  qed simp
qed

text \<open>
  An ordinary run costs nothing while every property was checked successfully within a day: it contacts no
  service, leaves the database alone and counts each property as skipped.
\<close>
theorem fresh_portfolio_is_skipped:
  assumes "\<forall>p \<in> set (db_company s). fresh_check False now p"
  shows "run_company_refresh rank env re CheckAll now w s =
    (True, if db_company s = [] then [] else [(''SKIPPED_FRESH'', length (db_company s))], w, s)"
proof -
  have all: "refresh_properties env re False False now is counts w s =
      (True, (bump ''SKIPPED_FRESH'' ^^ length is) counts, w, s)" if "set is \<subseteq> cpy_id ` set (db_company s)" for "is" counts
    using that
  proof (induction "is" arbitrary: counts)
    case (Cons i ids)
    then obtain p where "get_by cpy_id i (db_company s) = Some p"
      by (metis get_by_None_iff list.set_intros(1) not_None_eq subsetD)
    moreover then have "fresh_check False now p" using assms get_by_SomeD by fast
    ultimately show ?case using Cons by (simp add: funpow_swap1)
  qed simp
  have "(bump ''SKIPPED_FRESH'' ^^ n) [] = (if n = 0 then [] else [(''SKIPPED_FRESH'', n)])" for n
    by (induction n) auto
  then show ?thesis
    using all [of "map cpy_id (sort_key (\<lambda>p. rank (cpy_name p)) (db_company s))" "[]"]
    by (simp add: run_company_refresh_def)
qed

section \<open>Examples\<close>

text \<open>An environment whose pages are blocked and whose search is refused, one with an official site, one without quota.\<close>

definition refused_search :: "unit SearchProvider" where
  "refused_search = \<lparr>sv_interface_version = ''1.0.0'', sv_provider_code = ''tavily'',
     sv_search = (\<lambda>q w. (Inr (search_failure ProviderRequestStatus.RATE_LIMITED ''HTTP_429''), w))\<rparr>"

definition demo_company_env :: "unit company_env" where
  "demo_company_env = \<lparr>ce_extract = (\<lambda>u w. (Inr None, w)), ce_search = Some refused_search, ce_llm = demo_llm JNull,
     ce_geocoders = [], ce_router = None, ce_meters = (\<lambda>a b. 100), ce_dash = CHR ''-'', ce_instructions = [],
     ce_schema = JNull, ce_show_json = (\<lambda>j. []), ce_show_id = (\<lambda>i. []), ce_iso = (\<lambda>t. [])\<rparr>"

definition found_search :: "unit SearchProvider" where
  "found_search = \<lparr>sv_interface_version = ''1.0.0'', sv_provider_code = ''tavily'',
     sv_search = (\<lambda>q w. (Inr \<lparr>sp_status = ProviderRequestStatus.SUCCEEDED,
       sp_items = [demo_result ''https://zillow.com/x'', demo_result ''https://w.example''],
       sp_provider_result_id = None, sp_error_code = None\<rparr>, w))\<rparr>"

definition repairing_env :: "unit company_env" where
  "repairing_env = demo_company_env\<lparr>ce_search := Some found_search,
     ce_extract := (\<lambda>u w. (Inr (if u = ''https://w.example'' then Some ''At 160 Water St'' else None), w))\<rparr>"

definition no_quota_env :: "unit company_env" where
  "no_quota_env = demo_company_env\<lparr>ce_extract := (\<lambda>u w. (Inl TavilyQuotaError, w))\<rparr>"

definition demo_portfolio :: db where
  "demo_portfolio = empty_db\<lparr>db_company := [demo_property, demo_property\<lparr>cpy_id := 61, cpy_name := ''b''\<rparr>]\<rparr>"

definition demo_research :: "unit research_env" where
  "demo_research = \<lparr>re_dates = demo_dates, re_digest = demo_digest, re_schema = JNull, re_cache_days = 14\<rparr>"

lemma demo_exhausted: "search_exhausted demo_company_env"
  by (simp add: search_exhausted_def demo_company_env_def refused_search_def search_failure_def)

lemma demo_page_name: "page_name demo_company_env (name_as_address demo_property) = Inr None"
  by code_simp

theorem exhausted_search_wipes_snapshot_witness:
  "\<exists>p'. fst (company_check demo_company_env True 9 empty_db demo_property ()) = Inr (''FAILED'', p') \<and>
     cpy_availability demo_property \<noteq> None \<and> cpy_availability p' = None"
proof -
  have "readable_url (cpy_resolved_url demo_property)" "cpy_availability demo_property \<noteq> None"
    by (simp_all add: demo_property_def readable_url_def given_def)
  with exhausted_search_wipes_snapshot [OF demo_exhausted demo_page_name, where s = empty_db and now = 9 and w = "()"]
  show ?thesis by auto
qed

lemma demo_company_checked:
  obtains p' where "company_check demo_company_env False 9 empty_db demo_property () = (Inr (''FAILED'', p'), ())"
proof -
  have "case fst (company_check demo_company_env False 9 empty_db demo_property ()) of
      Inl e \<Rightarrow> False | Inr (st, p) \<Rightarrow> st = ''FAILED''"
    by code_simp
  then show thesis
    using that by (cases "company_check demo_company_env False 9 empty_db demo_property ()")
      (auto split: sum.splits prod.splits)
qed

theorem company_check_scope_witness:
  "\<exists>p'. fst (company_check demo_company_env False 9 empty_db demo_property ()) = Inr (''FAILED'', p') \<and>
     cpy_availability p' = cpy_availability demo_property"
proof -
  obtain p' where run: "company_check demo_company_env False 9 empty_db demo_property () = (Inr (''FAILED'', p'), ())"
    by (rule demo_company_checked)
  from company_check_scope [OF run] run show ?thesis by simp
qed

theorem repaired_link_is_guarded_witness:
  "\<exists>t kind. fst (fetch_company_page repairing_env demo_property ()) = Inr (Some (t, ''https://w.example'', kind)) \<and>
     page_mentions_property t demo_property"
proof -
  have "fst (fetch_company_page repairing_env demo_property ()) =
      Inr (Some (''At 160 Water St'', ''https://w.example'', ''OFFICIAL_SITE''))"
    by code_simp
  then have run: "fetch_company_page repairing_env demo_property () =
      (Inr (Some (''At 160 Water St'', ''https://w.example'', ''OFFICIAL_SITE'')), ())"
    by (simp add: prod_eq_iff)
  have "cpy_resolved_url demo_property \<noteq> Some ''https://w.example''" "cpy_original_url demo_property \<noteq> Some ''https://w.example''"
    by (simp_all add: demo_property_def)
  with repaired_link_is_guarded [OF run] run show ?thesis by auto
qed

theorem rate_limited_check_writes_address_witness:
  "\<exists>p'. fst (company_check no_quota_env False 9 empty_db demo_property ()) = Inr (''RATE_LIMITED'', p') \<and> p' \<noteq> demo_property"
proof -
  have "case fst (company_check no_quota_env False 9 empty_db demo_property ()) of
      Inl e \<Rightarrow> False | Inr (st, p) \<Rightarrow> st = ''RATE_LIMITED''"
    by code_simp
  then obtain p' where run: "company_check no_quota_env False 9 empty_db demo_property () = (Inr (''RATE_LIMITED'', p'), ())"
    by (cases "company_check no_quota_env False 9 empty_db demo_property ()") (auto split: sum.splits prod.splits)
  have "looks_like_address (cpy_name demo_property)" "given (cpy_address_text demo_property) = None" by code_simp+
  with conjunct2 [OF rate_limited_check_writes_address [OF run]] have "p' \<noteq> demo_property" by blast
  then show ?thesis by (intro exI [of _ p'] conjI) (simp add: run)
qed

theorem portfolio_run_scope_witness:
  "\<exists>counts s. run_company_refresh length no_quota_env demo_research CheckAll 9 () demo_portfolio = (False, counts, (), s) \<and>
     portfolio_step demo_portfolio s \<and> (\<exists>before i later w1 s1 counts1. run_order length CheckAll demo_portfolio = before @ i # later \<and>
       refresh_properties no_quota_env demo_research False False 9 before [] () demo_portfolio = (True, counts1, w1, s1))"
proof -
  have "fst (run_company_refresh length no_quota_env demo_research CheckAll 9 () demo_portfolio) = False" by code_simp
  then obtain counts s where run: "run_company_refresh length no_quota_env demo_research CheckAll 9 () demo_portfolio =
      (False, counts, (), s)"
    by (metis (full_types) old.unit.exhaust prod.exhaust_sel)
  have "distinct (map cpy_id (db_company demo_portfolio))" by (simp add: demo_portfolio_def demo_property_def)
  from portfolio_run_scope [OF this run] obtain before i later where "portfolio_step demo_portfolio s"
    "stops_at_quota no_quota_env demo_research (CheckAll = CommutesOnly) (CheckAll = CheckForce) 9
       (run_order length CheckAll demo_portfolio) [] () demo_portfolio before i later counts () s"
    unfolding if_False by (elim conjE exE)
  with run show ?thesis by (auto simp: stops_at_quota_def)
qed

definition fresh_portfolio :: db where
  "fresh_portfolio = empty_db\<lparr>db_company := [demo_property\<lparr>cpy_check_status := ''CHECKED'', cpy_last_checked_at := Some 5\<rparr>]\<rparr>"

theorem fresh_portfolio_is_skipped_witness:
  "run_company_refresh length no_quota_env demo_research CheckAll 9 () fresh_portfolio =
     (True, [(''SKIPPED_FRESH'', 1)], (), fresh_portfolio)"
proof -
  have "\<forall>p \<in> set (db_company fresh_portfolio). fresh_check False 9 p"
    by (simp add: fresh_portfolio_def fresh_check_def STALE_AFTER_def days_us_def)
  from fresh_portfolio_is_skipped [OF this] show ?thesis by (simp add: fresh_portfolio_def)
qed

definition demo_unit :: "int \<Rightarrow> CompanyUnit" where
  "demo_unit rent = \<lparr>cu_unit_label = None, cu_layout = None, cu_monthly_rent_usd = Some rent, cu_availability_text = None\<rparr>"

theorem check_log_compares_witness:
  "\<exists>p1 p3 newest older. append_check_log demo_company_env ''CHECKED'' [demo_unit 3000] 9 demo_property = Inr p1 \<and>
     append_check_log demo_company_env ''CHECKED'' [demo_unit 3100] 10 p1 = Inr p3 \<and>
     cpy_check_log p3 = Some (newest # older) \<and> json_get ''event'' newest = Some (JStr ''PRICE_CHANGED'')"
proof -
  have "case append_check_log demo_company_env ''CHECKED'' [demo_unit 3000] 9 demo_property of
      Inl e \<Rightarrow> False
    | Inr p \<Rightarrow> (case cpy_check_log p of Some (entry # older) \<Rightarrow>
        (case append_check_log demo_company_env ''CHECKED'' [demo_unit 3100] 10 p of Inl e \<Rightarrow> False | Inr q \<Rightarrow> True)
      | _ \<Rightarrow> False)"
    by code_simp
  then obtain p1 entry older p3 where run:
      "append_check_log demo_company_env ''CHECKED'' [demo_unit 3000] 9 demo_property = Inr p1"
      "cpy_check_log p1 = Some (entry # older)"
      "append_check_log demo_company_env ''CHECKED'' [demo_unit 3100] 10 p1 = Inr p3"
    by (auto split: sum.splits option.splits list.splits)
  from check_log_compares [OF run(1,2) _ _ run(3), of "[]"] run show ?thesis
    by (auto simp: demo_unit_def unit_rents_def extreme_def)
qed

end
