(* ===== verification/Discard.thy ===== *)
theory Discard
  imports Schema
begin

text \<open>
  \<open>discard_inventory\<close> of \<open>jobs/weekday_refresh.py\<close>: the tables of the schema, the foreign keys the
  ORM models declare between them, \<open>TRUNCATE ... CASCADE\<close> along those keys, and the rows that are put
  back afterwards.  Tables the development keeps no rows of have no key from a table it keeps, so the
  truncation does not travel through them.
\<close>

section \<open>Tables and foreign keys\<close>

datatype tbl =
    app_address
  | app_building
  | app_unit
  | app_canonical_listing
  | app_listing_source_link
  | app_canonical_merge
  | app_duplicate_candidate
  | app_source
  | ops_refresh_run
  | ops_source_run
  | raw_source_observation
  | ops_adapter_checkpoint
  | app_fact_assertion
  | app_fact_resolution
  | app_listing_event
  | app_human_override
  | app_review_issue
  | app_marketing_selection
  | app_client_search_preset
  | app_client_shortlist_entry
  | audit_action_log
  | ops_job
  | ops_job_attempt
  | ops_provider_request
  | config_geographic_boundary
  | app_transit_stop
  | app_transit_route
  | app_transit_access
  | app_destination
  | app_commute_result
  | ops_model_execution
  | app_company_property
  | app_media_asset
  | app_media_association

definition all_tables :: "tbl list" where
  "all_tables = [
     app_address, app_building, app_unit, app_canonical_listing, app_listing_source_link,
     app_canonical_merge, app_duplicate_candidate, app_source, ops_refresh_run, ops_source_run,
     raw_source_observation, ops_adapter_checkpoint, app_fact_assertion, app_fact_resolution,
     app_listing_event, app_human_override, app_review_issue, app_marketing_selection,
     app_client_search_preset, app_client_shortlist_entry, audit_action_log, ops_job,
     ops_job_attempt, ops_provider_request, config_geographic_boundary, app_transit_stop,
     app_transit_route, app_transit_access, app_destination, app_commute_result,
     ops_model_execution, app_company_property, app_media_asset, app_media_association]"

definition foreign_keys :: "(tbl \<times> tbl) list" where
  "foreign_keys = [
     (app_address, app_source), (app_building, app_address), (app_unit, app_building),
     (app_canonical_listing, app_building), (app_canonical_listing, app_unit),
     (app_listing_source_link, app_canonical_listing), (app_listing_source_link, app_source),
     (app_listing_source_link, raw_source_observation),
     (app_canonical_merge, app_canonical_listing),
     (app_duplicate_candidate, app_canonical_listing), (ops_source_run, ops_refresh_run),
     (ops_source_run, app_source), (raw_source_observation, app_source),
     (raw_source_observation, ops_source_run), (ops_adapter_checkpoint, ops_source_run),
     (app_fact_assertion, raw_source_observation), (app_fact_assertion, app_media_asset),
     (app_fact_assertion, ops_provider_request), (app_fact_assertion, ops_model_execution),
     (app_fact_resolution, app_fact_assertion), (app_listing_event, app_canonical_listing),
     (app_listing_event, ops_refresh_run), (app_listing_event, raw_source_observation),
     (app_marketing_selection, app_canonical_listing),
     (app_marketing_selection, app_company_property),
     (app_client_shortlist_entry, app_client_search_preset),
     (app_client_shortlist_entry, app_canonical_listing),
     (app_client_shortlist_entry, app_company_property), (ops_job, ops_refresh_run),
     (ops_job, app_canonical_listing), (ops_job_attempt, ops_job),
     (ops_provider_request, app_source), (app_transit_stop, app_source),
     (app_transit_stop, app_transit_stop), (app_transit_route, app_source),
     (app_transit_access, app_canonical_listing), (app_transit_access, app_transit_stop),
     (app_transit_access, ops_provider_request), (app_destination, app_address),
     (app_commute_result, app_canonical_listing), (app_commute_result, app_company_property),
     (app_commute_result, app_destination), (app_commute_result, ops_provider_request),
     (app_commute_result, ops_model_execution), (ops_model_execution, ops_job),
     (ops_model_execution, ops_model_execution), (app_company_property, app_building),
     (app_media_asset, app_source), (app_media_asset, raw_source_observation),
     (app_media_asset, ops_model_execution), (app_media_association, app_media_asset),
     (app_media_association, app_building), (app_media_association, app_unit),
     (app_media_association, app_canonical_listing)]"

text \<open>The references a row holds, one per foreign key column that is not NULL.\<close>

definition of_key :: "tbl \<Rightarrow> uuid \<Rightarrow> (tbl \<times> uuid) list" where
  "of_key t i = [(t, i)]"

definition of_option :: "tbl \<Rightarrow> uuid option \<Rightarrow> (tbl \<times> uuid) list" where
  "of_option t i = (case i of None \<Rightarrow> [] | Some j \<Rightarrow> [(t, j)])"

definition row_refs :: "('r \<Rightarrow> (tbl \<times> uuid) list) \<Rightarrow> 'r list \<Rightarrow> (tbl \<times> uuid) list" where
  "row_refs f rs = concat (map f rs)"

primrec table_ids :: "tbl \<Rightarrow> db \<Rightarrow> uuid list" where
  "table_ids app_address s = map ad_id (db_addresses s)"
| "table_ids app_building s = map bd_id (db_buildings s)"
| "table_ids app_unit s = map un_id (db_units s)"
| "table_ids app_canonical_listing s = map cl_id (db_listings s)"
| "table_ids app_listing_source_link s = map lk_id (db_links s)"
| "table_ids app_canonical_merge s = map mg_id (db_merges s)"
| "table_ids app_duplicate_candidate s = map dc_id (db_candidates s)"
| "table_ids app_source s = map sc_id (db_sources s)"
| "table_ids ops_refresh_run s = map rr_id (db_refresh_runs s)"
| "table_ids ops_source_run s = map sr_id (db_source_runs s)"
| "table_ids raw_source_observation s = map so_id (db_observations s)"
| "table_ids ops_adapter_checkpoint s = map ck_id (db_checkpoints s)"
| "table_ids app_fact_assertion s = map fa_id (db_assertions s)"
| "table_ids app_fact_resolution s = map fr_id (db_resolutions s)"
| "table_ids app_listing_event s = map ev_id (db_events s)"
| "table_ids app_human_override s = map ho_id (db_overrides s)"
| "table_ids app_review_issue s = map ri_id (db_issues s)"
| "table_ids app_marketing_selection s = map ms_id (db_selections s)"
| "table_ids app_client_search_preset s = map cp_id (db_presets s)"
| "table_ids app_client_shortlist_entry s = map ce_id (db_entries s)"
| "table_ids audit_action_log s = map al_id (db_audit_log s)"
| "table_ids ops_job s = map jb_id (db_jobs s)"
| "table_ids ops_job_attempt s = map ja_id (db_attempts s)"
| "table_ids ops_provider_request s = map pr_id (db_provider_requests s)"
| "table_ids config_geographic_boundary s = map gb_id (db_boundaries s)"
| "table_ids app_transit_stop s = map sto_id (db_stops s)"
| "table_ids app_transit_route s = map rte_id (db_routes s)"
| "table_ids app_transit_access s = map acc_id (db_access s)"
| "table_ids app_destination s = map dst_id (db_destinations s)"
| "table_ids app_commute_result s = map cmr_id (db_commutes s)"
| "table_ids ops_model_execution s = map mex_id (db_executions s)"
| "table_ids app_company_property s = map cpy_id (db_company s)"
| "table_ids app_media_asset s = map mas_id (db_media s)"
| "table_ids app_media_association s = map mac_id (db_media_links s)"

primrec table_refs :: "tbl \<Rightarrow> db \<Rightarrow> (tbl \<times> uuid) list" where
  "table_refs app_address s = row_refs (\<lambda>r. of_option app_source (ad_geocoder_source_id r)) (db_addresses s)"
| "table_refs app_building s = row_refs (\<lambda>r. of_key app_address (bd_address_id r)) (db_buildings s)"
| "table_refs app_unit s = row_refs (\<lambda>r. of_key app_building (un_building_id r)) (db_units s)"
| "table_refs app_canonical_listing s = row_refs (\<lambda>r. of_key app_building (cl_building_id r) @
       of_option app_unit (cl_unit_id r)) (db_listings s)"
| "table_refs app_listing_source_link s = row_refs (\<lambda>r. of_key app_canonical_listing (lk_canonical_listing_id r) @
       of_key app_source (lk_source_id r) @
       of_key raw_source_observation (lk_first_observation_id r) @
       of_key raw_source_observation (lk_latest_observation_id r)) (db_links s)"
| "table_refs app_canonical_merge s = row_refs (\<lambda>r. of_key app_canonical_listing (mg_source_listing_id r) @
       of_key app_canonical_listing (mg_target_listing_id r)) (db_merges s)"
| "table_refs app_duplicate_candidate s = row_refs (\<lambda>r. of_key app_canonical_listing (dc_listing_a_id r) @
       of_key app_canonical_listing (dc_listing_b_id r)) (db_candidates s)"
| "table_refs app_source s = []"
| "table_refs ops_refresh_run s = []"
| "table_refs ops_source_run s = row_refs (\<lambda>r. of_key ops_refresh_run (sr_refresh_run_id r) @
       of_key app_source (sr_source_id r)) (db_source_runs s)"
| "table_refs raw_source_observation s = row_refs (\<lambda>r. of_key app_source (so_source_id r) @
       of_key ops_source_run (so_source_run_id r)) (db_observations s)"
| "table_refs ops_adapter_checkpoint s = row_refs (\<lambda>r. of_key ops_source_run (ck_source_run_id r)) (db_checkpoints s)"
| "table_refs app_fact_assertion s = row_refs (\<lambda>r. of_option raw_source_observation (fa_source_observation_id r) @
       of_option app_media_asset (fa_media_asset_id r) @
       of_option ops_provider_request (fa_provider_request_id r) @
       of_option ops_model_execution (fa_model_execution_id r)) (db_assertions s)"
| "table_refs app_fact_resolution s = row_refs (\<lambda>r. of_option app_fact_assertion (fr_effective_assertion_id r)) (db_resolutions s)"
| "table_refs app_listing_event s = row_refs (\<lambda>r. of_key app_canonical_listing (ev_canonical_listing_id r) @
       of_option ops_refresh_run (ev_refresh_run_id r) @
       of_option raw_source_observation (ev_source_observation_id r)) (db_events s)"
| "table_refs app_human_override s = []"
| "table_refs app_review_issue s = []"
| "table_refs app_marketing_selection s = row_refs (\<lambda>r. of_option app_canonical_listing (ms_canonical_listing_id r) @
       of_option app_company_property (ms_company_property_id r)) (db_selections s)"
| "table_refs app_client_search_preset s = []"
| "table_refs app_client_shortlist_entry s = row_refs (\<lambda>r. of_key app_client_search_preset (ce_client_search_preset_id r) @
       of_option app_canonical_listing (ce_canonical_listing_id r) @
       of_option app_company_property (ce_company_property_id r)) (db_entries s)"
| "table_refs audit_action_log s = []"
| "table_refs ops_job s = row_refs (\<lambda>r. of_option ops_refresh_run (jb_refresh_run_id r) @
       of_option app_canonical_listing (jb_canonical_listing_id r)) (db_jobs s)"
| "table_refs ops_job_attempt s = row_refs (\<lambda>r. of_key ops_job (ja_job_id r)) (db_attempts s)"
| "table_refs ops_provider_request s = row_refs (\<lambda>r. of_key app_source (pr_source_id r)) (db_provider_requests s)"
| "table_refs config_geographic_boundary s = []"
| "table_refs app_transit_stop s = row_refs (\<lambda>r. of_key app_source (sto_provider_source_id r) @
       of_option app_transit_stop (sto_parent_stop_id r)) (db_stops s)"
| "table_refs app_transit_route s = row_refs (\<lambda>r. of_key app_source (rte_provider_source_id r)) (db_routes s)"
| "table_refs app_transit_access s = row_refs (\<lambda>r. of_key app_canonical_listing (acc_canonical_listing_id r) @
       of_key app_transit_stop (acc_transit_stop_id r) @
       of_option ops_provider_request (acc_route_provider_request_id r)) (db_access s)"
| "table_refs app_destination s = row_refs (\<lambda>r. of_option app_address (dst_address_id r)) (db_destinations s)"
| "table_refs app_commute_result s = row_refs (\<lambda>r. of_option app_canonical_listing (cmr_canonical_listing_id r) @
       of_option app_company_property (cmr_company_property_id r) @
       of_key app_destination (cmr_destination_id r) @
       of_option ops_provider_request (cmr_provider_request_id r) @
       of_option ops_model_execution (cmr_model_execution_id r)) (db_commutes s)"
| "table_refs ops_model_execution s = row_refs (\<lambda>r. of_option ops_job (mex_job_id r) @
       of_option ops_model_execution (mex_escalated_from_id r)) (db_executions s)"
| "table_refs app_company_property s = row_refs (\<lambda>r. of_option app_building (cpy_matched_building_id r)) (db_company s)"
| "table_refs app_media_asset s = row_refs (\<lambda>r. of_key app_source (mas_source_id r) @
       of_option raw_source_observation (mas_source_observation_id r) @
       of_option ops_model_execution (mas_model_execution_id r)) (db_media s)"
| "table_refs app_media_association s = row_refs (\<lambda>r. of_key app_media_asset (mac_media_asset_id r) @
       of_option app_building (mac_building_id r) @
       of_option app_unit (mac_unit_id r) @
       of_option app_canonical_listing (mac_canonical_listing_id r)) (db_media_links s)"

definition refs_hold :: "tbl \<Rightarrow> db \<Rightarrow> bool" where
  "refs_hold t s \<longleftrightarrow> list_all (\<lambda>(u, i). i \<in> set (table_ids u s)) (table_refs t s)"

text \<open>The database as PostgreSQL keeps it: no reference dangles.\<close>

definition well_referenced :: "db \<Rightarrow> bool" where
  "well_referenced s \<longleftrightarrow> list_all (\<lambda>t. refs_hold t s) all_tables"

text \<open>The CHECK constraints on rows that are about a listing or about a company property.\<close>

definition exactly_one_target :: "uuid option \<Rightarrow> uuid option \<Rightarrow> bool" where
  "exactly_one_target listing company \<longleftrightarrow> (listing = None) \<noteq> (company = None)"

definition targets_ok :: "db \<Rightarrow> bool" where
  "targets_ok s \<longleftrightarrow>
     list_all (\<lambda>r. exactly_one_target (ms_canonical_listing_id r) (ms_company_property_id r)) (db_selections s) \<and>
     list_all (\<lambda>r. exactly_one_target (ce_canonical_listing_id r) (ce_company_property_id r)) (db_entries s) \<and>
     list_all (\<lambda>r. exactly_one_target (cmr_canonical_listing_id r) (cmr_company_property_id r)) (db_commutes s)"

section \<open>Truncation\<close>

text \<open>
  \<open>TRUNCATE ts CASCADE\<close>: the tables named, and every table with a foreign key to a table of the group,
  whatever rows there are.
\<close>

definition pulled_in :: "tbl list \<Rightarrow> tbl list" where
  "pulled_in ts = filter (\<lambda>t. t \<notin> set ts \<and> list_ex (\<lambda>u. (t, u) \<in> set foreign_keys) ts) all_tables"

function truncated :: "tbl list \<Rightarrow> tbl list" where
  "truncated ts = (if pulled_in ts = [] then ts else truncated (ts @ pulled_in ts))"
  by pat_completeness auto
termination
proof (relation "measure (\<lambda>ts. length (filter (\<lambda>t. t \<notin> set ts) all_tables))")
  fix ts assume "pulled_in ts \<noteq> []"
  then obtain t where t: "t \<in> set (pulled_in ts)" by (cases "pulled_in ts") auto
  have "filter (\<lambda>u. u \<notin> set (ts @ pulled_in ts)) all_tables =
      filter (\<lambda>u. u \<notin> set (pulled_in ts)) (filter (\<lambda>u. u \<notin> set ts) all_tables)"
    by (simp add: conj_commute)
  moreover have "t \<in> set (filter (\<lambda>u. u \<notin> set ts) all_tables)" using t by (auto simp: pulled_in_def)
  ultimately show "(ts @ pulled_in ts, ts) \<in> measure (\<lambda>ts. length (filter (\<lambda>t. t \<notin> set ts) all_tables))"
    using length_filter_less [of t "filter (\<lambda>u. u \<notin> set ts) all_tables" "\<lambda>u. u \<notin> set (pulled_in ts)"] t by simp
qed simp

primrec clear_table :: "tbl \<Rightarrow> db \<Rightarrow> db" where
  "clear_table app_address s = s\<lparr>db_addresses := []\<rparr>"
| "clear_table app_building s = s\<lparr>db_buildings := []\<rparr>"
| "clear_table app_unit s = s\<lparr>db_units := []\<rparr>"
| "clear_table app_canonical_listing s = s\<lparr>db_listings := []\<rparr>"
| "clear_table app_listing_source_link s = s\<lparr>db_links := []\<rparr>"
| "clear_table app_canonical_merge s = s\<lparr>db_merges := []\<rparr>"
| "clear_table app_duplicate_candidate s = s\<lparr>db_candidates := []\<rparr>"
| "clear_table app_source s = s\<lparr>db_sources := []\<rparr>"
| "clear_table ops_refresh_run s = s\<lparr>db_refresh_runs := []\<rparr>"
| "clear_table ops_source_run s = s\<lparr>db_source_runs := []\<rparr>"
| "clear_table raw_source_observation s = s\<lparr>db_observations := []\<rparr>"
| "clear_table ops_adapter_checkpoint s = s\<lparr>db_checkpoints := []\<rparr>"
| "clear_table app_fact_assertion s = s\<lparr>db_assertions := []\<rparr>"
| "clear_table app_fact_resolution s = s\<lparr>db_resolutions := []\<rparr>"
| "clear_table app_listing_event s = s\<lparr>db_events := []\<rparr>"
| "clear_table app_human_override s = s\<lparr>db_overrides := []\<rparr>"
| "clear_table app_review_issue s = s\<lparr>db_issues := []\<rparr>"
| "clear_table app_marketing_selection s = s\<lparr>db_selections := []\<rparr>"
| "clear_table app_client_search_preset s = s\<lparr>db_presets := []\<rparr>"
| "clear_table app_client_shortlist_entry s = s\<lparr>db_entries := []\<rparr>"
| "clear_table audit_action_log s = s\<lparr>db_audit_log := []\<rparr>"
| "clear_table ops_job s = s\<lparr>db_jobs := []\<rparr>"
| "clear_table ops_job_attempt s = s\<lparr>db_attempts := []\<rparr>"
| "clear_table ops_provider_request s = s\<lparr>db_provider_requests := []\<rparr>"
| "clear_table config_geographic_boundary s = s\<lparr>db_boundaries := []\<rparr>"
| "clear_table app_transit_stop s = s\<lparr>db_stops := []\<rparr>"
| "clear_table app_transit_route s = s\<lparr>db_routes := []\<rparr>"
| "clear_table app_transit_access s = s\<lparr>db_access := []\<rparr>"
| "clear_table app_destination s = s\<lparr>db_destinations := []\<rparr>"
| "clear_table app_commute_result s = s\<lparr>db_commutes := []\<rparr>"
| "clear_table ops_model_execution s = s\<lparr>db_executions := []\<rparr>"
| "clear_table app_company_property s = s\<lparr>db_company := []\<rparr>"
| "clear_table app_media_asset s = s\<lparr>db_media := []\<rparr>"
| "clear_table app_media_association s = s\<lparr>db_media_links := []\<rparr>"

definition truncate_cascade :: "tbl list \<Rightarrow> db \<Rightarrow> db" where
  "truncate_cascade ts s = fold clear_table (truncated ts) s"

definition DISCARD_TABLES :: "tbl list" where
  "DISCARD_TABLES = [app_address, app_canonical_listing, raw_source_observation, app_media_asset,
     app_fact_assertion, app_fact_resolution, app_review_issue, app_human_override, ops_job]"

section \<open>Discarding the inventory\<close>

text \<open>
  A flush of freshly added rows: PostgreSQL checks their foreign keys.  Their own keys are the ones
  they had before the truncation, so uniqueness cannot fail.
\<close>

definition flush_tables :: "tbl list \<Rightarrow> db \<Rightarrow> db result" where
  "flush_tables ts s = (if list_all (\<lambda>t. refs_hold t s) ts then Inr s else Inl IntegrityError)"

definition company_executions :: "db \<Rightarrow> model_execution list" where
  "company_executions s = filter (\<lambda>x. list_ex
     (\<lambda>c. cmr_company_property_id c \<noteq> None \<and> cmr_model_execution_id c = Some (mex_id x)) (db_commutes s))
     (db_executions s)"

definition discard_inventory :: "unit tx" where
  "discard_inventory s =
     (let destination_rows = db_destinations s;
          company_rows = db_company s;
          company_entries = filter (\<lambda>r. ce_company_property_id r \<noteq> None) (db_entries s);
          company_selections = filter (\<lambda>r. ms_company_property_id r \<noteq> None) (db_selections s);
          company_commutes = filter (\<lambda>r. cmr_company_property_id r \<noteq> None) (db_commutes s);
          commute_executions = company_executions s;
          s0 = truncate_cascade DISCARD_TABLES s;
          s1 = s0\<lparr>db_destinations := db_destinations s0 @ map (\<lambda>r. r\<lparr>dst_address_id := None\<rparr>) destination_rows,
                  db_company := db_company s0 @ map (\<lambda>r. r\<lparr>cpy_matched_building_id := None\<rparr>) company_rows\<rparr>
      in bind_result (flush_tables [app_destination, app_company_property] s1) (\<lambda>s1.
         bind_result (flush_tables [ops_model_execution]
           (s1\<lparr>db_executions := db_executions s1 @ map (\<lambda>r. r\<lparr>mex_job_id := None\<rparr>) commute_executions\<rparr>)) (\<lambda>s2.
         bind_result (flush_tables [app_client_shortlist_entry, app_marketing_selection, app_commute_result]
           (s2\<lparr>db_entries := db_entries s2 @ company_entries,
               db_selections := db_selections s2 @ company_selections,
               db_commutes := db_commutes s2 @ company_commutes\<rparr>)) (\<lambda>s3.
         Inr ((), s3)))))"

end
