(* ===== verification/Weekday.thy ===== *)
theory Weekday
  imports Discard Acquisition Admission Location Transit ListingContent
begin

text \<open>
  \<open>run_weekday_refresh\<close> of \<open>jobs/weekday_refresh.py\<close>: the coordinator that runs acquisition,
  normalization, geocoding, scope validation, transit, usefulness and admission once, each stage in its
  own transaction, and records the outcome in the refresh run.
\<close>

section \<open>Inputs\<close>

text \<open>
  The adapters in their order, the geocoders, the page enrichment (None when a key is missing), the
  clock of the coordinator by the number of the reading, and those of the worker and of admission.
\<close>

record 'w weekday_env =
  we_adapters :: "'w SourceAdapter list"
  we_digest :: "ParsedSourceObservation \<Rightarrow> string"
  we_geocoders :: "'w Geocoder list"
  we_covers :: "json \<Rightarrow> point \<Rightarrow> bool"
  we_intersects :: "json \<Rightarrow> point \<Rightarrow> bool"
  we_meters :: "point \<Rightarrow> point \<Rightarrow> rat"
  we_sha256 :: "string \<Rightarrow> string"
  we_pages :: "'w page_env option"
  we_now :: "nat \<Rightarrow> datetime"
  we_worker_clock :: "nat \<Rightarrow> datetime"
  we_admission_clock :: "nat \<Rightarrow> datetime"

definition SCHEDULE_VERSION :: string where
  "SCHEDULE_VERSION = ''v1''"

text \<open>The key of the scheduled run of a local day; triggers of the same day join it.\<close>

definition scheduled_key :: "string \<Rightarrow> string" where
  "scheduled_key local_date = ''weekday_inventory_refresh:'' @ local_date @ '':'' @ SCHEDULE_VERSION"

section \<open>Stages\<close>

fun acquire_all ::
  "'w weekday_env \<Rightarrow> string \<Rightarrow> RefreshTriggerType \<Rightarrow> nat \<Rightarrow> 'w SourceAdapter list \<Rightarrow> db \<Rightarrow> 'w \<Rightarrow>
   SourceRunSummary list fallible \<times> db \<times> 'w" where
  "acquire_all env key trigger k [] s w = (Inr [], s, w)"
| "acquire_all env key trigger k (adapter # adapters) s w =
     (case run_source adapter (we_digest env) key trigger DiscoveryMethod.SEARCH_INDEX (we_now env k) s w of
        (Inl e, s1, w1) \<Rightarrow> (Inl e, s1, w1)
      | (Inr a, s1, w1) \<Rightarrow>
          (case acquire_all env key trigger (Suc k) adapters s1 w1 of
             (Inl e, s2, w2) \<Rightarrow> (Inl e, s2, w2)
           | (Inr as, s2, w2) \<Rightarrow> (Inr (a # as), s2, w2)))"

record stage_counts =
  wc_geocode :: GeocodeRunSummary
  wc_scope :: ScopeRunSummary
  wc_transit :: NearbyRunSummary
  wc_usefulness :: UsefulnessSummary
  wc_admission :: AdmissionSummary

text \<open>The stages that locate, enrich and admit; only geocoding talks to a provider and can raise.\<close>

definition enrich_and_admit ::
  "'w weekday_env \<Rightarrow> nat \<Rightarrow> 'w \<Rightarrow> db \<Rightarrow> (stage_counts \<times> 'w) result \<times> db" where
  "enrich_and_admit env k w s =
     (case geocode_pending (we_covers env) (we_sha256 env) (we_now env k) (we_geocoders env) 500 w s of
        Inl e \<Rightarrow> (Inl e, s)
      | Inr (geocode, w1, _, s1) \<Rightarrow>
          (let (scope, s2) = validate_boundaries (we_intersects env) 1000 s1;
               (transit, s3) = enrich_all_geocoded (we_meters env) (we_sha256 env) (we_now env (Suc k)) 500 s2;
               (usefulness, s4) = classify_usefulness 5000 s3;
               (admission, s5) = evaluate_candidates 1000 (we_admission_clock env) s4
           in (Inr (\<lparr>wc_geocode = geocode, wc_scope = scope, wc_transit = transit,
                 wc_usefulness = usefulness, wc_admission = admission\<rparr>, w1), s5)))"

text \<open>Page enrichment, of a manual refresh only.\<close>

definition enrich_pages ::
  "'w weekday_env \<Rightarrow> RefreshTriggerType \<Rightarrow> nat \<Rightarrow> 'w \<Rightarrow> db \<Rightarrow> (string \<times> nat) list \<times> db" where
  "enrich_pages env trigger k w s =
     (if trigger \<noteq> RefreshTriggerType.MANUAL then ([], s)
      else case we_pages env of
        None \<Rightarrow> ([(''MISSING_KEYS'', 1)], s)
      | Some pages \<Rightarrow> (case run_detail_enrichment pages False 0 (we_now env k) w s of (counts, _, s') \<Rightarrow> (counts, s')))"

section \<open>The record of the run\<close>

definition weekday_status :: "SourceRunSummary list \<Rightarrow> RefreshRunStatus" where
  "weekday_status acquisitions =
     (if list_all (\<lambda>a. sm_status a = SourceRunStatus.HEALTHY) acquisitions
      then RefreshRunStatus.SUCCEEDED else RefreshRunStatus.PARTIAL_SUCCESS)"

definition weekday_counts ::
  "SourceRunSummary list \<Rightarrow> nat \<Rightarrow> stage_counts \<Rightarrow> (string \<times> nat) list \<Rightarrow> json" where
  "weekday_counts acquisitions normalized c paged = JObj (map (\<lambda>(k, n). (k, JInt (int n)))
     ([(''discovered'', sum_list (map sm_discovered acquisitions)),
       (''persisted_new'', sum_list (map sm_persisted_new acquisitions)),
       (''normalized'', normalized),
       (''geocoded'', gs_geocoded (wc_geocode c)),
       (''scope_evaluated'', vs_evaluated (wc_scope c)),
       (''transit_rows'', nb_access_rows_created (wc_transit c)),
       (''useful_options'', us_useful (wc_usefulness c)),
       (''activated'', as_activated (wc_admission c)),
       (''excluded'', as_excluded (wc_admission c))] @
      (if paged = [] then []
       else [(''enriched'', case map_of paged ''ENRICHED'' of None \<Rightarrow> 0 | Some n \<Rightarrow> n)])))"

definition finalize_refresh ::
  "string \<Rightarrow> RefreshTriggerType \<Rightarrow> datetime \<Rightarrow> datetime \<Rightarrow> RefreshRunStatus \<Rightarrow> json \<Rightarrow> unit tx" where
  "finalize_refresh key trigger started completed status counts s =
     bind_result (create_or_join key trigger started PIPELINE_VERSION None s) (\<lambda>((run, _), s1).
     set_status run status (Some completed) (Some counts) s1)"

section \<open>The coordinator\<close>

text \<open>
  The exit code, or the exception that ended the run after the transactions that had committed.
\<close>

definition refresh_stages ::
  "'w weekday_env \<Rightarrow> RefreshTriggerType \<Rightarrow> string \<Rightarrow> db \<Rightarrow> 'w \<Rightarrow> int fallible \<times> db" where
  "refresh_stages env trigger key s w =
     (let n = length (we_adapters env)
      in case acquire_all env key trigger 0 (we_adapters env) s w of
        (Inl e, s1, _) \<Rightarrow> (Inl e, s1)
      | (Inr acquisitions, s1, w1) \<Rightarrow>
          (case drain_normalize_jobs ''normalize-worker'' DiscoveryMethod.SEARCH_INDEX (we_worker_clock env) 1000 0 s1 of
             (Inl e, s2) \<Rightarrow> (Inl (error_name e), s2)
           | (Inr normalized, s2) \<Rightarrow>
               (case enrich_and_admit env n w1 s2 of
                  (Inl e, s3) \<Rightarrow> (Inl (error_name e), s3)
                | (Inr (c, w2), s3) \<Rightarrow>
                    (let (paged, s4) = enrich_pages env trigger (n + 2) w2 s3;
                         status = weekday_status acquisitions
                     in case finalize_refresh key trigger (we_now env (n + 3)) (we_now env (n + 4)) status
                               (weekday_counts acquisitions normalized c paged) s4 of
                          Inl e \<Rightarrow> (Inl (error_name e), s4)
                        | Inr (_, s5) \<Rightarrow> (Inr (if status \<noteq> RefreshRunStatus.FAILED then 0 else 1), s5)))))"

definition run_weekday_refresh ::
  "'w weekday_env \<Rightarrow> RefreshTriggerType \<Rightarrow> string \<Rightarrow> db \<Rightarrow> 'w \<Rightarrow> int fallible \<times> db" where
  "run_weekday_refresh env trigger key s w =
     (if trigger = RefreshTriggerType.MANUAL
      then case run_tx discard_inventory s of
             (Inl e, s1) \<Rightarrow> (Inl (error_name e), s1)
           | (Inr _, s1) \<Rightarrow> refresh_stages env trigger key s1 w
      else refresh_stages env trigger key s w)"

text \<open>The command line, given the texts of the local date and of the time stamp.\<close>

definition weekday_main ::
  "'w weekday_env \<Rightarrow> string list \<Rightarrow> string \<Rightarrow> string \<Rightarrow> db \<Rightarrow> 'w \<Rightarrow> int fallible \<times> db" where
  "weekday_main env argv local_date stamp s w =
     (if ''--manual'' \<in> set argv
      then run_weekday_refresh env RefreshTriggerType.MANUAL (''manual_refresh:'' @ stamp) s w
      else run_weekday_refresh env RefreshTriggerType.SCHEDULED (scheduled_key local_date) s w)"

end
