(* ===== verification/DiscardLaws.thy ===== *)
theory DiscardLaws
  imports Discard Selection ResearchLaws JobQueue
begin

text \<open>
  What discarding the inventory keeps and loses, and that it leaves no dangling reference behind.
\<close>

section \<open>Which tables a truncation empties\<close>

text \<open>PostgreSQL's rule, as an inductive definition.\<close>

inductive truncates :: "tbl list \<Rightarrow> tbl \<Rightarrow> bool" for ts where
  named: "t \<in> set ts \<Longrightarrow> truncates ts t"
| cascades: "truncates ts u \<Longrightarrow> (t, u) \<in> set foreign_keys \<Longrightarrow> truncates ts t"

declare truncated.simps [simp del]

lemma all_tables_complete [simp]: "t \<in> set all_tables"
  by (cases t) (simp_all add: all_tables_def)

lemma pulled_in_iff: "t \<in> set (pulled_in ts) \<longleftrightarrow> t \<notin> set ts \<and> (\<exists>u \<in> set ts. (t, u) \<in> set foreign_keys)"
  by (auto simp: pulled_in_def list_ex_iff)

lemma truncated_grows: "set ts \<subseteq> set (truncated ts)"
proof (induction ts rule: truncated.induct)
  case (1 ts)
  then show ?case by (subst truncated.simps) auto
qed

lemma truncated_sound: "t \<in> set (truncated ts) \<Longrightarrow> truncates ts t"
proof (induction ts arbitrary: t rule: truncated.induct)
  case (1 ts)
  show ?case
  proof (cases "pulled_in ts = []")
    case True
    then show ?thesis using "1.prems" by (auto simp: truncated.simps [of ts] intro: truncates.named)
  next
    case False
    have "truncates ts t" if "truncates (ts @ pulled_in ts) t" for t
      using that by induction (auto simp: pulled_in_iff intro: truncates.intros)
    with "1.IH" [OF False] "1.prems" show ?thesis by (simp add: truncated.simps [of ts] False)
  qed
qed

lemma truncated_closed: "u \<in> set (truncated ts) \<Longrightarrow> (t, u) \<in> set foreign_keys \<Longrightarrow> t \<in> set (truncated ts)"
proof (induction ts rule: truncated.induct)
  case (1 ts)
  show ?case
  proof (cases "pulled_in ts = []")
    case True
    then show ?thesis using "1.prems" pulled_in_iff [of t ts] truncated.simps [of ts] by auto
  next
    case False
    with "1.IH" "1.prems" show ?thesis by (simp add: truncated.simps [of ts])
  qed
qed

lemma truncated_iff: "t \<in> set (truncated ts) \<longleftrightarrow> truncates ts t"
proof
  assume "truncates ts t"
  then show "t \<in> set (truncated ts)"
    by induction (use truncated_grows truncated_closed in auto)
qed (rule truncated_sound)

text \<open>The group of the discard.\<close>

lemma discarded_tables:
  "truncated DISCARD_TABLES = [app_address, app_canonical_listing, raw_source_observation, app_media_asset,
     app_fact_assertion, app_fact_resolution, app_review_issue, app_human_override, ops_job,
     app_building, app_listing_source_link, app_canonical_merge, app_duplicate_candidate,
     app_listing_event, app_marketing_selection, app_client_shortlist_entry, ops_job_attempt,
     app_transit_access, app_destination, app_commute_result, ops_model_execution,
     app_media_association, app_unit, app_company_property]"
  by code_simp

lemma truncate_discard:
  "truncate_cascade DISCARD_TABLES s = s\<lparr>db_addresses := [], db_listings := [], db_observations := [],
     db_media := [], db_assertions := [], db_resolutions := [], db_issues := [], db_overrides := [],
     db_jobs := [], db_buildings := [], db_links := [], db_merges := [], db_candidates := [],
     db_events := [], db_selections := [], db_entries := [], db_attempts := [], db_access := [],
     db_destinations := [], db_commutes := [], db_executions := [], db_media_links := [],
     db_units := [], db_company := []\<rparr>"
  by (simp add: truncate_cascade_def discarded_tables)

section \<open>References\<close>

lemma refs_hold_iff: "refs_hold t s \<longleftrightarrow> (\<forall>u i. (u, i) \<in> set (table_refs t s) \<longrightarrow> i \<in> set (table_ids u s))"
  by (auto simp: refs_hold_def list_all_iff)

lemma well_referencedD: "well_referenced s \<Longrightarrow> refs_hold t s"
  by (simp add: well_referenced_def list_all_iff)

lemma well_referencedI: "(\<And>t. refs_hold t s) \<Longrightarrow> well_referenced s"
  by (simp add: well_referenced_def list_all_iff)

lemma in_row_refs [simp]: "x \<in> set (row_refs f rs) \<longleftrightarrow> (\<exists>r \<in> set rs. x \<in> set (f r))"
  by (auto simp: row_refs_def)

lemma in_of_key [simp]: "(u, i) \<in> set (of_key t j) \<longleftrightarrow> u = t \<and> i = j"
  by (auto simp: of_key_def)

lemma in_of_option [simp]: "(u, i) \<in> set (of_option t j) \<longleftrightarrow> u = t \<and> j = Some i"
  by (auto simp: of_option_def split: option.splits)

text \<open>The keys the schema declares are the keys the rows use.\<close>

lemma refs_are_declared: "(u, i) \<in> set (table_refs t s) \<Longrightarrow> (t, u) \<in> set foreign_keys"
  by (cases t) (auto simp: foreign_keys_def)

section \<open>The state after a discard\<close>

text \<open>What is put back into the truncated tables.\<close>

definition put_back :: "db \<Rightarrow> db \<Rightarrow> db" where
  "put_back s s0 = s0\<lparr>
     db_destinations := map (\<lambda>r. r\<lparr>dst_address_id := None\<rparr>) (db_destinations s),
     db_company := map (\<lambda>r. r\<lparr>cpy_matched_building_id := None\<rparr>) (db_company s),
     db_executions := map (\<lambda>r. r\<lparr>mex_job_id := None\<rparr>) (company_executions s),
     db_entries := filter (\<lambda>r. ce_company_property_id r \<noteq> None) (db_entries s),
     db_selections := filter (\<lambda>r. ms_company_property_id r \<noteq> None) (db_selections s),
     db_commutes := filter (\<lambda>r. cmr_company_property_id r \<noteq> None) (db_commutes s)\<rparr>"

definition discarded :: "db \<Rightarrow> db" where
  "discarded s = put_back s (truncate_cascade DISCARD_TABLES s)"

text \<open>No execution escalates another one; no code under \<open>src\<close> writes \<open>escalated_from_id\<close>.\<close>

definition no_escalations :: "db \<Rightarrow> bool" where
  "no_escalations s \<longleftrightarrow> list_all (\<lambda>x. mex_escalated_from_id x = None) (db_executions s)"

lemma discarded_simp: "discarded s = s\<lparr>db_addresses := [], db_listings := [], db_observations := [],
     db_media := [], db_assertions := [], db_resolutions := [], db_issues := [], db_overrides := [],
     db_jobs := [], db_buildings := [], db_links := [], db_merges := [], db_candidates := [],
     db_events := [], db_attempts := [], db_access := [], db_media_links := [], db_units := [],
     db_destinations := map (\<lambda>r. r\<lparr>dst_address_id := None\<rparr>) (db_destinations s),
     db_company := map (\<lambda>r. r\<lparr>cpy_matched_building_id := None\<rparr>) (db_company s),
     db_executions := map (\<lambda>r. r\<lparr>mex_job_id := None\<rparr>) (company_executions s),
     db_entries := filter (\<lambda>r. ce_company_property_id r \<noteq> None) (db_entries s),
     db_selections := filter (\<lambda>r. ms_company_property_id r \<noteq> None) (db_selections s),
     db_commutes := filter (\<lambda>r. cmr_company_property_id r \<noteq> None) (db_commutes s)\<rparr>"
  by (simp add: discarded_def put_back_def truncate_discard)

lemma ids_map [simp]:
  "map dst_id (map (\<lambda>r. r\<lparr>dst_address_id := None\<rparr>) ds) = map dst_id ds"
  "map cpy_id (map (\<lambda>r. r\<lparr>cpy_matched_building_id := None\<rparr>) cs) = map cpy_id cs"
  "map mex_id (map (\<lambda>r. r\<lparr>mex_job_id := None\<rparr>) xs) = map mex_id xs"
  by (simp_all add: comp_def)

lemma kept_table:
  assumes "t \<notin> set (truncated DISCARD_TABLES)"
  shows "table_ids t (discarded s) = table_ids t s" "table_refs t (discarded s) = table_refs t s"
  using assms by (cases t; simp add: discarded_tables discarded_simp)+

lemma kept_refs_hold:
  assumes "t \<notin> set (truncated DISCARD_TABLES)" "refs_hold t s"
  shows "refs_hold t (discarded s)"
  unfolding refs_hold_iff
proof (intro allI impI)
  fix u i assume "(u, i) \<in> set (table_refs t (discarded s))"
  then have r: "(u, i) \<in> set (table_refs t s)" using kept_table(2) [OF assms(1)] by simp
  have "u \<notin> set (truncated DISCARD_TABLES)"
    using truncated_closed [OF _ refs_are_declared [OF r]] assms(1) by blast
  then show "i \<in> set (table_ids u (discarded s))"
    using kept_table(1) r assms(2) by (auto simp: refs_hold_iff)
qed

text \<open>The rows that are put back refer to rows that are there.\<close>

lemma in_company_executions: "x \<in> set (company_executions s) \<longleftrightarrow> x \<in> set (db_executions s) \<and>
    (\<exists>c \<in> set (db_commutes s). cmr_company_property_id c \<noteq> None \<and> cmr_model_execution_id c = Some (mex_id x))"
  by (auto simp: company_executions_def list_ex_iff)

lemma restored_refs_hold:
  assumes "well_referenced s" "targets_ok s" "no_escalations s"
  shows "refs_hold app_destination (discarded s)" "refs_hold app_company_property (discarded s)"
    "refs_hold ops_model_execution (discarded s)" "refs_hold app_client_shortlist_entry (discarded s)"
    "refs_hold app_marketing_selection (discarded s)" "refs_hold app_commute_result (discarded s)"
proof -
  note old = well_referencedD [OF assms(1), unfolded refs_hold_iff, rule_format]
  show "refs_hold app_destination (discarded s)" "refs_hold app_company_property (discarded s)"
    by (auto simp: refs_hold_iff discarded_simp)
  show "refs_hold ops_model_execution (discarded s)"
    using assms(3) by (auto simp: refs_hold_iff discarded_simp no_escalations_def list_all_iff in_company_executions)
  show "refs_hold app_client_shortlist_entry (discarded s)"
  proof (unfold refs_hold_iff, intro allI impI)
    fix u i assume "(u, i) \<in> set (table_refs app_client_shortlist_entry (discarded s))"
    then obtain c where c: "c \<in> set (db_entries s)" "ce_company_property_id c \<noteq> None"
        "(u, i) \<in> set (of_key app_client_search_preset (ce_client_search_preset_id c) @
          of_option app_canonical_listing (ce_canonical_listing_id c) @
          of_option app_company_property (ce_company_property_id c))"
      by (auto simp: discarded_simp)
    then have there: "i \<in> set (table_ids u s)" by (intro old [of u i app_client_shortlist_entry]) auto
    have "ce_canonical_listing_id c = None"
      using c(1,2) assms(2) by (auto simp: targets_ok_def list_all_iff exactly_one_target_def)
    with c(3) there show "i \<in> set (table_ids u (discarded s))" by (auto simp: discarded_simp)
  qed
  show "refs_hold app_marketing_selection (discarded s)"
  proof (unfold refs_hold_iff, intro allI impI)
    fix u i assume "(u, i) \<in> set (table_refs app_marketing_selection (discarded s))"
    then obtain c where c: "c \<in> set (db_selections s)" "ms_company_property_id c \<noteq> None"
        "(u, i) \<in> set (of_option app_canonical_listing (ms_canonical_listing_id c) @
          of_option app_company_property (ms_company_property_id c))"
      by (auto simp: discarded_simp)
    then have there: "i \<in> set (table_ids u s)" by (intro old [of u i app_marketing_selection]) auto
    have "ms_canonical_listing_id c = None"
      using c(1,2) assms(2) by (auto simp: targets_ok_def list_all_iff exactly_one_target_def)
    with c(3) there show "i \<in> set (table_ids u (discarded s))" by (auto simp: discarded_simp)
  qed
  show "refs_hold app_commute_result (discarded s)"
  proof (unfold refs_hold_iff, intro allI impI)
    fix u i assume "(u, i) \<in> set (table_refs app_commute_result (discarded s))"
    then obtain c where c: "c \<in> set (db_commutes s)" "cmr_company_property_id c \<noteq> None"
        "(u, i) \<in> set (of_option app_canonical_listing (cmr_canonical_listing_id c) @
          of_option app_company_property (cmr_company_property_id c) @ of_key app_destination (cmr_destination_id c) @
          of_option ops_provider_request (cmr_provider_request_id c) @
          of_option ops_model_execution (cmr_model_execution_id c))"
      by (auto simp: discarded_simp)
    then have there: "i \<in> set (table_ids u s)" by (intro old [of u i app_commute_result]) auto
    have "cmr_canonical_listing_id c = None"
      using c(1,2) assms(2) by (auto simp: targets_ok_def list_all_iff exactly_one_target_def)
    moreover have "x \<in> set (company_executions s)"
      if "x \<in> set (db_executions s)" "cmr_model_execution_id c = Some (mex_id x)" for x
      using that c(1,2) by (auto simp: in_company_executions)
    ultimately show "i \<in> set (table_ids u (discarded s))" using c(3) there by (auto simp: discarded_simp)
  qed
qed

lemma truncated_refs_hold:
  assumes "t \<in> set (truncated DISCARD_TABLES)"
    and "t \<notin> {app_destination, app_company_property, ops_model_execution, app_client_shortlist_entry,
      app_marketing_selection, app_commute_result}"
  shows "refs_hold t (discarded s)"
  by (cases t) (use assms in \<open>simp_all add: refs_hold_def discarded_simp discarded_tables row_refs_def\<close>)

lemma discarded_well_referenced:
  assumes "well_referenced s" "targets_ok s" "no_escalations s"
  shows "well_referenced (discarded s)"
proof (rule well_referencedI)
  fix t
  show "refs_hold t (discarded s)"
    using kept_refs_hold [OF _ well_referencedD [OF assms(1)], of t] truncated_refs_hold [of t s]
      restored_refs_hold [OF assms] by blast
qed

lemma discarded_targets_ok: "targets_ok s \<Longrightarrow> targets_ok (discarded s)"
  by (auto simp: targets_ok_def discarded_simp list_all_iff)

lemma discarded_no_escalations: "no_escalations s \<Longrightarrow> no_escalations (discarded s)"
  by (auto simp: no_escalations_def discarded_simp list_all_iff in_company_executions)

text \<open>The flushes of a discard see the references of the state it ends in.\<close>

lemma flush_same:
  assumes "table_refs t s = table_refs t s'" "\<And>u i. (u, i) \<in> set (table_refs t s') \<Longrightarrow> table_ids u s = table_ids u s'"
  shows "refs_hold t s \<longleftrightarrow> refs_hold t s'"
  using assms unfolding refs_hold_iff by auto

lemma discard_returns:
  assumes "well_referenced s" "targets_ok s" "no_escalations s"
  shows "discard_inventory s = Inr ((), discarded s)"
proof -
  let ?z = "truncate_cascade DISCARD_TABLES s"
  let ?d = "map (\<lambda>r. r\<lparr>dst_address_id := None\<rparr>) (db_destinations s)"
  let ?c = "map (\<lambda>r. r\<lparr>cpy_matched_building_id := None\<rparr>) (db_company s)"
  let ?x = "map (\<lambda>r. r\<lparr>mex_job_id := None\<rparr>) (company_executions s)"
  let ?s1 = "?z\<lparr>db_destinations := ?d, db_company := ?c\<rparr>"
  let ?s2 = "?s1\<lparr>db_executions := ?x\<rparr>"
  note held = restored_refs_hold [OF assms]
  have one: "flush_tables [app_destination, app_company_property] ?s1 = Inr ?s1"
    by (auto simp: flush_tables_def refs_hold_iff)
  have two: "refs_hold ops_model_execution ?s2"
    using assms(3) by (auto simp: refs_hold_iff no_escalations_def list_all_iff in_company_executions)
  have three: "?s2\<lparr>db_entries := filter (\<lambda>r. ce_company_property_id r \<noteq> None) (db_entries s),
      db_selections := filter (\<lambda>r. ms_company_property_id r \<noteq> None) (db_selections s),
      db_commutes := filter (\<lambda>r. cmr_company_property_id r \<noteq> None) (db_commutes s)\<rparr> = discarded s"
    by (simp add: discarded_def put_back_def)
  have emptied: "db_destinations ?z = []" "db_company ?z = []" "db_executions ?z = []" "db_entries ?z = []"
      "db_selections ?z = []" "db_commutes ?z = []"
    by (simp_all add: truncate_discard)
  show ?thesis
    unfolding discard_inventory_def Let_def emptied append_Nil one
    using two held(4-6) by (simp add: flush_tables_def emptied three [simplified] del: map_map)
qed

section \<open>Properties\<close>

text \<open>
  Every table of the database that a discard does not empty, in the order of the schema.
\<close>

definition reference_tables :: "db \<Rightarrow> source_row list \<times> refresh_run list \<times> source_run list \<times> adapter_checkpoint list \<times>
    client_search_preset list \<times> audit_action_log list \<times> provider_request list \<times> geographic_boundary list \<times>
    transit_stop list \<times> transit_route list" where
  "reference_tables s = (db_sources s, db_refresh_runs s, db_source_runs s, db_checkpoints s, db_presets s,
     db_audit_log s, db_provider_requests s, db_boundaries s, db_stops s, db_routes s)"

text \<open>
  C39. A manual refresh may wipe the acquired inventory without breaking the database: when no
  reference dangles beforehand and every selection, shortlist entry and commute is about exactly one
  of a listing and a company property, and no model execution names another it was escalated from (no code
  writes that column), the discard commits (no restored row violates a foreign key),
  and no reference dangles afterwards either; the same holds of every later discard.
\<close>
theorem discard_keeps_references:
  assumes "well_referenced s" "targets_ok s" "no_escalations s"
  shows "\<exists>s'. discard_inventory s = Inr ((), s') \<and> well_referenced s' \<and> targets_ok s' \<and> no_escalations s'"
  using discard_returns [OF assms] discarded_well_referenced [OF assms] discarded_targets_ok [OF assms(2)]
    discarded_no_escalations [OF assms(3)] by blast

text \<open>
  C40. What a committed discard keeps is exactly the owner's data: the reference tables as they were,
  every destination up to its address, every company property up to its link into the acquired
  inventory, the selections, shortlist entries and commutes about company properties, and the
  executions behind those commutes up to their job.  Every table of acquired data is empty afterwards:
  the listing graph with everything collected and decided about it, and the job queue.
\<close>
theorem discard_keeps_owner_data:
  assumes "discard_inventory s = Inr ((), s')"
  shows "reference_tables s' = reference_tables s \<and>
    db_destinations s' = map (\<lambda>r. r\<lparr>dst_address_id := None\<rparr>) (db_destinations s) \<and>
    db_company s' = map (\<lambda>r. r\<lparr>cpy_matched_building_id := None\<rparr>) (db_company s) \<and>
    db_selections s' = filter (\<lambda>r. ms_company_property_id r \<noteq> None) (db_selections s) \<and>
    db_entries s' = filter (\<lambda>r. ce_company_property_id r \<noteq> None) (db_entries s) \<and>
    db_commutes s' = filter (\<lambda>r. cmr_company_property_id r \<noteq> None) (db_commutes s) \<and>
    db_executions s' = map (\<lambda>x. x\<lparr>mex_job_id := None\<rparr>)
      (filter (\<lambda>x. list_ex (\<lambda>c. cmr_model_execution_id c = Some (mex_id x)) (db_commutes s')) (db_executions s)) \<and>
    db_addresses s' = [] \<and> db_buildings s' = [] \<and> db_units s' = [] \<and> db_listings s' = [] \<and>
    db_links s' = [] \<and> db_merges s' = [] \<and> db_candidates s' = [] \<and> db_observations s' = [] \<and>
    db_assertions s' = [] \<and> db_resolutions s' = [] \<and> db_events s' = [] \<and> db_overrides s' = [] \<and>
    db_issues s' = [] \<and> db_media s' = [] \<and> db_media_links s' = [] \<and> db_access s' = [] \<and>
    db_jobs s' = [] \<and> db_attempts s' = []"
proof -
  have behind: "list_ex P (filter Q xs) = list_ex (\<lambda>x. Q x \<and> P x) xs" for P Q and xs :: "commute_result list"
    by (auto simp: list_ex_iff)
  show ?thesis
    using assms
    by (auto simp: discard_inventory_def Let_def bind_result_Inr_iff flush_tables_def truncate_discard
        reference_tables_def company_executions_def behind split: if_splits)
qed

text \<open>
  A listing in a building; a company property matched to that building, with a shortlist entry and a
  researched commute whose execution a job ran; a selection of the listing.
\<close>

definition demo_estimate :: CommuteResearchOutput where
  "demo_estimate = \<lparr>co_duration_min_s = 600, co_duration_max_s = 900, co_likely_routes = [], co_transfer_count = None,
     co_named_stations = [], co_summary = None, co_sources = [], co_confidence = Confidence.HIGH\<rparr>"

definition demo_execution :: "uuid \<Rightarrow> model_execution" where
  "demo_execution i = (new_commute_execution demo_dates ''p'' ''h'' JNull (new_llm_result ModelExecutionStatus.SUCCEEDED)
     demo_estimate
     TransitValidationStatus.PASSED 9 i)\<lparr>mex_job_id := Some 80\<rparr>"

definition demo_commute :: commute_result where
  "demo_commute = new_commute demo_dates 14 None (Some 60) demo_destination ''h'' 70
     demo_estimate
     (TransitValidationStatus.PASSED, JNull) 9 75"

definition demo_owned :: db where
  "demo_owned = empty_db\<lparr>db_addresses := [demo_address 3 BoundaryStatus.IN_SCOPE], db_buildings := [new_building 1 3],
     db_listings := [demo_listing 10], db_jobs := [new_job 80 JobType.NORMALIZE ''h'' ''v'' (Some 10) None 0 3 0 0],
     db_destinations := [demo_destination\<lparr>dst_address_id := Some 3\<rparr>],
     db_company := [demo_property\<lparr>cpy_matched_building_id := Some 1\<rparr>],
     db_executions := [demo_execution 70, demo_execution 71], db_commutes := [demo_commute],
     db_presets := [new_preset 90 ''p'' JNull ''v'' ''a'' None None],
     db_entries := [new_entry 91 90 (None, Some 60) ShortlistEntryStatus.INCLUDED ''a'' 0 None],
     db_selections := [new_selection 92 (Some 10, None) SelectionStatus.SELECTED ''a'' 0 None], db_next := 100\<rparr>"

lemma demo_owned_ok: "well_referenced demo_owned" "targets_ok demo_owned" "no_escalations demo_owned"
  by code_simp+

theorem discard_keeps_references_witness:
  "\<exists>s'. discard_inventory demo_owned = Inr ((), s') \<and> well_referenced s' \<and> targets_ok s' \<and> no_escalations s'"
  using discard_keeps_references [OF demo_owned_ok] .

theorem discard_keeps_owner_data_witness:
  "\<exists>s'. discard_inventory demo_owned = Inr ((), s') \<and> map cpy_id (db_company s') = [60] \<and>
     map mex_id (db_executions s') = [70] \<and> db_selections s' = [] \<and> length (db_entries s') = 1"
proof -
  have kept: "map cpy_id (db_company demo_owned) = [60]"
    "map mex_id (filter (\<lambda>x. list_ex (\<lambda>c. cmr_model_execution_id c = Some (mex_id x))
       (filter (\<lambda>r. cmr_company_property_id r \<noteq> None) (db_commutes demo_owned))) (db_executions demo_owned)) = [70]"
    "filter (\<lambda>r. ms_company_property_id r \<noteq> None) (db_selections demo_owned) = []"
    "length (filter (\<lambda>r. ce_company_property_id r \<noteq> None) (db_entries demo_owned)) = 1"
    by code_simp+
  have run: "discard_inventory demo_owned = Inr ((), discarded demo_owned)" by (rule discard_returns [OF demo_owned_ok])
  note left = discard_keeps_owner_data [OF this]
  have ids: "map mex_id (map (\<lambda>x. x\<lparr>mex_job_id := None\<rparr>) xs) = map mex_id xs"
    "map cpy_id (map (\<lambda>x. x\<lparr>cpy_matched_building_id := None\<rparr>) ys) = map cpy_id ys" for xs ys
    by (simp_all add: comp_def)
  have "map cpy_id (db_company (discarded demo_owned)) = [60]" "map mex_id (db_executions (discarded demo_owned)) = [70]"
    "db_selections (discarded demo_owned) = []" "length (db_entries (discarded demo_owned)) = 1"
    using left kept by (simp_all only: ids)
  with run show ?thesis by (intro exI conjI)
qed

text \<open>
  Discarding again changes nothing more.
\<close>
theorem discard_idempotent:
  assumes "well_referenced s" "targets_ok s" "no_escalations s" "discard_inventory s = Inr ((), s')"
  shows "discard_inventory s' = Inr ((), s')"
proof -
  have s': "s' = discarded s" using assms(4) discard_returns [OF assms(1-3)] by simp
  have "company_executions (discarded s) = map (\<lambda>r. r\<lparr>mex_job_id := None\<rparr>) (company_executions s)"
    by (auto simp: company_executions_def discarded_simp filter_map comp_def list_ex_iff intro!: arg_cong [of _ _ "map _"] filter_cong)
  then have "discarded (discarded s) = discarded s"
    unfolding discarded_simp [of "discarded s"] by (simp add: discarded_simp comp_def)
  then show ?thesis
    using discard_returns [OF discarded_well_referenced [OF assms(1-3)] discarded_targets_ok [OF assms(2)]
      discarded_no_escalations [OF assms(3)]] s' by simp
qed

theorem discard_idempotent_witness:
  "\<exists>s'. discard_inventory demo_owned = Inr ((), s') \<and> discard_inventory s' = Inr ((), s')"
proof -
  have run: "discard_inventory demo_owned = Inr ((), discarded demo_owned)" by (rule discard_returns [OF demo_owned_ok])
  from discard_idempotent [OF demo_owned_ok run] run show ?thesis by blast
qed

text \<open>
  The audit of model executions is not preserved: an execution that no company commute refers to is
  gone, because its table has a key to the truncated jobs.
\<close>
theorem discard_forgets_executions:
  assumes "discard_inventory s = Inr ((), s')"
    and "list_all (\<lambda>c. cmr_company_property_id c = None) (db_commutes s)"
  shows "db_executions s' = []"
proof -
  have "company_executions s = []" using assms(2) by (auto simp: company_executions_def list_ex_iff list_all_iff filter_empty_conv)
  then show ?thesis
    using assms(1) by (auto simp: discard_inventory_def Let_def bind_result_Inr_iff flush_tables_def truncate_discard split: if_splits)
qed

theorem discard_forgets_executions_witness:
  "\<exists>s'. discard_inventory (demo_owned\<lparr>db_commutes := []\<rparr>) = Inr ((), s') \<and> db_executions s' = []"
proof -
  let ?s = "demo_owned\<lparr>db_commutes := []\<rparr>"
  have "well_referenced ?s" "targets_ok ?s" "no_escalations ?s" by code_simp+
  from discard_returns [OF this] have run: "discard_inventory ?s = Inr ((), discarded ?s)" .
  from discard_forgets_executions [OF run] run show ?thesis by simp
qed

end
