(* ===== verification/WeekdayLaws.thy ===== *)
theory WeekdayLaws
  imports Weekday Refresh LocationLaws TransitLaws ListingContentLaws DiscardLaws
begin

text \<open>
  What the daily coordinator guarantees whichever of its stages fails: the relations that every stage
  respects hold from the state before the run to the state after it.
\<close>

section \<open>Locating, scoping and transit\<close>

text \<open>These stages write attributes of addresses, and the tables of requests, sources and access rows.\<close>

definition place_keys :: "db \<Rightarrow> (uuid \<times> string option) list" where
  "place_keys s = map (\<lambda>a. (ad_id a, ad_fingerprint a)) (db_addresses s)"

definition unplaced :: "db \<Rightarrow> db" where
  "unplaced s = s\<lparr>db_addresses := [], db_sources := [], db_provider_requests := [], db_access := [], db_next := 0\<rparr>"

definition place_frame :: "db \<Rightarrow> db \<Rightarrow> bool" where
  "place_frame s s' \<longleftrightarrow> place_keys s' = place_keys s \<and> unplaced s' = unplaced s \<and> db_next s \<le> db_next s'"

lemma place_frame_refl [simp]: "place_frame s s"
  by (simp add: place_frame_def)

lemma place_frame_trans: "place_frame s t \<Longrightarrow> place_frame t u \<Longrightarrow> place_frame s u"
  by (simp add: place_frame_def)

lemma place_frame_geo: "geo_frame s s' \<Longrightarrow> place_keys s' = place_keys s \<Longrightarrow> place_frame s s'"
  by (auto simp: place_frame_def geo_frame_def unplaced_def)

lemma place_frame_set_address:
  assumes "\<And>a. ad_id (f a) = ad_id a \<and> ad_fingerprint (f a) = ad_fingerprint a"
  shows "place_frame s (set_address i f s)"
  using assms by (simp add: place_frame_def set_address_def unplaced_def place_keys_def update_where_def)

lemma place_frame_access: "place_frame s (s\<lparr>db_access := xs\<rparr>)" "db_next s \<le> n \<Longrightarrow> place_frame s (s\<lparr>db_access := xs, db_next := n\<rparr>)"
  by (simp_all add: place_frame_def unplaced_def place_keys_def)

lemma place_frame_request:
  "record_request sha p q r now ids s = Inr (ids', s') \<Longrightarrow> place_frame s s'"
  using record_request_frame [of sha p q r now ids s ids' s'] by (intro place_frame_geo) (simp_all add: place_keys_def)

lemma place_frame_source:
  "source_id_of p ids s = Inr (i, ids', s') \<Longrightarrow> place_frame s s'"
  using source_id_frame [of p ids s i ids' s'] by (intro place_frame_geo) (simp_all add: place_keys_def)

lemma place_address_keys:
  "ad_id (place_address pt r source now digest borough a) = ad_id a"
  "ad_fingerprint (place_address pt r source now digest borough a) = ad_fingerprint a"
  by (simp_all add: place_address_def)

lemma try_geocoders_place:
  "try_geocoders covers sha now line a gs (w, ids, s) = Inr (ok, w', ids', s') \<Longrightarrow> place_frame s s'"
proof (induction gs arbitrary: w ids s)
  case Nil
  then show ?case by (auto intro: place_frame_set_address)
next
  case (Cons g gs)
  show ?case
  proof (cases "ad_locality a \<in> set NJ_LOCALITIES \<and> gc_provider_code g = ''nyc_geosearch''")
    case True
    then show ?thesis using Cons by simp
  next
    case False
    obtain result w1 where ans: "gc_geocode g (request_of line a) w = (Inr result, w1)"
      using Cons.prems False
      by (cases "gc_geocode g (request_of line a) w"; cases "fst (gc_geocode g (request_of line a) w)") auto
    with Cons.prems False obtain ids1 s1 where
        rec: "record_request sha (gc_provider_code g) (query_of line a) result now ids s = Inr (ids1, s1)"
      by (auto simp: bind_result_Inr_iff)
    note one = place_frame_request [OF rec]
    show ?thesis
    proof (cases "usable_point covers (ad_locality a) result s1")
      case None
      with Cons.prems False ans rec have "try_geocoders covers sha now line a gs (w1, ids1, s1) = Inr (ok, w', ids', s')"
        by simp
      from place_frame_trans [OF one Cons.IH [OF this]] show ?thesis .
    next
      case (Some pt)
      with Cons.prems False ans rec obtain source ids2 s2 borough where
          src: "source_id_of (gc_provider_code g) ids1 s1 = Inr (source, ids2, s2)"
        and s': "s' = set_address (ad_id a) (place_address pt result source now (sha (query_of line a)) borough) s2"
        by (auto simp: bind_result_Inr_iff)
      show ?thesis
        unfolding s' by (intro place_frame_trans [OF one] place_frame_trans [OF place_frame_source [OF src]]
          place_frame_set_address) (simp add: place_address_keys)
    qed
  qed
qed

lemma geocode_rows_place:
  "geocode_rows covers sha now gs as m (w, ids, s) = Inr (m', w', ids', s') \<Longrightarrow> place_frame s s'"
proof (induction "as" arbitrary: m w ids s)
  case (Cons a as)
  show ?case
  proof (cases "placeholder_address a")
    case True
    then show ?thesis using Cons by simp
  next
    case False
    with Cons.prems obtain ok w1 ids1 s1 m1 where
        one: "geocode_address covers sha now gs a (w, ids, s) = Inr (ok, w1, ids1, s1)"
      and rest: "geocode_rows covers sha now gs as m1 (w1, ids1, s1) = Inr (m', w', ids', s')"
      by (auto simp: bind_result_Inr_iff Let_def)
    have "place_frame s s1"
      using one try_geocoders_place by (auto simp: geocode_address_def split: option.splits if_splits)
    then show ?thesis using Cons.IH [OF rest] by (rule place_frame_trans)
  qed
qed simp

lemma geocode_pending_place:
  "geocode_pending covers sha now gs limit w s = Inr (m, w', ids, s') \<Longrightarrow> place_frame s s'"
  unfolding geocode_pending_def by (rule geocode_rows_place)

lemma decide_scope_place: "decide_scope rows m s = (m', s') \<Longrightarrow> place_frame s s'"
proof (induction rows arbitrary: m s)
  case (Cons row rows)
  obtain i region where row: "row = (i, region)" by fastforce
  obtain m1 where "decide_scope (row # rows) m s = decide_scope rows m1 (set_boundary_status i (verdict region) s)"
    using decide_scope_Cons row by blast
  with Cons have "place_frame (set_boundary_status i (verdict region) s) s'" by simp
  moreover have "place_frame s (set_boundary_status i (verdict region) s)"
    unfolding set_boundary_status_def by (rule place_frame_set_address) simp
  ultimately show ?case using place_frame_trans by blast
qed simp

lemma validate_boundaries_place: "validate_boundaries intersects limit s = (m, s') \<Longrightarrow> place_frame s s'"
  by (auto simp: validate_boundaries_def intro: decide_scope_place split: if_splits)

lemma enrich_listing_place: "enrich_listing meters sha i now s = (n, s') \<Longrightarrow> place_frame s s'"
  by (auto simp: enrich_listing_def Let_def add_modes_state drop_access_def intro!: place_frame_access
      intro: place_frame_trans split: option.splits list.splits if_splits)

lemma enrich_each_place: "enrich_each meters sha now is m s = (m', s') \<Longrightarrow> place_frame s s'"
proof (induction "is" arbitrary: m s)
  case (Cons i "is")
  obtain n t where one: "enrich_listing meters sha i now s = (n, t)" by fastforce
  with Cons.prems have "place_frame t s'" by (auto intro: Cons.IH)
  with enrich_listing_place [OF one] show ?case by (rule place_frame_trans)
qed simp

lemma classify_rows_place: "classify_rows rs m s = (m', s') \<Longrightarrow> place_frame s s'"
proof (induction rs arbitrary: m s)
  case (Cons r rs)
  have "place_frame (s\<lparr>db_access := update_where (\<lambda>x. acc_id x = acc_id r) classify_one (db_access s)\<rparr>) s'"
    using Cons.IH Cons.prems by (simp split: if_splits)
  with place_frame_access(1) show ?case by (rule place_frame_trans)
qed simp

lemma enrich_all_place: "enrich_all_geocoded meters sha now limit s = (m, s') \<Longrightarrow> place_frame s s'"
  unfolding enrich_all_geocoded_def by (rule enrich_each_place)

lemma classify_usefulness_place: "classify_usefulness limit s = (m, s') \<Longrightarrow> place_frame s s'"
  unfolding classify_usefulness_def by (rule classify_rows_place)

section \<open>Relations every stage respects\<close>

text \<open>
  A relation that holds across acquisition, the queue, normalization, the placing stages and admission
  holds across every scheduled refresh, whether it ends or raises.
\<close>

locale refresh_relation = worker_relation +
  assumes acquires: "acq_frame s s' \<Longrightarrow> R s s'"
    and places: "place_frame s s' \<Longrightarrow> R s s'"
    and admits: "evaluate_candidates limit clock s = (sm, s') \<Longrightarrow> R s s'"
begin

lemma acquire: "acquire_all env key trigger k adapters s w = (r, s', w') \<Longrightarrow> R s s'"
proof (induction adapters arbitrary: k s w r s' w')
  case (Cons a adapters)
  obtain x s1 w1 where one: "run_source a (we_digest env) key trigger DiscoveryMethod.SEARCH_INDEX (we_now env k) s w =
      (x, s1, w1)" by (metis surj_pair)
  have R1: "R s s1" by (rule acquires [OF run_source_frame [OF one]])
  show ?case
  proof (cases x)
    case (Inl e)
    then show ?thesis using Cons.prems one R1 by simp
  next
    case (Inr a')
    obtain y s2 w2 where rest: "acquire_all env key trigger (Suc k) adapters s1 w1 = (y, s2, w2)" by (metis surj_pair)
    then have "s' = s2" using Cons.prems one Inr by (cases y) auto
    with Cons.IH [OF rest] R1 show ?thesis using transR by blast
  qed
qed (simp add: reflR)

lemma enrich_admit: "enrich_and_admit env k w s = (r, s') \<Longrightarrow> R s s'"
proof (cases "geocode_pending (we_covers env) (we_sha256 env) (we_now env k) (we_geocoders env) 500 w s")
  case (Inl e)
  moreover assume "enrich_and_admit env k w s = (r, s')"
  ultimately show ?thesis by (simp add: enrich_and_admit_def reflR)
next
  case (Inr x)
  then obtain g w1 ids s1 where geo: "geocode_pending (we_covers env) (we_sha256 env) (we_now env k) (we_geocoders env) 500 w s =
      Inr (g, w1, ids, s1)" by (cases x) auto
  obtain m2 s2 where v: "validate_boundaries (we_intersects env) 1000 s1 = (m2, s2)" by fastforce
  obtain m3 s3 where t: "enrich_all_geocoded (we_meters env) (we_sha256 env) (we_now env (Suc k)) 500 s2 = (m3, s3)" by fastforce
  obtain m4 s4 where u: "classify_usefulness 5000 s3 = (m4, s4)" by fastforce
  obtain m5 s5 where a: "evaluate_candidates 1000 (we_admission_clock env) s4 = (m5, s5)" by fastforce
  assume "enrich_and_admit env k w s = (r, s')"
  then have "s' = s5" by (simp add: enrich_and_admit_def geo v t u a)
  moreover have "place_frame s s4"
    using geocode_pending_place [OF geo] validate_boundaries_place [OF v] enrich_all_place [OF t]
      classify_usefulness_place [OF u] place_frame_trans by blast
  ultimately show ?thesis using places admits [OF a] transR by blast
qed

lemma finalize: "finalize_refresh key trigger t0 t1 status counts s = Inr ((), s') \<Longrightarrow> R s s'"
proof -
  assume "finalize_refresh key trigger t0 t1 status counts s = Inr ((), s')"
  then obtain i b s1 where one: "create_or_join key trigger t0 PIPELINE_VERSION None s = Inr ((i, b), s1)"
    and two: "set_status i status (Some t1) (Some counts) s1 = Inr ((), s')"
    by (auto simp: finalize_refresh_def bind_result_Inr_iff)
  have "acq_frame s1 s'" using two by (auto simp: set_status_def acq_frame_def frame_defs split: if_splits)
  with create_or_join_effect [OF one] show ?thesis using acquires acq_frame_trans by blast
qed

text \<open>The stages, given what the page stage does to the state.\<close>

lemma stages:
  assumes run: "refresh_stages env trigger key s w = (r, s')"
    and pages: "\<And>k w s c s'. enrich_pages env trigger k w s = (c, s') \<Longrightarrow> R s s'"
  shows "R s s'"
proof -
  let ?n = "length (we_adapters env)"
  obtain x1 s1 w1 where a: "acquire_all env key trigger 0 (we_adapters env) s w = (x1, s1, w1)" by (metis surj_pair)
  obtain x2 s2 where d: "drain_normalize_jobs ''normalize-worker'' DiscoveryMethod.SEARCH_INDEX (we_worker_clock env) 1000 0 s1 =
      (x2, s2)" by fastforce
  obtain x3 s3 where e: "enrich_and_admit env ?n w1 s2 = (x3, s3)" by fastforce
  have R1: "R s s1" by (rule acquire [OF a])
  have R2: "R s s2" using R1 drain [OF d] transR by blast
  have R3: "R s s3" using R2 enrich_admit [OF e] transR by blast
  show ?thesis
  proof (cases x1)
    case (Inl f) then show ?thesis using run a R1 by (simp add: refresh_stages_def)
  next
    case a1: (Inr acqs)
    show ?thesis
    proof (cases x2)
      case (Inl f) then show ?thesis using run a a1 d R2 by (simp add: refresh_stages_def)
    next
      case a2: (Inr normalized)
      show ?thesis
      proof (cases x3)
        case (Inl f) then show ?thesis using run a a1 d a2 e R3 by (simp add: refresh_stages_def)
      next
        case (Inr cw)
        obtain c w2 where cw: "cw = (c, w2)" by fastforce
        obtain counts s4 where p: "enrich_pages env trigger (?n + 2) w2 s3 = (counts, s4)" by fastforce
        have R4: "R s s4" using R3 pages [OF p] transR by blast
        show ?thesis
        proof (cases "finalize_refresh key trigger (we_now env (?n + 3)) (we_now env (?n + 4)) (weekday_status acqs)
            (weekday_counts acqs normalized c counts) s4")
          case (Inl f)
          then show ?thesis using run a a1 d a2 e Inr cw p R4 by (simp add: refresh_stages_def Let_def)
        next
          case (Inr z)
          then show ?thesis
            using run a a1 d a2 e \<open>x3 = Inr cw\<close> cw p R4 finalize transR by (cases z) (auto simp: refresh_stages_def Let_def)
        qed
      qed
    qed
  qed
qed

lemma scheduled:
  assumes "run_weekday_refresh env trigger key s w = (r, s')" "trigger \<noteq> RefreshTriggerType.MANUAL"
  shows "R s s'"
proof (rule stages)
  show "refresh_stages env trigger key s w = (r, s')" using assms by (simp add: run_weekday_refresh_def)
  show "R s s'" if "enrich_pages env trigger k w s = (c, s')" for k w s c s'
    using that assms(2) by (simp add: enrich_pages_def reflR)
qed

end

section \<open>What stays calm\<close>

text \<open>Listings that do not wait for admission: the coordinator never runs the disappearance service.\<close>

definition decided :: "LifecycleStatus \<Rightarrow> bool" where
  "decided st \<longleftrightarrow> st \<notin> {LifecycleStatus.CANDIDATE, LifecycleStatus.REAPPEARED}"

lemma map_filter_snd: "List.map_filter ad_fingerprint as = List.map_filter snd (map (\<lambda>a. (ad_id a, ad_fingerprint a)) as)"
  by (induction "as") (auto simp: List.map_filter_simps split: option.splits)

lemma unplaced_tables:
  assumes "unplaced s' = unplaced s"
  shows "db_listings s' = db_listings s" "db_events s' = db_events s" "manual_state s' = manual_state s"
    "db_buildings s' = db_buildings s" "db_units s' = db_units s" "db_links s' = db_links s"
    "db_assertions s' = db_assertions s" "db_resolutions s' = db_resolutions s"
    "db_boundaries s' = db_boundaries s" "db_stops s' = db_stops s" "db_routes s' = db_routes s"
    "db_destinations s' = db_destinations s" "db_commutes s' = db_commutes s" "db_company s' = db_company s"
proof -
  have "f (unplaced s') = f (unplaced s)" for f :: "db \<Rightarrow> 'z" using assms by simp
  note same = assms [THEN arg_cong]
  show "db_listings s' = db_listings s" using same [of db_listings] by (simp add: unplaced_def)
  show "db_events s' = db_events s" using same [of db_events] by (simp add: unplaced_def)
  show "manual_state s' = manual_state s" using same [of manual_state] by (simp add: unplaced_def manual_state_def)
  show "db_buildings s' = db_buildings s" using same [of db_buildings] by (simp add: unplaced_def)
  show "db_units s' = db_units s" using same [of db_units] by (simp add: unplaced_def)
  show "db_links s' = db_links s" using same [of db_links] by (simp add: unplaced_def)
  show "db_assertions s' = db_assertions s" using same [of db_assertions] by (simp add: unplaced_def)
  show "db_resolutions s' = db_resolutions s" using same [of db_resolutions] by (simp add: unplaced_def)
  show "db_boundaries s' = db_boundaries s" using same [of db_boundaries] by (simp add: unplaced_def)
  show "db_stops s' = db_stops s" using same [of db_stops] by (simp add: unplaced_def)
  show "db_routes s' = db_routes s" using same [of db_routes] by (simp add: unplaced_def)
  show "db_destinations s' = db_destinations s" using same [of db_destinations] by (simp add: unplaced_def)
  show "db_commutes s' = db_commutes s" using same [of db_commutes] by (simp add: unplaced_def)
  show "db_company s' = db_company s" using same [of db_company] by (simp add: unplaced_def)
qed

lemma calm_place:
  assumes "place_frame s s'"
  shows "calm P s s'"
proof -
  have u: "unplaced s' = unplaced s" and k: "place_keys s' = place_keys s" and n: "db_next s \<le> db_next s'"
    using assms by (simp_all add: place_frame_def)
  note same = unplaced_tables [OF u]
  have keys: "match_keys s' = match_keys s"
    using k by (simp add: match_keys_def map_filter_snd place_keys_def)
  have ov: "db_overrides s' = db_overrides s" using same(3) by (simp add: manual_state_def)
  have "canonical_inv s'" if inv: "canonical_inv s"
  proof -
    have "link_inv s'" by (rule link_inv_cong [of s' s]) (use inv n in \<open>simp_all add: canonical_inv_def same\<close>)
    then show ?thesis using inv by (simp add: canonical_inv_def chain_inv_def facts_inv_def keys_unique_def keys same ov)
  qed
  then show ?thesis using same(3) column_same [OF same(1), of cl_lifecycle_status] by (simp add: calm_def)
qed

interpretation calm_refresh: refresh_relation "calm decided"
  by unfold_locales
    (erule calm_acquisition, erule calm_place, erule calm_admission, simp add: decided_def)

section \<open>What the owner keeps\<close>

text \<open>What the owner enters or imports, with the reference geography, as far as no stage writes it.\<close>

definition owner_data :: "db \<Rightarrow> (marketing_selection list \<times> client_search_preset list \<times> client_shortlist_entry list \<times>
    audit_action_log list \<times> human_override list \<times> canonical_merge list) \<times> company_property list \<times> destination list \<times>
    commute_result list \<times> geographic_boundary list \<times> transit_stop list \<times> transit_route list" where
  "owner_data s = (manual_state s, db_company s, db_destinations s, db_commutes s, db_boundaries s, db_stops s, db_routes s)"

definition owner_frame :: "db \<Rightarrow> db \<Rightarrow> bool" where
  "owner_frame s s' \<longleftrightarrow> (canonical_inv s \<longrightarrow> canonical_inv s' \<and> owner_data s' = owner_data s)"

lemma owner_frameI:
  assumes "calm decided s s'" "canonical_inv s \<Longrightarrow> owner_data s' = owner_data s"
  shows "owner_frame s s'"
  using assms by (simp add: owner_frame_def calm_def)

lemma owner_data_upstream:
  "manual_state s' = manual_state s \<Longrightarrow> upstream_state s' = upstream_state s \<Longrightarrow> owner_data s' = owner_data s"
  by (simp add: owner_data_def upstream_state_def)

lemma owner_data_enriched:
  "manual_state s' = manual_state s \<Longrightarrow> enriched_state s' = enriched_state s \<Longrightarrow> owner_data s' = owner_data s"
  by (simp add: owner_data_def enriched_state_def)

lemma owner_admission:
  assumes "evaluate_candidates limit clock s = (sm, s')"
  shows "owner_data s' = owner_data s"
proof -
  have one: "owner_data t' = owner_data t" if "evaluate_one l a now t = (oc, t')" for l a now t oc t'
    using that by (cases rule: evaluate_one_cases [of l a now t])
      (auto intro!: owner_data_upstream simp: admission_frame_write [unfolded admission_frame_def])
  have "evaluate_rows clock rows sm0 t = (sm', t') \<Longrightarrow> owner_data t' = owner_data t" for rows sm0 t sm' t'
  proof (induction rows arbitrary: sm0 t)
    case (Cons row rows)
    obtain l a where row: "row = (l, a)" by (cases row)
    obtain oc u where u: "evaluate_one l a (clock (Suc (as_evaluated sm0))) t = (oc, u)" by fastforce
    with Cons.prems have "owner_data t' = owner_data u" by (auto intro: Cons.IH simp: row Let_def)
    with one [OF u] show ?case by simp
  qed simp
  with assms show ?thesis by (simp add: evaluate_candidates_def)
qed

interpretation owner_refresh: refresh_relation owner_frame
proof unfold_locales
  fix s t u s' i dm now out limit clock sm
  show "owner_frame s s" by (simp add: owner_frame_def)
  show "owner_frame s t \<Longrightarrow> owner_frame t u \<Longrightarrow> owner_frame s u" by (auto simp: owner_frame_def)
  show "owner_frame s s'" if "queue_write s s'"
    using that by (intro owner_frameI calm_queue_write owner_data_enriched) (simp_all add: queue_write_def)
  show "owner_frame s s'" if p: "process_observation i dm now s = Inr (out, s')"
  proof (intro owner_frameI calm_process [OF p])
    assume "canonical_inv s"
    then have "canonical_progress s s'" using process_progress [OF _ p] by (simp add: canonical_inv_def)
    then show "owner_data s' = owner_data s" by (intro owner_data_upstream) (simp_all add: canonical_progress_def)
  qed
  show "owner_frame s s'" if "acq_frame s s'"
    using that by (intro owner_frameI calm_acquisition owner_data_enriched) (simp_all add: acq_frame_def)
  show "owner_frame s s'" if p: "place_frame s s'"
  proof (intro owner_frameI calm_place [OF p])
    have "unplaced s' = unplaced s" using p by (simp add: place_frame_def)
    from unplaced_tables [OF this] show "owner_data s' = owner_data s" by (simp add: owner_data_def)
  qed
  show "owner_frame s s'" if e: "evaluate_candidates limit clock s = (sm, s')"
    using calm_refresh.admits [OF e] owner_admission [OF e] by (rule owner_frameI)
qed

section \<open>Pages\<close>

lemma page_step_ids: "page_step i s s' \<Longrightarrow> map cl_id (db_listings s') = map cl_id (db_listings s)"
proof -
  assume "page_step i s s'"
  then have "list_all2 (page_row i) (db_listings s) (db_listings s')" by (simp add: page_step_def)
  then show ?thesis by (induction rule: list_all2_induct) (auto dest: page_row_id)
qed

lemma calm_page:
  assumes "page_step i s s'"
  shows "calm P s s'"
proof -
  have same: "manual_state s' = manual_state s" "identity_state s' = identity_state s" "db_next s \<le> db_next s'"
      "facts_inv s \<longrightarrow> facts_inv s'" "keys_unique s \<longrightarrow> keys_unique s'"
      "list_all2 (page_row i) (db_listings s) (db_listings s')"
    using assms by (simp_all add: page_step_def)
  have tables: "db_addresses s' = db_addresses s" "db_buildings s' = db_buildings s" "db_units s' = db_units s"
      "db_links s' = db_links s"
    using same(2) by (simp_all add: identity_state_def)
  have "canonical_inv s'" if inv: "canonical_inv s"
  proof -
    have "link_inv s'" by (rule link_inv_cong [of s' s]) (use inv same(3) in \<open>simp_all add: page_step_ids [OF assms] tables canonical_inv_def\<close>)
    then show ?thesis using inv same(4,5) by (simp add: canonical_inv_def chain_inv_def match_keys_def tables)
  qed
  moreover have "column cl_lifecycle_status j s' = column cl_lifecycle_status j s" for j
    by (rule column_cong [where h = cl_lifecycle_status, OF _ page_step_columns(1) [OF assms]]) (simp add: page_frozen_def)
  ultimately show ?thesis using same(1) by (simp add: calm_def)
qed

lemma owner_page: "page_step i s s' \<Longrightarrow> owner_frame s s'"
proof (rule owner_frameI [OF calm_page])
  assume "page_step i s s'"
  then have m: "manual_state s' = manual_state s" and u: "upstream_state (page_inputs s') = upstream_state (page_inputs s)"
    by (simp_all add: page_step_def)
  show "owner_data s' = owner_data s"
    using u m by (simp add: page_inputs_def upstream_state_def owner_data_def)
qed

lemma owner_batch: "enrich_batch env force now is counts w s = (counts', w', s') \<Longrightarrow> owner_frame s s'"
proof (induction "is" arbitrary: counts w s)
  case (Cons i "is")
  obtain r w1 where one: "enrich_content env force now i w s = (r, w1)" by fastforce
  show ?case
  proof (cases r)
    case (Inl e)
    then show ?thesis using Cons one owner_refresh.reflR [of s] by (auto split: if_splits)
  next
    case (Inr x)
    obtain eo t where x: "x = (eo, t)" by fastforce
    have "owner_frame s t" using owner_page [OF enrich_content_step [of env force now i w s eo t w1]] one Inr x by simp
    moreover have "owner_frame t s'" using Cons one Inr x by simp
    ultimately show ?thesis by (rule owner_refresh.transR)
  qed
qed (simp add: owner_refresh.reflR)

lemma owner_pages: "enrich_pages env trigger k w s = (c, s') \<Longrightarrow> owner_frame s s'"
  by (auto simp: enrich_pages_def run_detail_enrichment_def Let_def owner_refresh.reflR
      intro: owner_batch split: if_splits option.splits prod.splits)

section \<open>The end of a run\<close>

lemma refresh_stagesE:
  assumes "refresh_stages env trigger key s w = (Inr code, s')"
  obtains acquisitions s1 w1 t counts where
    "acquire_all env key trigger 0 (we_adapters env) s w = (Inr acquisitions, s1, w1)"
    "finalize_refresh key trigger (we_now env (length (we_adapters env) + 3)) (we_now env (length (we_adapters env) + 4))
       (weekday_status acquisitions) counts t = Inr ((), s')"
    "code = 0"
  using assms
  by (auto simp: refresh_stages_def Let_def weekday_status_def split: prod.splits sum.splits if_splits)

lemma finalize_refreshE:
  assumes "finalize_refresh key trigger t0 t1 status counts s = Inr ((), s')"
  obtains row where "row \<in> set (db_refresh_runs s')" "rr_logical_run_key row = key" "rr_status row = status"
    "rr_completed_at row = Some t1" "rr_summary_counts row = Some counts"
proof -
  from assms obtain i b s1 where one: "create_or_join key trigger t0 PIPELINE_VERSION None s = Inr ((i, b), s1)"
    and two: "set_status i status (Some t1) (Some counts) s1 = Inr ((), s')"
    by (auto simp: finalize_refresh_def bind_result_Inr_iff)
  from one obtain row where row: "row \<in> set (db_refresh_runs s1)" "rr_id row = i" "rr_logical_run_key row = key"
  proof (cases "\<exists>r \<in> set (db_refresh_runs s). rr_logical_run_key r = key")
    case True
    with one obtain r where r: "scalar_one (filter (\<lambda>r. rr_logical_run_key r = key) (db_refresh_runs s)) = Inr r"
        "rr_id r = i" "s1 = s"
      by (auto simp: create_or_join_def bind_result_Inr_iff)
    then have "r \<in> set (filter (\<lambda>r. rr_logical_run_key r = key) (db_refresh_runs s))"
      by (cases "filter (\<lambda>r. rr_logical_run_key r = key) (db_refresh_runs s)" rule: scalar_one.cases) auto
    with r that show thesis by auto
  next
    case False
    with one show thesis
      by (intro that [of "new_refresh_run (db_next s) key trigger t0 PIPELINE_VERSION None"])
        (auto simp: create_or_join_def new_refresh_run_def)
  qed
  show thesis
    using two row by (auto intro!: that [of "row\<lparr>rr_status := status, rr_completed_at := Some t1,
        rr_summary_counts := Some counts\<rparr>"] simp: set_status_def update_where_def image_iff split: if_splits)
qed

section \<open>Properties\<close>

lemma discarded_inv: "canonical_inv (discarded s)"
  by (simp add: canonical_inv_def chain_inv_def link_inv_def facts_inv_def keys_unique_def match_keys_def
      one_current_def one_active_def discarded_simp List.map_filter_simps)

text \<open>
  C36. The daily refresh decides only what waits for a decision.  Whatever its adapters, geocoders and
  clocks do, and whichever stage fails, a scheduled refresh keeps the invariant of the canonical tables,
  everything people entered (selections, presets, shortlist entries, overrides, merges, the audit log),
  the portfolio, destinations and commutes, and the lifecycle of every listing that was neither
  CANDIDATE nor REAPPEARED; in particular it inactivates nothing.
\<close>
theorem scheduled_refresh_is_conservative:
  assumes "run_weekday_refresh env trigger key s w = (r, s')" "trigger \<noteq> RefreshTriggerType.MANUAL"
    and "canonical_inv s"
  shows "canonical_inv s' \<and> owner_data s' = owner_data s \<and>
    (column cl_lifecycle_status i s = Some st \<and> st \<notin> {LifecycleStatus.CANDIDATE, LifecycleStatus.REAPPEARED} \<longrightarrow>
       column cl_lifecycle_status i s' = Some st)"
proof -
  have "calm decided s s'" by (rule calm_refresh.scheduled [OF assms(1,2)])
  moreover have "owner_frame s s'" by (rule owner_refresh.scheduled [OF assms(1,2)])
  ultimately show ?thesis using assms(3) unfolding calm_def owner_frame_def decided_def by blast
qed

text \<open>
  C37. A manual refresh starts over without losing what the owner keeps.  When the database is
  well-referenced (no dangling reference, exactly one target of every selection, entry and commute, no model
  execution naming one it was escalated from, a column no code writes), then however the run ends, the presets, the audit log, every company property (its
  link into the acquired inventory aside), every destination, and the selections, shortlist entries and
  commutes about company properties are there afterwards; overrides, merges and everything about the
  discarded listings are gone.
\<close>
theorem manual_refresh_keeps_owner_data:
  assumes "run_weekday_refresh env RefreshTriggerType.MANUAL key s w = (r, s')"
    and "well_referenced s" "targets_ok s" "no_escalations s"
  shows "manual_state s' = (filter (\<lambda>x. ms_company_property_id x \<noteq> None) (db_selections s), db_presets s,
      filter (\<lambda>x. ce_company_property_id x \<noteq> None) (db_entries s), db_audit_log s, [], []) \<and>
    db_company s' = map (\<lambda>x. x\<lparr>cpy_matched_building_id := None\<rparr>) (db_company s) \<and>
    db_destinations s' = map (\<lambda>x. x\<lparr>dst_address_id := None\<rparr>) (db_destinations s) \<and>
    db_commutes s' = filter (\<lambda>x. cmr_company_property_id x \<noteq> None) (db_commutes s)"
proof -
  have "refresh_stages env RefreshTriggerType.MANUAL key (discarded s) w = (r, s')"
    using assms(1) discard_returns [OF assms(2-4)] by (simp add: run_weekday_refresh_def run_tx_def)
  then have "owner_frame (discarded s) s'" by (rule owner_refresh.stages) (rule owner_pages)
  then have "owner_data s' = owner_data (discarded s)" using discarded_inv by (simp add: owner_frame_def)
  then show ?thesis by (simp add: owner_data_def manual_state_def discarded_simp)
qed

text \<open>
  C38. A refresh that ends says truthfully how it went: its exit code is 0, and the run row of its key
  is completed with status SUCCEEDED when every one of its own acquisitions (those that run first, on
  the database it was started on, or on what the discarding of a manual trigger leaves of it) came
  out HEALTHY, and PARTIAL_SUCCESS otherwise.
\<close>
theorem refresh_status_honest:
  assumes "run_weekday_refresh env trigger key s w = (Inr code, s')"
  shows "code = 0 \<and> (\<exists>acquisitions s1 w1 row. acquire_all env key trigger 0 (we_adapters env)
      (if trigger = RefreshTriggerType.MANUAL then snd (run_tx discard_inventory s) else s) w = (Inr acquisitions, s1, w1) \<and>
    row \<in> set (db_refresh_runs s') \<and> rr_logical_run_key row = key \<and> rr_completed_at row \<noteq> None \<and>
    (rr_status row = RefreshRunStatus.SUCCEEDED \<longleftrightarrow> list_all (\<lambda>a. sm_status a = SourceRunStatus.HEALTHY) acquisitions) \<and>
    rr_status row \<in> {RefreshRunStatus.SUCCEEDED, RefreshRunStatus.PARTIAL_SUCCESS})"
proof -
  let ?s0 = "if trigger = RefreshTriggerType.MANUAL then snd (run_tx discard_inventory s) else s"
  have "refresh_stages env trigger key ?s0 w = (Inr code, s')"
    using assms by (auto simp: run_weekday_refresh_def split: if_splits prod.splits sum.splits)
  then show ?thesis
  proof (cases rule: refresh_stagesE)
    case (1 acquisitions s1 w1 t counts)
    from 1(2) show ?thesis
    proof (cases rule: finalize_refreshE)
      case row: (1 row)
      show ?thesis
        using 1(1,3) row by (intro conjI exI [of _ acquisitions] exI [of _ s1] exI [of _ w1] exI [of _ row])
          (simp_all add: weekday_status_def)
    qed
  qed
qed

section \<open>A run\<close>

text \<open>One source that plans no partition today.\<close>

definition demo_weekday :: "unit weekday_env" where
  "demo_weekday = \<lparr>we_adapters = [demo_adapter\<lparr>sa_plan_partitions := (\<lambda>w. (Inr [], w))\<rparr>],
     we_digest = (\<lambda>_. ''d''), we_geocoders = [],
     we_covers = (\<lambda>_ _. True), we_intersects = (\<lambda>_ _. True), we_meters = (\<lambda>_ _. 0), we_sha256 = (\<lambda>t. t),
     we_pages = None, we_now = (\<lambda>_. 20), we_worker_clock = (\<lambda>_. 20), we_admission_clock = (\<lambda>_. 20)\<rparr>"

lemma demo_weekday_ends:
  "\<exists>s'. run_weekday_refresh demo_weekday RefreshTriggerType.SCHEDULED ''k'' demo_registered () = (Inr 0, s')"
proof -
  have idle: "drain_normalize_jobs worker dm clock n p t = (Inr p, t)" if "db_jobs t = []" for worker dm clock n p t
    using that by (cases n) (simp_all add: claim_def claim_candidates_def sort_key_simps)
  show ?thesis
    by (simp add: run_weekday_refresh_def refresh_stages_def demo_weekday_def run_source_def start_source_run_def
        demo_registered_def demo_adapter_def create_or_join_def join_source_run_def create_source_run_def
        finish_run_def finalize_run_def empty_db_def idle get_by_Cons new_source_run_def enrich_and_admit_def
        geocode_pending_def validate_boundaries_def enrich_all_geocoded_def classify_usefulness_def evaluate_candidates_def
        candidate_rows_def enrich_pages_def finalize_refresh_def set_status_def new_refresh_run_def conclude_def
        run_status_def weekday_status_def new_run_summary_def)
qed

theorem scheduled_refresh_is_conservative_witness:
  "\<exists>r s'. run_weekday_refresh demo_weekday RefreshTriggerType.SCHEDULED ''k'' demo_returned () = (r, s') \<and>
     column cl_lifecycle_status 10 s' = Some LifecycleStatus.INACTIVE"
proof -
  obtain r s' where run: "run_weekday_refresh demo_weekday RefreshTriggerType.SCHEDULED ''k'' demo_returned () = (r, s')"
    by fastforce
  have "column cl_lifecycle_status 10 demo_returned = Some LifecycleStatus.INACTIVE"
    by (simp add: column_def demo_returned_def inactivated_def demo_defs get_by_Cons)
  with scheduled_refresh_is_conservative [OF run _ demo_returned_inv, of 10 LifecycleStatus.INACTIVE] run
  show ?thesis by auto
qed

theorem manual_refresh_keeps_owner_data_witness:
  "\<exists>r s'. run_weekday_refresh demo_weekday RefreshTriggerType.MANUAL ''k'' demo_owned () = (r, s') \<and>
     map cpy_id (db_company s') = [60] \<and> length (db_presets s') = 1"
proof -
  obtain r s' where run: "run_weekday_refresh demo_weekday RefreshTriggerType.MANUAL ''k'' demo_owned () = (r, s')"
    by fastforce
  have "map cpy_id (db_company demo_owned) = [60]" "length (db_presets demo_owned) = 1"
    by (simp_all add: demo_owned_def demo_property_def)
  with manual_refresh_keeps_owner_data [OF run demo_owned_ok] run show ?thesis
    by (auto simp: manual_state_def comp_def)
qed

theorem refresh_status_honest_witness:
  "\<exists>s' row. run_weekday_refresh demo_weekday RefreshTriggerType.SCHEDULED ''k'' demo_registered () = (Inr 0, s') \<and>
     row \<in> set (db_refresh_runs s') \<and> rr_logical_run_key row = ''k'' \<and> rr_completed_at row \<noteq> None"
proof -
  obtain s' where run: "run_weekday_refresh demo_weekday RefreshTriggerType.SCHEDULED ''k'' demo_registered () = (Inr 0, s')"
    using demo_weekday_ends by blast
  from refresh_status_honest [OF run] run show ?thesis by blast
qed

end
