(* ===== verification/Spec2Isabelle.thy ===== *)
theory Spec2Isabelle
  imports QueueRefinement Selection Merge Tiering Refresh LocationLaws TransitLaws ResearchLaws
    CompanyLaws WeekdayLaws
begin

text \<open>
  A verification library of the rental listing agent, a Python service that collects rental listings
  from search indexes, turns them into canonical listings in a PostgreSQL database, enriches and admits
  them, and keeps a portfolio of company properties beside them.  All paths are relative to
  \<open>src/src/rental_agent\<close> unless they start with \<open>src/migrations\<close>.

  \<^bold>\<open>How the program works.\<close>  A refresh (\<open>jobs/weekday_refresh.py\<close>) runs one source adapter after
  another (\<open>acquisition/runner.py\<close>): each discovered item becomes a raw observation and a NORMALIZE job.
  Workers claim jobs from a leased queue (\<open>jobs/queue.py\<close>) and normalize one observation each
  (\<open>canonical/normalization.py\<close>): it is attached to a canonical listing or creates one.  The stages that
  follow locate the address, test it against the region polygons, find nearby transit and judge it
  (\<open>enrichment/location\<close>, \<open>enrichment/transit\<close>), and admit or exclude the candidate
  (\<open>canonical/admission.py\<close>).  Absence from a healthy run retires links and listings
  (\<open>canonical/disappearance.py\<close>).  Detail pages, researched commutes, amenities and points of interest
  add evidence (\<open>enrichment/listing_content\<close>, \<open>enrichment/commute\<close>, \<open>enrichment/amenities\<close>,
  \<open>enrichment/poi\<close>), under the precedence of \<open>canonical/facts.py\<close>.  People select, shortlist, merge,
  override and judge duplicates (\<open>canonical/selection_service.py\<close>, \<open>canonical/merge_service.py\<close>).  The
  portfolio has a page check and a run of its own (\<open>enrichment/company/service.py\<close>,
  \<open>jobs/company_refresh.py\<close>).  All of it meets in one database, whose schema the Alembic migrations
  build (\<open>src/migrations/versions\<close>).

  \<^bold>\<open>The state.\<close>  \<open>Schema\<close> has one record per ORM class of \<open>db/models\<close> (a table is the list of its rows
  in the order of insertion) and the record \<open>db\<close> of all tables with the supply of identifiers.  An
  operation of a service is a function on \<open>db\<close>; one that can raise is a transaction
  \<open>db \<Rightarrow> py_error + ('a \<times> db)\<close>, and \<open>run_tx\<close> rolls a failed one back.  A Python exception is an element of
  \<open>py_error\<close>, the enumerations of \<open>contracts/enums.py\<close> are the datatypes of \<open>Enums\<close>, Pydantic models are
  records (\<open>Observation\<close>, \<open>Providers\<close>, \<open>Pydantic\<close>), and decoded JSON is the datatype \<open>json\<close>.

  \<^bold>\<open>Theories.\<close>
    \<^item> \<open>Prelude\<close>, \<open>Enums\<close>, \<open>Observation\<close>, \<open>Schema\<close>, \<open>PyJson\<close>, \<open>Providers\<close>, \<open>Pydantic\<close>: values, results, the SQL
      idioms of the services, Python's view of JSON, and the interfaces of providers as records of
      functions.
    \<^item> \<open>JobQueue\<close>: \<open>jobs/queue.py\<close>, the invariant of its rows, fencing by lease tokens, idempotent enqueue;
      \<open>QueueRefinement\<close>: the queue refines an abstract lease automaton.
    \<^item> \<open>Facts\<close>: \<open>canonical/facts.py\<close> and \<open>validation/laundry.py\<close>; one current resolution per fact and the
      precedence of a human override.
    \<^item> \<open>Fingerprints\<close>, \<open>Normalization\<close>, \<open>NormalizationLaws\<close>: \<open>canonical/normalization.py\<close>; the invariant
      \<open>canonical_inv\<close>, totality, what one observation may change, replay.
    \<^item> \<open>Selection\<close>, \<open>Merge\<close>: the manual services; only people act, merges and their reversal.
    \<^item> \<open>Admission\<close>, \<open>Disappearance\<close>: lifecycle decisions as a map over the listings that wait, the table of
      link states, the circuit breaker.
    \<^item> \<open>Tiering\<close>: the escalation of \<open>enrichment/llm/tiering.py\<close>.
    \<^item> \<open>Acquisition\<close>, \<open>AcquisitionLaws\<close>, \<open>Worker\<close>: repositories, the source run, the worker loop; counters,
      the health gate, checkpoints, termination of the loop.
    \<^item> \<open>Refresh\<close>: source runs, workers, admission, disappearance and recovery as one transition relation.
    \<^item> \<open>Location\<close>, \<open>LocationLaws\<close>, \<open>Transit\<close>, \<open>TransitLaws\<close>: geocoders, geocoding, polygons, GTFS, nearby
      stops, usefulness, walking routes.
    \<^item> \<open>Research\<close>, \<open>ResearchLaws\<close>: commute, amenity and point-of-interest research.
    \<^item> \<open>WebPages\<close>, \<open>Excerpt\<close>, \<open>ListingContent\<close>, \<open>ListingContentLaws\<close>: page fetch and search
      (\<open>acquisition/search_tavily.py\<close>), excerpts, and detail-page enrichment with its batch.
    \<^item> \<open>Company\<close>, \<open>CompanyRefresh\<close>, \<open>CompanyLaws\<close>: the portfolio's page check and its run.
    \<^item> \<open>Discard\<close>, \<open>DiscardLaws\<close>, \<open>Weekday\<close>, \<open>WeekdayLaws\<close>: the daily coordinator, and the truncation a
      manual refresh starts with.
  \<^bold>\<open>Interfaces.\<close>  Contracts between components are locales, each interpreted on the model's own
  definitions: \<open>automatic_step\<close> (operations without people keep the manual state), \<open>idempotent_insert\<close>
  (an insert guarded by a unique key), \<open>str_enum\<close> (text and member determine each other),
  \<open>worker_relation\<close> and its extension \<open>refresh_relation\<close> (relations between states that every stage
  respects hold across the worker loop and the whole coordinator), and
  the gates of the manual services (\<open>human_gate\<close>, \<open>audited_gate\<close>).

  \<^bold>\<open>What the lemmas show.\<close>  For each component: an invariant and its preservation by every operation;
  the effect of each operation on every branch, errors included (elimination rules named \<open>..._cases\<close> or
  \<open>...E\<close>, frames named \<open>..._frame\<close> or \<open>..._step\<close>); and on top of them the numbered properties C1, C2, ...
  Concrete databases (\<open>Samples\<close> and the \<open>demo_...\<close> definitions) show that their hypotheses can hold.

  \<^bold>\<open>Bounds and fuel.\<close>  No definition of the model is partial.  \<open>drain_normalize_jobs\<close> recurses on the
  number of jobs it may still process, the source's \<open>max_jobs\<close> (1000), so that is its own bound and not
  fuel; the tiering calls the model at most three times; an excerpt looks at no more than twenty
  occurrences of a keyword; a check log keeps thirty entries; the truncation closure terminates because
  the tables outside it decrease.  Integers of the program are Python's, so they are unbounded here;
  where a column is a 32-bit integer the insert checks its range.

  \<^bold>\<open>What is assumed.\<close>  One reading of the clock per call or, where a run reads it repeatedly, a function
  from the number of the reading.  Adapters, geocoders, routers, search and extract clients and language
  models are arbitrary functions with a state \<open>'w\<close> of their own; they may answer or raise anything.
  PostGIS predicates and distances, SHA-256, the digest of an observation, date and time formats, the
  texts of prompts and JSON schemas, and the database's collation are parameters.  Floats are exact
  rationals; a UUID is a natural number drawn from the supply; text is ASCII; rows that SQL leaves
  unordered come in table order; one transaction runs at a time.

  \<^bold>\<open>Not modelled.\<close>  The web interface and its read queries (\<open>webui\<close>, \<open>ui\<close>, \<open>exports\<close>): pages, styling
  and rendering of what the services already decided.  The media pipeline (\<open>enrichment/media\<close>): image decoding and
  hashing by libraries.  The parsers of uploaded portfolio files (\<open>enrichment/company/portfolio.py\<close>):
  docx and pdf libraries.  The HTTP client of the hosted model (\<open>enrichment/llm/openai_executor.py\<close>),
  settings, logging, command-line parsing and status files: input and output.  The three search adapters
  (\<open>acquisition/adapters\<close>): they rest on regular expressions over foreign snippets; a source run is
  proved for every adapter instead.  The amenity backfill job: the batch loop around the amenity research
  that is modelled.
\<close>

end
